(* ===== verification/Prelude.thy ===== *)
theory Prelude
  imports Main "HOL-Library.Product_Lexorder"
begin

text \<open>
  Shared vocabulary of the development: identifiers and instants, the exceptions the backend
  raises and the result type that carries them, and database tables with the few query shapes
  the services use (primary-key lookup, guarded UPDATE, SELECT with an ORDER BY).

  \<^item> A UUIDv7 is a natural number drawn from a counter. The backend relies on exactly this much of
    \<^verbatim>\<open>uuid7()\<close> / \<^verbatim>\<open>uuidv7()\<close>: values are fresh and sort in creation order.
  \<^item> A table is a finite partial map from primary keys to rows. All keys lie below the counter, so a
    SELECT enumerates the keys in creation order.
  \<^item> A transaction that raises is rolled back by its session, so a computation either returns the
    new state or the exception, never both.
\<close>

section \<open>Identifiers, instants, exceptions\<close>

type_synonym uuid = nat
type_synonym timestamp = int

text \<open>The exception classes raised on the modelled paths.\<close>

datatype exn =
    TicketNotFoundError uuid
  | InvalidTicketTransition uuid
  | FindingNotFoundError uuid
  | InvalidFindingTransition uuid
  | ArtifactNotFoundError uuid
  | PullRequestNotFoundError uuid
  | WorkspaceNotFoundError uuid
  | WorkspaceClaimFailed uuid
  | StaleClaimError uuid
  | NoWorkspaceProvider
  | VcsInstallNotFound uuid
  | PluginNotFoundError string
  | CodingAgentError string
  | CredentialUnavailableError string
  | ActionNotFoundError string
  | ActionError string
  | MultipleResultsFound
  | IntegrityError
  | AssertionError
  | ValueError string
  | IndexError
  | KeyError uuid
  | CallCycle "uuid list"
  | UnknownPipeline uuid uuid
  | DuplicateStageName string
  | PipelineNotFoundError "uuid option"
  | PipelineNameTakenError string
  | PipelineReferencedError uuid
  | RunNotFoundError uuid
  | RunAlreadyTerminalError uuid
  | RunNotRerunnableError uuid
  | PauseNotFoundError uuid
  | PauseAlreadyResolvedError uuid
  | NotEscalationTargetError uuid
  | InvalidPauseResolutionError
  | StageNotInDefinitionError string
  | MissingInheritedArtifactError string
  | LookupError string
  | HTTPException nat string
  | RateLimitedError string
  | InvalidProtectedGlobError string
  | UnknownIntakePointError string
  | InvalidScheduleError string
  | InvalidCronError string
  | DuplicateBindingError string
  | UnknownPipelineError uuid
  | BindingNotFoundError uuid
  | InvitationExpiredError
  | InvitationUsedError
  | InvitationInvalidError
  | SsoConfigError string
  | SessionNotFoundError
  | ApiKeyDecryptError

type_synonym 'a res = "exn + 'a"

named_theorems res_simps "elimination of successful computations"

definition ebind :: "'a res \<Rightarrow> ('a \<Rightarrow> 'b res) \<Rightarrow> 'b res" where
  "ebind m f = (case m of Inl e \<Rightarrow> Inl e | Inr x \<Rightarrow> f x)"

lemma ebind_simps [simp]:
  "ebind (Inl e) f = Inl e"
  "ebind (Inr x) f = f x"
  by (simp_all add: ebind_def)

lemma ebind_eq_Inr [res_simps]: "ebind m f = Inr y \<longleftrightarrow> (\<exists>x. m = Inr x \<and> f x = Inr y)"
  by (cases m) auto

lemma ebind_eq_Inl [res_simps]:
  "ebind m f = Inl e \<longleftrightarrow> m = Inl e \<or> (\<exists>x. m = Inr x \<and> f x = Inl e)"
  by (cases m) auto

lemma ebind_cong [fundef_cong]:
  "m = m' \<Longrightarrow> (\<And>x. m' = Inr x \<Longrightarrow> f x = g x) \<Longrightarrow> ebind m f = ebind m' g"
  by (cases m') auto

lemma ebind_assoc: "ebind (ebind m f) g = ebind m (\<lambda>x. ebind (f x) g)"
  by (cases m) auto

text \<open>\<^verbatim>\<open>assert\<close> statements, and \<open>scalar_one_or_none\<close> on an optional row.\<close>

definition guard :: "bool \<Rightarrow> exn \<Rightarrow> unit res" where
  "guard b e = (if b then Inr () else Inl e)"

lemma guard_eq [simp, res_simps]:
  "guard b e = Inr u \<longleftrightarrow> b"
  "guard b e = Inl e' \<longleftrightarrow> \<not> b \<and> e' = e"
  by (auto simp: guard_def)

lemma guard_simps [simp]:
  "guard True e = Inr ()" "guard False e = Inl e"
  by (simp_all add: guard_def)

definition require :: "'a option \<Rightarrow> exn \<Rightarrow> 'a res" where
  "require x e = (case x of None \<Rightarrow> Inl e | Some y \<Rightarrow> Inr y)"

lemma require_eq [simp, res_simps]:
  "require x e = Inr y \<longleftrightarrow> x = Some y"
  "require x e = Inl e' \<longleftrightarrow> x = None \<and> e' = e"
  by (auto simp: require_def split: option.splits)

lemma require_simps [simp]:
  "require None e = Inl e" "require (Some y) e = Inr y"
  by (simp_all add: require_def)

text \<open>A \<^verbatim>\<open>for\<close> loop whose body may raise.\<close>

fun efold :: "('a \<Rightarrow> 's \<Rightarrow> 's res) \<Rightarrow> 'a list \<Rightarrow> 's \<Rightarrow> 's res" where
  "efold f [] s = Inr s"
| "efold f (x # xs) s = ebind (f x s) (efold f xs)"

lemma efold_invariant:
  assumes "efold f xs s = Inr s'" and "I s"
    and "\<And>x s s'. x \<in> set xs \<Longrightarrow> I s \<Longrightarrow> f x s = Inr s' \<Longrightarrow> I s'"
  shows "I s'"
  using assms
proof (induction xs arbitrary: s)
  case Nil
  then show ?case by simp
next
  case (Cons x xs)
  from Cons.prems(1) obtain s1 where s1: "f x s = Inr s1" and rest: "efold f xs s1 = Inr s'"
    by (auto simp: res_simps)
  have "I s1" using Cons.prems(3)[of x s s1] Cons.prems(2) s1 by simp
  then show ?case using Cons.IH[OF rest] Cons.prems(3) by (metis list.set_intros(2))
qed

lemma fold_invariant:
  assumes "I s" and "\<And>x s. x \<in> set xs \<Longrightarrow> I s \<Longrightarrow> I (f x s)"
  shows "I (fold f xs s)"
  using assms by (induction xs arbitrary: s) auto

lemma fold_unchanged:
  assumes "\<And>x s. g (f x s) = g s"
  shows "g (fold f xs s) = g s"
  using assms by (induction xs arbitrary: s) auto

section \<open>Strings\<close>

text \<open>Python's \<^verbatim>\<open>str.lower\<close> on the characters the code compares.\<close>

definition lower_char :: "char \<Rightarrow> char" where
  "lower_char c =
     (case map_of (zip ''ABCDEFGHIJKLMNOPQRSTUVWXYZ'' ''abcdefghijklmnopqrstuvwxyz'') c of
        Some d \<Rightarrow> d | None \<Rightarrow> c)"

definition lower :: "string \<Rightarrow> string" where
  "lower s = map lower_char s"

definition is_space :: "char \<Rightarrow> bool" where
  "is_space c \<longleftrightarrow> c \<in> set [CHR '' '', CHR 0x09, CHR 0x0A, CHR 0x0B, CHR 0x0C, CHR 0x0D, CHR 0x1C, CHR 0x1D, CHR 0x1E, CHR 0x1F]"

definition strip :: "string \<Rightarrow> string" where
  "strip s = rev (dropWhile is_space (rev (dropWhile is_space s)))"

definition is_digit :: "char \<Rightarrow> bool" where
  "is_digit c \<longleftrightarrow> c \<in> set ''0123456789''"

definition starts_with :: "string \<Rightarrow> string \<Rightarrow> bool" where
  "starts_with p s \<longleftrightarrow> take (length p) s = p"

lemma starts_with_append [simp]: "starts_with p (p @ s)"
  by (simp add: starts_with_def)

lemma starts_withD: "starts_with p s \<Longrightarrow> \<exists>r. s = p @ r"
  unfolding starts_with_def by (metis append_take_drop_id)

section \<open>Tables\<close>

type_synonym 'r table = "uuid \<Rightarrow> 'r option"

text \<open>\<open>modify\<close>: assign attributes of the row with a given key (an UPDATE by primary key).\<close>

definition modify :: "uuid \<Rightarrow> ('r \<Rightarrow> 'r) \<Rightarrow> 'r table \<Rightarrow> 'r table" where
  "modify i f t = t(i := map_option f (t i))"

lemma modify_apply [simp]: "modify i f t j = (if j = i then map_option f (t i) else t j)"
  by (simp add: modify_def)

lemma modify_Some: "t i = Some r \<Longrightarrow> modify i f t = t(i \<mapsto> f r)"
  by (simp add: modify_def)

lemma modify_None: "t i = None \<Longrightarrow> modify i f t = t"
  by (rule ext) simp

lemma modify_modify [simp]: "modify i g (modify i f t) = modify i (g \<circ> f) t"
  by (rule ext) (simp add: option.map_comp)

lemma dom_modify [simp]: "dom (modify i f t) = dom t"
  by (auto simp: dom_def)

lemma modify_SomeD:
  "modify i f t j = Some r \<Longrightarrow> \<exists>r0. t j = Some r0 \<and> r = (if j = i then f r0 else r0)"
  by (auto split: if_splits)

text \<open>\<open>update_where\<close>: an UPDATE of every row satisfying a WHERE clause.\<close>

definition update_where :: "('r \<Rightarrow> bool) \<Rightarrow> ('r \<Rightarrow> 'r) \<Rightarrow> 'r table \<Rightarrow> 'r table" where
  "update_where P f t = (\<lambda>i. map_option (\<lambda>r. if P r then f r else r) (t i))"

lemma update_where_apply [simp]:
  "update_where P f t i = map_option (\<lambda>r. if P r then f r else r) (t i)"
  by (simp add: update_where_def)

text \<open>\<open>select\<close>: the rows satisfying a WHERE clause, in key (creation) order.\<close>

definition select :: "'r table \<Rightarrow> uuid \<Rightarrow> ('r \<Rightarrow> bool) \<Rightarrow> 'r list" where
  "select t n P = filter P (List.map_filter t [0..<n])"

lemma select_0 [simp]: "select t 0 P = []"
  by (simp add: select_def List.map_filter_def)

lemma select_Suc [simp]:
  "select t (Suc n) P =
     select t n P @ (case t n of Some r \<Rightarrow> if P r then [r] else [] | None \<Rightarrow> [])"
  by (auto simp: select_def List.map_filter_def split: option.splits)

lemma select_numeral [simp]:
  "select t (numeral k) P =
     select t (pred_numeral k) P @
     (case t (pred_numeral k) of Some r \<Rightarrow> if P r then [r] else [] | None \<Rightarrow> [])"
  unfolding numeral_eq_Suc by (rule select_Suc)

lemma set_select: "set (select t n P) = {r. \<exists>i < n. t i = Some r \<and> P r}"
  by (induction n) (auto split: option.splits simp: less_Suc_eq)

lemma in_selectD: "r \<in> set (select t n P) \<Longrightarrow> (\<exists>i < n. t i = Some r) \<and> P r"
  by (auto simp: set_select)

lemma select_eq_Nil: "select t n P = [] \<longleftrightarrow> (\<forall>i < n. \<forall>r. t i = Some r \<longrightarrow> \<not> P r)"
  by (induction n) (auto split: option.splits simp: less_Suc_eq)

lemma select_cong:
  "(\<And>i. i < n \<Longrightarrow> t i = t' i) \<Longrightarrow> (\<And>i r. i < n \<Longrightarrow> t' i = Some r \<Longrightarrow> P r = P' r) \<Longrightarrow>
     select t n P = select t' n P'"
proof (induction n)
  case (Suc n)
  have "select t n P = select t' n P'" using Suc.prems by (intro Suc.IH) (meson less_SucI)+
  moreover have "t n = t' n" using Suc.prems(1) by simp
  ultimately show ?case using Suc.prems(2)[of n] by (auto split: option.splits)
qed simp

definition first_row :: "'r list \<Rightarrow> 'r option" where
  "first_row rs = (case rs of [] \<Rightarrow> None | r # _ \<Rightarrow> Some r)"

lemma first_row_simps [simp]: "first_row [] = None" "first_row (r # rs) = Some r"
  by (simp_all add: first_row_def)

lemma first_row_append [simp]:
  "first_row (xs @ ys) = (case first_row xs of None \<Rightarrow> first_row ys | Some x \<Rightarrow> Some x)"
  by (cases xs) auto

lemma first_row_mem: "first_row rs = Some r \<Longrightarrow> r \<in> set rs"
  by (cases rs) auto

lemma first_row_None [simp]: "first_row rs = None \<longleftrightarrow> rs = []"
  by (cases rs) auto

text \<open>The first row selected is the one with the least key: \<^verbatim>\<open>ORDER BY id LIMIT 1\<close>.\<close>

lemma first_row_select_least:
  assumes "first_row (select t n P) = Some r"
  shows "\<exists>i < n. t i = Some r \<and> P r \<and> (\<forall>j < i. \<forall>r'. t j = Some r' \<longrightarrow> \<not> P r')"
  using assms
proof (induction n)
  case 0
  then show ?case by simp
next
  case (Suc n)
  show ?case
  proof (cases "first_row (select t n P)")
    case None
    then have none: "\<forall>i < n. \<forall>r. t i = Some r \<longrightarrow> \<not> P r" by (simp add: select_eq_Nil)
    with Suc.prems None have "t n = Some r \<and> P r" by (auto split: option.splits if_splits)
    with none show ?thesis by blast
  next
    case (Some r')
    with Suc.prems have "first_row (select t n P) = Some r" by (cases "select t n P") auto
    from Suc.IH[OF this] show ?thesis using less_SucI by blast
  qed
qed

text \<open>\<open>latest_by\<close>: \<^verbatim>\<open>ORDER BY key DESC LIMIT 1\<close> for a key that need not be the primary one.\<close>

fun latest_by :: "('r \<Rightarrow> 'k::linorder) \<Rightarrow> 'r list \<Rightarrow> 'r option" where
  "latest_by k [] = None"
| "latest_by k (r # rs) =
     (case latest_by k rs of None \<Rightarrow> Some r | Some b \<Rightarrow> if k b < k r then Some r else Some b)"

lemma latest_by_None [simp]: "latest_by k rs = None \<longleftrightarrow> rs = []"
  by (cases rs) (auto split: option.splits)

lemma latest_by_mem: "latest_by k rs = Some r \<Longrightarrow> r \<in> set rs"
  by (induction rs arbitrary: r) (auto split: option.splits if_splits)

lemma latest_by_max: "latest_by k rs = Some r \<Longrightarrow> r' \<in> set rs \<Longrightarrow> k r' \<le> k r"
proof (induction rs arbitrary: r)
  case (Cons x xs)
  show ?case
  proof (cases "latest_by k xs")
    case None
    with Cons.prems show ?thesis by auto
  next
    case (Some b)
    with Cons.prems Cons.IH[of b] show ?thesis
      by (auto split: if_splits intro: order_trans less_imp_le)
  qed
qed simp

lemma latest_by_unique:
  assumes "r \<in> set rs" and "\<And>r'. r' \<in> set rs \<Longrightarrow> r' \<noteq> r \<Longrightarrow> k r' < k r"
  shows "latest_by k rs = Some r"
proof (cases "latest_by k rs")
  case None
  with assms(1) show ?thesis by auto
next
  case (Some b)
  have "k r \<le> k b" using latest_by_max[OF Some assms(1)] .
  with assms(2)[OF latest_by_mem[OF Some]] have "b = r" by fastforce
  with Some show ?thesis by simp
qed

text \<open>Every row is stored under its own id, below the counter.\<close>

definition keyed_rows :: "('r \<Rightarrow> uuid) \<Rightarrow> uuid \<Rightarrow> 'r table \<Rightarrow> bool" where
  "keyed_rows key n t \<longleftrightarrow> (\<forall>i r. t i = Some r \<longrightarrow> key r = i \<and> i < n)"

lemma keyed_rowsD: "keyed_rows key n t \<Longrightarrow> t i = Some r \<Longrightarrow> key r = i \<and> i < n"
  by (simp add: keyed_rows_def)

lemma keyed_rows_modify:
  "keyed_rows key n t \<Longrightarrow> (\<And>r. key (f r) = key r) \<Longrightarrow> keyed_rows key n (modify i f t)"
  by (auto simp: keyed_rows_def split: if_splits)

lemma keyed_rows_update_where:
  "keyed_rows key n t \<Longrightarrow> (\<And>r. key (f r) = key r) \<Longrightarrow> keyed_rows key n (update_where P f t)"
  by (auto simp: keyed_rows_def split: if_splits)

lemma keyed_rows_insert:
  "keyed_rows key n t \<Longrightarrow> key r = i \<Longrightarrow> i < n \<Longrightarrow> keyed_rows key n (t(i \<mapsto> r))"
  by (auto simp: keyed_rows_def)

lemma keyed_rows_mono: "keyed_rows key n t \<Longrightarrow> n \<le> m \<Longrightarrow> keyed_rows key m t"
  unfolding keyed_rows_def by (meson less_le_trans)

lemma keyed_select_mem:
  "keyed_rows key n t \<Longrightarrow> r \<in> set (select t n P) \<longleftrightarrow> t (key r) = Some r \<and> P r"
  by (auto simp: set_select keyed_rows_def)

lemma keyed_first_row:
  assumes "keyed_rows key n t" and "first_row (select t n P) = Some r"
  shows "t (key r) = Some r" "P r" "\<And>r'. t (key r') = Some r' \<Longrightarrow> P r' \<Longrightarrow> key r \<le> key r'"
proof -
  from first_row_select_least[OF assms(2)] obtain i where
    i: "i < n" "t i = Some r" "P r" "\<forall>j < i. \<forall>r'. t j = Some r' \<longrightarrow> \<not> P r'" by blast
  have "key r = i" using keyed_rowsD[OF assms(1) i(2)] by simp
  with i show "t (key r) = Some r" "P r" by simp_all
  fix r' assume "t (key r') = Some r'" "P r'"
  with i(4) \<open>key r = i\<close> show "key r \<le> key r'" using leI by blast
qed

lemma keyed_first_row_None:
  assumes "keyed_rows key n t" and "first_row (select t n P) = None" and "t (key r) = Some r"
  shows "\<not> P r"
  using assms(2,3) keyed_rowsD[OF assms(1,3)] by (auto simp: select_eq_Nil)

section \<open>The row-store interface\<close>

text \<open>
  Every component keeps its rows behind a primary-key lookup and an attribute update. The lemmas
  proved here from the two laws are the ones the services' proofs use; each component interprets
  the locale for its own table.
\<close>

locale row_store =
  fixes get :: "'s \<Rightarrow> uuid \<Rightarrow> 'r option"
    and upd :: "uuid \<Rightarrow> ('r \<Rightarrow> 'r) \<Rightarrow> 's \<Rightarrow> 's"
  assumes get_upd: "get (upd i f s) j = (if j = i then map_option f (get s i) else get s j)"
begin

lemma get_upd_same: "get s i = Some r \<Longrightarrow> get (upd i f s) i = Some (f r)"
  by (simp add: get_upd)

lemma get_upd_other: "j \<noteq> i \<Longrightarrow> get (upd i f s) j = get s j"
  by (simp add: get_upd)

lemma get_upd_twice: "get (upd i g (upd i f s)) = get (upd i (g \<circ> f) s)"
  by (rule ext) (simp add: get_upd option.map_comp)

definition all_rows :: "('r \<Rightarrow> bool) \<Rightarrow> 's \<Rightarrow> bool" where
  "all_rows P s \<longleftrightarrow> (\<forall>i r. get s i = Some r \<longrightarrow> P r)"

lemma all_rows_upd:
  assumes "all_rows P s" and "\<And>r. get s i = Some r \<Longrightarrow> P r \<Longrightarrow> P (f r)"
  shows "all_rows P (upd i f s)"
  using assms unfolding all_rows_def by (auto simp: get_upd split: if_splits)

lemma field_stable:
  assumes "\<And>r. g (f r) = g r"
  shows "map_option g (get (upd i f s) j) = map_option g (get s j)"
  using assms by (auto simp: get_upd option.map_comp o_def intro!: option.map_cong0)

end

interpretation raw: row_store "\<lambda>t::'r table. t" modify
  by unfold_locales simp

end
