(* ===== verification/Infra.thy ===== *)
theory Infra
  imports Prelude "HOL-Library.AList"
begin

text \<open>
  The infrastructure every component writes to inside its transaction: audit rows
  (\<^verbatim>\<open>core/audit_log\<close>), the task outbox (\<^verbatim>\<open>core/tasks\<close>), events published after commit
  (\<^verbatim>\<open>core/sse\<close>), notifications (\<^verbatim>\<open>core/notifications\<close>), and the membership and identity reads
  (\<^verbatim>\<open>core/tenancy\<close>, \<^verbatim>\<open>core/identity\<close>). The state record \<open>infra\<close> is extended by every component
  theory with its own tables.
\<close>

section \<open>Actors, payloads, tasks\<close>

text \<open>The \<open>Actor\<close> value object: its validator makes each kind carry exactly these fields.\<close>

datatype actor =
    SystemActor
  | GithubUser string
  | AgentActor uuid
  | UserActor uuid "string option"
  | WorkspaceActor uuid
  | SsoActor "string option"

fun actor_login :: "actor \<Rightarrow> string option" where
  "actor_login (GithubUser l) = Some l"
| "actor_login (UserActor _ l) = l"
| "actor_login (SsoActor l) = l"
| "actor_login _ = None"

fun actor_user_id :: "actor \<Rightarrow> uuid option" where
  "actor_user_id (UserActor u _) = Some u"
| "actor_user_id _ = None"

datatype json =
    JNull
  | JBool bool
  | JNum int
  | JStr string
  | JId uuid
  | JArr "json list"
  | JObj "(string \<times> json) list"

definition jopt :: "('a \<Rightarrow> json) \<Rightarrow> 'a option \<Rightarrow> json" where
  "jopt f x = (case x of None \<Rightarrow> JNull | Some y \<Rightarrow> f y)"

datatype general_event_kind =
    TICKET_STATUS_CHANGED
  | RUN_STATE_CHANGED
  | STAGE_STATE_CHANGED
  | ARTIFACT_STORED
  | AGENT_CHANGED

record audit_entry =
  ae_org_id :: uuid
  ae_entity_kind :: string
  ae_entity_id :: uuid
  ae_kind :: string
  ae_payload :: json
  ae_actor :: actor
  ae_created_at :: timestamp

record notification =
  nt_user_id :: uuid
  nt_org_id :: uuid
  nt_type :: string
  nt_title :: string
  nt_body :: string
  nt_subject_type :: "string option"
  nt_subject_id :: "uuid option"

type_synonym payload = "(string \<times> json) list"

text \<open>Python's dict merge \<open>{**a, **b}\<close>: right-hand entries win.\<close>

definition dict_merge :: "payload \<Rightarrow> payload \<Rightarrow> payload" where
  "dict_merge a b = fold (\<lambda>(k, v). AList.update k v) b a"

text \<open>
  Reading a string out of an event's \<^verbatim>\<open>outputs\<close> dict. Every producer writes these keys as strings
  or null.
\<close>

definition get_str :: "payload \<Rightarrow> string \<Rightarrow> string option" where
  "get_str p k = (case map_of p k of Some (JStr x) \<Rightarrow> Some x | _ \<Rightarrow> None)"

definition artifact_body_of :: "payload \<Rightarrow> string option" where
  "artifact_body_of p = (case map_of p ''artifact'' of Some (JObj a) \<Rightarrow> get_str a ''body'' | _ \<Rightarrow> None)"

datatype task =
    RouteRun uuid "nat option" "string option" "string option"
  | StartStage uuid "nat option"
  | HandleAgentEvent "uuid option" uuid string payload
  | Fanout "notification list"
  | RunTerminalHook string uuid uuid

text \<open>Python's \<^verbatim>\<open>x or default\<close> on an optional string: \<open>None\<close> and the empty string are falsy.\<close>

definition or_else :: "string option \<Rightarrow> string \<Rightarrow> string" where
  "or_else x d = (case x of None \<Rightarrow> d | Some y \<Rightarrow> if y = [] then d else y)"

lemma or_else_simps [simp]:
  "or_else None d = d" "or_else (Some y) d = (if y = [] then d else y)"
  by (simp_all add: or_else_def)

lemma map_of_dict_merge: "map_of (dict_merge a b) k = (case map_of (rev b) k of None \<Rightarrow> map_of a k | Some v \<Rightarrow> Some v)"
  unfolding dict_merge_def
  by (induction b arbitrary: a) (auto simp: update_conv' map_add_def split: option.splits)

section \<open>Roles and memberships\<close>

datatype role = OWNER | ADMIN | BUILDER

fun role_rank :: "role \<Rightarrow> nat" where
  "role_rank BUILDER = 0" | "role_rank ADMIN = 1" | "role_rank OWNER = 2"

definition covers :: "role \<Rightarrow> role \<Rightarrow> bool" where
  "covers r required \<longleftrightarrow> role_rank required \<le> role_rank r"

record membership =
  mb_user_id :: uuid
  mb_org_id :: uuid
  mb_role :: role
  mb_handle :: string

record org_row =
  og_id :: uuid
  og_slug :: string
  og_display_name :: string
  og_archived_at :: "timestamp option"
  og_session_timeout_override :: "int option"
  og_vcs_plugin_id :: "string option"
  og_vcs_settings :: "payload option"
  og_registered_iam_arn :: "string option"
  og_aws_region :: "string option"
  og_workspace_max_count :: int
  og_sso_enabled :: bool
  og_sso_exempt_owner_user_id :: "uuid option"

section \<open>State\<close>

record infra =
  now :: timestamp
  next_id :: uuid
  outbox :: "task list"
  audits :: "audit_entry list"
  sse_pending :: "(uuid \<times> general_event_kind \<times> json) list"
  notifications :: "notification list"
  memberships :: "membership list"
  oauth_identities :: "((string \<times> string) \<times> uuid) list"
  orgs :: "org_row table"
  current_traceparent :: "string option"

definition fresh :: "'a infra_scheme \<Rightarrow> uuid \<times> 'a infra_scheme" where
  "fresh s = (next_id s, s\<lparr>next_id := Suc (next_id s)\<rparr>)"

definition enqueue :: "task \<Rightarrow> 'a infra_scheme \<Rightarrow> 'a infra_scheme" where
  "enqueue t s = s\<lparr>outbox := outbox s @ [t]\<rparr>"

definition audit ::
  "string \<Rightarrow> uuid \<Rightarrow> string \<Rightarrow> json \<Rightarrow> actor \<Rightarrow> uuid \<Rightarrow> 'a infra_scheme \<Rightarrow> 'a infra_scheme" where
  "audit entity_kind entity_id kind payload act org_id s =
     s\<lparr>audits := audits s @
        [\<lparr>ae_org_id = org_id, ae_entity_kind = entity_kind, ae_entity_id = entity_id, ae_kind = kind,
          ae_payload = payload, ae_actor = act, ae_created_at = now s\<rparr>]\<rparr>"

definition publish_general_after_commit ::
  "uuid \<Rightarrow> general_event_kind \<Rightarrow> json \<Rightarrow> 'a infra_scheme \<Rightarrow> 'a infra_scheme" where
  "publish_general_after_commit org_id kind payload s =
     s\<lparr>sse_pending := sse_pending s @ [(org_id, kind, payload)]\<rparr>"

section \<open>Notifications\<close>

definition same_subject :: "notification \<Rightarrow> notification \<Rightarrow> bool" where
  "same_subject n m \<longleftrightarrow> nt_user_id n = nt_user_id m \<and> nt_type n = nt_type m \<and>
     nt_subject_type n = nt_subject_type m \<and> nt_subject_id n = nt_subject_id m"

definition create_notification :: "notification \<Rightarrow> 'a infra_scheme \<Rightarrow> 'a infra_scheme res" where
  "create_notification n s =
     (if (nt_subject_type n = None) \<noteq> (nt_subject_id n = None)
      then Inl (ValueError ''subject_type and subject_id must both be null or both be set'')
      else if nt_subject_type n \<noteq> None \<and> list_ex (same_subject n) (notifications s) then Inr s
      else Inr (s\<lparr>notifications := notifications s @ [n]\<rparr>))"

definition fanout :: "notification list \<Rightarrow> 'a infra_scheme \<Rightarrow> 'a infra_scheme res" where
  "fanout specs s = efold create_notification specs s"

section \<open>Tenancy and identity reads\<close>

definition list_memberships_for_org :: "uuid \<Rightarrow> 'a infra_scheme \<Rightarrow> membership list" where
  "list_memberships_for_org org_id s = filter (\<lambda>m. mb_org_id m = org_id) (memberships s)"

definition list_active_member_ids :: "uuid \<Rightarrow> 'a infra_scheme \<Rightarrow> uuid list" where
  "list_active_member_ids org_id s = map mb_user_id (list_memberships_for_org org_id s)"

definition get_member_role :: "uuid \<Rightarrow> uuid \<Rightarrow> 'a infra_scheme \<Rightarrow> role option" where
  "get_member_role user_id org_id s =
     map_option mb_role (find (\<lambda>m. mb_user_id m = user_id \<and> mb_org_id m = org_id) (memberships s))"

definition find_oauth_identity :: "string \<Rightarrow> string \<Rightarrow> 'a infra_scheme \<Rightarrow> uuid option" where
  "find_oauth_identity provider external_subject s =
     map_of (oauth_identities s) (provider, external_subject)"

section \<open>Facts\<close>

text \<open>
  \<open>infra_frame\<close> collects what the writers above leave alone. A later component's tables live in
  the record extension, which none of them touches: the \<open>more\<close> equations.
\<close>

named_theorems infra_frame "fields unchanged by infrastructure writes"

lemma fresh_simps [simp]:
  "fst (fresh s) = next_id s"
  "snd (fresh s) = s\<lparr>next_id := Suc (next_id s)\<rparr>"
  by (simp_all add: fresh_def)

lemma enqueue_frame [infra_frame]:
  "now (enqueue t s) = now s" "next_id (enqueue t s) = next_id s"
  "outbox (enqueue t s) = outbox s @ [t]" "notifications (enqueue t s) = notifications s"
  "memberships (enqueue t s) = memberships s" "oauth_identities (enqueue t s) = oauth_identities s"
  "infra.more (enqueue t s) = infra.more s"
  by (simp_all add: enqueue_def)

lemma audit_frame [infra_frame]:
  "now (audit ek ei k p a org s) = now s" "next_id (audit ek ei k p a org s) = next_id s"
  "outbox (audit ek ei k p a org s) = outbox s"
  "notifications (audit ek ei k p a org s) = notifications s"
  "memberships (audit ek ei k p a org s) = memberships s"
  "oauth_identities (audit ek ei k p a org s) = oauth_identities s"
  "infra.more (audit ek ei k p a org s) = infra.more s"
  by (simp_all add: audit_def)

lemma publish_frame [infra_frame]:
  "now (publish_general_after_commit org k p s) = now s"
  "next_id (publish_general_after_commit org k p s) = next_id s"
  "outbox (publish_general_after_commit org k p s) = outbox s"
  "notifications (publish_general_after_commit org k p s) = notifications s"
  "memberships (publish_general_after_commit org k p s) = memberships s"
  "oauth_identities (publish_general_after_commit org k p s) = oauth_identities s"
  "infra.more (publish_general_after_commit org k p s) = infra.more s"
  by (simp_all add: publish_general_after_commit_def)

lemma create_notification_frame:
  assumes "create_notification n s = Inr s'"
  shows "now s' = now s" "next_id s' = next_id s" "outbox s' = outbox s"
    "memberships s' = memberships s" "oauth_identities s' = oauth_identities s"
    "infra.more s' = infra.more s"
  using assms by (auto simp: create_notification_def split: if_splits)

text \<open>A notification with a subject is stored at most once per user, type and subject.\<close>

definition notifications_unique :: "'a infra_scheme \<Rightarrow> bool" where
  "notifications_unique s \<longleftrightarrow>
     (\<forall>i j. i < j \<longrightarrow> j < length (notifications s) \<longrightarrow> nt_subject_type (notifications s ! j) \<noteq> None \<longrightarrow>
        \<not> same_subject (notifications s ! j) (notifications s ! i))"

lemma create_notification_unique:
  assumes "create_notification n s = Inr s'" and "notifications_unique s"
  shows "notifications_unique s'"
  using assms
  by (auto simp: create_notification_def notifications_unique_def nth_append list_ex_iff less_Suc_eq
           split: if_splits)

lemma fanout_unique:
  assumes "fanout specs s = Inr s'" and "notifications_unique s"
  shows "notifications_unique s'"
  using assms unfolding fanout_def
  by (rule efold_invariant) (rule create_notification_unique)

lemma find_membership_mem:
  "get_member_role u org s = Some r \<Longrightarrow>
     \<exists>m \<in> set (memberships s). mb_user_id m = u \<and> mb_org_id m = org \<and> mb_role m = r"
  by (auto simp: get_member_role_def find_Some_iff)

lemmas infra_defs = fresh_def enqueue_def audit_def publish_general_after_commit_def

section \<open>Redelivery of a fan-out\<close>

lemma create_notification_stored:
  assumes "create_notification n s = Inr s'" and "nt_subject_type n \<noteq> None"
  shows "list_ex (same_subject n) (notifications s')"
  using assms by (auto simp: create_notification_def same_subject_def split: if_splits)

lemma create_notification_grows:
  assumes "create_notification n s = Inr s'"
  shows "\<exists>xs. notifications s' = notifications s @ xs"
  using assms by (auto simp: create_notification_def split: if_splits)

lemma fanout_grows:
  assumes "fanout specs s = Inr s'"
  shows "\<exists>xs. notifications s' = notifications s @ xs"
  using assms unfolding fanout_def
proof (induction specs arbitrary: s)
  case (Cons n specs)
  then obtain s1 where "create_notification n s = Inr s1" "efold create_notification specs s1 = Inr s'"
    by (auto simp: res_simps)
  with Cons.IH create_notification_grows show ?case by fastforce
qed simp

lemma fanout_stored:
  assumes "fanout specs s = Inr s'" and "n \<in> set specs" and "nt_subject_type n \<noteq> None"
  shows "list_ex (same_subject n) (notifications s')"
  using assms unfolding fanout_def
proof (induction specs arbitrary: s)
  case (Cons m specs)
  then obtain s1 where s1: "create_notification m s = Inr s1" "efold create_notification specs s1 = Inr s'"
    by (auto simp: res_simps)
  show ?case
  proof (cases "n = m")
    case True
    then have "list_ex (same_subject n) (notifications s1)"
      using create_notification_stored s1(1) Cons.prems(3) by blast
    then show ?thesis using fanout_grows[of specs s1 s'] s1(2) by (auto simp: fanout_def)
  next
    case False
    then show ?thesis using Cons.IH[OF s1(2)] Cons.prems by simp
  qed
qed simp

lemma fanout_noop:
  assumes "\<And>n. n \<in> set specs \<Longrightarrow> nt_subject_type n \<noteq> None \<and> nt_subject_id n \<noteq> None \<and>
      list_ex (same_subject n) (notifications s)"
  shows "fanout specs s = Inr s"
  using assms unfolding fanout_def by (induction specs) (auto simp: create_notification_def)

text \<open>A fan-out may be delivered more than once: whatever it stored, running the same batch of
  subject-bound notifications again on the result succeeds and changes nothing, and no user is left
  with two notifications of one type about one subject.\<close>

theorem fanout_idempotent:
  assumes "fanout specs s = Inr s'" and "list_all (\<lambda>n. nt_subject_type n \<noteq> None) specs"
    and "notifications_unique s"
  shows "fanout specs s' = Inr s' \<and> notifications_unique s'"
proof
  have both: "nt_subject_id n \<noteq> None" if "n \<in> set specs" "nt_subject_type n \<noteq> None" for n
    using assms(1) that unfolding fanout_def
    by (induction specs arbitrary: s) (auto simp: res_simps create_notification_def split: if_splits)
  show "fanout specs s' = Inr s'"
    using fanout_stored[OF assms(1)] both assms(2) by (intro fanout_noop) (auto simp: list_all_iff)
  show "notifications_unique s'" using fanout_unique assms(1,3) by blast
qed

definition blank_infra :: infra where
  "blank_infra = \<lparr>now = 0, next_id = 1, outbox = [], audits = [], sse_pending = [], notifications = [],
     memberships = [], oauth_identities = [], orgs = Map.empty, current_traceparent = None\<rparr>"

definition sample_notification :: "uuid \<Rightarrow> notification" where
  "sample_notification u = \<lparr>nt_user_id = u, nt_org_id = 1, nt_type = ''hitl_waiting'', nt_title = [],
     nt_body = [], nt_subject_type = Some ''ticket'', nt_subject_id = Some 7\<rparr>"

theorem fanout_idempotent_witness:
  "\<exists>s'. fanout [sample_notification 4, sample_notification 5] blank_infra = Inr s' \<and>
     length (notifications s') = 2 \<and>
     fanout [sample_notification 4, sample_notification 5] s' = Inr s'"
proof -
  let ?ns = "[sample_notification 4, sample_notification 5]"
  have run: "fanout ?ns blank_infra = Inr (blank_infra\<lparr>notifications := ?ns\<rparr>)"
    by (simp add: fanout_def create_notification_def blank_infra_def sample_notification_def same_subject_def)
  have "fanout ?ns (blank_infra\<lparr>notifications := ?ns\<rparr>) = Inr (blank_infra\<lparr>notifications := ?ns\<rparr>)"
    using fanout_idempotent[OF run] by (simp add: sample_notification_def blank_infra_def notifications_unique_def)
  with run show ?thesis by (intro exI[of _ "blank_infra\<lparr>notifications := ?ns\<rparr>"]) simp
qed

end
