(* ===== verification/Gateway.thy ===== *)
theory Gateway
  imports Infra
begin

text \<open>
  The durable command queue and the agent registry of \<^verbatim>\<open>core/agent_gateway/service.py\<close>: enqueue and
  pin, the claim with its three priority buckets and the credential-hydration loop, acknowledge,
  retire, the lease requeue, and the agent-row lifecycle operations.

  Parameters (record \<open>gateway_env\<close>): the hash function and the token generator of the standard
  library, and the registered command hydrators (plug-ins). \<^verbatim>\<open>FOR UPDATE SKIP LOCKED\<close> only matters
  between concurrent transactions; each definition here is one committed transaction. A long poll
  is a sequence of non-blocking selections, of which the last is the one modelled.
\<close>

section \<open>Rows\<close>

datatype agent_command_kind =
    PROVISION_WORKSPACE
  | WRITE_FILES
  | REFRESH_WORKSPACE_AUTH
  | INVOKE_CLAUDE_CODE
  | INVOKE_CODEX
  | CLEANUP_WORKSPACE
  | PUSH_BRANCH
  | CONFIG_UPDATE
  | SHUTDOWN
  | CANCEL_SHUTDOWN

fun kind_str :: "agent_command_kind \<Rightarrow> string" where
  "kind_str PROVISION_WORKSPACE = ''ProvisionWorkspace''"
| "kind_str WRITE_FILES = ''WriteFiles''"
| "kind_str REFRESH_WORKSPACE_AUTH = ''RefreshWorkspaceAuth''"
| "kind_str INVOKE_CLAUDE_CODE = ''InvokeClaudeCode''"
| "kind_str INVOKE_CODEX = ''InvokeCodex''"
| "kind_str CLEANUP_WORKSPACE = ''CleanupWorkspace''"
| "kind_str PUSH_BRANCH = ''PushBranch''"
| "kind_str CONFIG_UPDATE = ''ConfigUpdate''"
| "kind_str SHUTDOWN = ''Shutdown''"
| "kind_str CANCEL_SHUTDOWN = ''CancelShutdown''"

definition RUN_BEARING_KINDS :: "agent_command_kind list" where
  "RUN_BEARING_KINDS = [INVOKE_CLAUDE_CODE, INVOKE_CODEX]"

text \<open>The kinds the claim-time union adapter can deserialise.\<close>

definition COMMAND_ADAPTER :: "agent_command_kind list" where
  "COMMAND_ADAPTER =
     [PROVISION_WORKSPACE, WRITE_FILES, REFRESH_WORKSPACE_AUTH, INVOKE_CLAUDE_CODE, INVOKE_CODEX,
      CLEANUP_WORKSPACE, CONFIG_UPDATE, SHUTDOWN, CANCEL_SHUTDOWN]"

datatype command_status = Pending | Claimed | Delivered | Done

record agent_command =
  ac_kind :: agent_command_kind
  ac_command_id :: uuid
  ac_workspace_id :: "uuid option"
  ac_traceparent :: string
  ac_fields :: payload

record command_row =
  cr_id :: uuid
  cr_org_id :: uuid
  cr_workspace_id :: "uuid option"
  cr_run_id :: "uuid option"
  cr_kind :: agent_command_kind
  cr_payload :: payload
  cr_status :: command_status
  cr_agent_id :: "uuid option"
  cr_completion_token_hash :: "string option"
  cr_claimed_at :: "timestamp option"
  cr_attempt :: nat

datatype liveness = Reachable | Stale | Offline
datatype lifecycle = Unconfigured | Active | Draining | ShutdownDone

record agent_row =
  ag_id :: uuid
  ag_org_id :: uuid
  ag_instance_id :: string
  ag_iam_arn :: string
  ag_version :: "string option"
  ag_os :: "string option"
  ag_cpu_count :: "int option"
  ag_memory_bytes :: "int option"
  ag_last_heartbeat_at :: "timestamp option"
  ag_last_shutdown_at :: "timestamp option"
  ag_claimed_workspace_count :: nat
  ag_state :: liveness
  ag_lifecycle :: lifecycle

record bearer_row =
  bt_id :: uuid
  bt_org_id :: uuid
  bt_agent_id :: uuid
  bt_token_hash :: string
  bt_issued_at :: timestamp
  bt_expires_at :: timestamp
  bt_revoked_at :: "timestamp option"
  bt_revoked_reason :: "string option"
  bt_last_seen_at :: "timestamp option"
  bt_source_ip :: "string option"
  bt_issued_iam_arn :: "string option"

record gateway_db = infra +
  commands :: "command_row table"
  agents :: "agent_row table"
  bearers :: "bearer_row table"

record gateway_env =
  sha256 :: "string \<Rightarrow> string"
  token_urlsafe :: "nat \<Rightarrow> string"
  hydrator :: "agent_command_kind \<Rightarrow> (payload \<Rightarrow> uuid \<Rightarrow> string + payload) option"

definition upd_command ::
  "uuid \<Rightarrow> (command_row \<Rightarrow> command_row) \<Rightarrow> 'a gateway_db_scheme \<Rightarrow> 'a gateway_db_scheme" where
  "upd_command i f s = s\<lparr>commands := modify i f (commands s)\<rparr>"

definition upd_agent ::
  "uuid \<Rightarrow> (agent_row \<Rightarrow> agent_row) \<Rightarrow> 'a gateway_db_scheme \<Rightarrow> 'a gateway_db_scheme" where
  "upd_agent i f s = s\<lparr>agents := modify i f (agents s)\<rparr>"

interpretation cmd: row_store "commands :: 'a gateway_db_scheme \<Rightarrow> command_row table" upd_command
  by unfold_locales (simp add: upd_command_def)

interpretation agt: row_store "agents :: 'a gateway_db_scheme \<Rightarrow> agent_row table" upd_agent
  by unfold_locales (simp add: upd_agent_def)

section \<open>Enqueue, pin, reads\<close>

definition ENVELOPE_KEYS :: "string list" where
  "ENVELOPE_KEYS = [''kind'', ''command_id'', ''workspace_id'', ''traceparent'',
                    ''completion_token'', ''run_id'']"

definition envelope ::
  "uuid \<Rightarrow> agent_command_kind \<Rightarrow> uuid option \<Rightarrow> string \<Rightarrow> uuid option \<Rightarrow> payload" where
  "envelope command_id kind workspace_id effective_tp run_id =
     [(''kind'', JStr (kind_str kind)), (''command_id'', JId command_id),
      (''traceparent'', JStr effective_tp), (''completion_token'', JNull),
      (''run_id'', jopt JId run_id)]
     @ (case workspace_id of None \<Rightarrow> [] | Some w \<Rightarrow> [(''workspace_id'', JId w)])"

definition enqueue_command_payload ::
  "uuid \<Rightarrow> uuid \<Rightarrow> agent_command_kind \<Rightarrow> uuid option \<Rightarrow> payload \<Rightarrow> string option \<Rightarrow> uuid option \<Rightarrow>
   'a gateway_db_scheme \<Rightarrow> 'a gateway_db_scheme res" where
  "enqueue_command_payload org_id command_id kind workspace_id payload_fields traceparent run_id s =
     (let effective_tp = (case current_traceparent s of Some tp \<Rightarrow> tp | None \<Rightarrow> or_else traceparent []);
          final_payload = dict_merge payload_fields
                            (envelope command_id kind workspace_id effective_tp run_id);
          row = \<lparr>cr_id = command_id, cr_org_id = org_id, cr_workspace_id = workspace_id,
                 cr_run_id = run_id, cr_kind = kind, cr_payload = final_payload, cr_status = Pending,
                 cr_agent_id = None, cr_completion_token_hash = None, cr_claimed_at = None,
                 cr_attempt = 0\<rparr>
      in if commands s command_id \<noteq> None then Inl IntegrityError
         else Inr (s\<lparr>commands := (commands s)(command_id \<mapsto> row)\<rparr>))"

definition NIL_UUID :: uuid where "NIL_UUID = 0"

definition enqueue_command ::
  "uuid \<Rightarrow> agent_command \<Rightarrow> uuid option \<Rightarrow> 'a gateway_db_scheme \<Rightarrow> 'a gateway_db_scheme res" where
  "enqueue_command org_id command run_id s =
     (let workspace_id = (case ac_workspace_id command of None \<Rightarrow> None
                          | Some w \<Rightarrow> if w = NIL_UUID then None else Some w);
          kind_fields = filter (\<lambda>(k, v). k \<notin> set ENVELOPE_KEYS) (ac_fields command)
      in enqueue_command_payload org_id (ac_command_id command) (ac_kind command) workspace_id
           kind_fields (Some (ac_traceparent command)) run_id s)"

definition pin_command_to_agent ::
  "uuid \<Rightarrow> uuid \<Rightarrow> 'a gateway_db_scheme \<Rightarrow> 'a gateway_db_scheme" where
  "pin_command_to_agent command_id agent_id =
     upd_command command_id (\<lambda>r. r\<lparr>cr_agent_id := Some agent_id\<rparr>)"

definition get_command_org_and_payload ::
  "uuid \<Rightarrow> 'a gateway_db_scheme \<Rightarrow> (uuid \<times> payload) option" where
  "get_command_org_and_payload command_id s =
     map_option (\<lambda>r. (cr_org_id r, cr_payload r)) (commands s command_id)"

definition get_command_status :: "uuid \<Rightarrow> 'a gateway_db_scheme \<Rightarrow> command_status option" where
  "get_command_status command_id s = map_option cr_status (commands s command_id)"

definition get_command_run_id :: "uuid \<Rightarrow> 'a gateway_db_scheme \<Rightarrow> uuid option" where
  "get_command_run_id command_id s = Option.bind (commands s command_id) cr_run_id"

definition resolve_run_route :: "uuid \<Rightarrow> 'a gateway_db_scheme \<Rightarrow> (uuid \<times> uuid) option" where
  "resolve_run_route run_id s =
     (case rev (select (commands s) (next_id s)
             (\<lambda>r. cr_run_id r = Some run_id \<and> cr_workspace_id r \<noteq> None \<and> cr_agent_id r \<noteq> None)) of
        [] \<Rightarrow> None
      | r # _ \<Rightarrow> Some (the (cr_workspace_id r), the (cr_agent_id r)))"

section \<open>Claim\<close>

abbreviation oldest_command ::
  "(command_row \<Rightarrow> bool) \<Rightarrow> 'a gateway_db_scheme \<Rightarrow> command_row option" where
  "oldest_command P s \<equiv> first_row (select (commands s) (next_id s) P)"

definition agent_scoped :: "uuid \<Rightarrow> command_row \<Rightarrow> bool" where
  "agent_scoped agent_id r \<longleftrightarrow> cr_status r = Pending \<and>
     cr_kind r \<in> {CONFIG_UPDATE, SHUTDOWN, CANCEL_SHUTDOWN} \<and> cr_agent_id r = Some agent_id"

definition unassigned_provision :: "command_row \<Rightarrow> bool" where
  "unassigned_provision r \<longleftrightarrow>
     cr_status r = Pending \<and> cr_kind r = PROVISION_WORKSPACE \<and> cr_agent_id r = None"

definition pinned_for :: "uuid \<Rightarrow> uuid list \<Rightarrow> command_row \<Rightarrow> bool" where
  "pinned_for agent_id workspace_ids r \<longleftrightarrow> cr_status r = Pending \<and> cr_agent_id r = Some agent_id \<and>
     (\<exists>w \<in> set workspace_ids. cr_workspace_id r = Some w)"

definition select_eligible_row_nowait ::
  "uuid \<Rightarrow> lifecycle \<Rightarrow> int \<Rightarrow> uuid list \<Rightarrow> 'a gateway_db_scheme \<Rightarrow> command_row option" where
  "select_eligible_row_nowait agent_id lc new_workspaces workspace_ids s =
     (if lc = Unconfigured
      then oldest_command (\<lambda>r. cr_status r = Pending \<and> cr_kind r = CONFIG_UPDATE \<and>
                                cr_agent_id r = Some agent_id) s
      else case oldest_command (agent_scoped agent_id) s of
        Some r \<Rightarrow> Some r
      | None \<Rightarrow>
          (case (if 0 < new_workspaces then oldest_command unassigned_provision s else None) of
             Some r \<Rightarrow> Some r
           | None \<Rightarrow> if workspace_ids \<noteq> [] then oldest_command (pinned_for agent_id workspace_ids) s
                     else None))"

definition HYDRATION_RETIRE_CAP :: nat where "HYDRATION_RETIRE_CAP = 5"

definition enqueue_agent_event ::
  "uuid \<Rightarrow> uuid \<Rightarrow> string \<Rightarrow> payload \<Rightarrow> 'a infra_scheme \<Rightarrow> 'a infra_scheme" where
  "enqueue_agent_event run_id agent_command_id outcome_label outputs =
     enqueue (HandleAgentEvent (Some run_id) agent_command_id outcome_label outputs)"

definition failure_outputs :: "string \<Rightarrow> payload" where
  "failure_outputs msg = [(''error_message'', JStr msg)]"

record claimed_command =
  cc_command_id :: uuid
  cc_kind :: agent_command_kind
  cc_payload :: payload
  cc_completion_token :: string
  cc_run_id :: "uuid option"

definition stamp_claim ::
  "gateway_env \<Rightarrow> uuid \<Rightarrow> uuid \<Rightarrow> 'a gateway_db_scheme \<Rightarrow> string \<times> 'a gateway_db_scheme" where
  "stamp_claim env agent_id command_id s =
     (case fresh s of (n, s1) \<Rightarrow>
        let raw = token_urlsafe env n in
        (raw, upd_command command_id
                (\<lambda>r. r\<lparr>cr_agent_id := Some agent_id, cr_status := Claimed, cr_claimed_at := Some (now s1),
                       cr_completion_token_hash := Some (sha256 env raw)\<rparr>) s1))"

definition build_command ::
  "command_row \<Rightarrow> payload \<Rightarrow> string \<Rightarrow> claimed_command res" where
  "build_command row pl raw =
     (if cr_kind row \<in> set COMMAND_ADAPTER
      then Inr \<lparr>cc_command_id = cr_id row, cc_kind = cr_kind row, cc_payload = pl,
                cc_completion_token = raw, cc_run_id = cr_run_id row\<rparr>
      else Inl (ValueError ''unknown command kind''))"

definition revert_claim :: "uuid \<Rightarrow> 'a gateway_db_scheme \<Rightarrow> 'a gateway_db_scheme" where
  "revert_claim command_id =
     upd_command command_id (\<lambda>r. r\<lparr>cr_status := Pending, cr_claimed_at := None\<rparr>)"

definition retire_command :: "uuid \<Rightarrow> 'a gateway_db_scheme \<Rightarrow> 'a gateway_db_scheme" where
  "retire_command command_id = upd_command command_id (\<lambda>r. r\<lparr>cr_status := Done\<rparr>)"

text \<open>A run-bearing command without credentials: done, with a synthesised failure event.\<close>

definition retire_unhydrated ::
  "command_row \<Rightarrow> string \<Rightarrow> 'a gateway_db_scheme \<Rightarrow> 'a gateway_db_scheme" where
  "retire_unhydrated row msg s =
     (let s1 = retire_command (cr_id row) s in
      case cr_run_id row of None \<Rightarrow> s1
      | Some rid \<Rightarrow> enqueue_agent_event rid (cr_id row) ''failure'' (failure_outputs msg) s1)"

function hydration_loop ::
  "gateway_env \<Rightarrow> uuid \<Rightarrow> lifecycle \<Rightarrow> int \<Rightarrow> uuid list \<Rightarrow> command_row \<Rightarrow> nat \<Rightarrow>
   'a gateway_db_scheme \<Rightarrow> (claimed_command option \<times> 'a gateway_db_scheme) res" where
  "hydration_loop env agent_id lc new_workspaces workspace_ids row retired s =
     (case stamp_claim env agent_id (cr_id row) s of (raw, s1) \<Rightarrow>
      case hydrator env (cr_kind row) of
        None \<Rightarrow> ebind (build_command row (cr_payload row) raw) (\<lambda>c. Inr (Some c, s1))
      | Some h \<Rightarrow>
         (case h (cr_payload row) (cr_org_id row) of
            Inr hydrated \<Rightarrow> ebind (build_command row hydrated raw) (\<lambda>c. Inr (Some c, s1))
          | Inl msg \<Rightarrow>
              if cr_kind row \<in> set RUN_BEARING_KINDS then
                if HYDRATION_RETIRE_CAP \<le> retired then Inr (None, revert_claim (cr_id row) s1)
                else
                  let s2 = retire_unhydrated row msg s1
                  in (case select_eligible_row_nowait agent_id lc new_workspaces workspace_ids s2 of
                        None \<Rightarrow> Inr (None, s2)
                      | Some row' \<Rightarrow> hydration_loop env agent_id lc new_workspaces workspace_ids row'
                                       (Suc retired) s2)
              else Inr (None, revert_claim (cr_id row) s1)))"
  by pat_completeness auto

termination hydration_loop
  by (relation "measure (\<lambda>(env, agent_id, lc, nw, ws, row, retired, s). Suc HYDRATION_RETIRE_CAP - retired)")
     (auto simp: HYDRATION_RETIRE_CAP_def)

declare hydration_loop.simps [simp del]

definition claim_next ::
  "gateway_env \<Rightarrow> uuid \<Rightarrow> lifecycle \<Rightarrow> int \<Rightarrow> uuid list \<Rightarrow> 'a gateway_db_scheme \<Rightarrow>
   (claimed_command option \<times> 'a gateway_db_scheme) res" where
  "claim_next env agent_id lc new_workspaces workspace_ids s =
     (case select_eligible_row_nowait agent_id lc new_workspaces workspace_ids s of
        None \<Rightarrow> Inr (None, s)
      | Some row \<Rightarrow> hydration_loop env agent_id lc new_workspaces workspace_ids row 0 s)"

section \<open>Acknowledge and requeue\<close>

definition acknowledge_command_received ::
  "uuid \<Rightarrow> 'a gateway_db_scheme \<Rightarrow> 'a gateway_db_scheme" where
  "acknowledge_command_received command_id =
     upd_command command_id (\<lambda>r. if cr_status r = Claimed then r\<lparr>cr_status := Delivered\<rparr> else r)"

definition MAX_ATTEMPT :: nat where "MAX_ATTEMPT = 5"
definition LEASE_SECONDS :: int where "LEASE_SECONDS = 30"

definition requeue_row :: "command_row \<Rightarrow> command_row" where
  "requeue_row r =
     (if MAX_ATTEMPT - 1 \<le> cr_attempt r then r\<lparr>cr_status := Done, cr_attempt := MAX_ATTEMPT\<rparr>
      else r\<lparr>cr_status := Pending, cr_agent_id := None, cr_claimed_at := None,
             cr_attempt := cr_attempt r + 1\<rparr>)"

definition stale_claim :: "timestamp \<Rightarrow> command_row \<Rightarrow> bool" where
  "stale_claim cutoff r \<longleftrightarrow> cr_status r = Claimed \<and>
     (case cr_claimed_at r of None \<Rightarrow> False | Some t \<Rightarrow> t < cutoff)"

definition requeue_stale_claimed :: "'a gateway_db_scheme \<Rightarrow> nat \<times> 'a gateway_db_scheme" where
  "requeue_stale_claimed s =
     (let stale = select (commands s) (next_id s) (stale_claim (now s - LEASE_SECONDS)) in
      (length (filter (\<lambda>r. cr_attempt r < MAX_ATTEMPT - 1) stale),
       fold (\<lambda>r. upd_command (cr_id r) requeue_row) stale s))"

section \<open>Queue invariant\<close>

definition command_ok :: "command_row \<Rightarrow> bool" where
  "command_ok r \<longleftrightarrow> cr_attempt r \<le> MAX_ATTEMPT \<and>
     (cr_attempt r = MAX_ATTEMPT \<longrightarrow> cr_status r = Done) \<and>
     (cr_status r = Claimed \<longrightarrow> cr_agent_id r \<noteq> None \<and> cr_claimed_at r \<noteq> None \<and>
        cr_completion_token_hash r \<noteq> None)"

definition queue_ok :: "'a gateway_db_scheme \<Rightarrow> bool" where
  "queue_ok s \<longleftrightarrow> keyed_rows cr_id (next_id s) (commands s) \<and> cmd.all_rows command_ok s"

lemma queue_ok_keyed: "queue_ok s \<Longrightarrow> keyed_rows cr_id (next_id s) (commands s)"
  by (simp add: queue_ok_def)

lemma queue_ok_upd:
  assumes "queue_ok s" and "\<And>r. cr_id (f r) = cr_id r"
    and "\<And>r. commands s i = Some r \<Longrightarrow> command_ok r \<Longrightarrow> command_ok (f r)"
  shows "queue_ok (upd_command i f s)"
proof -
  have "cmd.all_rows command_ok (upd_command i f s)"
    using assms by (intro cmd.all_rows_upd) (auto simp: queue_ok_def)
  then show ?thesis using assms(1,2) by (simp add: queue_ok_def keyed_rows_modify upd_command_def)
qed

lemma queue_ok_fresh: "queue_ok s \<Longrightarrow> queue_ok (s\<lparr>next_id := Suc (next_id s)\<rparr>)"
  by (auto simp: queue_ok_def cmd.all_rows_def intro: keyed_rows_mono)

lemma enqueue_command_ok:
  assumes "enqueue_command org c rid s = Inr s'" and "queue_ok s" and "ac_command_id c < next_id s"
  shows "queue_ok s'"
  using assms
  by (auto simp: enqueue_command_def enqueue_command_payload_def Let_def queue_ok_def cmd.all_rows_def
      command_ok_def MAX_ATTEMPT_def keyed_rows_insert split: if_splits)

lemma pin_command_ok: "queue_ok s \<Longrightarrow> queue_ok (pin_command_to_agent c a s)"
  unfolding pin_command_to_agent_def by (rule queue_ok_upd) (auto simp: command_ok_def)

lemma acknowledge_ok: "queue_ok s \<Longrightarrow> queue_ok (acknowledge_command_received c s)"
  unfolding acknowledge_command_received_def by (rule queue_ok_upd) (auto simp: command_ok_def)

lemma retire_ok: "queue_ok s \<Longrightarrow> queue_ok (retire_command c s)"
  unfolding retire_command_def by (rule queue_ok_upd) (auto simp: command_ok_def)

lemma enqueue_agent_event_queue [simp]:
  "queue_ok (enqueue_agent_event r c l outs s) = queue_ok s"
  "commands (enqueue_agent_event r c l outs s) = commands s"
  "next_id (enqueue_agent_event r c l outs s) = next_id s"
  "outbox (enqueue_agent_event r c l outs s) = outbox s @ [HandleAgentEvent (Some r) c l outs]"
  by (simp_all add: enqueue_agent_event_def enqueue_def queue_ok_def cmd.all_rows_def)

lemma requeue_ok: "queue_ok s \<Longrightarrow> queue_ok (snd (requeue_stale_claimed s))"
  unfolding requeue_stale_claimed_def Let_def snd_conv
  by (rule fold_invariant, assumption, rule queue_ok_upd)
     (auto simp: requeue_row_def command_ok_def MAX_ATTEMPT_def)

text \<open>Selected rows are pending, so their attempt count is below the cap and a claim is legal.\<close>

lemma selected_row:
  assumes "queue_ok s" and "select_eligible_row_nowait a lc nw ws s = Some r"
  shows "commands s (cr_id r) = Some r" "cr_status r = Pending" "cr_attempt r < MAX_ATTEMPT"
proof -
  obtain P where P: "oldest_command P s = Some r" "\<And>r. P r \<Longrightarrow> cr_status r = Pending"
    using assms(2) unfolding select_eligible_row_nowait_def
    by (auto split: if_splits option.splits)
       (erule that, simp add: agent_scoped_def unassigned_provision_def pinned_for_def)+
  then have *: "commands s (cr_id r) = Some r \<and> cr_status r = Pending"
    using keyed_first_row(1,2)[OF queue_ok_keyed[OF assms(1)] P(1)] by simp
  then show "commands s (cr_id r) = Some r" "cr_status r = Pending" by auto
  from * assms(1) have "command_ok r" by (auto simp: queue_ok_def cmd.all_rows_def)
  with * show "cr_attempt r < MAX_ATTEMPT" by (auto simp: command_ok_def)
qed

lemma stamp_claim_ok:
  assumes "queue_ok s" and "commands s c = Some r" and "cr_attempt r < MAX_ATTEMPT"
    and "stamp_claim env a c s = (raw, s1)"
  shows "queue_ok s1"
proof -
  have "s1 = upd_command c (\<lambda>r. r\<lparr>cr_agent_id := Some a, cr_status := Claimed,
      cr_claimed_at := Some (now s), cr_completion_token_hash := Some (sha256 env raw)\<rparr>)
      (s\<lparr>next_id := Suc (next_id s)\<rparr>)"
    using assms(4) by (auto simp: stamp_claim_def fresh_def Let_def)
  with queue_ok_fresh[OF assms(1)] show ?thesis
    by (auto intro!: queue_ok_upd simp: assms(2) command_ok_def) (use assms(3) in auto)
qed

lemma revert_ok: "queue_ok s \<Longrightarrow> queue_ok (revert_claim c s)"
  if "commands s c = Some r" "cr_attempt r < MAX_ATTEMPT"
  unfolding revert_claim_def by (rule queue_ok_upd) (use that in \<open>auto simp: command_ok_def\<close>)

lemma stamp_claim_simps:
  assumes "stamp_claim env a c s = (raw, s1)" and "commands s c = Some r"
  shows "commands s1 c = Some (r\<lparr>cr_agent_id := Some a, cr_status := Claimed,
           cr_claimed_at := Some (now s), cr_completion_token_hash := Some (sha256 env raw)\<rparr>)"
    and "raw = token_urlsafe env (next_id s)" and "next_id s1 = Suc (next_id s)"
    and "now s1 = now s" and "outbox s1 = outbox s"
    and "\<And>c'. c' \<noteq> c \<Longrightarrow> commands s1 c' = commands s c'"
  using assms by (auto simp: stamp_claim_def fresh_def Let_def upd_command_def)

lemma retire_unhydrated_ok: "queue_ok s \<Longrightarrow> queue_ok (retire_unhydrated row msg s)"
  by (auto simp: retire_unhydrated_def Let_def retire_ok split: option.splits)

text \<open>One round of the loop: it stops with a command, stops without one, or goes on.\<close>

lemma hydration_loop_cases:
  assumes "hydration_loop env a lc nw ws row n s = Inr (res, s')"
    and "stamp_claim env a (cr_id row) s = (raw, s1)"
  obtains (claimed) c pl where "build_command row pl raw = Inr c" "res = Some c" "s' = s1"
  | (reverted) "res = None" "s' = revert_claim (cr_id row) s1"
  | (exhausted) msg where "res = None" "s' = retire_unhydrated row msg s1"
      "n < HYDRATION_RETIRE_CAP"
  | (retry) h msg row' where "hydrator env (cr_kind row) = Some h"
      "h (cr_payload row) (cr_org_id row) = Inl msg" "cr_kind row \<in> set RUN_BEARING_KINDS"
      "\<not> HYDRATION_RETIRE_CAP \<le> n"
      "select_eligible_row_nowait a lc nw ws (retire_unhydrated row msg s1) = Some row'"
      "hydration_loop env a lc nw ws row' (Suc n) (retire_unhydrated row msg s1) = Inr (res, s')"
  using assms(1)[unfolded hydration_loop.simps[of env a lc nw ws row n s] assms(2) prod.case Let_def]
  by (auto simp: res_simps split: option.splits sum.splits if_splits intro: that)

lemma hydration_loop_ok:
  assumes "hydration_loop env a lc nw ws row n s = Inr (res, s')"
    and "queue_ok s" and "commands s (cr_id row) = Some row" and "cr_attempt row < MAX_ATTEMPT"
  shows "queue_ok s'"
  using assms
proof (induction env a lc nw ws row n s rule: hydration_loop.induct)
  case (1 env a lc nw ws row n s)
  obtain raw s1 where st: "stamp_claim env a (cr_id row) s = (raw, s1)" by fastforce
  have ok1: "queue_ok s1" using stamp_claim_ok[OF "1.prems"(2,3,4) st] .
  note c1 = stamp_claim_simps(1)[OF st "1.prems"(3)]
  from "1.prems"(1) st show ?case
  proof (cases rule: hydration_loop_cases)
    case reverted
    with revert_ok[OF c1 _ ok1] "1.prems"(4) show ?thesis by simp
  next
    case (retry h msg row')
    note ok2 = retire_unhydrated_ok[OF ok1, of row msg]
    show ?thesis
      using "1.IH"[OF st[symmetric] retry(1-4) refl retry(5,6) ok2] selected_row[OF ok2 retry(5)]
      by blast
  qed (use ok1 retire_unhydrated_ok in auto)
qed

lemma claim_next_ok:
  assumes "claim_next env a lc nw ws s = Inr (res, s')" and "queue_ok s"
  shows "queue_ok s'"
proof (cases "select_eligible_row_nowait a lc nw ws s")
  case None
  with assms show ?thesis by (simp add: claim_next_def)
next
  case (Some row)
  with assms(1) have "hydration_loop env a lc nw ws row 0 s = Inr (res, s')"
    by (simp add: claim_next_def)
  then show ?thesis using hydration_loop_ok assms(2) selected_row[OF assms(2) Some] by blast
qed

text \<open>
  What a successful claim hands out: a row that is claimed by this agent with the hash of the
  returned token, and was pending before.
\<close>

lemma hydration_loop_claims:
  assumes "hydration_loop env a lc nw ws row n s = Inr (Some c, s')"
    and "queue_ok s" and "commands s (cr_id row) = Some row" and "cr_attempt row < MAX_ATTEMPT"
  shows "\<exists>r. commands s' (cc_command_id c) = Some r \<and> cr_status r = Claimed \<and>
           cr_agent_id r = Some a \<and> cr_completion_token_hash r = Some (sha256 env (cc_completion_token c)) \<and>
           cr_kind r = cc_kind c \<and> cr_run_id r = cc_run_id c"
  using assms
proof (induction env a lc nw ws row n s rule: hydration_loop.induct)
  case (1 env a lc nw ws row n s)
  obtain raw s1 where st: "stamp_claim env a (cr_id row) s = (raw, s1)" by fastforce
  have ok1: "queue_ok s1" using stamp_claim_ok[OF "1.prems"(2,3,4) st] .
  note c1 = stamp_claim_simps(1)[OF st "1.prems"(3)]
  from "1.prems"(1) st show ?case
  proof (cases rule: hydration_loop_cases)
    case (claimed c' pl)
    then show ?thesis using c1 by (auto simp: build_command_def split: if_splits)
  next
    case (retry h msg row')
    note ok2 = retire_unhydrated_ok[OF ok1, of row msg]
    show ?thesis
      using "1.IH"[OF st[symmetric] retry(1-4) refl retry(5,6) ok2] selected_row[OF ok2 retry(5)]
      by blast
  qed auto
qed

text \<open>At most \<open>HYDRATION_RETIRE_CAP\<close> failure events leave one call.\<close>

lemma retire_unhydrated_outbox:
  "\<exists>ts. outbox (retire_unhydrated row msg s) = outbox s @ ts \<and> length ts \<le> 1"
  by (cases "cr_run_id row") (auto simp: retire_unhydrated_def Let_def retire_command_def upd_command_def)

lemma hydration_loop_outbox:
  assumes "hydration_loop env a lc nw ws row n s = Inr (res, s')"
    and "queue_ok s" and "commands s (cr_id row) = Some row" and "cr_attempt row < MAX_ATTEMPT"
  shows "\<exists>ts. outbox s' = outbox s @ ts \<and> length ts \<le> HYDRATION_RETIRE_CAP - n"
  using assms
proof (induction env a lc nw ws row n s rule: hydration_loop.induct)
  case (1 env a lc nw ws row n s)
  obtain raw s1 where st: "stamp_claim env a (cr_id row) s = (raw, s1)" by fastforce
  have ok1: "queue_ok s1" using stamp_claim_ok[OF "1.prems"(2,3,4) st] .
  note out1 = stamp_claim_simps(5)[OF st "1.prems"(3)]
  from "1.prems"(1) st show ?case
  proof (cases rule: hydration_loop_cases)
    case claimed
    then show ?thesis using out1 by simp
  next
    case reverted
    then show ?thesis using out1 by (simp add: revert_claim_def upd_command_def)
  next
    case (exhausted msg)
    then show ?thesis using out1 retire_unhydrated_outbox[of row msg s1] by auto
  next
    case (retry h msg row')
    note ok2 = retire_unhydrated_ok[OF ok1, of row msg]
    obtain ts where "outbox s' = outbox (retire_unhydrated row msg s1) @ ts"
      "length ts \<le> HYDRATION_RETIRE_CAP - Suc n"
      using "1.IH"[OF st[symmetric] retry(1-4) refl retry(5,6) ok2] selected_row[OF ok2 retry(5)]
      by blast
    moreover obtain us where "outbox (retire_unhydrated row msg s1) = outbox s1 @ us" "length us \<le> 1"
      using retire_unhydrated_outbox[of row msg s1] by blast
    ultimately show ?thesis using out1 retry(4) by (intro exI[of _ "us @ ts"]) auto
  qed
qed

section \<open>Histories of the queue\<close>

text \<open>
  The operations on the command table, each with the counter drawn as the code draws it: a command's
  id is minted before it is enqueued.
\<close>

inductive queue_step :: "gateway_env \<Rightarrow> 'a gateway_db_scheme \<Rightarrow> 'a gateway_db_scheme \<Rightarrow> bool" for env where
  q_enqueue: "ac_command_id c < next_id s \<Longrightarrow> enqueue_command org c rid s = Inr s' \<Longrightarrow> queue_step env s s'"
| q_pin: "queue_step env s (pin_command_to_agent c a s)"
| q_claim: "claim_next env a lc nw ws s = Inr (res, s') \<Longrightarrow> queue_step env s s'"
| q_received: "queue_step env s (acknowledge_command_received c s)"
| q_retire: "queue_step env s (retire_command c s)"
| q_requeue: "queue_step env s (snd (requeue_stale_claimed s))"
| q_tick: "t \<ge> now s \<Longrightarrow> queue_step env s (s\<lparr>now := t, next_id := next_id s + k\<rparr>)"

lemma queue_step_ok: "queue_step env s s' \<Longrightarrow> queue_ok s \<Longrightarrow> queue_ok s'"
proof (induction rule: queue_step.induct)
  case (q_tick s t k)
  then show ?case by (auto simp: queue_ok_def cmd.all_rows_def intro: keyed_rows_mono)
qed (auto intro: enqueue_command_ok pin_command_ok claim_next_ok acknowledge_ok retire_ok requeue_ok)

lemma queue_steps_ok: "(queue_step env)\<^sup>*\<^sup>* s s' \<Longrightarrow> queue_ok s \<Longrightarrow> queue_ok s'"
  by (induction rule: rtranclp_induct) (auto intro: queue_step_ok)

text \<open>C13. Over any sequence of enqueues, claims, acknowledgements, retirements and lease sweeps a
  command is attempted at most five times, is done once the fifth attempt is recorded, and while it is
  claimed it names its agent, its lease start and the hash of its completion token.\<close>

theorem command_queue_invariant:
  assumes "(queue_step env)\<^sup>*\<^sup>* s s'" and "queue_ok s" and "commands s' c = Some r"
  shows "cr_id r = c \<and> cr_attempt r \<le> 5 \<and> (cr_attempt r = 5 \<longrightarrow> cr_status r = Done) \<and>
    (cr_status r = Claimed \<longrightarrow> cr_agent_id r \<noteq> None \<and> cr_claimed_at r \<noteq> None \<and> cr_completion_token_hash r \<noteq> None)"
proof -
  have ok: "queue_ok s'" using queue_steps_ok[OF assms(1,2)] .
  then have "command_ok r" using assms(3) by (auto simp: queue_ok_def cmd.all_rows_def)
  moreover have "cr_id r = c" using keyed_rowsD[OF queue_ok_keyed[OF ok] assms(3)] by simp
  ultimately show ?thesis by (simp add: command_ok_def MAX_ATTEMPT_def)
qed

section \<open>Selection\<close>

text \<open>An unconfigured agent only sees its configuration; then come its own lifecycle commands, then
  new workspaces if it has room, then the commands of the workspaces it names.\<close>

definition eligible :: "uuid \<Rightarrow> lifecycle \<Rightarrow> int \<Rightarrow> uuid list \<Rightarrow> command_row \<Rightarrow> bool" where
  "eligible a lc nw ws r \<longleftrightarrow>
     (if lc = Unconfigured then cr_status r = Pending \<and> cr_kind r = CONFIG_UPDATE \<and> cr_agent_id r = Some a
      else agent_scoped a r \<or> 0 < nw \<and> unassigned_provision r \<or> pinned_for a ws r)"

definition bucket :: "uuid \<Rightarrow> lifecycle \<Rightarrow> int \<Rightarrow> command_row \<Rightarrow> nat" where
  "bucket a lc nw r =
     (if lc = Unconfigured \<or> agent_scoped a r then 0 else if 0 < nw \<and> unassigned_provision r then 1 else 2)"

lemma select_eligible_spec:
  assumes "queue_ok s"
  shows "case select_eligible_row_nowait a lc nw ws s of
      None \<Rightarrow> \<forall>c r. commands s c = Some r \<longrightarrow> \<not> eligible a lc nw ws r
    | Some r \<Rightarrow> commands s (cr_id r) = Some r \<and> eligible a lc nw ws r \<and>
        (\<forall>c q. commands s c = Some q \<and> eligible a lc nw ws q \<longrightarrow>
           (bucket a lc nw r, cr_id r) \<le> (bucket a lc nw q, c))"
proof -
  note k = queue_ok_keyed[OF assms]
  have key: "cr_id q = c" if "commands s c = Some q" for c q using keyed_rowsD[OF k that] by simp
  have none: "\<not> P q" if "oldest_command P s = None" "commands s c = Some q" for P c q
    using keyed_first_row_None[OF k that(1), of q] that(2) key[OF that(2)] by simp
  have some: "commands s (cr_id r) = Some r \<and> P r \<and> (\<forall>c q. commands s c = Some q \<and> P q \<longrightarrow> cr_id r \<le> c)"
    if old: "oldest_command P s = Some r" for P r
  proof -
    note kf = keyed_first_row[OF k old]
    have le: "cr_id r \<le> c" if "commands s c = Some q" "P q" for c q
      using kf(3)[of q] that(2) unfolding key[OF that(1)] using that(1) by blast
    show ?thesis by (intro conjI allI impI kf(1,2)) (erule conjE, erule (1) le)
  qed
  show ?thesis
  proof (cases "lc = Unconfigured")
    case True
    let ?P = "\<lambda>r. cr_status r = Pending \<and> cr_kind r = CONFIG_UPDATE \<and> cr_agent_id r = Some a"
    have sel: "select_eligible_row_nowait a lc nw ws s = oldest_command ?P s" "eligible a lc nw ws = ?P"
      "bucket a lc nw = (\<lambda>_. 0)"
      using True by (auto simp: select_eligible_row_nowait_def eligible_def bucket_def)
    show ?thesis
    proof (cases "oldest_command ?P s")
      case None
      with none[OF None] show ?thesis unfolding sel by simp
    next
      case (Some r)
      with some[OF Some] show ?thesis unfolding sel Some by simp
    qed
  next
    case False
    note sel = select_eligible_row_nowait_def eligible_def bucket_def
    show ?thesis
    proof (cases "oldest_command (agent_scoped a) s")
      case (Some r)
      with some[OF Some] False show ?thesis by (auto simp: sel)
    next
      case n1: None
      note no1 = none[OF n1]
      show ?thesis
      proof (cases "if 0 < nw then oldest_command unassigned_provision s else None")
        case (Some r)
        then have "0 < nw" "oldest_command unassigned_provision s = Some r" by (auto split: if_splits)
        with some[of unassigned_provision r] n1 no1 False show ?thesis by (auto simp: sel)
      next
        case n2: None
        then have no2: "\<not> (0 < nw \<and> unassigned_provision q)" if "commands s c = Some q" for c q
          using none[of unassigned_provision, OF _ that] by (auto split: if_splits)
        show ?thesis
        proof (cases "oldest_command (pinned_for a ws) s")
          case None
          with none[OF None] n1 n2 no1 no2 False show ?thesis
            by (auto simp: select_eligible_row_nowait_def eligible_def)
        next
          case (Some r)
          then have "ws \<noteq> []" using some[OF Some] by (auto simp: pinned_for_def)
          with Some some[OF Some] n1 n2 no1 no2 False show ?thesis by (auto simp: sel)
        qed
      qed
    qed
  qed
qed

lemma eligible_pending: "eligible a lc nw ws r \<Longrightarrow> cr_status r = Pending"
  by (auto simp: eligible_def agent_scoped_def unassigned_provision_def pinned_for_def split: if_splits)

text \<open>C15. The order in which an agent is served: the claim picks a row of the command table that is pending and
  eligible for the agent, and picks none only if there is none; the row is from the most urgent bucket that has
  any (the agent's lifecycle commands, then a new workspace, then work on its workspaces), and within the bucket
  the one enqueued first.\<close>

theorem claim_order:
  assumes "queue_ok s"
  shows "(select_eligible_row_nowait a lc nw ws s = None \<longleftrightarrow>
            (\<forall>c r. commands s c = Some r \<longrightarrow> \<not> eligible a lc nw ws r)) \<and>
         (\<forall>r. select_eligible_row_nowait a lc nw ws s = Some r \<longrightarrow>
            commands s (cr_id r) = Some r \<and> cr_status r = Pending \<and> eligible a lc nw ws r \<and>
            (\<forall>c q. commands s c = Some q \<and> eligible a lc nw ws q \<longrightarrow>
               (bucket a lc nw r, cr_id r) \<le> (bucket a lc nw q, c)))"
proof (cases "select_eligible_row_nowait a lc nw ws s")
  case None
  with select_eligible_spec[OF assms, of a lc nw ws] show ?thesis by simp
next
  case (Some r)
  with select_eligible_spec[OF assms, of a lc nw ws] show ?thesis by (auto dest: eligible_pending)
qed

section \<open>Claims\<close>

lemma claim_next_Some:
  assumes "claim_next env a lc nw ws s = Inr (Some c, s')" and "queue_ok s"
  shows "\<exists>r. commands s' (cc_command_id c) = Some r \<and> cr_status r = Claimed \<and> cr_agent_id r = Some a \<and>
           cr_completion_token_hash r = Some (sha256 env (cc_completion_token c)) \<and>
           cr_kind r = cc_kind c \<and> cr_run_id r = cc_run_id c"
proof (cases "select_eligible_row_nowait a lc nw ws s")
  case None
  with assms show ?thesis by (simp add: claim_next_def)
next
  case (Some row)
  with assms(1) have "hydration_loop env a lc nw ws row 0 s = Inr (Some c, s')"
    by (simp add: claim_next_def)
  then show ?thesis using hydration_loop_claims assms(2) selected_row[OF assms(2) Some] by blast
qed

lemma pending_open:
  assumes "queue_ok s" and "commands s c = Some r" and "cr_status r = Pending"
  shows "cr_attempt r < MAX_ATTEMPT"
proof -
  have "command_ok r" using assms(1,2) by (auto simp: queue_ok_def cmd.all_rows_def)
  then show ?thesis using assms(3) by (auto simp: command_ok_def order_le_less)
qed

text \<open>A claim only touches commands that were pending, and leaves every attempt count alone.\<close>

lemma stamp_claim_commands:
  assumes "stamp_claim env a c s = (raw, s1)"
  shows "commands s1 i = (if i = c then map_option (\<lambda>r. r\<lparr>cr_agent_id := Some a, cr_status := Claimed,
      cr_claimed_at := Some (now s), cr_completion_token_hash := Some (sha256 env raw)\<rparr>) (commands s i)
    else commands s i)"
  using assms by (auto simp: stamp_claim_def fresh_def Let_def upd_command_def)

lemma retire_unhydrated_commands:
  "commands (retire_unhydrated row msg s) i =
     (if i = cr_id row then map_option (\<lambda>r. r\<lparr>cr_status := Done\<rparr>) (commands s i) else commands s i)"
  by (auto simp: retire_unhydrated_def Let_def retire_command_def upd_command_def split: option.splits)

lemma hydration_loop_frame:
  assumes "hydration_loop env a lc nw ws row n s = Inr (res, s')" and "queue_ok s"
    and "commands s (cr_id row) = Some row" and "cr_status row = Pending" and "commands s i = Some r"
  shows "\<exists>r'. commands s' i = Some r' \<and> cr_attempt r' = cr_attempt r \<and> (cr_status r \<noteq> Pending \<longrightarrow> r' = r)"
  using assms
proof (induction env a lc nw ws row n s arbitrary: r rule: hydration_loop.induct)
  case (1 env a lc nw ws row n s)
  obtain raw s1 where st: "stamp_claim env a (cr_id row) s = (raw, s1)" by fastforce
  note c1 = stamp_claim_commands[OF st]
  have "cr_attempt row < MAX_ATTEMPT"
    by (rule pending_open[OF "1.prems"(2-4)])
  then have ok1: "queue_ok s1" using stamp_claim_ok[OF "1.prems"(2,3) _ st] by simp
  from "1.prems"(1) st show ?case
  proof (cases rule: hydration_loop_cases)
    case claimed
    then show ?thesis using c1[of i] "1.prems"(3-5) by auto
  next
    case reverted
    then show ?thesis using c1[of i] "1.prems"(3-5) by (auto simp: revert_claim_def upd_command_def)
  next
    case (exhausted msg)
    then show ?thesis using c1[of i] "1.prems"(3-5) by (auto simp: retire_unhydrated_commands)
  next
    case (retry h msg row')
    let ?s2 = "retire_unhydrated row msg s1"
    note ok2 = retire_unhydrated_ok[OF ok1, of row msg]
    have "\<exists>r2. commands ?s2 i = Some r2 \<and> cr_attempt r2 = cr_attempt r \<and> (cr_status r \<noteq> Pending \<longrightarrow> r2 = r)"
      using c1[of i] "1.prems"(3-5) by (cases "i = cr_id row") (auto simp: retire_unhydrated_commands)
    then obtain r2 where r2: "commands ?s2 i = Some r2" "cr_attempt r2 = cr_attempt r" "cr_status r \<noteq> Pending \<longrightarrow> r2 = r"
      by blast
    from "1.IH"[OF st[symmetric] retry(1-4) refl retry(5,6) ok2 selected_row(1,2)[OF ok2 retry(5)] r2(1)]
    show ?thesis using r2(2,3) by auto
  qed
qed

lemma claim_next_frame:
  assumes "claim_next env a lc nw ws s = Inr (res, s')" and "queue_ok s" and "commands s i = Some r"
  shows "\<exists>r'. commands s' i = Some r' \<and> cr_attempt r' = cr_attempt r \<and> (cr_status r \<noteq> Pending \<longrightarrow> r' = r)"
proof (cases "select_eligible_row_nowait a lc nw ws s")
  case None
  with assms show ?thesis by (simp add: claim_next_def)
next
  case (Some row)
  with assms(1) have "hydration_loop env a lc nw ws row 0 s = Inr (res, s')" by (simp add: claim_next_def)
  from hydration_loop_frame[OF this assms(2) selected_row(1,2)[OF assms(2) Some] assms(3)] show ?thesis .
qed

text \<open>A claim hands out a command that was pending.\<close>

lemma hydration_loop_from_pending:
  assumes "hydration_loop env a lc nw ws row n s = Inr (Some c, s')" and "queue_ok s"
    and "commands s (cr_id row) = Some row" and "cr_status row = Pending"
  shows "\<exists>r. commands s (cc_command_id c) = Some r \<and> cr_status r = Pending"
  using assms
proof (induction env a lc nw ws row n s rule: hydration_loop.induct)
  case (1 env a lc nw ws row n s)
  obtain raw s1 where st: "stamp_claim env a (cr_id row) s = (raw, s1)" by fastforce
  note c1 = stamp_claim_commands[OF st]
  have "cr_attempt row < MAX_ATTEMPT"
    by (rule pending_open[OF "1.prems"(2-4)])
  then have ok1: "queue_ok s1" using stamp_claim_ok[OF "1.prems"(2,3) _ st] by simp
  from "1.prems"(1) st show ?case
  proof (cases rule: hydration_loop_cases)
    case (claimed c' pl)
    then show ?thesis using "1.prems"(3,4) by (auto simp: build_command_def split: if_splits)
  next
    case (retry h msg row')
    let ?s2 = "retire_unhydrated row msg s1"
    note ok2 = retire_unhydrated_ok[OF ok1, of row msg]
    obtain r where "commands ?s2 (cc_command_id c) = Some r" "cr_status r = Pending"
      using "1.IH"[OF st[symmetric] retry(1-4) refl retry(5,6) ok2 selected_row(1,2)[OF ok2 retry(5)]] by blast
    then show ?thesis using c1 by (auto simp: retire_unhydrated_commands split: if_splits)
  qed auto
qed

lemma claim_next_from_pending:
  assumes "claim_next env a lc nw ws s = Inr (Some c, s')" and "queue_ok s"
  shows "\<exists>r. commands s (cc_command_id c) = Some r \<and> cr_status r = Pending"
proof (cases "select_eligible_row_nowait a lc nw ws s")
  case None
  with assms show ?thesis by (simp add: claim_next_def)
next
  case (Some row)
  with assms(1) have "hydration_loop env a lc nw ws row 0 s = Inr (Some c, s')" by (simp add: claim_next_def)
  then show ?thesis using hydration_loop_from_pending assms(2) selected_row(1,2)[OF assms(2) Some] by blast
qed

text \<open>The lease sweep, row by row.\<close>

lemma fold_requeue_commands:
  assumes "distinct (map cr_id rs)"
  shows "commands (fold (\<lambda>r. upd_command (cr_id r) requeue_row) rs s) c =
    (if c \<in> cr_id ` set rs then map_option requeue_row (commands s c) else commands s c)"
  using assms by (induction rs arbitrary: s) (auto simp: upd_command_def)

lemma select_ids_distinct:
  assumes "keyed_rows key n t"
  shows "distinct (map key (select t n P))"
proof -
  have "m \<le> n \<Longrightarrow> distinct (map key (select t m P)) \<and> (\<forall>k \<in> set (map key (select t m P)). k < m)" for m
  proof (induction m)
    case (Suc m)
    then show ?case using keyed_rowsD[OF assms] by (fastforce split: option.splits)
  qed simp
  then show ?thesis by blast
qed

lemma requeue_commands:
  assumes "queue_ok s" and "commands s c = Some r"
  shows "commands (snd (requeue_stale_claimed s)) c =
     Some (if stale_claim (now s - LEASE_SECONDS) r then requeue_row r else r)"
proof -
  note k = queue_ok_keyed[OF assms(1)]
  let ?stale = "select (commands s) (next_id s) (stale_claim (now s - LEASE_SECONDS))"
  have "c \<in> cr_id ` set ?stale \<longleftrightarrow> stale_claim (now s - LEASE_SECONDS) r"
  proof -
    have "cr_id r = c" using keyed_rowsD[OF k assms(2)] by simp
    with assms(2) show ?thesis unfolding image_iff keyed_select_mem[OF k]
      by (metis (no_types, lifting) keyed_select_mem[OF k] option.inject)
  qed
  then show ?thesis
    using fold_requeue_commands[OF select_ids_distinct[OF k], of _ s c] assms(2)
    by (simp add: requeue_stale_claimed_def Let_def)
qed

text \<open>
  A command is requeued since its count was \<open>n\<close> only by the sweep, which raises the count; as long as it is not,
  it is not pending and keeps the token hash \<open>h\<close>.
\<close>

definition held_row :: "nat \<Rightarrow> string \<Rightarrow> command_row \<Rightarrow> bool" where
  "held_row n h r \<longleftrightarrow> n \<le> cr_attempt r \<and>
     (cr_attempt r = n \<longrightarrow> cr_status r \<noteq> Pending \<and> cr_completion_token_hash r = Some h)"

definition held_since :: "uuid \<Rightarrow> nat \<Rightarrow> string \<Rightarrow> 'a gateway_db_scheme \<Rightarrow> bool" where
  "held_since c n h s \<longleftrightarrow> (\<exists>r. commands s c = Some r \<and> held_row n h r)"

lemma held_since_upd:
  "held_since c n h s \<Longrightarrow> (\<And>r. held_row n h r \<Longrightarrow> held_row n h (f r)) \<Longrightarrow> held_since c n h (upd_command i f s)"
  by (auto simp: held_since_def upd_command_def)

lemma queue_step_held:
  assumes "queue_step env s s'" and "queue_ok s" and "held_since c n h s"
  shows "held_since c n h s'"
  using assms
proof (induction rule: queue_step.induct)
  case (q_enqueue cmd s org rid s')
  then show ?case
    by (auto simp: held_since_def enqueue_command_def enqueue_command_payload_def Let_def split: if_splits)
next
  case (q_claim a lc nw ws s res s')
  then obtain r where r: "commands s c = Some r" "held_row n h r" by (auto simp: held_since_def)
  show ?case using claim_next_frame[OF q_claim.hyps q_claim.prems(1) r(1)] r(2)
    by (auto simp: held_since_def held_row_def)
next
  case (q_requeue s)
  then obtain r where r: "commands s c = Some r" "held_row n h r" by (auto simp: held_since_def)
  have ok: "command_ok r" using q_requeue.prems(1) r(1) by (auto simp: queue_ok_def cmd.all_rows_def)
  have "held_row n h (requeue_row r)" if "stale_claim (now s - LEASE_SECONDS) r"
    using that ok r(2)
    by (auto simp: held_row_def requeue_row_def stale_claim_def command_ok_def MAX_ATTEMPT_def)
  then show ?case using requeue_commands[OF q_requeue.prems(1) r(1)] r(2) by (simp add: held_since_def)
next
  case (q_tick s t k)
  then show ?case by (simp add: held_since_def)
next
  case (q_received s i)
  then show ?case unfolding acknowledge_command_received_def
    by (intro held_since_upd) (auto simp: held_row_def split: if_splits)
qed (auto simp: pin_command_to_agent_def retire_command_def held_row_def intro!: held_since_upd)

lemma queue_steps_held:
  assumes "(queue_step env)\<^sup>*\<^sup>* s s'" and "queue_ok s" and "held_since c n h s"
  shows "queue_ok s' \<and> held_since c n h s'"
  using assms by (induction rule: rtranclp_induct) (auto intro: queue_step_ok queue_step_held)

text \<open>What a claim guarantees from then on: the row of the command until it is requeued.\<close>

lemma claim_then_steps:
  assumes "claim_next env a lc nw ws s = Inr (Some c, s')" and "queue_ok s" and "(queue_step env)\<^sup>*\<^sup>* s' t"
  shows "\<exists>r rt. commands s' (cc_command_id c) = Some r \<and> cr_status r = Claimed \<and> cr_agent_id r = Some a \<and>
           cr_completion_token_hash r = Some (sha256 env (cc_completion_token c)) \<and> queue_ok t \<and>
           commands t (cc_command_id c) = Some rt \<and> held_row (cr_attempt r) (sha256 env (cc_completion_token c)) rt"
proof -
  from claim_next_Some[OF assms(1,2)] obtain r where
    r: "commands s' (cc_command_id c) = Some r" "cr_status r = Claimed" "cr_agent_id r = Some a"
      "cr_completion_token_hash r = Some (sha256 env (cc_completion_token c))" by blast
  then have "held_since (cc_command_id c) (cr_attempt r) (sha256 env (cc_completion_token c)) s'"
    by (simp add: held_since_def held_row_def)
  from queue_steps_held[OF assms(3) claim_next_ok[OF assms(1,2)] this] r show ?thesis
    by (auto simp: held_since_def)
qed

text \<open>C14. A claim hands out exclusive work: the returned command was pending and is now recorded as claimed by
  this agent, with the hash of the completion token it was given. Whatever enqueues, claims of any agents,
  acknowledgements, retirements, lease sweeps and ticks of the clock follow, the command stays in the table, its
  count of attempts never falls, and as long as the count is the one of this claim (only the lease sweep requeues
  a command, and it raises the count) no agent's selection returns it and no agent's claim hands it out.\<close>

theorem claim_is_exclusive:
  assumes "claim_next env a lc nw ws s = Inr (Some c, s')" and "queue_ok s" and "(queue_step env)\<^sup>*\<^sup>* s' t"
  shows "\<exists>q r rt. commands s (cc_command_id c) = Some q \<and> cr_status q = Pending \<and>
           commands s' (cc_command_id c) = Some r \<and> cr_status r = Claimed \<and> cr_agent_id r = Some a \<and>
           cr_completion_token_hash r = Some (sha256 env (cc_completion_token c)) \<and>
           commands t (cc_command_id c) = Some rt \<and> cr_attempt r \<le> cr_attempt rt \<and>
           (cr_attempt rt = cr_attempt r \<longrightarrow>
              (\<forall>b lc' nw' ws'. (\<forall>p. select_eligible_row_nowait b lc' nw' ws' t = Some p \<longrightarrow> cr_id p \<noteq> cc_command_id c) \<and>
                 (\<forall>c' u. claim_next env b lc' nw' ws' t = Inr (Some c', u) \<longrightarrow> cc_command_id c' \<noteq> cc_command_id c)))"
proof -
  obtain r rt where r: "commands s' (cc_command_id c) = Some r" "cr_status r = Claimed" "cr_agent_id r = Some a"
      "cr_completion_token_hash r = Some (sha256 env (cc_completion_token c))" and ok: "queue_ok t"
    and rt: "commands t (cc_command_id c) = Some rt" "cr_attempt r \<le> cr_attempt rt"
      "cr_attempt rt = cr_attempt r \<longrightarrow> cr_status rt \<noteq> Pending"
    using claim_then_steps[OF assms] by (auto simp: held_row_def)
  have "cr_id p \<noteq> cc_command_id c"
    if "select_eligible_row_nowait b lc' nw' ws' t = Some p" "cr_status rt \<noteq> Pending" for b lc' nw' ws' p
    using selected_row(1,2)[OF ok that(1)] rt(1) that(2) by auto
  moreover have "cc_command_id c' \<noteq> cc_command_id c"
    if "claim_next env b lc' nw' ws' t = Inr (Some c', u)" "cr_status rt \<noteq> Pending" for b lc' nw' ws' c' u
    using claim_next_from_pending[OF that(1) ok] rt(1) that(2) by auto
  ultimately show ?thesis using claim_next_from_pending[OF assms(1,2)] r rt by blast
qed

text \<open>C16. One claim call always ends, whatever the credential plug-ins answer: it returns a command,
  or none, or the unknown-kind error, and it emits at most five failure events for commands whose
  credentials are unavailable.\<close>

theorem claim_terminates:
  assumes "queue_ok s"
  shows "(\<exists>res s' ts. claim_next env a lc nw ws s = Inr (res, s') \<and> outbox s' = outbox s @ ts \<and> length ts \<le> 5) \<or>
         claim_next env a lc nw ws s = Inl (ValueError ''unknown command kind'')"
proof (cases "claim_next env a lc nw ws s")
  case (Inl e)
  have "hydration_loop env a lc nw ws row n s = Inl e \<Longrightarrow> e = ValueError ''unknown command kind''" for row n s
  proof (induction env a lc nw ws row n s rule: hydration_loop.induct)
    case (1 env a lc nw ws row n s)
    obtain raw s1 where st: "stamp_claim env a (cr_id row) s = (raw, s1)" by fastforce
    show ?case using "1.prems" "1.IH"[OF st[symmetric]]
      unfolding hydration_loop.simps[of env a lc nw ws row n s] st prod.case Let_def
      by (auto simp: build_command_def res_simps split: option.splits sum.splits if_splits)
  qed
  with Inl show ?thesis by (auto simp: claim_next_def split: option.splits)
next
  case (Inr p)
  obtain res s' where p: "p = (res, s')" by fastforce
  show ?thesis
  proof (cases "select_eligible_row_nowait a lc nw ws s")
    case None
    with Inr p show ?thesis by (simp add: claim_next_def)
  next
    case (Some row)
    with Inr p have "hydration_loop env a lc nw ws row 0 s = Inr (res, s')" by (simp add: claim_next_def)
    from hydration_loop_outbox[OF this assms] selected_row[OF assms Some] show ?thesis
      using Inr p by (auto simp: HYDRATION_RETIRE_CAP_def)
  qed
qed

lemma map_of_filter_out: "k \<notin> ks \<Longrightarrow> map_of (filter (\<lambda>(k, v). k \<notin> ks) xs) k = map_of xs k"
  by (induction xs) auto

text \<open>Enqueue round trip: a command that is enqueued can be read back with its organisation, the
  envelope entries are the ones the gateway set, whatever the payload carried under those names, and
  every other field of the command comes back as it was given.\<close>

theorem enqueue_round_trip:
  assumes "enqueue_command org c rid s = Inr s'"
  shows "\<exists>pl. get_command_org_and_payload (ac_command_id c) s' = Some (org, pl) \<and>
    get_command_status (ac_command_id c) s' = Some Pending \<and> get_command_run_id (ac_command_id c) s' = rid \<and>
    map_of pl ''kind'' = Some (JStr (kind_str (ac_kind c))) \<and>
    map_of pl ''command_id'' = Some (JId (ac_command_id c)) \<and> map_of pl ''run_id'' = Some (jopt JId rid) \<and>
    (\<forall>k. k \<notin> set ENVELOPE_KEYS \<longrightarrow> map_of pl k = map_of (ac_fields c) k)"
proof -
  define w where "w = (case ac_workspace_id c of None \<Rightarrow> None | Some w \<Rightarrow> if w = NIL_UUID then None else Some w)"
  define tp where "tp = (case current_traceparent s of Some tp \<Rightarrow> tp | None \<Rightarrow> or_else (Some (ac_traceparent c)) [])"
  define pl where "pl = dict_merge (filter (\<lambda>(k, v). k \<notin> set ENVELOPE_KEYS) (ac_fields c))
      (envelope (ac_command_id c) (ac_kind c) w tp rid)"
  have row: "get_command_org_and_payload (ac_command_id c) s' = Some (org, pl)"
    "get_command_status (ac_command_id c) s' = Some Pending" "get_command_run_id (ac_command_id c) s' = rid"
    using assms
    by (auto simp: enqueue_command_def enqueue_command_payload_def Let_def get_command_org_and_payload_def
        get_command_status_def get_command_run_id_def pl_def w_def tp_def split: if_splits)
  have env: "map_of pl ''kind'' = Some (JStr (kind_str (ac_kind c)))"
    "map_of pl ''command_id'' = Some (JId (ac_command_id c))" "map_of pl ''run_id'' = Some (jopt JId rid)"
    by (cases w; simp add: pl_def map_of_dict_merge envelope_def)+
  have "map_of pl k = map_of (ac_fields c) k" if "k \<notin> set ENVELOPE_KEYS" for k
  proof -
    have "map_of (rev (envelope (ac_command_id c) (ac_kind c) w tp rid)) k = None"
      using that by (cases w) (auto simp: envelope_def ENVELOPE_KEYS_def)
    moreover have "map_of (filter (\<lambda>(k, v). k \<notin> set ENVELOPE_KEYS) (ac_fields c)) k = map_of (ac_fields c) k"
      using that by (rule map_of_filter_out)
    ultimately show ?thesis by (simp add: pl_def map_of_dict_merge)
  qed
  with row env show ?thesis by blast
qed

section \<open>The lease sweep\<close>

text \<open>The lease sweep touches exactly the claims that are older than the lease: each of them goes
  back to pending with one more attempt and no agent, or is closed when its attempts are used up;
  every other command is left alone.\<close>

theorem lease_sweep:
  assumes "queue_ok s" and "commands s c = Some r"
  shows "\<exists>r'. commands (snd (requeue_stale_claimed s)) c = Some r' \<and>
    (if cr_status r = Claimed \<and> (\<exists>t. cr_claimed_at r = Some t \<and> t < now s - 30)
     then (cr_attempt r < 4 \<and> cr_status r' = Pending \<and> cr_agent_id r' = None \<and> cr_attempt r' = cr_attempt r + 1) \<or>
          (4 \<le> cr_attempt r \<and> cr_status r' = Done \<and> cr_attempt r' = 5)
     else r' = r)"
  using requeue_commands[OF assms]
  by (auto simp: stale_claim_def requeue_row_def LEASE_SECONDS_def MAX_ATTEMPT_def split: option.splits)

text \<open>
  A pinned command loses its agent when its lease runs out, and only commands that create a
  workspace are ever given to an agent without a pin: nobody is offered it again.
\<close>

theorem requeued_pinned_command_is_stuck:
  assumes "queue_ok s" and "commands s c = Some r" and "stale_claim (now s - LEASE_SECONDS) r"
    and "cr_kind r \<noteq> PROVISION_WORKSPACE" and "cr_attempt r < 4"
  shows "\<exists>r'. commands (snd (requeue_stale_claimed s)) c = Some r' \<and> cr_status r' = Pending \<and>
           (\<forall>a lc nw ws. \<not> eligible a lc nw ws r')"
  using requeue_commands[OF assms(1,2)] assms(3-)
  by (auto simp: requeue_row_def MAX_ATTEMPT_def eligible_def agent_scoped_def unassigned_provision_def pinned_for_def)

text \<open>A request for a new workspace carries no pin, and the selection does not look at the
  organisation: an agent of any organisation with room is offered it.\<close>

theorem provision_offered_across_orgs:
  assumes "lc \<noteq> Unconfigured" and "0 < nw" and "cr_status r = Pending" and "cr_kind r = PROVISION_WORKSPACE"
    and "cr_agent_id r = None"
  shows "eligible a lc nw ws (r\<lparr>cr_org_id := org\<rparr>)"
  using assms by (simp add: eligible_def unassigned_provision_def)

section \<open>Samples\<close>

definition sample_gateway_env :: gateway_env where
  "sample_gateway_env = \<lparr>sha256 = rev, token_urlsafe = (\<lambda>n. replicate n (CHR ''t'')), hydrator = (\<lambda>_. None)\<rparr>"

definition blank_gateway :: gateway_db where
  "blank_gateway =
     \<lparr>now = 100, next_id = 2, outbox = [], audits = [], sse_pending = [], notifications = [],
      memberships = [], oauth_identities = [], orgs = Map.empty, current_traceparent = None, commands = Map.empty,
      agents = Map.empty, bearers = Map.empty\<rparr>"

definition sample_agent_command :: agent_command where
  "sample_agent_command = \<lparr>ac_kind = PROVISION_WORKSPACE, ac_command_id = 1, ac_workspace_id = Some 9,
     ac_traceparent = [], ac_fields = [(''history'', JNum 1), (''kind'', JStr ''spoofed'')]\<rparr>"

definition one_command :: gateway_db where
  "one_command = (case enqueue_command 3 sample_agent_command (Some 5) blank_gateway of Inr s \<Rightarrow> s | Inl _ \<Rightarrow> blank_gateway)"

lemma one_command_enqueued: "enqueue_command 3 sample_agent_command (Some 5) blank_gateway = Inr one_command"
  by (simp add: one_command_def enqueue_command_def enqueue_command_payload_def Let_def blank_gateway_def)

lemma blank_gateway_ok [simp]: "queue_ok blank_gateway"
  by (simp add: queue_ok_def keyed_rows_def cmd.all_rows_def blank_gateway_def)

lemma one_command_ok [simp]: "queue_ok one_command"
  using enqueue_command_ok[OF one_command_enqueued blank_gateway_ok] by (simp add: blank_gateway_def sample_agent_command_def)

lemma one_command_row:
  "\<exists>r. commands one_command 1 = Some r \<and> cr_id r = 1 \<and> unassigned_provision r \<and> cr_attempt r = 0"
  by (simp add: one_command_def enqueue_command_def enqueue_command_payload_def Let_def blank_gateway_def
      sample_agent_command_def unassigned_provision_def)

lemma one_command_selected:
  "\<exists>r. select_eligible_row_nowait 7 Active 1 [] one_command = Some r \<and> cr_kind r = PROVISION_WORKSPACE"
  by (simp add: select_eligible_row_nowait_def agent_scoped_def unassigned_provision_def one_command_def
      enqueue_command_def enqueue_command_payload_def Let_def blank_gateway_def sample_agent_command_def)

lemma one_command_claimed:
  "\<exists>c s'. claim_next sample_gateway_env 7 Active 1 [] one_command = Inr (Some c, s')"
proof -
  obtain r where "select_eligible_row_nowait 7 Active 1 [] one_command = Some r" "cr_kind r = PROVISION_WORKSPACE"
    using one_command_selected by blast
  then show ?thesis
    by (simp add: claim_next_def hydration_loop.simps[of _ _ _ _ _ r] sample_gateway_env_def stamp_claim_def
        fresh_def Let_def build_command_def COMMAND_ADAPTER_def)
qed

theorem command_queue_invariant_witness:
  "\<exists>c s' r. claim_next sample_gateway_env 7 Active 1 [] one_command = Inr (Some c, s') \<and>
     commands s' (cc_command_id c) = Some r \<and> cr_status r = Claimed \<and> cr_claimed_at r \<noteq> None"
proof -
  obtain c s' where c: "claim_next sample_gateway_env 7 Active 1 [] one_command = Inr (Some c, s')"
    using one_command_claimed by blast
  then obtain r where r: "commands s' (cc_command_id c) = Some r" "cr_status r = Claimed"
    using claim_next_Some[OF c one_command_ok] by blast
  from q_claim[OF c] have "(queue_step sample_gateway_env)\<^sup>*\<^sup>* one_command s'" by (rule r_into_rtranclp)
  from command_queue_invariant[OF this one_command_ok r(1)] c r show ?thesis by blast
qed

theorem claim_order_witness:
  "\<exists>r. select_eligible_row_nowait 7 Active 1 [] one_command = Some r \<and> cr_id r \<le> 1"
proof -
  obtain q where q: "commands one_command 1 = Some q" "unassigned_provision q"
    using one_command_row by blast
  obtain r where r: "select_eligible_row_nowait 7 Active 1 [] one_command = Some r" "cr_kind r = PROVISION_WORKSPACE"
    using one_command_selected by blast
  have "\<not> agent_scoped 7 r" using r(2) by (simp add: agent_scoped_def)
  then have "bucket 7 Active 1 r \<noteq> 0" by (simp add: bucket_def)
  moreover have "bucket 7 Active 1 q \<le> 1" "eligible 7 Active 1 [] q" using q(2) by (simp_all add: bucket_def eligible_def)
  moreover have "(bucket 7 Active 1 r, cr_id r) \<le> (bucket 7 Active 1 q, 1)"
    using claim_order[OF one_command_ok, of 7 Active 1 "[]"] r(1) q(1) calculation(3) by blast
  ultimately show ?thesis using r(1) by (auto simp: less_eq_prod_def)
qed

theorem claim_is_exclusive_witness:
  "\<exists>c s' rt. claim_next sample_gateway_env 7 Active 1 [] one_command = Inr (Some c, s') \<and>
     commands (acknowledge_command_received 1 s') (cc_command_id c) = Some rt \<and>
     (cr_attempt rt = 0 \<longrightarrow> (\<forall>p. select_eligible_row_nowait 8 Active 1 [] (acknowledge_command_received 1 s') = Some p \<longrightarrow>
        cr_id p \<noteq> cc_command_id c))"
proof -
  obtain c s' where c: "claim_next sample_gateway_env 7 Active 1 [] one_command = Inr (Some c, s')"
    using one_command_claimed by blast
  have "(queue_step sample_gateway_env)\<^sup>*\<^sup>* s' (acknowledge_command_received 1 s')"
    by (rule r_into_rtranclp) (rule q_received)
  from claim_is_exclusive[OF c one_command_ok this] obtain rt n where
    "commands (acknowledge_command_received 1 s') (cc_command_id c) = Some rt" "n \<le> cr_attempt rt"
    "cr_attempt rt = n \<longrightarrow> (\<forall>p. select_eligible_row_nowait 8 Active 1 [] (acknowledge_command_received 1 s') = Some p \<longrightarrow>
        cr_id p \<noteq> cc_command_id c)" by blast
  moreover from this(2) have "cr_attempt rt = 0 \<longrightarrow> cr_attempt rt = n" by simp
  ultimately show ?thesis using c by (intro exI[of _ c] exI[of _ s'] exI[of _ rt] conjI) simp_all
qed

theorem claim_terminates_witness:
  "\<exists>res s' ts. claim_next sample_gateway_env 7 Active 1 [] one_command = Inr (res, s') \<and>
     outbox s' = outbox one_command @ ts \<and> length ts \<le> 5"
  using claim_terminates[OF one_command_ok, of sample_gateway_env 7 Active 1 "[]"] one_command_claimed by auto

theorem enqueue_round_trip_witness:
  "\<exists>pl. get_command_org_and_payload 1 one_command = Some (3, pl) \<and>
     map_of pl ''kind'' = Some (JStr ''ProvisionWorkspace'') \<and> map_of pl ''history'' = Some (JNum 1)"
  using enqueue_round_trip[OF one_command_enqueued]
  by (simp add: sample_agent_command_def ENVELOPE_KEYS_def) force

theorem lease_sweep_witness:
  "\<exists>r. commands one_command 1 = Some r \<and> commands (snd (requeue_stale_claimed one_command)) 1 = Some r"
proof -
  obtain r where r: "commands one_command 1 = Some r" "unassigned_provision r" using one_command_row by blast
  from lease_sweep[OF one_command_ok r(1)] r show ?thesis by (auto simp: unassigned_provision_def)
qed

end
