(* ===== verification/Workspace.thy ===== *)
theory Workspace
  imports Gateway
begin

text \<open>
  Workspace rows and their single-flight claim: \<^verbatim>\<open>core/workspace/dispatch.py\<close> (claim, release and
  the dispatch helpers the run engine calls), \<^verbatim>\<open>core/workspace/agent_report.py\<close> (what agent events
  do to a workspace row) and \<^verbatim>\<open>core/workspace/service.py\<close> (closing, the agent-loss failsafe).

  Parameters (record \<open>workspace_env\<close>): the registered workspace providers with the outcome of their
  \<^verbatim>\<open>destroy\<close>, and the VCS credential calls, which reach the VCS host.
\<close>

section \<open>Rows\<close>

datatype workspace_status = WActive | WExpired | WDestroying | WDestroyed | WDestroyFailed

record workspace_row =
  ws_id :: uuid
  ws_org_id :: uuid
  ws_owning_agent_id :: "uuid option"
  ws_provider_id :: string
  ws_sha :: "string option"
  ws_status :: workspace_status
  ws_current_command_id :: "uuid option"
  ws_max_idle_seconds :: int
  ws_activated_at :: "timestamp option"
  ws_expires_at :: timestamp
  ws_destroyed_at :: "timestamp option"
  ws_destroy_attempts :: nat
  ws_last_destroy_attempt_at :: "timestamp option"
  ws_last_destroy_error :: "string option"

record workspace_db = gateway_db +
  workspaces :: "workspace_row table"

record workspace_env = gateway_env +
  providers :: "string list"
  provider_destroy :: "string \<Rightarrow> uuid \<Rightarrow> string option"
  get_install_credentials :: "string \<Rightarrow> uuid \<Rightarrow> string \<Rightarrow> (string \<times> string) res"
  get_installation_token :: "string \<Rightarrow> uuid \<Rightarrow> string res"

definition upd_workspace ::
  "uuid \<Rightarrow> (workspace_row \<Rightarrow> workspace_row) \<Rightarrow> 'a workspace_db_scheme \<Rightarrow> 'a workspace_db_scheme" where
  "upd_workspace i f s = s\<lparr>workspaces := modify i f (workspaces s)\<rparr>"

interpretation wks: row_store "workspaces :: 'a workspace_db_scheme \<Rightarrow> workspace_row table" upd_workspace
  by unfold_locales (simp add: upd_workspace_def)

fun status_str :: "workspace_status \<Rightarrow> string" where
  "status_str WActive = ''active''"
| "status_str WExpired = ''expired''"
| "status_str WDestroying = ''destroying''"
| "status_str WDestroyed = ''destroyed''"
| "status_str WDestroyFailed = ''destroy_failed''"

section \<open>Single-flight claim\<close>

definition claimable :: "workspace_row \<Rightarrow> bool" where
  "claimable w \<longleftrightarrow> ws_current_command_id w = None \<and> ws_status w = WActive"

definition try_claim ::
  "uuid \<Rightarrow> uuid \<Rightarrow> uuid option \<Rightarrow> 'a workspace_db_scheme \<Rightarrow> bool \<times> 'a workspace_db_scheme" where
  "try_claim workspace_id command_id agent_id s =
     (case workspaces s workspace_id of
        None \<Rightarrow> (False, s)
      | Some w \<Rightarrow>
          if claimable w
          then (True, upd_workspace workspace_id
                  (\<lambda>w. w\<lparr>ws_current_command_id := Some command_id,
                         ws_owning_agent_id := (case agent_id of None \<Rightarrow> ws_owning_agent_id w
                                                | Some a \<Rightarrow> Some a)\<rparr>) s)
          else (False, s))"

definition release_claim ::
  "uuid \<Rightarrow> uuid \<Rightarrow> 'a workspace_db_scheme \<Rightarrow> bool \<times> 'a workspace_db_scheme" where
  "release_claim workspace_id command_id s =
     (case workspaces s workspace_id of
        None \<Rightarrow> (False, s)
      | Some w \<Rightarrow>
          if ws_current_command_id w = Some command_id
          then (True, upd_workspace workspace_id (\<lambda>w. w\<lparr>ws_current_command_id := None\<rparr>) s)
          else (False, s))"

section \<open>Dispatch\<close>

record dispatch_context =
  dc_run_id :: uuid
  dc_ticket_id :: uuid
  dc_stage_execution_id :: uuid
  dc_attempt :: nat
  dc_traceparent :: "string option"
  dc_user_id :: "uuid option"

definition dispatch_via_workspace ::
  "agent_command \<Rightarrow> uuid \<Rightarrow> dispatch_context \<Rightarrow> bool \<Rightarrow> 'a workspace_db_scheme \<Rightarrow>
   (uuid \<times> 'a workspace_db_scheme) res" where
  "dispatch_via_workspace command workspace_id ctx claim_workspace s =
     (case workspaces s workspace_id of
        None \<Rightarrow> Inl (WorkspaceNotFoundError workspace_id)
      | Some w \<Rightarrow>
          ebind (enqueue_command (ws_org_id w) command (Some (dc_run_id ctx)) s) (\<lambda>s1.
          let s2 = (case ws_owning_agent_id w of None \<Rightarrow> s1
                    | Some a \<Rightarrow> pin_command_to_agent (ac_command_id command) a s1) in
          if claim_workspace then
            (case try_claim workspace_id (ac_command_id command) None s2 of
               (True, s3) \<Rightarrow> Inr (ac_command_id command, s3)
             | (False, _) \<Rightarrow> Inl (WorkspaceClaimFailed workspace_id))
          else Inr (ac_command_id command, s2)))"

record provision_workspace_spec =
  pw_workspace_id :: uuid
  pw_org_id :: uuid
  pw_plugin_id :: string
  pw_repo_external_id :: string
  pw_head_sha :: "string option"
  pw_branch_name :: "string option"
  pw_base_sha :: "string option"

definition provision_fields :: "provision_workspace_spec \<Rightarrow> string \<Rightarrow> string \<Rightarrow> payload" where
  "provision_fields spec clone_url token =
     [(''repo'', JObj [(''plugin_id'', JStr (pw_plugin_id spec)),
                       (''external_id'', JStr (pw_repo_external_id spec)),
                       (''clone_url'', JStr clone_url),
                       (''head_sha'', jopt JStr (pw_head_sha spec)),
                       (''branch_name'', jopt JStr (pw_branch_name spec)),
                       (''base_sha'', jopt JStr (pw_base_sha spec))]),
      (''history'', JNum 1),
      (''auth'', JObj [(''kind'', JStr ''github_installation''), (''token'', JStr token)]),
      (''ttl_seconds'', JNum 600), (''max_idle_seconds'', JNum 600)]"

definition dispatch_provision_workspace ::
  "uuid \<Rightarrow> uuid \<Rightarrow> payload \<Rightarrow> string \<Rightarrow> uuid option \<Rightarrow> 'a gateway_db_scheme \<Rightarrow>
   (uuid \<times> 'a gateway_db_scheme) res" where
  "dispatch_provision_workspace org_id workspace_id cmd_fields traceparent run_id s =
     (case fresh s of (command_id, s1) \<Rightarrow>
        ebind (enqueue_command org_id
                 \<lparr>ac_kind = PROVISION_WORKSPACE, ac_command_id = command_id,
                  ac_workspace_id = Some workspace_id, ac_traceparent = traceparent,
                  ac_fields = cmd_fields\<rparr> run_id s1)
          (\<lambda>s2. Inr (command_id, s2)))"

definition dispatch_provision ::
  "'e workspace_env_scheme \<Rightarrow> provision_workspace_spec \<Rightarrow> dispatch_context \<Rightarrow>
   'a gateway_db_scheme \<Rightarrow> (uuid \<times> 'a gateway_db_scheme) res" where
  "dispatch_provision env spec ctx s =
     ebind (guard (providers env \<noteq> []) NoWorkspaceProvider) (\<lambda>_.
     ebind (get_install_credentials env (pw_plugin_id spec) (pw_org_id spec) (pw_repo_external_id spec))
       (\<lambda>(clone_url, token).
     dispatch_provision_workspace (pw_org_id spec) (pw_workspace_id spec)
       (provision_fields spec clone_url token) (or_else (dc_traceparent ctx) [])
       (Some (dc_run_id ctx)) s))"

definition dispatch_cleanup ::
  "uuid \<Rightarrow> dispatch_context \<Rightarrow> 'a workspace_db_scheme \<Rightarrow> (uuid \<times> 'a workspace_db_scheme) res" where
  "dispatch_cleanup workspace_id ctx s =
     (case fresh s of (command_id, s1) \<Rightarrow>
        dispatch_via_workspace
          \<lparr>ac_kind = CLEANUP_WORKSPACE, ac_command_id = command_id, ac_workspace_id = Some workspace_id,
           ac_traceparent = or_else (dc_traceparent ctx) [], ac_fields = []\<rparr>
          workspace_id ctx False s1)"

definition dispatch_auth_refresh ::
  "'e workspace_env_scheme \<Rightarrow> uuid \<Rightarrow> dispatch_context \<Rightarrow> uuid \<Rightarrow> string \<Rightarrow>
   'a workspace_db_scheme \<Rightarrow> (uuid \<times> 'a workspace_db_scheme) res" where
  "dispatch_auth_refresh env workspace_id ctx org_id plugin_id s =
     ebind (get_installation_token env plugin_id org_id) (\<lambda>new_token.
       case fresh s of (command_id, s1) \<Rightarrow>
         dispatch_via_workspace
           \<lparr>ac_kind = REFRESH_WORKSPACE_AUTH, ac_command_id = command_id,
            ac_workspace_id = Some workspace_id, ac_traceparent = or_else (dc_traceparent ctx) [],
            ac_fields = [(''new_token'', JStr new_token)]\<rparr>
           workspace_id ctx False s1)"

definition dispatch_push ::
  "uuid \<Rightarrow> dispatch_context \<Rightarrow> 'a workspace_db_scheme \<Rightarrow> (uuid \<times> 'a workspace_db_scheme) res" where
  "dispatch_push workspace_id ctx s =
     (case fresh s of (command_id, s1) \<Rightarrow>
        dispatch_via_workspace
          \<lparr>ac_kind = PUSH_BRANCH, ac_command_id = command_id, ac_workspace_id = Some workspace_id,
           ac_traceparent = or_else (dc_traceparent ctx) [], ac_fields = []\<rparr>
          workspace_id ctx False s1)"

section \<open>Service reads and writes\<close>

definition audit_transition ::
  "uuid \<Rightarrow> uuid \<Rightarrow> workspace_status \<Rightarrow> workspace_status \<Rightarrow> string \<Rightarrow> string option \<Rightarrow>
   'a infra_scheme \<Rightarrow> 'a infra_scheme" where
  "audit_transition workspace_id org_id from_state to_state reason err =
     audit ''workspace'' workspace_id ''workspace.transitioned''
       (JObj [(''from_state'', JStr (status_str from_state)), (''to_state'', JStr (status_str to_state)),
              (''reason'', JStr reason), (''error'', jopt JStr err)])
       SystemActor org_id"

definition get_workspace_info :: "uuid \<Rightarrow> 'a workspace_db_scheme \<Rightarrow> workspace_row res" where
  "get_workspace_info workspace_id s =
     require (workspaces s workspace_id) (WorkspaceNotFoundError workspace_id)"

definition get_workspace_owner ::
  "uuid \<Rightarrow> 'a workspace_db_scheme \<Rightarrow> (uuid \<times> uuid option) option" where
  "get_workspace_owner workspace_id s =
     map_option (\<lambda>w. (ws_org_id w, ws_owning_agent_id w)) (workspaces s workspace_id)"

definition extend_expiry :: "uuid \<Rightarrow> int \<Rightarrow> 'a workspace_db_scheme \<Rightarrow> 'a workspace_db_scheme" where
  "extend_expiry workspace_id seconds s =
     upd_workspace workspace_id (\<lambda>w. w\<lparr>ws_expires_at := now s + seconds\<rparr>) s"

definition close_workspace :: "uuid \<Rightarrow> 'a workspace_db_scheme \<Rightarrow> 'a workspace_db_scheme" where
  "close_workspace workspace_id s =
     (case workspaces s workspace_id of
        None \<Rightarrow> s
      | Some w \<Rightarrow>
          if ws_status w = WActive then
            audit_transition workspace_id (ws_org_id w) WActive WExpired ''closed'' None
              (upd_workspace workspace_id (\<lambda>w. w\<lparr>ws_status := WExpired\<rparr>) s)
          else s)"

definition update_workspace_status ::
  "uuid \<Rightarrow> workspace_status \<Rightarrow> 'a workspace_db_scheme \<Rightarrow> 'a workspace_db_scheme" where
  "update_workspace_status workspace_id new_status =
     upd_workspace workspace_id (\<lambda>w. w\<lparr>ws_status := new_status\<rparr>)"

section \<open>Agent reports\<close>

datatype workspace_event_kind = WCreated | WReady | WExited | WsDestroyed | WFailed

fun kind_to_status :: "workspace_event_kind \<Rightarrow> workspace_status option" where
  "kind_to_status WReady = Some WActive"
| "kind_to_status WsDestroyed = Some WDestroyed"
| "kind_to_status WFailed = Some WDestroyFailed"
| "kind_to_status _ = None"

definition DEFAULT_TTL_SECONDS :: int where "DEFAULT_TTL_SECONDS = 600"

definition payload_int :: "payload \<Rightarrow> string \<Rightarrow> int \<Rightarrow> int" where
  "payload_int p k d = (case map_of p k of Some (JNum n) \<Rightarrow> if n = 0 then d else n | _ \<Rightarrow> d)"

definition payload_head_sha :: "payload \<Rightarrow> string option" where
  "payload_head_sha p =
     (case map_of p ''repo'' of
        Some (JObj r) \<Rightarrow> (case map_of r ''head_sha'' of Some (JStr x) \<Rightarrow> Some x | _ \<Rightarrow> None)
      | _ \<Rightarrow> None)"

definition payload_workspace_id :: "payload \<Rightarrow> uuid option" where
  "payload_workspace_id p = (case map_of p ''workspace_id'' of Some (JId w) \<Rightarrow> Some w | _ \<Rightarrow> None)"

definition resolve_provider_id :: "'e workspace_env_scheme \<Rightarrow> string" where
  "resolve_provider_id env = (case providers env of [] \<Rightarrow> ''remote_agent'' | p # _ \<Rightarrow> p)"

definition insert_lean_workspace_row ::
  "'e workspace_env_scheme \<Rightarrow> uuid \<Rightarrow> uuid \<Rightarrow> uuid option \<Rightarrow> payload \<Rightarrow>
   'a workspace_db_scheme \<Rightarrow> 'a workspace_db_scheme res" where
  "insert_lean_workspace_row env workspace_id org_id agent_id cmd_payload s =
     (if workspaces s workspace_id \<noteq> None \<or> agent_id = None then Inl IntegrityError
      else Inr (s\<lparr>workspaces := (workspaces s)(workspace_id \<mapsto>
        \<lparr>ws_id = workspace_id, ws_org_id = org_id, ws_owning_agent_id = agent_id,
         ws_provider_id = resolve_provider_id env, ws_sha = payload_head_sha cmd_payload,
         ws_status = WActive, ws_current_command_id = None,
         ws_max_idle_seconds = payload_int cmd_payload ''max_idle_seconds'' DEFAULT_TTL_SECONDS,
         ws_activated_at = Some (now s),
         ws_expires_at = now s + payload_int cmd_payload ''ttl_seconds'' DEFAULT_TTL_SECONDS,
         ws_destroyed_at = None, ws_destroy_attempts = 0, ws_last_destroy_attempt_at = None,
         ws_last_destroy_error = None\<rparr>)\<rparr>))"

definition materialise_provision_success ::
  "'e workspace_env_scheme \<Rightarrow> uuid \<Rightarrow> uuid \<Rightarrow> 'a workspace_db_scheme \<Rightarrow> 'a workspace_db_scheme res" where
  "materialise_provision_success env command_id agent_id s =
     (case get_command_org_and_payload command_id s of
        None \<Rightarrow> Inr s
      | Some (org_id, cmd_payload) \<Rightarrow>
          (case payload_workspace_id cmd_payload of
             None \<Rightarrow> Inr s
           | Some w \<Rightarrow>
               if workspaces s w \<noteq> None then Inr s
               else insert_lean_workspace_row env w org_id (Some agent_id) cmd_payload s))"

definition create_lean_workspace_row ::
  "'e workspace_env_scheme \<Rightarrow> uuid \<Rightarrow> uuid option \<Rightarrow> uuid option \<Rightarrow> 'a workspace_db_scheme \<Rightarrow>
   (bool \<times> 'a workspace_db_scheme) res" where
  "create_lean_workspace_row env workspace_id command_id agent_id s =
     (case command_id of
        None \<Rightarrow> Inr (False, s)
      | Some c \<Rightarrow>
          (case get_command_org_and_payload c s of
             None \<Rightarrow> Inr (False, s)
           | Some (org_id, cmd_payload) \<Rightarrow>
               ebind (insert_lean_workspace_row env workspace_id org_id agent_id cmd_payload s)
                 (\<lambda>s1. Inr (True, s1))))"

definition apply_workspace_event ::
  "'e workspace_env_scheme \<Rightarrow> uuid \<Rightarrow> uuid option \<Rightarrow> workspace_event_kind \<Rightarrow> uuid option \<Rightarrow>
   'a workspace_db_scheme \<Rightarrow> ((bool \<times> workspace_status option) \<times> 'a workspace_db_scheme) res" where
  "apply_workspace_event env workspace_id command_id kind agent_id s =
     (case workspaces s workspace_id of
        None \<Rightarrow>
          if kind \<in> {WCreated, WReady} then
            ebind (create_lean_workspace_row env workspace_id command_id agent_id s) (\<lambda>(created, s1).
              if created then Inr ((True, Some WActive), s1) else Inr ((False, None), s1))
          else Inr ((False, None), s)
      | Some w \<Rightarrow>
          if ws_current_command_id w \<noteq> None \<and> ws_current_command_id w \<noteq> command_id
          then Inr ((False, Some (ws_status w)), s)
          else (case kind_to_status kind of
                  None \<Rightarrow> Inr ((True, None), s)
                | Some st \<Rightarrow>
                    Inr ((True, Some st), upd_workspace workspace_id (\<lambda>w. w\<lparr>ws_status := st\<rparr>) s)))"

definition release_command_claim ::
  "uuid \<Rightarrow> 'a workspace_db_scheme \<Rightarrow> 'a workspace_db_scheme res" where
  "release_command_claim command_id s =
     (case select (workspaces s) (next_id s) (\<lambda>w. ws_current_command_id w = Some command_id) of
        [] \<Rightarrow> Inr s
      | [w] \<Rightarrow> Inr (snd (release_claim (ws_id w) command_id s))
      | _ \<Rightarrow> Inl MultipleResultsFound)"

definition reconcile_heartbeat :: "uuid list \<Rightarrow> 'a workspace_db_scheme \<Rightarrow> uuid list" where
  "reconcile_heartbeat reported_ids s =
     filter (\<lambda>i. case workspaces s i of None \<Rightarrow> True | Some w \<Rightarrow> ws_status w = WDestroyed) reported_ids"

end
