(* ===== verification/CodingAgent.thy ===== *)
theory CodingAgent
  imports Workspace
begin

text \<open>
  Coding-agent invocations (\<^verbatim>\<open>core/coding_agent/service.py\<close>, \<^verbatim>\<open>run_service.py\<close>,
  \<^verbatim>\<open>run_sink_impl.py\<close>) and the ingestion of agent events (\<^verbatim>\<open>record_agent_event\<close> of
  \<^verbatim>\<open>core/agent_gateway/service.py\<close>), which calls the workspace report sink and the coding-agent run
  sink in one transaction.

  A coding-agent plug-in is a parameter: the record \<open>coding_plugin\<close> of its compile, build and parse
  functions.
\<close>

section \<open>Plug-ins and rows\<close>

record invocation =
  iv_workspace_id :: uuid
  iv_skill :: string
  iv_model :: string
  iv_effort :: string
  iv_context :: json
  iv_wallclock_seconds :: int

record invoke_coding_agent =
  ic_argv :: "string list"
  ic_stdin :: "string option"
  ic_env :: "(string \<times> string) list"

record command_build_context =
  cb_command_id :: uuid
  cb_workspace_id :: uuid
  cb_traceparent :: string
  cb_org_id :: uuid
  cb_user_id :: "uuid option"
  cb_skill_path :: string
  cb_invocation_body :: json

record run_result =
  rr_output :: string
  rr_error_message :: "string option"
  rr_tokens_in :: "int option"
  rr_tokens_out :: "int option"
  rr_duration_ms :: "int option"
  rr_exit_code :: "int option"
  rr_activity :: json

record coding_plugin =
  pl_plugin_id :: string
  pl_command_kind :: agent_command_kind
  pl_compile_invocation :: "invocation \<Rightarrow> invoke_coding_agent res"
  pl_skill_path :: "string \<Rightarrow> string"
  pl_build_command :: "invoke_coding_agent \<Rightarrow> invocation \<Rightarrow> command_build_context \<Rightarrow> agent_command res"
  pl_parse_result :: "payload \<Rightarrow> run_result"

datatype ca_status = CaRunning | CaSuccess | CaFailure

record ca_run_row =
  ca_id :: uuid
  ca_org_id :: uuid
  ca_run_id :: uuid
  ca_stage_execution_id :: uuid
  ca_agent_command_id :: uuid
  ca_command_kind :: agent_command_kind
  ca_plugin_id :: string
  ca_status :: ca_status
  ca_tokens_in :: int
  ca_tokens_out :: int
  ca_duration_ms :: "int option"
  ca_exit_code :: "int option"
  ca_started_at :: timestamp
  ca_completed_at :: "timestamp option"

record coding_db = workspace_db +
  ca_runs :: "ca_run_row table"
  ca_activity :: "(uuid \<times> uuid \<times> json) list"

record coding_env = workspace_env +
  plugins :: "string \<Rightarrow> coding_plugin option"

definition get_plugin :: "'e coding_env_scheme \<Rightarrow> string \<Rightarrow> coding_plugin res" where
  "get_plugin env plugin_id = require (plugins env plugin_id) (PluginNotFoundError plugin_id)"

definition upd_ca_run ::
  "uuid \<Rightarrow> (ca_run_row \<Rightarrow> ca_run_row) \<Rightarrow> 'a coding_db_scheme \<Rightarrow> 'a coding_db_scheme" where
  "upd_ca_run i f s = s\<lparr>ca_runs := modify i f (ca_runs s)\<rparr>"

interpretation car: row_store "ca_runs :: 'a coding_db_scheme \<Rightarrow> ca_run_row table" upd_ca_run
  by unfold_locales (simp add: upd_ca_run_def)

section \<open>Coding-agent runs\<close>

definition create_run ::
  "uuid \<Rightarrow> uuid \<Rightarrow> uuid \<Rightarrow> uuid \<Rightarrow> agent_command_kind \<Rightarrow> string \<Rightarrow>
   'a coding_db_scheme \<Rightarrow> 'a coding_db_scheme" where
  "create_run org_id run_id stage_execution_id agent_command_id command_kind plugin_id s =
     (case fresh s of (i, s1) \<Rightarrow>
        s1\<lparr>ca_runs := (ca_runs s1)(i \<mapsto>
          \<lparr>ca_id = i, ca_org_id = org_id, ca_run_id = run_id,
           ca_stage_execution_id = stage_execution_id, ca_agent_command_id = agent_command_id,
           ca_command_kind = command_kind, ca_plugin_id = plugin_id, ca_status = CaRunning,
           ca_tokens_in = 0, ca_tokens_out = 0, ca_duration_ms = None, ca_exit_code = None,
           ca_started_at = now s1, ca_completed_at = None\<rparr>)\<rparr>)"

definition finalize_run ::
  "uuid \<Rightarrow> run_result \<Rightarrow> ca_status \<Rightarrow> 'a coding_db_scheme \<Rightarrow> 'a coding_db_scheme" where
  "finalize_run run_id result status s =
     (let row = ca_runs s run_id;
          wallclock_ms = map_option (\<lambda>r. max 0 ((now s - ca_started_at r) * 1000)) row;
          duration = (case rr_duration_ms result of Some d \<Rightarrow> Some d | None \<Rightarrow> wallclock_ms);
          s1 = upd_ca_run run_id
                 (\<lambda>r. r\<lparr>ca_status := status, ca_exit_code := rr_exit_code result,
                        ca_tokens_in := (case rr_tokens_in result of None \<Rightarrow> 0 | Some n \<Rightarrow> n),
                        ca_tokens_out := (case rr_tokens_out result of None \<Rightarrow> 0 | Some n \<Rightarrow> n),
                        ca_duration_ms := duration, ca_completed_at := Some (now s)\<rparr>) s
      in case row of
           None \<Rightarrow> s1
         | Some r \<Rightarrow> s1\<lparr>ca_activity := ca_activity s1 @ [(run_id, ca_org_id r, rr_activity result)]\<rparr>)"

definition one_or_none :: "'r list \<Rightarrow> 'r option res" where
  "one_or_none rs = (case rs of [] \<Rightarrow> Inr None | [r] \<Rightarrow> Inr (Some r) | _ \<Rightarrow> Inl MultipleResultsFound)"

definition get_run_ref_for_command ::
  "uuid \<Rightarrow> 'a coding_db_scheme \<Rightarrow> ca_run_row option res" where
  "get_run_ref_for_command agent_command_id s =
     one_or_none (select (ca_runs s) (next_id s) (\<lambda>r. ca_agent_command_id r = agent_command_id))"

definition get_run_id_for_stage ::
  "uuid \<Rightarrow> uuid \<Rightarrow> 'a coding_db_scheme \<Rightarrow> uuid option res" where
  "get_run_id_for_stage run_id stage_execution_id s =
     ebind (one_or_none (select (ca_runs s) (next_id s)
              (\<lambda>r. ca_run_id r = run_id \<and> ca_stage_execution_id r = stage_execution_id)))
       (\<lambda>r. Inr (map_option ca_id r))"

definition get_stage_activity ::
  "uuid \<Rightarrow> uuid \<Rightarrow> 'a coding_db_scheme \<Rightarrow> json option res" where
  "get_stage_activity run_id stage_execution_id s =
     ebind (get_run_id_for_stage run_id stage_execution_id s) (\<lambda>ca.
       case ca of
         None \<Rightarrow> Inr None
       | Some i \<Rightarrow>
           ebind (one_or_none (filter (\<lambda>(r, _). r = i) (ca_activity s)))
             (\<lambda>row. Inr (map_option (\<lambda>(_, _, p). p) row)))"

section \<open>Dispatching an invocation\<close>

definition invocation_body :: "invoke_coding_agent \<Rightarrow> json" where
  "invocation_body d =
     JObj [(''exec'', JObj [(''argv'', JArr (map JStr (ic_argv d))),
                            (''stdin'', JStr (or_else (ic_stdin d) [])),
                            (''env'', JObj (map (\<lambda>(k, v). (k, JStr v)) (ic_env d)))])]"

definition dispatch_invocation ::
  "invocation \<Rightarrow> coding_plugin \<Rightarrow> dispatch_context \<Rightarrow> uuid \<Rightarrow> 'a coding_db_scheme \<Rightarrow>
   'a coding_db_scheme res" where
  "dispatch_invocation ivn plugin ctx command_id s =
     (let workspace_id = iv_workspace_id ivn in
      case get_workspace_owner workspace_id s of
        None \<Rightarrow> Inl (WorkspaceNotFoundError workspace_id)
      | Some (org_id, _) \<Rightarrow>
          ebind (pl_compile_invocation plugin ivn) (\<lambda>compiled.
          ebind (pl_build_command plugin compiled ivn
                   \<lparr>cb_command_id = command_id, cb_workspace_id = workspace_id,
                    cb_traceparent = or_else (dc_traceparent ctx) [], cb_org_id = org_id,
                    cb_user_id = dc_user_id ctx, cb_skill_path = pl_skill_path plugin (iv_skill ivn),
                    cb_invocation_body = invocation_body compiled\<rparr>) (\<lambda>cmd.
          ebind (dispatch_via_workspace cmd workspace_id ctx True s) (\<lambda>(_, s1).
          Inr (create_run org_id (dc_run_id ctx) (dc_stage_execution_id ctx) command_id
                 (pl_command_kind plugin) (pl_plugin_id plugin) s1)))))"

section \<open>Event ingestion\<close>

datatype agent_event_kind =
  PROGRESS | RECEIVED | COMPLETED_SUCCESS | COMPLETED_FAILURE | COMPLETED_SKIPPED

definition is_terminal :: "agent_event_kind \<Rightarrow> bool" where
  "is_terminal k \<longleftrightarrow> k \<in> {COMPLETED_SUCCESS, COMPLETED_FAILURE, COMPLETED_SKIPPED}"

record agent_event =
  ev_command_id :: uuid
  ev_kind :: agent_event_kind
  ev_outcome_label :: "string option"
  ev_outputs :: payload
  ev_failure_reason :: "string option"
  ev_completion_token :: "string option"
  ev_artifact :: "string option"
  ev_artifact_error :: "string option"

definition handle_terminal_event ::
  "'e coding_env_scheme \<Rightarrow> uuid \<Rightarrow> agent_command_kind \<Rightarrow> agent_event_kind \<Rightarrow> payload \<Rightarrow>
   'a coding_db_scheme \<Rightarrow> (payload option \<times> 'a coding_db_scheme) res" where
  "handle_terminal_event env command_id command_kind event_kind outs s =
     (if command_kind \<notin> set RUN_BEARING_KINDS then Inr (None, s)
      else ebind (get_run_ref_for_command command_id s) (\<lambda>run_ref.
        case run_ref of
          None \<Rightarrow> Inr (None, s)
        | Some r \<Rightarrow>
            (case plugins env (ca_plugin_id r) of
               None \<Rightarrow> Inr (None, s)
             | Some plugin \<Rightarrow>
                 let status = (if event_kind = COMPLETED_SUCCESS then CaSuccess else CaFailure);
                     result = pl_parse_result plugin outs
                 in Inr (Some [(''output'', JStr (rr_output result)),
                               (''error_message'', jopt JStr (rr_error_message result))],
                         finalize_run (ca_id r) result status s))))"

definition mark_agent_configured :: "uuid \<Rightarrow> 'a gateway_db_scheme \<Rightarrow> 'a gateway_db_scheme" where
  "mark_agent_configured agent_id s =
     (case agents s agent_id of
        None \<Rightarrow> s
      | Some a \<Rightarrow>
          if ag_lifecycle a = Unconfigured then
            publish_general_after_commit (ag_org_id a) AGENT_CHANGED (JObj [(''agent_id'', JId agent_id)])
              (upd_agent agent_id (\<lambda>a. a\<lparr>ag_lifecycle := Active\<rparr>) s)
          else s)"

text \<open>The completion-capability check: the row's stored hash against the presented token's.\<close>

definition token_accepted :: "'e gateway_env_scheme \<Rightarrow> command_row \<Rightarrow> agent_event \<Rightarrow> bool" where
  "token_accepted env row ev =
     (case cr_completion_token_hash row of
        None \<Rightarrow> True
      | Some h \<Rightarrow> sha256 env (or_else (ev_completion_token ev) []) = h)"

text \<open>The outputs dict forwarded to the engine: sink enrichment, failure reason, artifact, no stdout.\<close>

definition forwarded_outputs :: "agent_event \<Rightarrow> payload option \<Rightarrow> payload" where
  "forwarded_outputs ev extras =
     (let o1 = (case extras of None \<Rightarrow> ev_outputs ev | Some x \<Rightarrow> dict_merge (ev_outputs ev) x);
          o2 = (if or_else (ev_failure_reason ev) [] \<noteq> [] \<and> or_else (get_str o1 ''error_message'') [] = []
                then AList.update ''error_message'' (JStr (or_else (ev_failure_reason ev) [])) o1 else o1);
          o3 = (case ev_artifact ev of None \<Rightarrow> o2
                | Some b \<Rightarrow> AList.update ''artifact'' (JObj [(''body'', JStr b)]) o2);
          o4 = (case ev_artifact_error ev of None \<Rightarrow> o3
                | Some e \<Rightarrow> AList.update ''artifact_error'' (JStr e) o3)
      in AList.delete ''stdout'' o4)"

definition record_agent_event ::
  "'e coding_env_scheme \<Rightarrow> agent_event \<Rightarrow> uuid option \<Rightarrow> 'a coding_db_scheme \<Rightarrow> 'a coding_db_scheme res" where
  "record_agent_event env ev agent_id s =
     (let cid = ev_command_id ev in
      case commands s cid of
        None \<Rightarrow> Inl (StaleClaimError cid)
      | Some row \<Rightarrow>
          ebind (guard (token_accepted env row ev) (StaleClaimError cid)) (\<lambda>_.
          if ev_kind ev = RECEIVED then Inr (acknowledge_command_received cid s)
          else if \<not> is_terminal (ev_kind ev) then Inr s
          else
            let s1 = (case cr_agent_id row of
                        Some a \<Rightarrow> if ev_kind ev = COMPLETED_SUCCESS \<and> cr_kind row = CONFIG_UPDATE
                                  then mark_agent_configured a s else s
                      | None \<Rightarrow> s) in
            ebind (release_command_claim cid s1) (\<lambda>s2.
            let s3 = retire_command cid s2 in
            ebind (handle_terminal_event env cid (cr_kind row) (ev_kind ev) (ev_outputs ev) s3)
              (\<lambda>(extras, s4).
            let outs = forwarded_outputs ev extras in
            ebind (case agent_id of
                     Some a \<Rightarrow>
                       if cr_kind row = PROVISION_WORKSPACE \<and> cr_workspace_id row \<noteq> None \<and>
                          ev_kind ev = COMPLETED_SUCCESS
                       then materialise_provision_success env cid a s4 else Inr s4
                   | None \<Rightarrow> Inr s4) (\<lambda>s5.
            case cr_run_id row of
              None \<Rightarrow> Inr s5
            | Some rid \<Rightarrow>
                Inr (enqueue_agent_event rid cid
                       (or_else (ev_outcome_label ev)
                          (if ev_kind ev = COMPLETED_FAILURE then ''failure'' else ''success''))
                       outs s5))))))"

definition record_workspace_event ::
  "'e workspace_env_scheme \<Rightarrow> uuid \<Rightarrow> uuid \<Rightarrow> workspace_event_kind \<Rightarrow> uuid option \<Rightarrow>
   'a workspace_db_scheme \<Rightarrow> 'a workspace_db_scheme res" where
  "record_workspace_event env workspace_id command_id kind agent_id s =
     ebind (apply_workspace_event env workspace_id (Some command_id) kind agent_id s)
       (\<lambda>((accepted, _), s1). if accepted then Inr s1 else Inl (StaleClaimError command_id))"

section \<open>Single flight\<close>

text \<open>C17. The workspace claim is a mutex: it is granted exactly on an active workspace that no command
  holds; as long as a workspace is held every claim of it is refused and changes nothing, and a release by any
  command but the holder is refused and changes nothing; the holder's release frees it, and after a claim and
  its release the workspace is as claimable as before. Claims and releases, granted or refused, leave every other
  workspace alone.\<close>

theorem workspace_single_flight:
  assumes "try_claim w c a s = (granted, s')"
  shows "(granted \<longleftrightarrow> (\<exists>row. workspaces s w = Some row \<and> claimable row)) \<and> (\<not> granted \<longrightarrow> s' = s) \<and>
    (granted \<longrightarrow> map_option ws_current_command_id (workspaces s' w) = Some (Some c) \<and>
       (\<exists>s2. release_claim w c s' = (True, s2) \<and> (\<forall>d b. fst (try_claim w d b s2)))) \<and>
    (\<forall>t d. map_option ws_current_command_id (workspaces t w) = Some (Some d) \<longrightarrow>
       (\<forall>e b. try_claim w e b t = (False, t)) \<and> (\<forall>e. e \<noteq> d \<longrightarrow> release_claim w e t = (False, t)) \<and>
       (\<exists>t2. release_claim w d t = (True, t2) \<and> map_option ws_current_command_id (workspaces t2 w) = Some None)) \<and>
    (\<forall>v. v \<noteq> w \<longrightarrow> workspaces s' v = workspaces s v \<and>
       (\<forall>t d. workspaces (snd (release_claim w d t)) v = workspaces t v))"
  using assms
  by (auto simp: try_claim_def release_claim_def claimable_def upd_workspace_def
      split: option.splits if_splits)

section \<open>Terminal events\<close>

lemma release_claim_frame [simp]:
  "commands (snd (release_claim w c s)) = commands s" "outbox (snd (release_claim w c s)) = outbox s"
  "next_id (snd (release_claim w c s)) = next_id s"
  by (auto simp: release_claim_def upd_workspace_def split: option.splits)

lemma release_command_claim_frame:
  assumes "release_command_claim c s = Inr s'"
  shows "commands s' = commands s" "outbox s' = outbox s" "next_id s' = next_id s"
  using assms by (auto simp: release_command_claim_def split: list.splits)

definition workspaces_keyed :: "'a workspace_db_scheme \<Rightarrow> bool" where
  "workspaces_keyed s \<longleftrightarrow> keyed_rows ws_id (next_id s) (workspaces s)"

lemma release_command_claim_frees:
  assumes "release_command_claim c s = Inr s'" and "workspaces_keyed s" and "workspaces s' w = Some row"
  shows "ws_current_command_id row \<noteq> Some c"
proof -
  let ?P = "\<lambda>w. ws_current_command_id w = Some c"
  let ?held = "select (workspaces s) (next_id s) ?P"
  have k: "keyed_rows ws_id (next_id s) (workspaces s)" using assms(2) by (simp add: workspaces_keyed_def)
  have mem: "u \<in> set ?held \<longleftrightarrow> workspaces s (ws_id u) = Some u \<and> ?P u" for u by (rule keyed_select_mem[OF k])
  consider "?held = []" "s' = s" | u where "?held = [u]" "s' = snd (release_claim (ws_id u) c s)"
    using assms(1) by (auto simp: release_command_claim_def split: list.splits)
  then show ?thesis
  proof cases
    case 1
    with assms(3) mem[of row] keyed_rowsD[OF k, of w row] show ?thesis by auto
  next
    case (2 u)
    then have u: "workspaces s (ws_id u) = Some u" "?P u" using mem[of u] by auto
    then have ws: "workspaces s' = (workspaces s)(ws_id u \<mapsto> u\<lparr>ws_current_command_id := None\<rparr>)"
      using 2(2) by (simp add: release_claim_def upd_workspace_def modify_Some)
    show ?thesis
    proof (cases "w = ws_id u")
      case False
      then have "workspaces s w = Some row" using assms(3) ws by simp
      then show ?thesis using mem[of row] keyed_rowsD[OF k, of w row] 2(1) False by auto
    qed (use assms(3) ws in auto)
  qed
qed

lemma finalize_run_frame [simp]:
  "commands (finalize_run i res st s) = commands s" "outbox (finalize_run i res st s) = outbox s"
  "workspaces (finalize_run i res st s) = workspaces s"
  by (cases "ca_runs s i"; simp add: finalize_run_def upd_ca_run_def Let_def)+

lemma handle_terminal_event_frame:
  fixes s s' :: "'b coding_db_scheme"
  assumes "handle_terminal_event env c kind k outs s = Inr (extras, s')"
  shows "commands s' = commands s" "outbox s' = outbox s" "workspaces s' = workspaces s"
proof -
  have "s' = s \<or> (\<exists>i res st. s' = finalize_run i res st s)"
  proof (cases "kind \<in> set RUN_BEARING_KINDS")
    case True
    with assms obtain ref where ref: "get_run_ref_for_command c s = Inr ref"
      by (auto simp: handle_terminal_event_def ebind_eq_Inr)
    show ?thesis
    proof (cases ref)
      case None
      with True ref assms show ?thesis by (simp add: handle_terminal_event_def)
    next
      case (Some r)
      with True ref assms show ?thesis
        by (cases "plugins env (ca_plugin_id r)") (auto simp: handle_terminal_event_def Let_def)
    qed
  qed (use assms in \<open>simp add: handle_terminal_event_def\<close>)
  then show "commands s' = commands s" "outbox s' = outbox s" "workspaces s' = workspaces s" by auto
qed

lemma materialise_frame:
  assumes "materialise_provision_success env c a s = Inr s'"
  shows "commands s' = commands s" "outbox s' = outbox s"
    "\<And>w row. workspaces s' w = Some row \<Longrightarrow> workspaces s w = Some row \<or> ws_current_command_id row = None"
  using assms
  by (auto simp: materialise_provision_success_def insert_lean_workspace_row_def split: option.splits if_splits)

lemma mark_agent_configured_frame [simp]:
  "commands (mark_agent_configured a s) = commands s" "outbox (mark_agent_configured a s) = outbox s"
  "next_id (mark_agent_configured a s) = next_id s"
  by (simp_all add: mark_agent_configured_def publish_general_after_commit_def upd_agent_def split: option.splits)

lemma mark_agent_configured_workspaces [simp]:
  "workspaces (mark_agent_configured a s) = workspaces s"
  by (simp add: mark_agent_configured_def publish_general_after_commit_def upd_agent_def split: option.splits)

lemma retire_command_frame [simp]:
  "outbox (retire_command c s) = outbox s" "next_id (retire_command c s) = next_id s"
  "commands (retire_command c s) = modify c (\<lambda>r. r\<lparr>cr_status := Done\<rparr>) (commands s)"
  by (simp_all add: retire_command_def upd_command_def)

lemma retire_command_workspaces [simp]: "workspaces (retire_command c s) = workspaces s"
  by (simp add: retire_command_def upd_command_def)

lemma forwarded_no_stdout: "map_of (forwarded_outputs ev extras) ''stdout'' = None"
  by (simp add: forwarded_outputs_def Let_def delete_conv')

section \<open>Completion tokens\<close>

lemma insert_lean_not_stale: "insert_lean_workspace_row env w org a pl s \<noteq> Inl (StaleClaimError c)"
  by (auto simp: insert_lean_workspace_row_def split: option.splits)

lemma terminal_not_stale:
  "release_command_claim i s \<noteq> Inl (StaleClaimError c)"
  "handle_terminal_event env i kind k outs s \<noteq> Inl (StaleClaimError c)"
  "materialise_provision_success env i a s \<noteq> Inl (StaleClaimError c)"
  by (auto simp: release_command_claim_def handle_terminal_event_def get_run_ref_for_command_def one_or_none_def
      materialise_provision_success_def insert_lean_not_stale ebind_eq_Inl Let_def
      split: list.splits option.splits if_splits)

lemma accepted_not_stale:
  assumes "commands s (ev_command_id ev) = Some row" and "token_accepted env row ev"
  shows "record_agent_event env ev agent s \<noteq> Inl (StaleClaimError c)"
  using assms
  by (auto simp: record_agent_event_def Let_def ebind_eq_Inl terminal_not_stale split: option.splits if_splits)

text \<open>C18. From claim to completion: until a claimed command is requeued (which raises its count of attempts), whatever
  else happens to the queue, a report on it that carries the token handed out with the claim is never refused as
  stale: a receipt is recorded, progress changes nothing, and a terminal report is processed. A report on it whose
  token has another hash, and at any time a report that names an unknown command, is refused as stale, so it
  changes nothing.\<close>

theorem completion_capability:
  fixes s :: "'a coding_db_scheme"
  assumes "claim_next (gateway_env.truncate env) a lc nw ws s = Inr (Some c, s1)" and "queue_ok s"
    and "(queue_step (gateway_env.truncate env))\<^sup>*\<^sup>* s1 t"
  shows "(\<forall>ev by. commands t (ev_command_id ev) = None \<longrightarrow>
            record_agent_event env ev by t = Inl (StaleClaimError (ev_command_id ev))) \<and>
    (\<exists>r rt. commands s1 (cc_command_id c) = Some r \<and> commands t (cc_command_id c) = Some rt \<and>
       cr_attempt r \<le> cr_attempt rt \<and>
       (cr_attempt rt = cr_attempt r \<longrightarrow> (\<forall>ev by. ev_command_id ev = cc_command_id c \<longrightarrow>
          (sha256 env (or_else (ev_completion_token ev) []) \<noteq> sha256 env (cc_completion_token c) \<longrightarrow>
             record_agent_event env ev by t = Inl (StaleClaimError (cc_command_id c))) \<and>
          (ev_completion_token ev = Some (cc_completion_token c) \<longrightarrow>
             record_agent_event env ev by t \<noteq> Inl (StaleClaimError (cc_command_id c)) \<and>
             (ev_kind ev = RECEIVED \<longrightarrow> record_agent_event env ev by t =
                Inr (acknowledge_command_received (cc_command_id c) t)) \<and>
             (ev_kind ev = PROGRESS \<longrightarrow> record_agent_event env ev by t = Inr t)))))"
proof -
  have sha: "sha256 (gateway_env.truncate env) = sha256 env" by (simp add: gateway_env.defs)
  obtain r rt where r: "commands s1 (cc_command_id c) = Some r" and rt: "commands t (cc_command_id c) = Some rt"
    and held: "held_row (cr_attempt r) (sha256 env (cc_completion_token c)) rt"
    using claim_then_steps[OF assms] by (auto simp: sha)
  have "record_agent_event env ev by t = Inl (StaleClaimError (cc_command_id c))"
    if "cr_attempt rt = cr_attempt r" "ev_command_id ev = cc_command_id c"
      "sha256 env (or_else (ev_completion_token ev) []) \<noteq> sha256 env (cc_completion_token c)" for ev "by"
    using that held rt by (simp add: held_row_def token_accepted_def record_agent_event_def guard_def)
  moreover have "token_accepted env rt ev"
    if "cr_attempt rt = cr_attempt r" "ev_completion_token ev = Some (cc_completion_token c)" for ev
    using that held by (auto simp: held_row_def token_accepted_def)
  moreover have "record_agent_event env ev by t = Inl (StaleClaimError (ev_command_id ev))"
    if "commands t (ev_command_id ev) = None" for ev "by"
    using that by (simp add: record_agent_event_def)
  moreover have "record_agent_event env ev by t = (if ev_kind ev = RECEIVED
      then Inr (acknowledge_command_received (cc_command_id c) t) else Inr t)"
    if "ev_command_id ev = cc_command_id c" "token_accepted env rt ev" "ev_kind ev \<in> {RECEIVED, PROGRESS}" for ev "by"
    using that rt by (auto simp: record_agent_event_def Let_def is_terminal_def)
  ultimately show ?thesis using r rt held accepted_not_stale[of t _ rt env]
    by (intro conjI exI[of _ r] exI[of _ rt]) (auto simp: held_row_def)
qed

section \<open>Terminal reports\<close>

text \<open>What a terminal report does, whatever the kind of command and the plug-in's parse: the
  command is done, no workspace is held by it any more, and the engine receives exactly one event for
  it if it belongs to a run and none otherwise, without the raw standard output.\<close>

theorem terminal_report:
  fixes s s' :: "'a coding_db_scheme"
  assumes "record_agent_event env ev agent s = Inr s'" and "commands s (ev_command_id ev) = Some row"
    and "is_terminal (ev_kind ev)" and "workspaces_keyed s"
  shows "(\<exists>row'. commands s' (ev_command_id ev) = Some row' \<and> cr_status row' = Done) \<and>
    (\<forall>w v. workspaces s' w = Some v \<longrightarrow> ws_current_command_id v \<noteq> Some (ev_command_id ev)) \<and>
    (\<exists>label outs. map_of outs ''stdout'' = None \<and> outbox s' = outbox s @
       (case cr_run_id row of None \<Rightarrow> [] | Some r \<Rightarrow> [HandleAgentEvent (Some r) (ev_command_id ev) label outs]))"
proof -
  let ?c = "ev_command_id ev"
  let ?s1 = "case cr_agent_id row of
      Some a \<Rightarrow> if ev_kind ev = COMPLETED_SUCCESS \<and> cr_kind row = CONFIG_UPDATE then mark_agent_configured a s else s
    | None \<Rightarrow> s"
  have s1: "commands ?s1 = commands s" "outbox ?s1 = outbox s" "workspaces ?s1 = workspaces s" "next_id ?s1 = next_id s"
    by (simp_all split: option.splits)
  have nr: "ev_kind ev \<noteq> RECEIVED" using assms(3) by (auto simp: is_terminal_def)
  let ?s5 = "\<lambda>s4. case agent of
      Some a \<Rightarrow> if cr_kind row = PROVISION_WORKSPACE \<and> cr_workspace_id row \<noteq> None \<and> ev_kind ev = COMPLETED_SUCCESS
                then materialise_provision_success env ?c a s4 else Inr s4
    | None \<Rightarrow> Inr s4"
  let ?label = "or_else (ev_outcome_label ev) (if ev_kind ev = COMPLETED_FAILURE then ''failure'' else ''success'')"
  let ?out = "\<lambda>extras s5. case cr_run_id row of None \<Rightarrow> (Inr s5 :: 'a coding_db_scheme res)
      | Some rid \<Rightarrow> Inr (enqueue_agent_event rid ?c ?label (forwarded_outputs ev extras) s5)"
  have "ebind (release_command_claim ?c ?s1) (\<lambda>s2. ebind (handle_terminal_event env ?c (cr_kind row) (ev_kind ev)
      (ev_outputs ev) (retire_command ?c s2)) (\<lambda>(extras, s4). ebind (?s5 s4) (?out extras))) = Inr s'"
    using assms(1) nr assms(2,3) by (simp add: record_agent_event_def Let_def ebind_eq_Inr)
  then obtain s2 extras s4 s5 where
    s2: "release_command_claim ?c ?s1 = Inr s2"
    and s4: "handle_terminal_event env ?c (cr_kind row) (ev_kind ev) (ev_outputs ev) (retire_command ?c s2) = Inr (extras, s4)"
    and m: "?s5 s4 = Inr s5" and out: "?out extras s5 = Inr s'"
    unfolding ebind_eq_Inr split_paired_Ex prod.case by blast
  have s5: "s5 = s4 \<or> (\<exists>a. materialise_provision_success env ?c a s4 = Inr s5)"
    using m by (auto split: option.splits if_splits)
  have s': "s' = (case cr_run_id row of None \<Rightarrow> s5
      | Some rid \<Rightarrow> enqueue_agent_event rid ?c ?label (forwarded_outputs ev extras) s5)"
    using out by (cases "cr_run_id row") auto
  have keyed1: "workspaces_keyed ?s1" using assms(4) by (simp add: workspaces_keyed_def s1)
  note f2 = release_command_claim_frame[OF s2] and f4 = handle_terminal_event_frame[OF s4]
  have f5: "commands s5 = commands s4" "outbox s5 = outbox s4"
    "\<And>w v. workspaces s5 w = Some v \<Longrightarrow> workspaces s4 w = Some v \<or> ws_current_command_id v = None"
  proof -
    show "commands s5 = commands s4" "outbox s5 = outbox s4" using s5 materialise_frame(1,2) by blast+
    show "workspaces s4 w = Some v \<or> ws_current_command_id v = None" if "workspaces s5 w = Some v" for w v
      using s5 that materialise_frame(3)[of env ?c _ s4 s5 w v] by auto
  qed
  have fin: "commands s' = commands s5" "workspaces s' = workspaces s5"
    unfolding s' by (simp_all add: enqueue_agent_event_def enqueue_def split: option.splits)
  have "\<exists>row'. commands s' ?c = Some row' \<and> cr_status row' = Done"
    using fin f5 f4 f2 s1 assms(2) by simp
  moreover have "ws_current_command_id v \<noteq> Some ?c" if "workspaces s' w = Some v" for w v
    using that f5(3)[of w v] fin(2) f4(3) release_command_claim_frees[OF s2 keyed1, of w v] by auto
  moreover have "outbox s' = outbox s @ (case cr_run_id row of None \<Rightarrow> [] | Some rid \<Rightarrow>
      [HandleAgentEvent (Some rid) ?c (or_else (ev_outcome_label ev)
         (if ev_kind ev = COMPLETED_FAILURE then ''failure'' else ''success'')) (forwarded_outputs ev extras)])"
    unfolding s' using f5(2) f4(2) f2(2) s1(2) by (simp split: option.splits)
  ultimately show ?thesis using forwarded_no_stdout by blast
qed

section \<open>Samples\<close>

definition sample_coding_env :: coding_env where
  "sample_coding_env =
     \<lparr>sha256 = rev, token_urlsafe = (\<lambda>n. replicate n (CHR ''t'')), hydrator = (\<lambda>_. None),
      providers = [''remote_agent''], provider_destroy = (\<lambda>_ _. None),
      get_install_credentials = (\<lambda>_ _ _. Inl (VcsInstallNotFound 0)),
      get_installation_token = (\<lambda>_ _. Inl (VcsInstallNotFound 0)), plugins = (\<lambda>_. None)\<rparr>"

definition sample_command_row :: command_row where
  "sample_command_row =
     \<lparr>cr_id = 1, cr_org_id = 3, cr_workspace_id = Some 2, cr_run_id = Some 5, cr_kind = CLEANUP_WORKSPACE,
      cr_payload = [], cr_status = Pending, cr_agent_id = Some 7, cr_completion_token_hash = None,
      cr_claimed_at = None, cr_attempt = 0\<rparr>"

definition sample_workspace_row :: workspace_row where
  "sample_workspace_row =
     \<lparr>ws_id = 2, ws_org_id = 3, ws_owning_agent_id = Some 7, ws_provider_id = ''remote_agent'', ws_sha = None,
      ws_status = WActive, ws_current_command_id = Some 1, ws_max_idle_seconds = 600, ws_activated_at = None,
      ws_expires_at = 600, ws_destroyed_at = None, ws_destroy_attempts = 0, ws_last_destroy_attempt_at = None,
      ws_last_destroy_error = None\<rparr>"

definition sample_coding :: coding_db where
  "sample_coding =
     \<lparr>now = 0, next_id = 3, outbox = [], audits = [], sse_pending = [], notifications = [],
      memberships = [], oauth_identities = [], orgs = Map.empty, current_traceparent = None,
      commands = [1 \<mapsto> sample_command_row], agents = Map.empty, bearers = Map.empty,
      workspaces = [2 \<mapsto> sample_workspace_row], ca_runs = Map.empty, ca_activity = []\<rparr>"

definition sample_event :: "string option \<Rightarrow> agent_event" where
  "sample_event token = \<lparr>ev_command_id = 1, ev_kind = COMPLETED_SUCCESS, ev_outcome_label = None,
     ev_outputs = [(''stdout'', JStr ''x'')], ev_failure_reason = None, ev_completion_token = token,
     ev_artifact = None, ev_artifact_error = None\<rparr>"

theorem workspace_single_flight_witness:
  "try_claim 2 8 None sample_coding = (False, sample_coding) \<and>
   (\<exists>s2. release_claim 2 1 sample_coding = (True, s2))"
proof -
  let ?r = "try_claim 2 8 None sample_coding"
  have "\<not> (\<exists>row. workspaces sample_coding 2 = Some row \<and> claimable row)"
    by (simp add: sample_coding_def sample_workspace_row_def claimable_def)
  moreover note workspace_single_flight[OF surjective_pairing[of ?r]]
  ultimately have "\<not> fst ?r" "snd ?r = sample_coding" by fast+
  then have "?r = (False, sample_coding)" by (simp add: prod_eq_iff)
  then show ?thesis by (simp add: release_claim_def sample_coding_def sample_workspace_row_def)
qed

lemma sample_coding_ok: "queue_ok sample_coding" "workspaces_keyed sample_coding"
  by (auto simp: queue_ok_def workspaces_keyed_def keyed_rows_def cmd.all_rows_def command_ok_def MAX_ATTEMPT_def
      sample_coding_def sample_command_row_def sample_workspace_row_def)

theorem completion_capability_witness:
  "\<exists>c s1. claim_next (gateway_env.truncate sample_coding_env) 7 Active 0 [2] sample_coding = Inr (Some c, s1) \<and>
     record_agent_event sample_coding_env (sample_event (Some ''forged'')) None s1 = Inl (StaleClaimError 1)"
proof -
  have sel: "select_eligible_row_nowait 7 Active 0 [2] sample_coding = Some sample_command_row"
    by (simp add: select_eligible_row_nowait_def agent_scoped_def unassigned_provision_def pinned_for_def
        sample_coding_def sample_command_row_def)
  have row: "cr_kind sample_command_row = CLEANUP_WORKSPACE" "cr_id sample_command_row = 1"
    and n: "next_id sample_coding = 3"
    by (simp_all add: sample_command_row_def sample_coding_def)
  obtain c s1 where c: "claim_next (gateway_env.truncate sample_coding_env) 7 Active 0 [2] sample_coding = Inr (Some c, s1)"
    "cc_command_id c = 1" "cc_completion_token c = ''ttt''"
    by (simp add: claim_next_def sel hydration_loop.simps[of _ _ _ _ _ sample_command_row] gateway_env.defs
        sample_coding_env_def stamp_claim_def fresh_def Let_def build_command_def COMMAND_ADAPTER_def row n
        numeral_3_eq_3)
  from completion_capability[OF c(1) sample_coding_ok(1) rtranclp.rtrancl_refl] c
  show ?thesis by (auto simp: sample_event_def sample_coding_env_def)
qed

theorem terminal_report_witness:
  "\<exists>s'. record_agent_event sample_coding_env (sample_event None) (Some 7) sample_coding = Inr s' \<and>
     length (outbox s') = 1 \<and> (\<forall>v. workspaces s' 2 = Some v \<longrightarrow> ws_current_command_id v \<noteq> Some 1)"
proof -
  obtain s' where s': "record_agent_event sample_coding_env (sample_event None) (Some 7) sample_coding = Inr s'"
    by (simp add: record_agent_event_def Let_def sample_event_def sample_coding_def sample_command_row_def
        sample_workspace_row_def token_accepted_def is_terminal_def release_command_claim_def release_claim_def
        handle_terminal_event_def RUN_BEARING_KINDS_def retire_command_def upd_command_def upd_workspace_def)
  have row: "commands sample_coding (ev_command_id (sample_event None)) = Some sample_command_row"
    and t: "is_terminal (ev_kind (sample_event None))"
    by (simp_all add: sample_coding_def sample_event_def is_terminal_def)
  from terminal_report[OF s' row t sample_coding_ok(2)] s' show ?thesis
    by (auto simp: sample_event_def sample_coding_def sample_command_row_def)
qed

end
