(* ===== verification/Tickets.thy ===== *)
theory Tickets
  imports CodingAgent
begin

text \<open>
  The ticket aggregate of \<^verbatim>\<open>domain/tickets/service.py\<close> and its notification policy
  (\<^verbatim>\<open>domain/tickets/notifications.py\<close>): race-safe creation, branch-name minting, pull-request binding,
  the status transitions the run engine drives and the ones operators drive.

  Titles are ASCII strings. The parameter \<open>uuid_hex\<close> is the 32-digit hexadecimal rendering of an id.
\<close>

section \<open>Rows\<close>

datatype ticket_status = TPending | TRunning | THitl | TDone | TFailed | TCancelled

fun ticket_status_str :: "ticket_status \<Rightarrow> string" where
  "ticket_status_str TPending = ''pending''"
| "ticket_status_str TRunning = ''running''"
| "ticket_status_str THitl = ''hitl''"
| "ticket_status_str TDone = ''done''"
| "ticket_status_str TFailed = ''failed''"
| "ticket_status_str TCancelled = ''cancelled''"

datatype severity = Blocker | ShouldFix | Nit

record ticket_row =
  tk_id :: uuid
  tk_org_id :: uuid
  tk_source :: string
  tk_source_external_id :: string
  tk_title :: string
  tk_description :: "string option"
  tk_status :: ticket_status
  tk_plugin_id :: string
  tk_repo_external_id :: string
  tk_pr_id :: "uuid option"
  tk_type :: string
  tk_idempotency_key :: "string option"
  tk_payload :: payload
  tk_current_run_id :: "uuid option"
  tk_branch_name :: string
  tk_findings_count :: nat
  tk_max_severity :: "severity option"
  tk_created_at :: timestamp

record pull_request_row =
  pr_id :: uuid
  pr_org_id :: uuid
  pr_external_id :: string

record tickets_db = coding_db +
  tickets :: "ticket_row table"
  pull_requests :: "pull_request_row table"

definition upd_ticket ::
  "uuid \<Rightarrow> (ticket_row \<Rightarrow> ticket_row) \<Rightarrow> 'a tickets_db_scheme \<Rightarrow> 'a tickets_db_scheme" where
  "upd_ticket i f s = s\<lparr>tickets := modify i f (tickets s)\<rparr>"

interpretation tck: row_store "tickets :: 'a tickets_db_scheme \<Rightarrow> ticket_row table" upd_ticket
  by unfold_locales (simp add: upd_ticket_def)

definition ticket_terminal :: "ticket_status \<Rightarrow> bool" where
  "ticket_terminal st \<longleftrightarrow> st \<in> {TDone, TCancelled, TFailed}"

text \<open>\<^verbatim>\<open>SELECT ... WHERE id = :id AND org_id = :org\<close>.\<close>

definition ticket_in_org :: "uuid \<Rightarrow> uuid \<Rightarrow> 'a tickets_db_scheme \<Rightarrow> ticket_row option" where
  "ticket_in_org ticket_id org_id s =
     (case tickets s ticket_id of
        Some t \<Rightarrow> if tk_org_id t = org_id then Some t else None
      | None \<Rightarrow> None)"

section \<open>Branch names\<close>

definition slug_char :: "char \<Rightarrow> bool" where
  "slug_char c \<longleftrightarrow> c \<in> set ''abcdefghijklmnopqrstuvwxyz0123456789''"

function sub_invalid :: "string \<Rightarrow> string" where
  "sub_invalid [] = []"
| "sub_invalid (c # cs) =
     (if slug_char c then c # sub_invalid cs
      else CHR ''-'' # sub_invalid (dropWhile (\<lambda>d. \<not> slug_char d) cs))"
  by pat_completeness auto

termination sub_invalid
  by (relation "measure length") (auto simp: le_imp_less_Suc length_dropWhile_le)

definition strip_dash :: "string \<Rightarrow> string" where
  "strip_dash x = rev (dropWhile (\<lambda>c. c = CHR ''-'') (rev (dropWhile (\<lambda>c. c = CHR ''-'') x)))"

definition title_slug :: "string \<Rightarrow> string" where
  "title_slug title = strip_dash (take 40 (strip_dash (sub_invalid (map lower_char title))))"

definition mint_branch_name :: "string \<Rightarrow> string \<Rightarrow> string" where
  "mint_branch_name title hex =
     (let shortid = take 8 hex; slug = title_slug title in
      if slug = [] then ''yaaos/ticket-'' @ shortid else ''yaaos/'' @ slug @ ''-'' @ shortid)"

section \<open>Status broadcast\<close>

definition status_to_notif_type :: "ticket_status \<Rightarrow> (string \<times> string) option" where
  "status_to_notif_type st =
     (case st of THitl \<Rightarrow> Some (''hitl_waiting'', ''Reviewer needs your input'')
      | TDone \<Rightarrow> Some (''ticket_completed'', ''Review complete'')
      | TFailed \<Rightarrow> Some (''ticket_failed'', ''Review failed'')
      | _ \<Rightarrow> None)"

definition build_status_change_specs ::
  "uuid \<Rightarrow> uuid \<Rightarrow> string \<Rightarrow> uuid list \<Rightarrow> ticket_status \<Rightarrow> notification list" where
  "build_status_change_specs ticket_id org_id ticket_title member_user_ids new_status =
     (case status_to_notif_type new_status of
        None \<Rightarrow> []
      | Some (notif_type, title) \<Rightarrow>
          map (\<lambda>u. \<lparr>nt_user_id = u, nt_org_id = org_id, nt_type = notif_type, nt_title = title,
                    nt_body = ticket_title, nt_subject_type = Some ''ticket'',
                    nt_subject_id = Some ticket_id\<rparr>) member_user_ids)"

definition notify_ticket_status_change ::
  "uuid \<Rightarrow> uuid \<Rightarrow> ticket_status \<Rightarrow> ticket_status option \<Rightarrow> 'a tickets_db_scheme \<Rightarrow> 'a tickets_db_scheme" where
  "notify_ticket_status_change ticket_id org_id new_status previous_status s =
     (let ticket_title = (case ticket_in_org ticket_id org_id s of None \<Rightarrow> [] | Some t \<Rightarrow> tk_title t);
          members = list_active_member_ids org_id s;
          s1 = publish_general_after_commit org_id TICKET_STATUS_CHANGED
                 (JObj [(''ticket_id'', JId ticket_id),
                        (''new_status'', JStr (ticket_status_str new_status)),
                        (''previous_status'', jopt (JStr \<circ> ticket_status_str) previous_status)]) s;
          specs = build_status_change_specs ticket_id org_id ticket_title members new_status
      in if specs \<noteq> [] then enqueue (Fanout specs) s1 else s1)"

definition audit_for_ticket ::
  "uuid \<Rightarrow> string \<Rightarrow> json \<Rightarrow> actor \<Rightarrow> uuid \<Rightarrow> 'a infra_scheme \<Rightarrow> 'a infra_scheme" where
  "audit_for_ticket ticket_id = audit ''ticket'' ticket_id"

section \<open>Creation\<close>

definition PENDING_BRANCH_NAME_PLACEHOLDER :: string where
  "PENDING_BRANCH_NAME_PLACEHOLDER = ''yaaos/pending''"

record new_ticket =
  nw_org_id :: uuid
  nw_type :: string
  nw_source :: string
  nw_source_external_id :: string
  nw_title :: string
  nw_description :: "string option"
  nw_repo_external_id :: string
  nw_plugin_id :: string
  nw_idempotency_key :: string
  nw_payload :: payload
  nw_branch_name :: "string option"

definition insert_ticket_atomic ::
  "new_ticket \<Rightarrow> 'a tickets_db_scheme \<Rightarrow> ((uuid \<times> bool) \<times> 'a tickets_db_scheme) res" where
  "insert_ticket_atomic nt s =
     (case first_row (select (tickets s) (next_id s)
             (\<lambda>t. tk_org_id t = nw_org_id nt \<and> tk_source t = nw_source nt \<and>
                  tk_source_external_id t = nw_source_external_id nt)) of
        Some t \<Rightarrow> Inr ((tk_id t, False), s)
      | None \<Rightarrow>
          if select (tickets s) (next_id s)
               (\<lambda>t. tk_idempotency_key t = Some (nw_idempotency_key nt)) \<noteq> []
          then Inl IntegrityError
          else
            (case fresh s of (i, s1) \<Rightarrow>
               Inr ((i, True), s1\<lparr>tickets := (tickets s1)(i \<mapsto>
                 \<lparr>tk_id = i, tk_org_id = nw_org_id nt, tk_source = nw_source nt,
                  tk_source_external_id = nw_source_external_id nt, tk_title = nw_title nt,
                  tk_description = nw_description nt, tk_status = TPending,
                  tk_plugin_id = nw_plugin_id nt, tk_repo_external_id = nw_repo_external_id nt,
                  tk_pr_id = None, tk_type = nw_type nt,
                  tk_idempotency_key = Some (nw_idempotency_key nt), tk_payload = nw_payload nt,
                  tk_current_run_id = None,
                  tk_branch_name = (case nw_branch_name nt of Some b \<Rightarrow> b
                                    | None \<Rightarrow> PENDING_BRANCH_NAME_PLACEHOLDER),
                  tk_findings_count = 0, tk_max_severity = None, tk_created_at = now s1\<rparr>)\<rparr>)))"

definition announce_created ::
  "(uuid \<Rightarrow> string) \<Rightarrow> new_ticket \<Rightarrow> uuid \<Rightarrow> 'a tickets_db_scheme \<Rightarrow> 'a tickets_db_scheme" where
  "announce_created uuid_hex nt ticket_id s =
     (let s1 = (if nw_branch_name nt = None
                then upd_ticket ticket_id
                       (\<lambda>t. t\<lparr>tk_branch_name := mint_branch_name (nw_title nt) (uuid_hex ticket_id)\<rparr>) s
                else s);
          s2 = audit_for_ticket ticket_id ''ticket.created''
                 (JObj [(''type'', JStr (nw_type nt)), (''source'', JStr (nw_source nt)),
                        (''source_external_id'', JStr (nw_source_external_id nt)),
                        (''idempotency_key'', JStr (nw_idempotency_key nt))])
                 SystemActor (nw_org_id nt) s1
      in notify_ticket_status_change ticket_id (nw_org_id nt) TPending None s2)"

definition create_from_pr ::
  "(uuid \<Rightarrow> string) \<Rightarrow> uuid \<Rightarrow> string \<Rightarrow> string \<Rightarrow> string option \<Rightarrow> string \<Rightarrow> string \<Rightarrow> string \<Rightarrow> payload \<Rightarrow>
   string option \<Rightarrow> 'a tickets_db_scheme \<Rightarrow> ((uuid \<times> bool) \<times> 'a tickets_db_scheme) res" where
  "create_from_pr uuid_hex org_id source_external_id title description repo_external_id plugin_id
     idempotency_key pl branch_name s =
     (let nt = \<lparr>nw_org_id = org_id, nw_type = ''github_pr'', nw_source = ''github_pr'',
                nw_source_external_id = source_external_id, nw_title = title,
                nw_description = description, nw_repo_external_id = repo_external_id,
                nw_plugin_id = plugin_id, nw_idempotency_key = idempotency_key, nw_payload = pl,
                nw_branch_name = branch_name\<rparr> in
      ebind (insert_ticket_atomic nt s) (\<lambda>((ticket_id, created), s1).
        if created then Inr ((ticket_id, True), announce_created uuid_hex nt ticket_id s1)
        else Inr ((ticket_id, False), s1)))"

definition create_from_schedule ::
  "(uuid \<Rightarrow> string) \<Rightarrow> uuid \<Rightarrow> string \<Rightarrow> string \<Rightarrow> string \<Rightarrow> string \<Rightarrow> 'a tickets_db_scheme \<Rightarrow>
   ((uuid \<times> bool) \<times> 'a tickets_db_scheme) res" where
  "create_from_schedule uuid_hex org_id source_external_id title repo_external_id plugin_id s =
     (let nt = \<lparr>nw_org_id = org_id, nw_type = ''schedule'', nw_source = ''schedule'',
                nw_source_external_id = source_external_id, nw_title = title,
                nw_description = None, nw_repo_external_id = repo_external_id,
                nw_plugin_id = plugin_id, nw_idempotency_key = source_external_id, nw_payload = [],
                nw_branch_name = None\<rparr> in
      ebind (insert_ticket_atomic nt s) (\<lambda>((ticket_id, created), s1).
        if created then Inr ((ticket_id, True), announce_created uuid_hex nt ticket_id s1)
        else Inr ((ticket_id, False), s1)))"

section \<open>Reads and simple writes\<close>

definition attach_pr_to_ticket ::
  "uuid \<Rightarrow> uuid \<Rightarrow> uuid \<Rightarrow> 'a tickets_db_scheme \<Rightarrow> 'a tickets_db_scheme" where
  "attach_pr_to_ticket ticket_id org_id prid s =
     (case ticket_in_org ticket_id org_id s of
        None \<Rightarrow> s
      | Some t \<Rightarrow>
          if tk_pr_id t \<noteq> None then s
          else audit_for_ticket ticket_id ''ticket.pr_bound''
                 (JObj [(''pr_id'', JId prid), (''repo_external_id'', JStr (tk_repo_external_id t))])
                 SystemActor org_id
                 (upd_ticket ticket_id (\<lambda>t. t\<lparr>tk_pr_id := Some prid\<rparr>) s))"

definition get_ticket :: "uuid \<Rightarrow> uuid \<Rightarrow> 'a tickets_db_scheme \<Rightarrow> ticket_row res" where
  "get_ticket ticket_id org_id s = require (ticket_in_org ticket_id org_id s) (TicketNotFoundError ticket_id)"

definition get_pull_request :: "uuid \<Rightarrow> uuid \<Rightarrow> 'a tickets_db_scheme \<Rightarrow> pull_request_row res" where
  "get_pull_request prid org_id s =
     (case pull_requests s prid of
        Some p \<Rightarrow> if pr_org_id p = org_id then Inr p else Inl (PullRequestNotFoundError prid)
      | None \<Rightarrow> Inl (PullRequestNotFoundError prid))"

definition get_payload :: "uuid \<Rightarrow> 'a tickets_db_scheme \<Rightarrow> payload res" where
  "get_payload ticket_id s =
     ebind (require (tickets s ticket_id) (TicketNotFoundError ticket_id)) (\<lambda>t. Inr (tk_payload t))"

definition get_by_pr :: "uuid \<Rightarrow> uuid \<Rightarrow> 'a tickets_db_scheme \<Rightarrow> ticket_row option res" where
  "get_by_pr prid org_id s =
     one_or_none (select (tickets s) (next_id s) (\<lambda>t. tk_pr_id t = Some prid \<and> tk_org_id t = org_id))"

definition update_findings_summary ::
  "uuid \<Rightarrow> nat \<Rightarrow> severity option \<Rightarrow> 'a tickets_db_scheme \<Rightarrow> 'a tickets_db_scheme" where
  "update_findings_summary ticket_id cnt max_sev =
     upd_ticket ticket_id (\<lambda>t. t\<lparr>tk_findings_count := cnt, tk_max_severity := max_sev\<rparr>)"

definition list_running_older_than ::
  "timestamp \<Rightarrow> 'a tickets_db_scheme \<Rightarrow> (uuid \<times> uuid \<times> uuid option) list" where
  "list_running_older_than cutoff s =
     map (\<lambda>t. (tk_id t, tk_org_id t, tk_pr_id t))
       (select (tickets s) (next_id s) (\<lambda>t. tk_status t = TRunning \<and> tk_created_at t < cutoff))"

definition set_current_run :: "uuid \<Rightarrow> uuid \<Rightarrow> 'a tickets_db_scheme \<Rightarrow> 'a tickets_db_scheme" where
  "set_current_run ticket_id run_id = upd_ticket ticket_id (\<lambda>t. t\<lparr>tk_current_run_id := Some run_id\<rparr>)"

section \<open>Transitions\<close>

definition apply_transition ::
  "ticket_row \<Rightarrow> ticket_status \<Rightarrow> string option \<Rightarrow> uuid \<Rightarrow> 'a tickets_db_scheme \<Rightarrow> 'a tickets_db_scheme" where
  "apply_transition row new_status reason org_id s =
     (let prev = tk_status row;
          s1 = upd_ticket (tk_id row) (\<lambda>t. t\<lparr>tk_status := new_status\<rparr>) s;
          s2 = audit_for_ticket (tk_id row) ''ticket.status_changed''
                 (JObj [(''from_status'', JStr (ticket_status_str prev)),
                        (''to_status'', JStr (ticket_status_str new_status)),
                        (''reason'', jopt JStr reason)]) SystemActor org_id s1
      in notify_ticket_status_change (tk_id row) org_id new_status (Some prev) s2)"

definition transition_ticket_on_run_start ::
  "uuid \<Rightarrow> uuid \<Rightarrow> uuid \<Rightarrow> 'a tickets_db_scheme \<Rightarrow> bool \<times> 'a tickets_db_scheme" where
  "transition_ticket_on_run_start ticket_id org_id run_id s =
     (case ticket_in_org ticket_id org_id s of
        None \<Rightarrow> (False, s)
      | Some row \<Rightarrow>
          if tk_current_run_id row \<noteq> Some run_id then (False, s)
          else if tk_status row \<noteq> TPending then (False, s)
          else (True, apply_transition row TRunning None org_id s))"

definition transition_ticket_on_run_terminal ::
  "uuid \<Rightarrow> uuid \<Rightarrow> uuid \<Rightarrow> ticket_status \<Rightarrow> string option \<Rightarrow> 'a tickets_db_scheme \<Rightarrow> bool \<times> 'a tickets_db_scheme" where
  "transition_ticket_on_run_terminal ticket_id org_id run_id to_status reason s =
     (case ticket_in_org ticket_id org_id s of
        None \<Rightarrow> (False, s)
      | Some row \<Rightarrow>
          if tk_current_run_id row \<noteq> Some run_id then (False, s)
          else if ticket_terminal (tk_status row) then (False, s)
          else (True, apply_transition row to_status reason org_id s))"

definition transition_ticket_on_run_paused ::
  "uuid \<Rightarrow> uuid \<Rightarrow> uuid \<Rightarrow> 'a tickets_db_scheme \<Rightarrow> bool \<times> 'a tickets_db_scheme" where
  "transition_ticket_on_run_paused ticket_id org_id run_id s =
     (case ticket_in_org ticket_id org_id s of
        None \<Rightarrow> (False, s)
      | Some row \<Rightarrow>
          if tk_current_run_id row \<noteq> Some run_id then (False, s)
          else if ticket_terminal (tk_status row) then (False, s)
          else (True, apply_transition row THitl None org_id s))"

definition transition_ticket_on_run_resumed ::
  "uuid \<Rightarrow> uuid \<Rightarrow> uuid \<Rightarrow> 'a tickets_db_scheme \<Rightarrow> bool \<times> 'a tickets_db_scheme" where
  "transition_ticket_on_run_resumed ticket_id org_id run_id s =
     (case ticket_in_org ticket_id org_id s of
        None \<Rightarrow> (False, s)
      | Some row \<Rightarrow>
          if tk_current_run_id row \<noteq> Some run_id then (False, s)
          else if tk_status row \<noteq> THitl then (False, s)
          else (True, apply_transition row TRunning None org_id s))"

definition transition ::
  "uuid \<Rightarrow> ticket_status \<Rightarrow> uuid \<Rightarrow> string option \<Rightarrow> 'a tickets_db_scheme \<Rightarrow> 'a tickets_db_scheme res" where
  "transition ticket_id new_status org_id reason s =
     (case ticket_in_org ticket_id org_id s of
        None \<Rightarrow> Inl (TicketNotFoundError ticket_id)
      | Some row \<Rightarrow>
          if ticket_terminal (tk_status row) then Inl (InvalidTicketTransition ticket_id)
          else Inr (apply_transition row new_status reason org_id s))"

definition complete :: "uuid \<Rightarrow> uuid \<Rightarrow> 'a tickets_db_scheme \<Rightarrow> 'a tickets_db_scheme res" where
  "complete ticket_id org_id = transition ticket_id TDone org_id None"

definition abandon :: "uuid \<Rightarrow> string \<Rightarrow> uuid \<Rightarrow> 'a tickets_db_scheme \<Rightarrow> 'a tickets_db_scheme res" where
  "abandon ticket_id reason org_id = transition ticket_id TCancelled org_id (Some reason)"

definition fail :: "uuid \<Rightarrow> string \<Rightarrow> uuid \<Rightarrow> 'a tickets_db_scheme \<Rightarrow> 'a tickets_db_scheme res" where
  "fail ticket_id reason org_id = transition ticket_id TFailed org_id (Some reason)"

section \<open>The ticket machine\<close>

lemma notify_tickets [simp]:
  "tickets (notify_ticket_status_change i org st prev s) = tickets s"
  "next_id (notify_ticket_status_change i org st prev s) = next_id s"
  by (simp_all add: notify_ticket_status_change_def Let_def publish_general_after_commit_def enqueue_def)

lemma audit_for_ticket_tickets [simp]:
  "tickets (audit_for_ticket i k p a org s) = tickets s" "next_id (audit_for_ticket i k p a org s) = next_id s"
  by (simp_all add: audit_for_ticket_def audit_def)

lemma upd_ticket_tickets [simp]:
  "tickets (upd_ticket i f s) = modify i f (tickets s)" "next_id (upd_ticket i f s) = next_id s"
  by (simp_all add: upd_ticket_def)

lemma apply_transition_tickets [simp]:
  "tickets (apply_transition row st reason org s) = modify (tk_id row) (\<lambda>t. t\<lparr>tk_status := st\<rparr>) (tickets s)"
  "next_id (apply_transition row st reason org s) = next_id s"
  by (simp_all add: apply_transition_def Let_def)

definition same_source :: "ticket_row \<Rightarrow> ticket_row \<Rightarrow> bool" where
  "same_source t u \<longleftrightarrow> tk_org_id t = tk_org_id u \<and> tk_source t = tk_source u \<and>
     tk_source_external_id t = tk_source_external_id u"

definition tickets_ok :: "'a tickets_db_scheme \<Rightarrow> bool" where
  "tickets_ok s \<longleftrightarrow> keyed_rows tk_id (next_id s) (tickets s) \<and>
     (\<forall>i j t u. tickets s i = Some t \<longrightarrow> tickets s j = Some u \<longrightarrow> same_source t u \<longrightarrow> i = j)"

text \<open>
  The operations that write tickets. Runs drive the first four; a run only ends in one of the
  terminal statuses. Operators drive \<open>complete\<close>, \<open>abandon\<close> and \<open>fail\<close>.
\<close>

inductive ticket_step :: "'a tickets_db_scheme \<Rightarrow> 'a tickets_db_scheme \<Rightarrow> bool" where
  t_start: "ticket_step s (snd (transition_ticket_on_run_start i org run s))"
| t_terminal: "ticket_terminal st \<Longrightarrow> ticket_step s (snd (transition_ticket_on_run_terminal i org run st reason s))"
| t_paused: "ticket_step s (snd (transition_ticket_on_run_paused i org run s))"
| t_resumed: "ticket_step s (snd (transition_ticket_on_run_resumed i org run s))"
| t_complete: "complete i org s = Inr s' \<Longrightarrow> ticket_step s s'"
| t_abandon: "abandon i reason org s = Inr s' \<Longrightarrow> ticket_step s s'"
| t_fail: "fail i reason org s = Inr s' \<Longrightarrow> ticket_step s s'"
| t_attach: "ticket_step s (attach_pr_to_ticket i org prid s)"
| t_current: "ticket_step s (set_current_run i run s)"
| t_summary: "ticket_step s (update_findings_summary i n sev s)"
| t_create_pr: "create_from_pr hex org ext title descr repo plugin key pl branch s = Inr (res, s') \<Longrightarrow> ticket_step s s'"
| t_create_schedule: "create_from_schedule hex org ext title repo plugin s = Inr (res, s') \<Longrightarrow> ticket_step s s'"

inductive ticket_edge :: "ticket_status \<Rightarrow> ticket_status \<Rightarrow> bool" where
  "ticket_edge TPending TRunning"
| "\<not> ticket_terminal st \<Longrightarrow> ticket_edge st THitl"
| "ticket_edge THitl TRunning"
| "\<not> ticket_terminal st \<Longrightarrow> ticket_terminal st' \<Longrightarrow> ticket_edge st st'"

lemma ticket_edge_terminal: "ticket_edge\<^sup>*\<^sup>* st st' \<Longrightarrow> ticket_terminal st \<Longrightarrow> st' = st"
  by (induction rule: rtranclp_induct) (auto elim!: ticket_edge.cases simp: ticket_terminal_def)

text \<open>What one step may do to a ticket row: move its status along an edge, bind a first pull request.\<close>

definition ticket_moves :: "ticket_row \<Rightarrow> ticket_row \<Rightarrow> bool" where
  "ticket_moves t u \<longleftrightarrow> tk_id u = tk_id t \<and> same_source t u \<and> ticket_edge\<^sup>*\<^sup>* (tk_status t) (tk_status u) \<and>
     (tk_pr_id t \<noteq> None \<longrightarrow> tk_pr_id u = tk_pr_id t)"

lemma ticket_moves_refl [simp]: "ticket_moves t t"
  by (simp add: ticket_moves_def same_source_def)

lemma ticket_moves_trans: "ticket_moves t u \<Longrightarrow> ticket_moves u v \<Longrightarrow> ticket_moves t v"
  by (auto simp: ticket_moves_def same_source_def)

definition tickets_move :: "'a tickets_db_scheme \<Rightarrow> 'a tickets_db_scheme \<Rightarrow> bool" where
  "tickets_move s s' \<longleftrightarrow> tickets_ok s' \<and> (\<forall>i t. tickets s i = Some t \<longrightarrow> (\<exists>u. tickets s' i = Some u \<and> ticket_moves t u))"

lemma modify_moves:
  assumes "tickets_ok s" and "tickets s' = modify i f (tickets s)" and "next_id s' = next_id s"
    and "\<And>t. tickets s i = Some t \<Longrightarrow> ticket_moves t (f t)"
  shows "tickets_move s s'"
proof -
  have moves: "\<exists>u. tickets s' j = Some u \<and> ticket_moves t u" if "tickets s j = Some t" for j t
    using that assms(2,4) by (cases "j = i") auto
  have prior: "\<exists>t. tickets s j = Some t \<and> ticket_moves t u" if "tickets s' j = Some u" for j u
    using that assms(2,4) by (cases "j = i") auto
  have "keyed_rows tk_id (next_id s') (tickets s')"
    unfolding keyed_rows_def
  proof (intro allI impI)
    fix j u assume "tickets s' j = Some u"
    from prior[OF this] obtain t where "tickets s j = Some t" "tk_id u = tk_id t" by (auto simp: ticket_moves_def)
    with assms(1,3) show "tk_id u = j \<and> j < next_id s'" by (simp add: tickets_ok_def keyed_rows_def)
  qed
  moreover have "j = k" if "tickets s' j = Some u" "tickets s' k = Some v" "same_source u v" for j k u v
    using prior[OF that(1)] prior[OF that(2)] that(3) assms(1)
    unfolding tickets_ok_def ticket_moves_def same_source_def by metis
  ultimately show ?thesis using moves unfolding tickets_move_def tickets_ok_def by blast
qed

lemma ticket_in_orgD: "ticket_in_org i org s = Some t \<Longrightarrow> tickets s i = Some t \<and> tk_org_id t = org"
  by (auto simp: ticket_in_org_def split: option.splits if_splits)

lemma tickets_move_refl: "tickets_ok s \<Longrightarrow> tickets_move s s"
  by (auto simp: tickets_move_def)

lemma apply_transition_moves:
  assumes "tickets_ok s" and "ticket_in_org i org s = Some t" and "ticket_edge (tk_status t) st"
  shows "tickets_move s (apply_transition t st reason org s)"
proof (rule modify_moves[OF assms(1)])
  have "tk_id t = i" using assms(1) ticket_in_orgD[OF assms(2)] by (auto simp: tickets_ok_def keyed_rows_def)
  then show "ticket_moves u (u\<lparr>tk_status := st\<rparr>)" if "tickets s (tk_id t) = Some u" for u
    using that ticket_in_orgD[OF assms(2)] assms(3) by (auto simp: ticket_moves_def same_source_def)
qed simp_all

lemma insert_ticket_moves:
  assumes "insert_ticket_atomic nt s = Inr ((i, created), s')" and "tickets_ok s"
  shows "tickets_move s s'"
proof (cases created)
  case False
  with assms show ?thesis
    by (auto simp: insert_ticket_atomic_def fresh_def tickets_move_refl split: option.splits if_splits)
next
  case True
  let ?P = "\<lambda>t. tk_org_id t = nw_org_id nt \<and> tk_source t = nw_source nt \<and> tk_source_external_id t = nw_source_external_id nt"
  from True assms(1) obtain t where t: "i = next_id s" "tickets s' = (tickets s)(i \<mapsto> t)" "next_id s' = Suc (next_id s)"
    "tk_id t = i" "?P t" and none: "first_row (select (tickets s) (next_id s) ?P) = None"
    by (auto simp: insert_ticket_atomic_def fresh_def split: option.splits if_splits)
  have k: "keyed_rows tk_id (next_id s) (tickets s)" using assms(2) by (simp add: tickets_ok_def)
  have other: "\<not> same_source u t" "j \<noteq> i" if "tickets s j = Some u" for j u
  proof -
    have j: "tk_id u = j" "j < next_id s" using keyed_rowsD[OF k that] by auto
    then show "j \<noteq> i" using t(1) by simp
    have "\<not> ?P u" using keyed_first_row_None[OF k none, of u] that j(1) by simp
    then show "\<not> same_source u t" using t(5) by (auto simp: same_source_def)
  qed
  have "keyed_rows tk_id (next_id s') (tickets s')"
    using keyed_rows_insert[OF keyed_rows_mono[OF k, of "next_id s'"], of t] t by simp
  moreover have "j = l" if "tickets s' j = Some u" "tickets s' l = Some v" "same_source u v" for j l u v
  proof -
    have sym: "same_source v u" using that(3) by (simp add: same_source_def)
    consider "j = i" "l = i" | "j = i" "l \<noteq> i" | "j \<noteq> i" "l = i" | "j \<noteq> i" "l \<noteq> i" by blast
    then show ?thesis
    proof cases
      case 2
      then show ?thesis using that(1,2) sym other(1)[of l v] by (simp add: t(2))
    next
      case 3
      then show ?thesis using that other(1)[of j u] by (simp add: t(2))
    next
      case 4
      then have "tickets s j = Some u" "tickets s l = Some v" using that(1,2) by (simp_all add: t(2))
      then show ?thesis using that(3) assms(2) unfolding tickets_ok_def by blast
    qed simp
  qed
  moreover have "\<exists>v. tickets s' j = Some v \<and> ticket_moves u v" if "tickets s j = Some u" for j u
    using that other(2)[OF that] by (simp add: t(2))
  ultimately show ?thesis unfolding tickets_move_def tickets_ok_def by blast
qed

lemma announce_created_moves:
  assumes "tickets_ok s"
  shows "tickets_move s (announce_created hex nt i s)"
proof (cases "nw_branch_name nt")
  case None
  show ?thesis
    by (rule modify_moves[OF assms, of _ i
          "\<lambda>t. t\<lparr>tk_branch_name := mint_branch_name (nw_title nt) (hex i)\<rparr>"])
       (simp_all add: announce_created_def Let_def None ticket_moves_def same_source_def)
next
  case (Some b)
  show ?thesis
    by (rule modify_moves[OF assms, of _ i id]) (simp_all add: announce_created_def Let_def Some fun_eq_iff option.map_id)
qed

lemma tickets_move_trans: "tickets_move s t \<Longrightarrow> tickets_move t u \<Longrightarrow> tickets_move s u"
  unfolding tickets_move_def by (meson ticket_moves_trans)

lemma ticket_step_moves: "ticket_step s s' \<Longrightarrow> tickets_ok s \<Longrightarrow> tickets_move s s'"
proof (induction rule: ticket_step.induct)
  case (t_attach s i org prid)
  have "tickets_move s (attach_pr_to_ticket i org prid s)" if "ticket_in_org i org s = Some t" "tk_pr_id t = None" for t
    by (rule modify_moves[OF t_attach, of _ i "\<lambda>t. t\<lparr>tk_pr_id := Some prid\<rparr>"])
       (use that ticket_in_orgD[OF that(1)] in \<open>auto simp: attach_pr_to_ticket_def ticket_moves_def same_source_def\<close>)
  then show ?case using t_attach
    by (cases "ticket_in_org i org s") (auto simp: attach_pr_to_ticket_def tickets_move_refl)
next
  case (t_current s i run)
  show ?case by (rule modify_moves[OF t_current, of _ i "\<lambda>t. t\<lparr>tk_current_run_id := Some run\<rparr>"])
      (simp_all add: set_current_run_def ticket_moves_def same_source_def)
next
  case (t_summary s i n sev)
  show ?case by (rule modify_moves[OF t_summary, of _ i "\<lambda>t. t\<lparr>tk_findings_count := n, tk_max_severity := sev\<rparr>"])
      (simp_all add: update_findings_summary_def ticket_moves_def same_source_def)
next
  case (t_create_pr hex org ext title descr repo plugin key pl branch s res s')
  then show ?case
    by (auto simp: create_from_pr_def Let_def res_simps split: if_splits
        intro: insert_ticket_moves tickets_move_trans[OF insert_ticket_moves announce_created_moves]
        dest: insert_ticket_moves[THEN tickets_move_def[THEN iffD1]])
next
  case (t_create_schedule hex org ext title repo plugin s res s')
  then show ?case
    by (auto simp: create_from_schedule_def Let_def res_simps split: if_splits
        intro: insert_ticket_moves tickets_move_trans[OF insert_ticket_moves announce_created_moves]
        dest: insert_ticket_moves[THEN tickets_move_def[THEN iffD1]])
qed (auto simp: transition_ticket_on_run_start_def transition_ticket_on_run_terminal_def
    transition_ticket_on_run_paused_def transition_ticket_on_run_resumed_def complete_def abandon_def fail_def
    transition_def tickets_move_refl ticket_terminal_def
    split: option.splits if_splits intro!: apply_transition_moves intro: ticket_edge.intros)

lemma ticket_steps_move:
  assumes "ticket_step\<^sup>*\<^sup>* s s'" and "tickets_ok s"
  shows "tickets_move s s'"
  using assms
proof (induction rule: rtranclp_induct)
  case (step y z)
  then have y: "tickets_move s y" by simp
  with ticket_step_moves[OF step.hyps(2)] have "tickets_move y z" by (simp add: tickets_move_def)
  with y show ?case by (rule tickets_move_trans)
qed (rule tickets_move_refl)

text \<open>C19. Whatever runs and operators do to the tickets, a ticket keeps its id and its source, its
  status moves only along the edges of the ticket machine, a done, failed or cancelled ticket never
  changes status again, a bound pull request is never replaced, and no second ticket ever appears for
  one source item.\<close>

theorem ticket_state_machine:
  assumes "ticket_step\<^sup>*\<^sup>* s s'" and "tickets_ok s" and "tickets s i = Some t"
  shows "\<exists>u. tickets s' i = Some u \<and> same_source t u \<and> ticket_edge\<^sup>*\<^sup>* (tk_status t) (tk_status u) \<and>
           (ticket_terminal (tk_status t) \<longrightarrow> tk_status u = tk_status t) \<and>
           (tk_pr_id t \<noteq> None \<longrightarrow> tk_pr_id u = tk_pr_id t) \<and>
           (\<forall>j v. tickets s' j = Some v \<and> same_source t v \<longrightarrow> j = i)"
proof -
  have m: "tickets_move s s'" using ticket_steps_move[OF assms(1,2)] .
  then obtain u where u: "tickets s' i = Some u" "ticket_moves t u" using assms(3) by (auto simp: tickets_move_def)
  have "j = i" if "tickets s' j = Some v" "same_source t v" for j v
    using m u that unfolding tickets_move_def tickets_ok_def ticket_moves_def same_source_def by metis
  with u ticket_edge_terminal show ?thesis unfolding ticket_moves_def by blast
qed

section \<open>Creation\<close>

text \<open>Creation is idempotent: a second request for the same source item in the same organisation,
  whatever the rest of it says, returns the ticket created first and leaves the database as it
  was.\<close>

theorem insert_ticket_idempotent:
  assumes "tickets_ok s" and "insert_ticket_atomic nt s = Inr ((i, True), s1)"
    and "nw_org_id nt' = nw_org_id nt" and "nw_source nt' = nw_source nt"
    and "nw_source_external_id nt' = nw_source_external_id nt"
  shows "insert_ticket_atomic nt' s1 = Inr ((i, False), s1)"
proof -
  let ?P = "\<lambda>t. tk_org_id t = nw_org_id nt \<and> tk_source t = nw_source nt \<and> tk_source_external_id t = nw_source_external_id nt"
  have ok: "tickets_ok s1" using insert_ticket_moves[OF assms(2,1)] by (simp add: tickets_move_def)
  obtain t where t: "tickets s1 i = Some t" "tk_id t = i" "?P t"
    using assms(2) by (auto simp: insert_ticket_atomic_def fresh_def split: option.splits if_splits)
  have k: "keyed_rows tk_id (next_id s1) (tickets s1)" using ok by (simp add: tickets_ok_def)
  obtain u where u: "first_row (select (tickets s1) (next_id s1) ?P) = Some u"
    using keyed_first_row_None[OF k _, of ?P t] t by (cases "first_row (select (tickets s1) (next_id s1) ?P)") auto
  note row = keyed_first_row(1,2)[OF k u]
  then have "same_source u t" using t(3) by (simp add: same_source_def)
  with row(1) t(1) ok have "tk_id u = i" unfolding tickets_ok_def by blast
  with u show ?thesis by (simp add: insert_ticket_atomic_def assms(3-5))
qed

section \<open>Branch names\<close>

abbreviation no_double_dash :: "string \<Rightarrow> bool" where
  "no_double_dash \<equiv> successively (\<lambda>a b. \<not> (a = CHR ''-'' \<and> b = CHR ''-''))"

lemma dash_not_slug [simp]: "\<not> slug_char (CHR ''-'')"
  by (simp add: slug_char_def)

lemma set_sub_invalid: "set (sub_invalid cs) \<subseteq> {c. slug_char c} \<union> {CHR ''-''}"
  by (induction cs rule: sub_invalid.induct) auto

lemma sub_invalid_no_double_dash: "no_double_dash (sub_invalid cs)"
proof (induction cs rule: sub_invalid.induct)
  case (2 c cs)
  let ?rest = "dropWhile (\<lambda>d. \<not> slug_char d) cs"
  show ?case
  proof (cases "slug_char c")
    case True
    then have "c \<noteq> CHR ''-''" by auto
    with True 2 show ?thesis by (simp add: successively_Cons)
  next
    case False
    have "hd (sub_invalid ?rest) \<noteq> CHR ''-''" if "?rest \<noteq> []"
      using hd_dropWhile[OF that] that by (cases ?rest) auto
    moreover have "sub_invalid ?rest = []" if "?rest = []" unfolding that by simp
    ultimately show ?thesis using 2(2)[OF False] False by (auto simp: successively_Cons)
  qed
qed simp

text \<open>Stripping and truncating take a contiguous part of the text.\<close>

definition part_of :: "string \<Rightarrow> string \<Rightarrow> bool" where
  "part_of x y \<longleftrightarrow> (\<exists>a b. y = a @ x @ b)"

lemma strip_dash_part: "part_of (strip_dash x) x"
proof -
  let ?P = "\<lambda>c. c = CHR ''-''"
  let ?y = "dropWhile ?P x"
  have "?y = rev (takeWhile ?P (rev ?y) @ dropWhile ?P (rev ?y))" by simp
  then have "?y = strip_dash x @ rev (takeWhile ?P (rev ?y))"
    unfolding strip_dash_def rev_append .
  moreover have "x = takeWhile ?P x @ ?y" by simp
  ultimately have "x = takeWhile ?P x @ strip_dash x @ rev (takeWhile ?P (rev ?y))" by metis
  then show ?thesis unfolding part_of_def by blast
qed

lemma take_part: "part_of (take n x) x"
  unfolding part_of_def by (metis append_Nil append_take_drop_id)

lemma part_of_keeps:
  assumes "part_of x y"
  shows "set x \<subseteq> set y" "length x \<le> length y" "no_double_dash y \<Longrightarrow> no_double_dash x"
  using assms by (auto simp: part_of_def successively_append_iff)

lemma strip_dash_ends:
  assumes "strip_dash x \<noteq> []"
  shows "hd (strip_dash x) \<noteq> CHR ''-''" "last (strip_dash x) \<noteq> CHR ''-''"
proof -
  let ?P = "\<lambda>c. c = CHR ''-''"
  let ?y = "dropWhile ?P x"
  have ne: "dropWhile ?P (rev ?y) \<noteq> []" using assms unfolding strip_dash_def by blast
  then show "last (strip_dash x) \<noteq> CHR ''-''" using hd_dropWhile[OF ne] by (simp add: strip_dash_def last_rev)
  have y: "?y \<noteq> []"
  proof
    assume "?y = []"
    with ne show False by simp
  qed
  have "?y = rev (takeWhile ?P (rev ?y) @ dropWhile ?P (rev ?y))" by simp
  then have "?y = strip_dash x @ rev (takeWhile ?P (rev ?y))" unfolding strip_dash_def rev_append .
  then have "hd ?y = hd (strip_dash x)" using assms by (metis hd_append2)
  then show "hd (strip_dash x) \<noteq> CHR ''-''" using hd_dropWhile[OF y] by simp
qed

lemma title_slug_shape:
  "length (title_slug t) \<le> 40" "set (title_slug t) \<subseteq> {c. slug_char c} \<union> {CHR ''-''}"
  "no_double_dash (title_slug t)"
proof -
  let ?a = "sub_invalid (map lower_char t)"
  have p: "part_of (title_slug t) (take 40 (strip_dash ?a))" "part_of (take 40 (strip_dash ?a)) (strip_dash ?a)"
    "part_of (strip_dash ?a) ?a"
    by (simp_all add: title_slug_def strip_dash_part take_part)
  show "length (title_slug t) \<le> 40" using part_of_keeps(2)[OF p(1)] by simp
  show "set (title_slug t) \<subseteq> {c. slug_char c} \<union> {CHR ''-''}"
    using p[THEN part_of_keeps(1)] set_sub_invalid by blast
  show "no_double_dash (title_slug t)"
    using p[THEN part_of_keeps(3)] sub_invalid_no_double_dash by blast
qed

text \<open>The shape of a minted branch name, for every title: the prefix, a slug of 1 to 40
  characters, a dash, and the first eight digits of the id. The slug has only lower-case letters, digits
  and single dashes and neither starts nor ends with one, so the name is a valid git ref of at most 55
  characters.\<close>

theorem branch_name_shape:
  "\<exists>slug. mint_branch_name title hex = ''yaaos/'' @ slug @ ''-'' @ take 8 hex \<and>
     slug \<noteq> [] \<and> length slug \<le> 40 \<and> set slug \<subseteq> {c. slug_char c} \<union> {CHR ''-''} \<and>
     hd slug \<noteq> CHR ''-'' \<and> last slug \<noteq> CHR ''-'' \<and> no_double_dash slug \<and>
     length (mint_branch_name title hex) \<le> 55"
proof (cases "title_slug title = []")
  case True
  then show ?thesis
    by (intro exI[of _ "''ticket''"]) (simp add: mint_branch_name_def Let_def slug_char_def)
next
  case False
  then have "hd (title_slug title) \<noteq> CHR ''-''" "last (title_slug title) \<noteq> CHR ''-''"
    using strip_dash_ends by (simp_all add: title_slug_def)
  then show ?thesis using False title_slug_shape[of title]
    by (intro exI[of _ "title_slug title"]) (simp add: mint_branch_name_def Let_def)
qed

section \<open>Samples\<close>

definition blank_tickets :: tickets_db where
  "blank_tickets =
     \<lparr>now = 0, next_id = 1, outbox = [], audits = [], sse_pending = [], notifications = [],
      memberships = [], oauth_identities = [], orgs = Map.empty, current_traceparent = None, commands = Map.empty,
      agents = Map.empty, bearers = Map.empty, workspaces = Map.empty, ca_runs = Map.empty,
      ca_activity = [], tickets = Map.empty, pull_requests = Map.empty\<rparr>"

definition sample_new_ticket :: "string \<Rightarrow> new_ticket" where
  "sample_new_ticket title =
     \<lparr>nw_org_id = 1, nw_type = ''github_pr'', nw_source = ''github_pr'', nw_source_external_id = ''o/r#1'',
      nw_title = title, nw_description = None, nw_repo_external_id = ''o/r'', nw_plugin_id = ''github'',
      nw_idempotency_key = ''k'', nw_payload = [], nw_branch_name = None\<rparr>"

definition one_ticket :: tickets_db where
  "one_ticket = (case insert_ticket_atomic (sample_new_ticket ''Fix it'') blank_tickets of
     Inr (_, s) \<Rightarrow> s | Inl _ \<Rightarrow> blank_tickets)"

lemma blank_tickets_ok [simp]: "tickets_ok blank_tickets"
  by (simp add: tickets_ok_def keyed_rows_def blank_tickets_def)

lemma one_ticket_created:
  "insert_ticket_atomic (sample_new_ticket ''Fix it'') blank_tickets = Inr ((1, True), one_ticket)"
  by (simp add: one_ticket_def insert_ticket_atomic_def fresh_def blank_tickets_def split: if_splits)

lemma one_ticket_ok [simp]: "tickets_ok one_ticket"
  using insert_ticket_moves[OF one_ticket_created] by (simp add: tickets_move_def)

theorem insert_ticket_idempotent_witness:
  "insert_ticket_atomic (sample_new_ticket ''Another title'') one_ticket = Inr ((1, False), one_ticket)"
  using insert_ticket_idempotent[OF blank_tickets_ok one_ticket_created, of "sample_new_ticket ''Another title''"]
  by (simp add: sample_new_ticket_def)

lemma one_ticket_row: "map_option tk_status (tickets one_ticket 1) = Some TPending"
  by (simp add: one_ticket_def insert_ticket_atomic_def fresh_def blank_tickets_def split: if_splits)

theorem ticket_state_machine_witness:
  "\<exists>u v s1 s2. complete 1 1 one_ticket = Inr s1 \<and> tickets s1 1 = Some u \<and> tk_status u = TDone \<and>
     snd (transition_ticket_on_run_start 1 1 5 (set_current_run 1 5 s1)) = s2 \<and>
     tickets s2 1 = Some v \<and> tk_status v = TDone"
proof -
  obtain t where t: "tickets one_ticket 1 = Some t" "tk_status t = TPending"
    using one_ticket_row by (cases "tickets one_ticket 1") auto
  have id: "tk_id t = 1" using one_ticket_ok t(1) by (auto simp: tickets_ok_def keyed_rows_def)
  have "tk_org_id t = 1" using t(1)
    by (simp add: one_ticket_def insert_ticket_atomic_def fresh_def blank_tickets_def sample_new_ticket_def
        split: if_splits) auto
  then obtain s1 where s1: "complete 1 1 one_ticket = Inr s1"
    using t by (simp add: complete_def transition_def ticket_in_org_def ticket_terminal_def)
  then have st1: "ticket_step one_ticket s1" by (rule t_complete)
  have u: "tickets s1 1 = Some (t\<lparr>tk_status := TDone\<rparr>)"
    using s1 t id by (auto simp: complete_def transition_def ticket_in_org_def split: if_splits)
  let ?s2 = "snd (transition_ticket_on_run_start 1 1 5 (set_current_run 1 5 s1))"
  have "tickets_ok s1" using ticket_step_moves[OF st1] by (simp add: tickets_move_def)
  moreover have "ticket_step\<^sup>*\<^sup>* s1 ?s2"
    by (rule converse_rtranclp_into_rtranclp, rule t_current, rule r_into_rtranclp, rule t_start)
  ultimately obtain v where "tickets ?s2 1 = Some v" "tk_status v = TDone"
    using ticket_state_machine[of s1 ?s2 1 "t\<lparr>tk_status := TDone\<rparr>"] u by (auto simp: ticket_terminal_def)
  with s1 u show ?thesis by auto
qed

end
