(* ===== verification/Artifacts.thy ===== *)
theory Artifacts
  imports Tickets
begin

text \<open>
  The append-only artifact store of \<^verbatim>\<open>domain/artifacts/service.py\<close>: versions are numbered per
  (ticket, stage name), \<open>mark_final\<close> is the only mutation, \<open>latest_final\<close> is what later stages read.
\<close>

section \<open>Model\<close>

record artifact_row =
  ar_id :: uuid
  ar_org_id :: uuid
  ar_ticket_id :: uuid
  ar_stage_name :: string
  ar_run_id :: uuid
  ar_stage_execution_id :: uuid
  ar_version :: nat
  ar_iteration :: nat
  ar_is_final :: bool
  ar_body :: string
  ar_created_at :: timestamp

record artifacts_db = tickets_db +
  artifacts :: "artifact_row table"

definition upd_artifact ::
  "uuid \<Rightarrow> (artifact_row \<Rightarrow> artifact_row) \<Rightarrow> 'a artifacts_db_scheme \<Rightarrow> 'a artifacts_db_scheme" where
  "upd_artifact i f s = s\<lparr>artifacts := modify i f (artifacts s)\<rparr>"

interpretation art: row_store "artifacts :: 'a artifacts_db_scheme \<Rightarrow> artifact_row table" upd_artifact
  by unfold_locales (simp add: upd_artifact_def)

definition in_lineage :: "uuid \<Rightarrow> string \<Rightarrow> artifact_row \<Rightarrow> bool" where
  "in_lineage ticket_id stage_name a \<longleftrightarrow> ar_ticket_id a = ticket_id \<and> ar_stage_name a = stage_name"

text \<open>\<^verbatim>\<open>coalesce(max(version), 0)\<close> over the lineage.\<close>

definition max_version :: "uuid \<Rightarrow> string \<Rightarrow> 'a artifacts_db_scheme \<Rightarrow> nat" where
  "max_version ticket_id stage_name s =
     fold max (map ar_version (select (artifacts s) (next_id s) (in_lineage ticket_id stage_name))) 0"

definition new_artifact ::
  "uuid \<Rightarrow> uuid \<Rightarrow> uuid \<Rightarrow> uuid \<Rightarrow> uuid \<Rightarrow> string \<Rightarrow> string \<Rightarrow> nat \<Rightarrow> nat \<Rightarrow> timestamp \<Rightarrow> artifact_row" where
  "new_artifact i org_id ticket_id run_id stage_execution_id stage_name body iteration version t =
     \<lparr>ar_id = i, ar_org_id = org_id, ar_ticket_id = ticket_id, ar_stage_name = stage_name,
      ar_run_id = run_id, ar_stage_execution_id = stage_execution_id, ar_version = version,
      ar_iteration = iteration, ar_is_final = False, ar_body = body, ar_created_at = t\<rparr>"

definition store_artifact ::
  "uuid \<Rightarrow> uuid \<Rightarrow> uuid \<Rightarrow> uuid \<Rightarrow> string \<Rightarrow> string \<Rightarrow> nat \<Rightarrow> 'a artifacts_db_scheme \<Rightarrow>
   uuid \<times> 'a artifacts_db_scheme" where
  "store_artifact org_id ticket_id run_id stage_execution_id stage_name body iteration s =
     (let version = max_version ticket_id stage_name s + 1 in
      case fresh s of (i, s1) \<Rightarrow>
        (i, s1\<lparr>artifacts := (artifacts s1)(i \<mapsto>
              new_artifact i org_id ticket_id run_id stage_execution_id stage_name body iteration
                version (now s1))\<rparr>))"

definition mark_final :: "uuid \<Rightarrow> 'a artifacts_db_scheme \<Rightarrow> 'a artifacts_db_scheme" where
  "mark_final artifact_id = upd_artifact artifact_id (\<lambda>a. a\<lparr>ar_is_final := True\<rparr>)"

definition latest_final ::
  "uuid \<Rightarrow> uuid \<Rightarrow> string \<Rightarrow> 'a artifacts_db_scheme \<Rightarrow> artifact_row option" where
  "latest_final org_id ticket_id stage_name s =
     latest_by ar_version (select (artifacts s) (next_id s)
       (\<lambda>a. ar_org_id a = org_id \<and> in_lineage ticket_id stage_name a \<and> ar_is_final a))"

definition get_artifact :: "uuid \<Rightarrow> uuid \<Rightarrow> 'a artifacts_db_scheme \<Rightarrow> artifact_row res" where
  "get_artifact artifact_id org_id s =
     (case artifacts s artifact_id of
        Some a \<Rightarrow> if ar_org_id a = org_id then Inr a else Inl (ArtifactNotFoundError artifact_id)
      | None \<Rightarrow> Inl (ArtifactNotFoundError artifact_id))"

section \<open>Lineage invariant\<close>

text \<open>Within a (ticket, stage) lineage versions are positive, unique, and grow with the row id.\<close>

definition artifacts_ok :: "'a artifacts_db_scheme \<Rightarrow> bool" where
  "artifacts_ok s \<longleftrightarrow> keyed_rows ar_id (next_id s) (artifacts s) \<and>
     (\<forall>a b. artifacts s (ar_id a) = Some a \<longrightarrow> artifacts s (ar_id b) = Some b \<longrightarrow>
        ar_ticket_id a = ar_ticket_id b \<longrightarrow> ar_stage_name a = ar_stage_name b \<longrightarrow>
        0 < ar_version a \<and> (ar_id a < ar_id b \<longrightarrow> ar_version a < ar_version b))"

lemma fold_max_ge: "x \<in> set xs \<or> x \<le> m \<Longrightarrow> (x::nat) \<le> fold max xs m"
  by (induction xs arbitrary: m) (fastforce simp: le_max_iff_disj)+

lemma max_version_ge:
  assumes "keyed_rows ar_id (next_id s) (artifacts s)" and "artifacts s (ar_id a) = Some a"
    and "in_lineage t n a"
  shows "ar_version a \<le> max_version t n s"
proof -
  have "a \<in> set (select (artifacts s) (next_id s) (in_lineage t n))"
    using keyed_select_mem[OF assms(1)] assms(2,3) by blast
  then show ?thesis unfolding max_version_def by (intro fold_max_ge) auto
qed

lemma artifacts_okD:
  assumes "artifacts_ok s" and "artifacts s (ar_id a) = Some a" and "artifacts s (ar_id b) = Some b"
    and "ar_ticket_id a = ar_ticket_id b" and "ar_stage_name a = ar_stage_name b"
  shows "0 < ar_version a" "ar_id a < ar_id b \<Longrightarrow> ar_version a < ar_version b"
  using assms unfolding artifacts_ok_def by blast+

lemma store_artifact_ok:
  assumes "artifacts_ok s" and "store_artifact org t r e n body it s = (i, s')"
  shows "artifacts_ok s'"
proof -
  have k: "keyed_rows ar_id (next_id s) (artifacts s)" using assms(1) by (simp add: artifacts_ok_def)
  define new where
    "new = new_artifact (next_id s) org t r e n body it (max_version t n s + 1) (now s)"
  have new: "i = next_id s" "next_id s' = Suc (next_id s)" "ar_id new = next_id s"
    "artifacts s' = (artifacts s)(next_id s \<mapsto> new)" "ar_version new = max_version t n s + 1"
    "ar_ticket_id new = t" "ar_stage_name new = n"
    using assms(2) by (auto simp: store_artifact_def fresh_def Let_def new_def new_artifact_def)
  have old: "artifacts s (ar_id a) = Some a \<and> ar_id a < next_id s"
    if "artifacts s' (ar_id a) = Some a" "ar_id a \<noteq> next_id s" for a
    using that new keyed_rowsD[OF k, of "ar_id a" a] by simp
  have fresh: "a = new" if "artifacts s' (ar_id a) = Some a" "ar_id a = next_id s" for a
    using that new by simp
  have below: "ar_version a < ar_version new"
    if "artifacts s (ar_id a) = Some a" "ar_ticket_id a = t" "ar_stage_name a = n" for a
    using max_version_ge[OF k that(1)] that new(5) by (simp add: in_lineage_def less_Suc_eq_le)
  have "0 < ar_version a \<and> (ar_id a < ar_id b \<longrightarrow> ar_version a < ar_version b)"
    if h: "artifacts s' (ar_id a) = Some a" "artifacts s' (ar_id b) = Some b"
      "ar_ticket_id a = ar_ticket_id b" "ar_stage_name a = ar_stage_name b" for a b
  proof (cases "ar_id a = next_id s")
    case True
    then have "a = new" using fresh h(1) by blast
    then show ?thesis using new old[OF h(2)] by (cases "ar_id b = next_id s") auto
  next
    case False
    note a = old[OF h(1) False]
    show ?thesis
    proof (cases "ar_id b = next_id s")
      case True
      then have "b = new" using fresh h(2) by blast
      then show ?thesis using below[of a] a h(3,4) new(6,7) artifacts_okD(1)[OF assms(1), of a a] by simp
    next
      case False
      show ?thesis using artifacts_okD[OF assms(1), of a b] a old[OF h(2) False] h(3,4) by simp
    qed
  qed
  moreover have "keyed_rows ar_id (next_id s') (artifacts s')"
    unfolding new(2,4) by (rule keyed_rows_insert[OF keyed_rows_mono[OF k]]) (simp_all add: new(3))
  ultimately show ?thesis unfolding artifacts_ok_def by blast
qed

lemma mark_final_ok:
  assumes ok: "artifacts_ok s"
  shows "artifacts_ok (mark_final i s)"
proof -
  have sel: "\<exists>b. artifacts s (ar_id a) = Some b \<and> ar_id b = ar_id a \<and> ar_version b = ar_version a \<and>
      ar_ticket_id b = ar_ticket_id a \<and> ar_stage_name b = ar_stage_name a"
    if "artifacts (mark_final i s) (ar_id a) = Some a" for a
  proof -
    from that have "modify i (\<lambda>a. a\<lparr>ar_is_final := True\<rparr>) (artifacts s) (ar_id a) = Some a"
      by (simp add: mark_final_def upd_artifact_def del: modify_apply)
    then obtain b where b: "artifacts s (ar_id a) = Some b"
      "a = (if ar_id a = i then b\<lparr>ar_is_final := True\<rparr> else b)" using modify_SomeD by metis
    note eqs = arg_cong[OF b(2), of ar_id] arg_cong[OF b(2), of ar_version]
      arg_cong[OF b(2), of ar_ticket_id] arg_cong[OF b(2), of ar_stage_name]
    show ?thesis using b(1) eqs by (intro exI[of _ b]) (simp split: if_splits)
  qed
  have "keyed_rows ar_id (next_id (mark_final i s)) (artifacts (mark_final i s))"
    using ok by (auto simp: artifacts_ok_def mark_final_def upd_artifact_def intro: keyed_rows_modify)
  moreover have "0 < ar_version a \<and> (ar_id a < ar_id b \<longrightarrow> ar_version a < ar_version b)"
    if h: "artifacts (mark_final i s) (ar_id a) = Some a" "artifacts (mark_final i s) (ar_id b) = Some b"
      "ar_ticket_id a = ar_ticket_id b" "ar_stage_name a = ar_stage_name b" for a b
  proof -
    obtain a' b' where ab: "artifacts s (ar_id a) = Some a'" "ar_id a' = ar_id a" "ar_version a' = ar_version a"
      "ar_ticket_id a' = ar_ticket_id a" "ar_stage_name a' = ar_stage_name a"
      "artifacts s (ar_id b) = Some b'" "ar_id b' = ar_id b" "ar_version b' = ar_version b"
      "ar_ticket_id b' = ar_ticket_id b" "ar_stage_name b' = ar_stage_name b"
      using sel[OF h(1)] sel[OF h(2)] by blast
    then show ?thesis using artifacts_okD[OF ok, of a' b'] h(3,4) by simp
  qed
  ultimately show ?thesis unfolding artifacts_ok_def by blast
qed

text \<open>What was stored and finalised last is what \<open>latest_final\<close> returns.\<close>

lemma latest_final_store:
  assumes "artifacts_ok s" and "store_artifact org t r e n body it s = (i, s1)"
  shows "\<exists>a. latest_final org t n (mark_final i s1) = Some a \<and> ar_id a = i \<and> ar_body a = body \<and>
           ar_is_final a"
proof -
  let ?s = "mark_final i s1"
  have ok: "artifacts_ok ?s" using store_artifact_ok[OF assms] by (rule mark_final_ok)
  then have k: "keyed_rows ar_id (next_id ?s) (artifacts ?s)" by (simp add: artifacts_ok_def)
  define a where "a = (new_artifact (next_id s) org t r e n body it (max_version t n s + 1) (now s))
      \<lparr>ar_is_final := True\<rparr>"
  have a: "artifacts ?s i = Some a" "ar_id a = i" "ar_body a = body" "ar_is_final a"
    "ar_org_id a = org" "ar_ticket_id a = t" "ar_stage_name a = n" "Suc i = next_id ?s"
    using assms(2) by (auto simp: store_artifact_def fresh_def Let_def mark_final_def upd_artifact_def
        a_def new_artifact_def)
  let ?rows = "select (artifacts ?s) (next_id ?s)
      (\<lambda>a. ar_org_id a = org \<and> in_lineage t n a \<and> ar_is_final a)"
  have mem: "b \<in> set ?rows \<longleftrightarrow> artifacts ?s (ar_id b) = Some b \<and> ar_org_id b = org \<and>
      in_lineage t n b \<and> ar_is_final b" for b
    by (simp add: keyed_select_mem[OF k])
  have "latest_by ar_version ?rows = Some a"
  proof (rule latest_by_unique)
    show "a \<in> set ?rows" using a mem by (simp add: in_lineage_def)
    fix b assume b: "b \<in> set ?rows" "b \<noteq> a"
    then have row: "artifacts ?s (ar_id b) = Some b" "in_lineage t n b" using mem by auto
    have "ar_id b \<noteq> i"
    proof
      assume "ar_id b = i"
      with row(1) a(1) b(2) show False by simp
    qed
    moreover have "ar_id b < Suc i" using keyed_rowsD[OF k row(1)] a(8) by simp
    ultimately have "ar_id b < ar_id a" using a(2) by simp
    then show "ar_version b < ar_version a"
      using artifacts_okD(2)[OF ok row(1)] a row(2) by (simp add: in_lineage_def)
  qed
  then show ?thesis using a by (auto simp: latest_final_def)
qed

section \<open>Histories of the store\<close>

inductive artifact_step :: "'a artifacts_db_scheme \<Rightarrow> 'a artifacts_db_scheme \<Rightarrow> bool" where
  a_store: "artifact_step s (snd (store_artifact org t r e n body it s))"
| a_final: "artifact_step s (mark_final i s)"

lemma artifact_step_ok: "artifact_step s s' \<Longrightarrow> artifacts_ok s \<Longrightarrow> artifacts_ok s'"
  by (induction rule: artifact_step.induct) (auto intro: store_artifact_ok mark_final_ok prod.collapse[symmetric])

lemma artifact_steps_ok: "artifact_step\<^sup>*\<^sup>* s s' \<Longrightarrow> artifacts_ok s \<Longrightarrow> artifacts_ok s'"
  by (induction rule: rtranclp_induct) (auto intro: artifact_step_ok)

definition archived :: "artifact_row \<Rightarrow> artifact_row \<Rightarrow> bool" where
  "archived a b \<longleftrightarrow> b\<lparr>ar_is_final := ar_is_final a\<rparr> = a \<and> (ar_is_final a \<longrightarrow> ar_is_final b)"

lemma archived_refl [simp]: "archived a a"
  by (simp add: archived_def)

lemma archived_trans: "archived a b \<Longrightarrow> archived b c \<Longrightarrow> archived a c"
  unfolding archived_def by (cases a; cases b; cases c) auto

lemma artifact_step_archives:
  assumes "artifact_step s s'" and "artifacts_ok s" and "artifacts s i = Some a"
  shows "\<exists>b. artifacts s' i = Some b \<and> archived a b"
  using assms
proof (induction rule: artifact_step.induct)
  case (a_store s org t r e n body it)
  then have "i < next_id s" by (auto simp: artifacts_ok_def keyed_rows_def)
  with a_store show ?case by (simp add: store_artifact_def fresh_def Let_def)
next
  case (a_final s j)
  then show ?case by (cases "i = j") (auto simp: mark_final_def upd_artifact_def archived_def)
qed

lemma artifact_steps_archive:
  assumes "artifact_step\<^sup>*\<^sup>* s s'" and "artifacts_ok s" and "artifacts s i = Some a"
  shows "\<exists>b. artifacts s' i = Some b \<and> archived a b"
  using assms
proof (induction rule: rtranclp_induct)
  case (step y z)
  then obtain b where "artifacts y i = Some b" "archived a b" by blast
  with artifact_step_archives[OF step.hyps(2) artifact_steps_ok[OF step.hyps(1) step.prems(1)]]
  show ?case using archived_trans by blast
qed simp

text \<open>The artifact store is an append-only archive: over any sequence of stores and finalisations
  no artifact disappears or changes, except that it may become final, and within one ticket and stage
  the versions stay positive and strictly increasing in storage order, so no two share a
  version.\<close>

theorem artifact_archive:
  assumes "artifact_step\<^sup>*\<^sup>* s s'" and "artifacts_ok s"
  shows "(\<forall>i a. artifacts s i = Some a \<longrightarrow> (\<exists>b. artifacts s' i = Some b \<and> archived a b)) \<and>
    (\<forall>i j a b. artifacts s' i = Some a \<and> artifacts s' j = Some b \<and> ar_ticket_id a = ar_ticket_id b \<and>
       ar_stage_name a = ar_stage_name b \<and> i < j \<longrightarrow> 0 < ar_version a \<and> ar_version a < ar_version b)"
proof -
  have ok: "artifacts_ok s'" using artifact_steps_ok[OF assms] .
  then have k: "keyed_rows ar_id (next_id s') (artifacts s')" by (simp add: artifacts_ok_def)
  have "0 < ar_version a \<and> ar_version a < ar_version b"
    if "artifacts s' i = Some a" "artifacts s' j = Some b" "ar_ticket_id a = ar_ticket_id b"
      "ar_stage_name a = ar_stage_name b" "i < j" for i j a b
    using artifacts_okD[OF ok, of a b] that keyed_rowsD[OF k that(1)] keyed_rowsD[OF k that(2)] by simp
  with artifact_steps_archive[OF assms] show ?thesis by blast
qed

text \<open>Round trip: after a stage's artifact is stored and marked final, reading the latest final
  artifact of that ticket and stage returns exactly this one, with the body that was stored.\<close>

theorem stored_artifact_is_latest:
  assumes "artifacts_ok s" and "store_artifact org t r e n body it s = (i, s1)"
  shows "\<exists>a. latest_final org t n (mark_final i s1) = Some a \<and> ar_id a = i \<and> ar_body a = body \<and>
           get_artifact i org (mark_final i s1) = Inr a"
proof -
  obtain a where a: "latest_final org t n (mark_final i s1) = Some a" "ar_id a = i" "ar_body a = body"
    using latest_final_store[OF assms] by blast
  have ok: "artifacts_ok (mark_final i s1)" using mark_final_ok store_artifact_ok[OF assms] by blast
  then have k: "keyed_rows ar_id (next_id (mark_final i s1)) (artifacts (mark_final i s1))"
    by (simp add: artifacts_ok_def)
  have "artifacts (mark_final i s1) (ar_id a) = Some a \<and> ar_org_id a = org"
    using latest_by_mem[OF a(1)[unfolded latest_final_def]] unfolding keyed_select_mem[OF k] by simp
  with a have "get_artifact i org (mark_final i s1) = Inr a" by (simp add: get_artifact_def)
  with a show ?thesis by blast
qed

definition blank_artifacts :: artifacts_db where
  "blank_artifacts =
     \<lparr>now = 0, next_id = 1, outbox = [], audits = [], sse_pending = [], notifications = [],
      memberships = [], oauth_identities = [], orgs = Map.empty, current_traceparent = None, commands = Map.empty,
      agents = Map.empty, bearers = Map.empty, workspaces = Map.empty, ca_runs = Map.empty,
      ca_activity = [], tickets = Map.empty, pull_requests = Map.empty, artifacts = Map.empty\<rparr>"

definition two_artifacts :: artifacts_db where
  "two_artifacts = snd (store_artifact 1 2 3 5 ''plan'' ''v2'' 1
     (snd (store_artifact 1 2 3 4 ''plan'' ''v1'' 0 blank_artifacts)))"

lemma blank_artifacts_ok [simp]: "artifacts_ok blank_artifacts"
  by (simp add: artifacts_ok_def keyed_rows_def blank_artifacts_def)

lemma two_artifacts_reached: "artifact_step\<^sup>*\<^sup>* blank_artifacts two_artifacts"
  unfolding two_artifacts_def by (rule converse_rtranclp_into_rtranclp, rule a_store, rule r_into_rtranclp, rule a_store)

theorem artifact_archive_witness:
  "\<exists>a b. artifacts two_artifacts 1 = Some a \<and> artifacts two_artifacts 2 = Some b \<and> ar_version a < ar_version b"
proof -
  obtain a b where ab: "artifacts two_artifacts 1 = Some a" "artifacts two_artifacts 2 = Some b"
      "ar_ticket_id a = 2" "ar_ticket_id b = 2" "ar_stage_name a = ''plan''" "ar_stage_name b = ''plan''"
    by (simp add: two_artifacts_def store_artifact_def blank_artifacts_def fresh_def new_artifact_def Let_def)
  then have "ar_version a < ar_version b"
    using artifact_archive[OF two_artifacts_reached blank_artifacts_ok, THEN conjunct2, rule_format, of 1 a 2 b]
    by simp
  with ab(1,2) show ?thesis by blast
qed

theorem stored_artifact_is_latest_witness:
  "\<exists>i s1 a. store_artifact 1 2 3 6 ''plan'' ''v3'' 2 two_artifacts = (i, s1) \<and>
     latest_final 1 2 ''plan'' (mark_final i s1) = Some a \<and> ar_body a = ''v3''"
proof -
  obtain i s1 where st: "store_artifact 1 2 3 6 ''plan'' ''v3'' 2 two_artifacts = (i, s1)" by fastforce
  from stored_artifact_is_latest[OF artifact_steps_ok[OF two_artifacts_reached blank_artifacts_ok] st] st
  show ?thesis by blast
qed

end
