(* ===== verification/Findings.thy ===== *)
theory Findings
  imports Artifacts
begin

text \<open>
  Durable review findings (\<^verbatim>\<open>domain/findings/service.py\<close>): recording with per-ticket display
  numbers, the four status transitions and their legality matrix, the auto-approve condition and the
  ticket rollup.
\<close>

section \<open>Model\<close>

datatype finding_status = FOpen | FResolved | FDismissed
datatype status_event_method = ReviewVerdict | UserOverrode

record finding_status_event =
  fe_status :: finding_status
  fe_method :: status_event_method
  fe_actor :: actor
  fe_run_id :: "uuid option"
  fe_stage_execution_id :: "uuid option"
  fe_comment_external_id :: "string option"
  fe_at :: timestamp

record finding =
  fd_id :: uuid
  fd_org_id :: uuid
  fd_ticket_id :: uuid
  fd_source_run_id :: uuid
  fd_source_stage_name :: string
  fd_source_stage_execution_id :: uuid
  fd_first_seen_iteration :: nat
  fd_display_prefix :: string
  fd_display_id :: nat
  fd_severity :: severity
  fd_body :: string
  fd_code_file :: "string option"
  fd_code_line :: "int option"
  fd_artifact_section :: "string option"
  fd_defect_in_artifact :: "string option"
  fd_status :: finding_status
  fd_status_events :: "finding_status_event list"
  fd_defended_at :: "timestamp option"
  fd_external_comment_id :: "string option"

record finding_spec =
  fs_id :: uuid
  fs_severity :: severity
  fs_body :: string
  fs_code_file :: "string option"
  fs_code_line :: "int option"
  fs_artifact_section :: "string option"
  fs_defect_in_artifact :: "string option"
  fs_display_prefix :: string

record auto_approve_conditions =
  no_blocker :: bool
  no_should_fix :: bool
  no_nit :: bool
  all_confirmed_fixed :: bool

record findings_db = artifacts_db +
  findings :: "finding table"

definition upd_finding ::
  "uuid \<Rightarrow> (finding \<Rightarrow> finding) \<Rightarrow> 'a findings_db_scheme \<Rightarrow> 'a findings_db_scheme" where
  "upd_finding i f s = s\<lparr>findings := modify i f (findings s)\<rparr>"

interpretation fnd: row_store "findings :: 'a findings_db_scheme \<Rightarrow> finding table" upd_finding
  by unfold_locales (simp add: upd_finding_def)

fun legal_transitions :: "finding_status \<Rightarrow> finding_status list" where
  "legal_transitions FOpen = [FResolved, FDismissed]"
| "legal_transitions FResolved = [FOpen, FDismissed]"
| "legal_transitions FDismissed = []"

definition get_finding :: "uuid \<Rightarrow> 'a findings_db_scheme \<Rightarrow> finding res" where
  "get_finding finding_id s = require (findings s finding_id) (FindingNotFoundError finding_id)"

definition audit_for_finding ::
  "uuid \<Rightarrow> string \<Rightarrow> json \<Rightarrow> actor \<Rightarrow> uuid \<Rightarrow> 'a infra_scheme \<Rightarrow> 'a infra_scheme" where
  "audit_for_finding finding_id = audit ''finding'' finding_id"

fun fstatus_str :: "finding_status \<Rightarrow> string" where
  "fstatus_str FOpen = ''open''"
| "fstatus_str FResolved = ''resolved''"
| "fstatus_str FDismissed = ''dismissed''"

definition event_json :: "finding_status_event \<Rightarrow> json" where
  "event_json ev =
     JObj [(''status'', JStr (fstatus_str (fe_status ev))),
           (''method'', JStr (case fe_method ev of ReviewVerdict \<Rightarrow> ''review_verdict''
                              | UserOverrode \<Rightarrow> ''user_overrode'')),
           (''run_id'', jopt JId (fe_run_id ev)),
           (''stage_execution_id'', jopt JId (fe_stage_execution_id ev)),
           (''comment_external_id'', jopt JStr (fe_comment_external_id ev)),
           (''at'', JNum (fe_at ev))]"

definition append_event_and_audit ::
  "uuid \<Rightarrow> string \<Rightarrow> finding_status_event \<Rightarrow> 'a findings_db_scheme \<Rightarrow> 'a findings_db_scheme" where
  "append_event_and_audit finding_id kind ev s =
     (let s1 = upd_finding finding_id (\<lambda>f. f\<lparr>fd_status_events := fd_status_events f @ [ev]\<rparr>) s;
          org_id = (case findings s finding_id of Some f \<Rightarrow> fd_org_id f | None \<Rightarrow> 0)
      in audit_for_finding finding_id kind (event_json ev) (fe_actor ev) org_id s1)"

section \<open>Recording\<close>

definition max_display_id :: "uuid \<Rightarrow> 'a findings_db_scheme \<Rightarrow> nat" where
  "max_display_id ticket_id s =
     fold max (map fd_display_id (select (findings s) (next_id s) (\<lambda>f. fd_ticket_id f = ticket_id))) 0"

definition new_finding ::
  "uuid \<Rightarrow> uuid \<Rightarrow> uuid \<Rightarrow> string \<Rightarrow> uuid \<Rightarrow> nat \<Rightarrow> nat \<Rightarrow> finding_spec \<Rightarrow> finding" where
  "new_finding org_id ticket_id run_id stage_name stage_execution_id iteration display_id spec =
     \<lparr>fd_id = fs_id spec, fd_org_id = org_id, fd_ticket_id = ticket_id, fd_source_run_id = run_id,
      fd_source_stage_name = stage_name, fd_source_stage_execution_id = stage_execution_id,
      fd_first_seen_iteration = iteration, fd_display_prefix = fs_display_prefix spec,
      fd_display_id = display_id, fd_severity = fs_severity spec, fd_body = fs_body spec,
      fd_code_file = fs_code_file spec, fd_code_line = fs_code_line spec,
      fd_artifact_section = fs_artifact_section spec,
      fd_defect_in_artifact = fs_defect_in_artifact spec, fd_status = FOpen, fd_status_events = [],
      fd_defended_at = None, fd_external_comment_id = None\<rparr>"

definition refresh_finding :: "finding_spec \<Rightarrow> finding \<Rightarrow> finding" where
  "refresh_finding spec f =
     f\<lparr>fd_body := fs_body spec, fd_code_file := fs_code_file spec, fd_code_line := fs_code_line spec,
       fd_artifact_section := fs_artifact_section spec,
       fd_defect_in_artifact := fs_defect_in_artifact spec\<rparr>"

fun record_specs ::
  "uuid \<Rightarrow> uuid \<Rightarrow> uuid \<Rightarrow> string \<Rightarrow> uuid \<Rightarrow> nat \<Rightarrow> finding_spec list \<Rightarrow> nat \<Rightarrow>
   'a findings_db_scheme \<Rightarrow> uuid list \<times> 'a findings_db_scheme" where
  "record_specs org t r n e it [] next_display_id s = ([], s)"
| "record_specs org t r n e it (spec # specs) next_display_id s =
     (case findings s (fs_id spec) of
        Some f \<Rightarrow>
          (case record_specs org t r n e it specs next_display_id
                  (upd_finding (fs_id spec) (refresh_finding spec) s) of
             (ids, s1) \<Rightarrow> (fs_id spec # ids, s1))
      | None \<Rightarrow>
          (case record_specs org t r n e it specs (next_display_id + 1)
                  (s\<lparr>findings := (findings s)(fs_id spec \<mapsto>
                      new_finding org t r n e it next_display_id spec)\<rparr>) of
             (ids, s1) \<Rightarrow> (fs_id spec # ids, s1)))"

definition record_findings ::
  "uuid \<Rightarrow> uuid \<Rightarrow> uuid \<Rightarrow> string \<Rightarrow> uuid \<Rightarrow> nat \<Rightarrow> finding_spec list \<Rightarrow>
   'a findings_db_scheme \<Rightarrow> uuid list \<times> 'a findings_db_scheme" where
  "record_findings org_id ticket_id run_id stage_name stage_execution_id iteration specs s =
     (if specs = [] then ([], s)
      else record_specs org_id ticket_id run_id stage_name stage_execution_id iteration specs
             (max_display_id ticket_id s + 1) s)"

section \<open>Transitions\<close>

definition change_status ::
  "finding_status \<Rightarrow> string \<Rightarrow> uuid \<Rightarrow> finding_status_event \<Rightarrow> 'a findings_db_scheme \<Rightarrow>
   'a findings_db_scheme res" where
  "change_status target kind finding_id ev s =
     ebind (get_finding finding_id s) (\<lambda>row.
       if fd_status row = target then Inr s
       else if target \<notin> set (legal_transitions (fd_status row))
       then Inl (InvalidFindingTransition finding_id)
       else Inr (append_event_and_audit finding_id kind ev
                   (upd_finding finding_id (\<lambda>f. f\<lparr>fd_status := target\<rparr>) s)))"

definition resolve :: "uuid \<Rightarrow> finding_status_event \<Rightarrow> 'a findings_db_scheme \<Rightarrow> 'a findings_db_scheme res" where
  "resolve = change_status FResolved ''finding.resolved''"

definition reopen :: "uuid \<Rightarrow> finding_status_event \<Rightarrow> 'a findings_db_scheme \<Rightarrow> 'a findings_db_scheme res" where
  "reopen = change_status FOpen ''finding.reopened''"

definition dismiss :: "uuid \<Rightarrow> finding_status_event \<Rightarrow> 'a findings_db_scheme \<Rightarrow> 'a findings_db_scheme res" where
  "dismiss = change_status FDismissed ''finding.dismissed''"

definition reflag :: "uuid \<Rightarrow> finding_status_event \<Rightarrow> 'a findings_db_scheme \<Rightarrow> 'a findings_db_scheme res" where
  "reflag finding_id ev s =
     ebind (get_finding finding_id s) (\<lambda>row.
       if fd_status row \<noteq> FOpen then Inl (InvalidFindingTransition finding_id)
       else Inr (append_event_and_audit finding_id ''finding.reflagged'' ev s))"

definition mark_defended :: "uuid \<Rightarrow> 'a findings_db_scheme \<Rightarrow> 'a findings_db_scheme res" where
  "mark_defended finding_id s =
     ebind (get_finding finding_id s) (\<lambda>row.
       if fd_defended_at row \<noteq> None then Inr s
       else Inr (audit_for_finding finding_id ''finding.defended''
                   (JObj [(''defended_at'', JNum (now s))]) SystemActor (fd_org_id row)
                   (upd_finding finding_id (\<lambda>f. f\<lparr>fd_defended_at := Some (now s)\<rparr>) s)))"

definition set_external_anchor ::
  "uuid \<Rightarrow> string \<Rightarrow> 'a findings_db_scheme \<Rightarrow> 'a findings_db_scheme res" where
  "set_external_anchor finding_id comment_external_id s =
     ebind (get_finding finding_id s) (\<lambda>_.
       Inr (upd_finding finding_id (\<lambda>f. f\<lparr>fd_external_comment_id := Some comment_external_id\<rparr>) s))"

section \<open>Reads\<close>

text \<open>\<^verbatim>\<open>ORDER BY display_id\<close> (unique per ticket).\<close>

definition by_display_id :: "finding list \<Rightarrow> finding list" where
  "by_display_id = sort_key fd_display_id"

definition list_open_for_ticket :: "uuid \<Rightarrow> uuid \<Rightarrow> 'a findings_db_scheme \<Rightarrow> finding list" where
  "list_open_for_ticket org_id ticket_id s =
     by_display_id (select (findings s) (next_id s)
       (\<lambda>f. fd_org_id f = org_id \<and> fd_ticket_id f = ticket_id \<and> fd_status f = FOpen))"

definition list_for_stage_execution :: "uuid \<Rightarrow> 'a findings_db_scheme \<Rightarrow> finding list" where
  "list_for_stage_execution stage_execution_id s =
     by_display_id (select (findings s) (next_id s)
       (\<lambda>f. fd_source_stage_execution_id f = stage_execution_id))"

definition find_by_external_comment ::
  "uuid \<Rightarrow> string \<Rightarrow> 'a findings_db_scheme \<Rightarrow> finding option res" where
  "find_by_external_comment org_id comment_external_id s =
     one_or_none (select (findings s) (next_id s)
       (\<lambda>f. fd_org_id f = org_id \<and> fd_external_comment_id f = Some comment_external_id))"

definition evaluate_auto_approve ::
  "uuid \<Rightarrow> uuid \<Rightarrow> auto_approve_conditions \<Rightarrow> 'a findings_db_scheme \<Rightarrow> bool" where
  "evaluate_auto_approve org_id ticket_id conditions s =
     (let rows = select (findings s) (next_id s)
                   (\<lambda>f. fd_org_id f = org_id \<and> fd_ticket_id f = ticket_id \<and>
                        fd_external_comment_id f \<noteq> None) in
      if no_blocker conditions \<and> list_ex (\<lambda>f. fd_status f = FOpen \<and> fd_severity f = Blocker) rows
      then False
      else if no_should_fix conditions \<and> list_ex (\<lambda>f. fd_status f = FOpen \<and> fd_severity f = ShouldFix) rows
      then False
      else if no_nit conditions \<and> list_ex (\<lambda>f. fd_status f = FOpen \<and> fd_severity f = Nit) rows
      then False
      else if all_confirmed_fixed conditions \<and> list_ex (\<lambda>f. fd_status f = FOpen) rows
      then False
      else True)"

fun severity_rank :: "severity \<Rightarrow> nat" where
  "severity_rank Blocker = 3" | "severity_rank ShouldFix = 2" | "severity_rank Nit = 1"

fun rank_to_severity :: "nat \<Rightarrow> severity option" where
  "rank_to_severity n =
     (if n = 3 then Some Blocker else if n = 2 then Some ShouldFix else if n = 1 then Some Nit else None)"

definition refresh_ticket_summary ::
  "uuid \<Rightarrow> uuid \<Rightarrow> 'a findings_db_scheme \<Rightarrow> 'a findings_db_scheme" where
  "refresh_ticket_summary org_id ticket_id s =
     (let open_rows = select (findings s) (next_id s)
                   (\<lambda>f. fd_org_id f = org_id \<and> fd_ticket_id f = ticket_id \<and> fd_status f = FOpen);
          max_rank = fold max (map (severity_rank \<circ> fd_severity) open_rows) 0
      in update_findings_summary ticket_id (length open_rows) (rank_to_severity max_rank) s)"

section \<open>Histories of findings\<close>

text \<open>
  The transitions a finding goes through. Every caller passes an event whose status is the one the
  operation moves to (\<open>FindingStatusEvent\<close> is built beside the call); \<open>reflag\<close> carries the open status.
  New ids are drawn before recording, so they lie below the counter.
\<close>

inductive finding_step :: "'a findings_db_scheme \<Rightarrow> 'a findings_db_scheme \<Rightarrow> bool" where
  f_record: "(\<forall>spec \<in> set specs. fs_id spec < next_id s) \<Longrightarrow>
    record_findings org t r n e it specs s = (ids, s') \<Longrightarrow> finding_step s s'"
| f_resolve: "fe_status ev = FResolved \<Longrightarrow> resolve i ev s = Inr s' \<Longrightarrow> finding_step s s'"
| f_reopen: "fe_status ev = FOpen \<Longrightarrow> reopen i ev s = Inr s' \<Longrightarrow> finding_step s s'"
| f_dismiss: "fe_status ev = FDismissed \<Longrightarrow> dismiss i ev s = Inr s' \<Longrightarrow> finding_step s s'"
| f_reflag: "fe_status ev = FOpen \<Longrightarrow> reflag i ev s = Inr s' \<Longrightarrow> finding_step s s'"
| f_defend: "mark_defended i s = Inr s' \<Longrightarrow> finding_step s s'"
| f_anchor: "set_external_anchor i c s = Inr s' \<Longrightarrow> finding_step s s'"

definition log_ok :: "finding \<Rightarrow> bool" where
  "log_ok f \<longleftrightarrow> fd_status f = (if fd_status_events f = [] then FOpen else fe_status (last (fd_status_events f)))"

definition findings_ok :: "'a findings_db_scheme \<Rightarrow> bool" where
  "findings_ok s \<longleftrightarrow> keyed_rows fd_id (next_id s) (findings s) \<and> fnd.all_rows log_ok s \<and>
     (\<forall>i j f g. findings s i = Some f \<longrightarrow> findings s j = Some g \<longrightarrow> fd_ticket_id f = fd_ticket_id g \<longrightarrow>
        fd_display_id f = fd_display_id g \<longrightarrow> i = j)"

text \<open>What a step may do to a finding: its identity and history stay, dismissal is final.\<close>

definition finding_moves :: "finding \<Rightarrow> finding \<Rightarrow> bool" where
  "finding_moves f g \<longleftrightarrow> fd_id g = fd_id f \<and> fd_ticket_id g = fd_ticket_id f \<and> fd_display_id g = fd_display_id f \<and>
     fd_severity g = fd_severity f \<and> (\<exists>evs. fd_status_events g = fd_status_events f @ evs) \<and>
     (fd_status f = FDismissed \<longrightarrow> fd_status g = FDismissed)"

lemma finding_moves_refl [simp]: "finding_moves f f"
  by (simp add: finding_moves_def)

lemma finding_moves_trans: "finding_moves f g \<Longrightarrow> finding_moves g h \<Longrightarrow> finding_moves f h"
  by (auto simp: finding_moves_def)

definition findings_move :: "'a findings_db_scheme \<Rightarrow> 'a findings_db_scheme \<Rightarrow> bool" where
  "findings_move s s' \<longleftrightarrow> findings_ok s' \<and>
     (\<forall>i f. findings s i = Some f \<longrightarrow> (\<exists>g. findings s' i = Some g \<and> finding_moves f g))"

lemma findings_move_refl: "findings_ok s \<Longrightarrow> findings_move s s"
  by (auto simp: findings_move_def)

lemma findings_move_trans: "findings_move s t \<Longrightarrow> findings_move t u \<Longrightarrow> findings_move s u"
  unfolding findings_move_def by (meson finding_moves_trans)

lemma modify_finding_moves:
  assumes "findings_ok s" and "findings s' = modify i f (findings s)" and "next_id s' = next_id s"
    and "\<And>r. findings s i = Some r \<Longrightarrow> log_ok r \<Longrightarrow> finding_moves r (f r) \<and> log_ok (f r)"
  shows "findings_move s s'"
proof -
  have rows: "log_ok r" if "findings s j = Some r" for j r
    using that assms(1) by (auto simp: findings_ok_def fnd.all_rows_def)
  have fwd: "\<exists>g. findings s' j = Some g \<and> finding_moves r g" if "findings s j = Some r" for j r
    using that assms(2,4) rows by (cases "j = i") auto
  have prior: "\<exists>r. findings s j = Some r \<and> finding_moves r g \<and> log_ok g" if "findings s' j = Some g" for j g
    using that assms(2,4) rows by (cases "j = i") auto
  have k: "keyed_rows fd_id (next_id s) (findings s)" using assms(1) by (simp add: findings_ok_def)
  have "fd_id g = j \<and> j < next_id s'" if g: "findings s' j = Some g" for j g
  proof -
    obtain r where "findings s j = Some r" "fd_id g = fd_id r" using prior[OF g] by (auto simp: finding_moves_def)
    then show ?thesis using keyed_rowsD[OF k] assms(3) by auto
  qed
  then have "keyed_rows fd_id (next_id s') (findings s')" by (simp add: keyed_rows_def)
  moreover have "fnd.all_rows log_ok s'" using prior unfolding fnd.all_rows_def by blast
  moreover have "j = k" if "findings s' j = Some u" "findings s' k = Some v"
      "fd_ticket_id u = fd_ticket_id v" "fd_display_id u = fd_display_id v" for j k u v
  proof -
    from prior[OF that(1)] prior[OF that(2)] obtain a b where
      ab: "findings s j = Some a" "finding_moves a u" "findings s k = Some b" "finding_moves b v" by blast
    then have "fd_ticket_id a = fd_ticket_id b" "fd_display_id a = fd_display_id b"
      using that(3,4) by (simp_all add: finding_moves_def)
    with ab assms(1) show ?thesis unfolding findings_ok_def by blast
  qed
  ultimately show ?thesis using fwd unfolding findings_move_def findings_ok_def by blast
qed

lemma append_event_findings [simp]:
  "findings (append_event_and_audit i k ev s) =
     modify i (\<lambda>f. f\<lparr>fd_status_events := fd_status_events f @ [ev]\<rparr>) (findings s)"
  "next_id (append_event_and_audit i k ev s) = next_id s"
  by (simp_all add: append_event_and_audit_def Let_def audit_for_finding_def audit_def upd_finding_def)

lemma upd_finding_findings [simp]:
  "findings (upd_finding i f s) = modify i f (findings s)" "next_id (upd_finding i f s) = next_id s"
  by (simp_all add: upd_finding_def)

lemma change_status_moves:
  assumes "change_status target kind i ev s = Inr s'" and "fe_status ev = target" and "findings_ok s"
  shows "findings_move s s'"
proof -
  from assms(1) obtain r where r: "findings s i = Some r"
    and c: "fd_status r = target \<and> s' = s \<or> fd_status r \<noteq> target \<and> target \<in> set (legal_transitions (fd_status r)) \<and>
      s' = append_event_and_audit i kind ev (upd_finding i (\<lambda>f. f\<lparr>fd_status := target\<rparr>) s)"
    by (auto simp: change_status_def get_finding_def res_simps split: if_splits)
  show ?thesis
  proof (cases "s' = s")
    case False
    with c have nd: "fd_status r \<noteq> FDismissed" by auto
    show ?thesis
      by (rule modify_finding_moves[OF assms(3), of _ i
            "\<lambda>f. f\<lparr>fd_status := target, fd_status_events := fd_status_events f @ [ev]\<rparr>"])
         (use c False r nd assms(2) in \<open>auto simp: finding_moves_def log_ok_def o_def\<close>)
  qed (simp add: findings_move_refl assms(3))
qed

lemma new_finding_moves:
  assumes "findings_ok s" and "findings s i = None" and "log_ok f"
    and "keyed_rows fd_id (next_id s) ((findings s)(i \<mapsto> f))"
    and "\<And>j l u v. findings (s\<lparr>findings := (findings s)(i \<mapsto> f)\<rparr>) j = Some u \<Longrightarrow>
       findings (s\<lparr>findings := (findings s)(i \<mapsto> f)\<rparr>) l = Some v \<Longrightarrow>
       fd_ticket_id u = fd_ticket_id v \<Longrightarrow> fd_display_id u = fd_display_id v \<Longrightarrow> j = l"
  shows "findings_move s (s\<lparr>findings := (findings s)(i \<mapsto> f)\<rparr>)"
proof -
  let ?s1 = "s\<lparr>findings := (findings s)(i \<mapsto> f)\<rparr>"
  have "log_ok g" if "findings ?s1 j = Some g" for j g
    using that assms(1,3) by (cases "j = i") (auto simp: findings_ok_def fnd.all_rows_def)
  then have "fnd.all_rows log_ok ?s1" unfolding fnd.all_rows_def by blast
  moreover have "\<exists>h. findings ?s1 j = Some h \<and> finding_moves g h" if "findings s j = Some g" for j g
    using that assms(2) by (cases "j = i") auto
  moreover have "keyed_rows fd_id (next_id ?s1) (findings ?s1)" using assms(4) by simp
  ultimately show ?thesis using assms(5) unfolding findings_move_def findings_ok_def by blast
qed

lemma record_specs_moves:
  assumes "record_specs org t r n e it specs d s = (ids, s')" and "findings_ok s"
    and "\<And>spec. spec \<in> set specs \<Longrightarrow> fs_id spec < next_id s"
    and "\<And>j f. findings s j = Some f \<Longrightarrow> fd_ticket_id f = t \<Longrightarrow> fd_display_id f < d"
  shows "findings_move s s'"
  using assms
proof (induction specs arbitrary: d s ids)
  case Nil
  then show ?case by (simp add: findings_move_refl)
next
  case (Cons spec specs)
  show ?case
  proof (cases "findings s (fs_id spec)")
    case (Some f)
    let ?s1 = "upd_finding (fs_id spec) (refresh_finding spec) s"
    have s1: "findings_move s ?s1"
      by (rule modify_finding_moves[OF Cons.prems(2)])
         (auto simp: refresh_finding_def finding_moves_def log_ok_def)
    obtain ids' where rest: "record_specs org t r n e it specs d ?s1 = (ids', s')"
      using Cons.prems(1) Some by (auto split: prod.splits)
    have "findings_move ?s1 s'"
    proof (rule Cons.IH[OF rest])
      fix j g assume "findings ?s1 j = Some g" "fd_ticket_id g = t"
      then show "fd_display_id g < d" using Cons.prems(4)
        by (cases "j = fs_id spec") (auto simp: refresh_finding_def)
    qed (use s1 Cons.prems(3) in \<open>auto simp: findings_move_def\<close>)
    with s1 show ?thesis by (rule findings_move_trans)
  next
    case None
    let ?f = "new_finding org t r n e it d spec"
    let ?s1 = "s\<lparr>findings := (findings s)(fs_id spec \<mapsto> ?f)\<rparr>"
    have f: "fd_id ?f = fs_id spec" "fd_ticket_id ?f = t" "fd_display_id ?f = d" "log_ok ?f"
      by (simp_all add: new_finding_def log_ok_def)
    have k: "keyed_rows fd_id (next_id s) ((findings s)(fs_id spec \<mapsto> ?f))"
      using Cons.prems(2,3) f(1) by (auto simp: findings_ok_def intro: keyed_rows_insert)
    have "j = l" if "findings ?s1 j = Some u" "findings ?s1 l = Some v" "fd_ticket_id u = fd_ticket_id v"
        "fd_display_id u = fd_display_id v" for j l u v
    proof -
      consider "j = fs_id spec" "l = fs_id spec" | "j = fs_id spec" "l \<noteq> fs_id spec"
        | "j \<noteq> fs_id spec" "l = fs_id spec" | "j \<noteq> fs_id spec" "l \<noteq> fs_id spec" by blast
      then show ?thesis
      proof cases
        case 2
        then have "u = ?f" "findings s l = Some v" using that(1,2) by simp_all
        then show ?thesis using Cons.prems(4)[of l v] that(3,4) f(2,3) by simp
      next
        case 3
        then have "v = ?f" "findings s j = Some u" using that(1,2) by simp_all
        then show ?thesis using Cons.prems(4)[of j u] that(3,4) f(2,3) by simp
      next
        case 4
        then have "findings s j = Some u" "findings s l = Some v" using that(1,2) by simp_all
        then show ?thesis using Cons.prems(2) that(3,4) unfolding findings_ok_def by blast
      qed simp
    qed
    then have s1: "findings_move s ?s1"
      using new_finding_moves[OF Cons.prems(2) None f(4) k] by blast
    obtain ids' where rest: "record_specs org t r n e it specs (d + 1) ?s1 = (ids', s')"
      using Cons.prems(1) None by (auto split: prod.splits)
    have "findings_move ?s1 s'"
    proof (rule Cons.IH[OF rest])
      fix j g assume "findings ?s1 j = Some g" "fd_ticket_id g = t"
      then show "fd_display_id g < d + 1"
        using Cons.prems(4)[of j g] f(3) by (cases "j = fs_id spec") auto
    qed (use s1 Cons.prems(3) in \<open>auto simp: findings_move_def\<close>)
    with s1 show ?thesis by (rule findings_move_trans)
  qed
qed

lemma max_display_id_ge:
  assumes "findings_ok s" and "findings s j = Some f" and "fd_ticket_id f = t"
  shows "fd_display_id f < max_display_id t s + 1"
proof -
  have k: "keyed_rows fd_id (next_id s) (findings s)" using assms(1) by (simp add: findings_ok_def)
  have "findings s (fd_id f) = Some f" using assms(2) keyed_rowsD[OF k assms(2)] by simp
  then have "f \<in> set (select (findings s) (next_id s) (\<lambda>f. fd_ticket_id f = t))"
    using keyed_select_mem[OF k] assms(3) by blast
  then have "fd_display_id f \<le> max_display_id t s" unfolding max_display_id_def by (intro fold_max_ge) auto
  then show ?thesis by simp
qed

lemma finding_step_moves: "finding_step s s' \<Longrightarrow> findings_ok s \<Longrightarrow> findings_move s s'"
proof (induction rule: finding_step.induct)
  case (f_record specs s org t r n e it ids s')
  show ?case
  proof (cases "specs = []")
    case True
    with f_record show ?thesis by (simp add: record_findings_def findings_move_refl)
  next
    case False
    with f_record.hyps(2) have "record_specs org t r n e it specs (max_display_id t s + 1) s = (ids, s')"
      by (simp add: record_findings_def)
    then show ?thesis
    proof (rule record_specs_moves)
      show "fd_display_id f < max_display_id t s + 1" if "findings s j = Some f" "fd_ticket_id f = t" for j f
        using max_display_id_ge[OF f_record.prems that] .
    qed (use f_record in auto)
  qed
next
  case (f_reflag ev i s s')
  then obtain r where r: "findings s i = Some r" "fd_status r = FOpen"
    "s' = append_event_and_audit i ''finding.reflagged'' ev s"
    by (auto simp: reflag_def get_finding_def res_simps split: if_splits)
  show ?case unfolding r(3)
    by (rule modify_finding_moves[OF f_reflag.prems, of _ i]) (use r f_reflag.hyps in \<open>auto simp: finding_moves_def log_ok_def\<close>)
next
  case (f_defend i s s')
  then obtain r where r: "findings s i = Some r"
    and c: "s' = s \<or> s' = audit_for_finding i ''finding.defended'' (JObj [(''defended_at'', JNum (now s))])
       SystemActor (fd_org_id r) (upd_finding i (\<lambda>f. f\<lparr>fd_defended_at := Some (now s)\<rparr>) s)"
    by (auto simp: mark_defended_def get_finding_def res_simps split: if_splits)
  from c show ?case
  proof
    assume s': "s' = audit_for_finding i ''finding.defended'' (JObj [(''defended_at'', JNum (now s))])
       SystemActor (fd_org_id r) (upd_finding i (\<lambda>f. f\<lparr>fd_defended_at := Some (now s)\<rparr>) s)"
    show ?thesis
      by (rule modify_finding_moves[OF f_defend.prems, of _ i "\<lambda>f. f\<lparr>fd_defended_at := Some (now s)\<rparr>"])
         (simp_all add: s' audit_for_finding_def audit_def upd_finding_def finding_moves_def log_ok_def)
  qed (simp add: findings_move_refl f_defend.prems)
next
  case (f_anchor i c s s')
  then show ?case
    by (auto simp: set_external_anchor_def get_finding_def res_simps finding_moves_def log_ok_def
        intro!: modify_finding_moves[where i = i and f = "\<lambda>f. f\<lparr>fd_external_comment_id := Some c\<rparr>"])
qed (auto simp: resolve_def reopen_def dismiss_def intro: change_status_moves)

lemma finding_steps_move:
  assumes "finding_step\<^sup>*\<^sup>* s s'" and "findings_ok s"
  shows "findings_move s s'"
  using assms
proof (induction rule: rtranclp_induct)
  case (step y z)
  then have y: "findings_move s y" by simp
  with finding_step_moves[OF step.hyps(2)] have "findings_move y z" by (simp add: findings_move_def)
  with y show ?case by (rule findings_move_trans)
qed (rule findings_move_refl)

text \<open>C20. The life of a finding: over any sequence of reports, verdicts and overrides a finding
  keeps its ticket, its number and its severity, its event log only grows and its status is the one of
  the last event, a dismissed finding stays dismissed, and no two findings of a ticket share a
  display number.\<close>

theorem finding_history:
  assumes "finding_step\<^sup>*\<^sup>* s s'" and "findings_ok s" and "findings s i = Some f"
  shows "\<exists>g evs. findings s' i = Some g \<and> fd_ticket_id g = fd_ticket_id f \<and> fd_display_id g = fd_display_id f \<and>
           fd_severity g = fd_severity f \<and> fd_status_events g = fd_status_events f @ evs \<and>
           (evs \<noteq> [] \<longrightarrow> fd_status g = fe_status (last evs)) \<and>
           (fd_status f = FDismissed \<longrightarrow> fd_status g = FDismissed) \<and>
           (\<forall>j h. findings s' j = Some h \<and> fd_ticket_id h = fd_ticket_id f \<and> fd_display_id h = fd_display_id f \<longrightarrow> j = i)"
proof -
  have m: "findings_move s s'" using finding_steps_move[OF assms(1,2)] .
  then obtain g where g: "findings s' i = Some g" "finding_moves f g"
    using assms(3) by (auto simp: findings_move_def)
  then obtain evs where evs: "fd_status_events g = fd_status_events f @ evs" by (auto simp: finding_moves_def)
  have ok: "findings_ok s'" using m by (simp add: findings_move_def)
  then have "log_ok g" using g(1) by (auto simp: findings_ok_def fnd.all_rows_def)
  then have "evs \<noteq> [] \<longrightarrow> fd_status g = fe_status (last evs)" using evs by (simp add: log_ok_def)
  moreover have "j = i" if "findings s' j = Some h" "fd_ticket_id h = fd_ticket_id f" "fd_display_id h = fd_display_id f" for j h
    using ok that g unfolding findings_ok_def finding_moves_def by metis
  ultimately show ?thesis using g evs unfolding finding_moves_def by blast
qed

section \<open>Auto-approval and the ticket rollup\<close>

text \<open>Auto-approval is refused exactly when an open finding that was posted to the pull request
  violates an enabled condition: a severity that must be absent, or any open finding when all have to
  be confirmed fixed.\<close>

theorem auto_approve_iff:
  "evaluate_auto_approve org t c s \<longleftrightarrow>
     \<not> (\<exists>i f. i < next_id s \<and> findings s i = Some f \<and> fd_org_id f = org \<and> fd_ticket_id f = t \<and>
           fd_external_comment_id f \<noteq> None \<and> fd_status f = FOpen \<and>
           (all_confirmed_fixed c \<or> (case fd_severity f of Blocker \<Rightarrow> no_blocker c | ShouldFix \<Rightarrow> no_should_fix c
              | Nit \<Rightarrow> no_nit c)))"
proof -
  let ?rows = "select (findings s) (next_id s)
     (\<lambda>f. fd_org_id f = org \<and> fd_ticket_id f = t \<and> fd_external_comment_id f \<noteq> None)"
  have "evaluate_auto_approve org t c s \<longleftrightarrow>
     \<not> (\<exists>f \<in> set ?rows. fd_status f = FOpen \<and>
          (all_confirmed_fixed c \<or> (case fd_severity f of Blocker \<Rightarrow> no_blocker c | ShouldFix \<Rightarrow> no_should_fix c
              | Nit \<Rightarrow> no_nit c)))"
    unfolding evaluate_auto_approve_def Let_def list_ex_iff
    by (auto split: severity.splits)
  also have "\<dots> \<longleftrightarrow> \<not> (\<exists>i f. i < next_id s \<and> findings s i = Some f \<and> fd_org_id f = org \<and> fd_ticket_id f = t \<and>
           fd_external_comment_id f \<noteq> None \<and> fd_status f = FOpen \<and>
           (all_confirmed_fixed c \<or> (case fd_severity f of Blocker \<Rightarrow> no_blocker c | ShouldFix \<Rightarrow> no_should_fix c
              | Nit \<Rightarrow> no_nit c)))"
    unfolding set_select by blast
  finally show ?thesis .
qed

lemma fold_max_mem: "fold max xs (m::nat) = m \<or> fold max xs m \<in> set xs"
  by (induction xs arbitrary: m) (auto simp: max_def split: if_splits)

lemma rank_round_trip [simp]: "rank_to_severity (severity_rank sev) = Some sev"
  by (cases sev) simp_all

lemma max_severity_rank:
  fixes fs :: "finding list"
  defines "m \<equiv> fold max (map (severity_rank \<circ> fd_severity) fs) 0"
  shows "rank_to_severity m = None \<longleftrightarrow> fs = []"
    and "rank_to_severity m = Some sev \<Longrightarrow> (\<exists>f \<in> set fs. fd_severity f = sev) \<and> (\<forall>f \<in> set fs. severity_rank (fd_severity f) \<le> severity_rank sev)"
proof -
  have ge: "severity_rank (fd_severity f) \<le> m" if "f \<in> set fs" for f
    unfolding m_def by (rule fold_max_ge) (use that in auto)
  have pos: "0 < severity_rank x" for x by (cases x) simp_all
  have mem: "m = 0 \<or> (\<exists>f \<in> set fs. m = severity_rank (fd_severity f))"
    using fold_max_mem[of "map (severity_rank \<circ> fd_severity) fs" 0] unfolding m_def by auto
  show "rank_to_severity m = None \<longleftrightarrow> fs = []"
  proof
    assume none: "rank_to_severity m = None"
    then have "m = 0" using mem by (auto simp del: rank_to_severity.simps)
    then have "\<not> f \<in> set fs" for f using ge[of f] pos[of "fd_severity f"] by auto
    then show "fs = []" by (cases fs) auto
  qed (simp add: m_def)
  assume s: "rank_to_severity m = Some sev"
  then have "m \<noteq> 0" by (intro notI) simp
  with mem obtain f where "f \<in> set fs" "m = severity_rank (fd_severity f)" by blast
  with s ge show "(\<exists>f \<in> set fs. fd_severity f = sev) \<and> (\<forall>f \<in> set fs. severity_rank (fd_severity f) \<le> severity_rank sev)"
    by (auto simp del: rank_to_severity.simps)
qed

text \<open>The rollup written on a ticket counts its open findings and records the worst of their
  severities, and no severity exactly when nothing is open.\<close>

theorem ticket_rollup:
  assumes "tickets s t = Some row"
  shows "\<exists>row'. tickets (refresh_ticket_summary org t s) t = Some row' \<and>
    tk_findings_count row' = length (select (findings s) (next_id s)
        (\<lambda>f. fd_org_id f = org \<and> fd_ticket_id f = t \<and> fd_status f = FOpen)) \<and>
    (tk_max_severity row' = None \<longleftrightarrow> tk_findings_count row' = 0) \<and>
    (\<forall>sev. tk_max_severity row' = Some sev \<longrightarrow>
       (\<exists>f \<in> set (list_open_for_ticket org t s). fd_severity f = sev) \<and>
       (\<forall>f \<in> set (list_open_for_ticket org t s). severity_rank (fd_severity f) \<le> severity_rank sev))"
proof -
  let ?open = "select (findings s) (next_id s) (\<lambda>f. fd_org_id f = org \<and> fd_ticket_id f = t \<and> fd_status f = FOpen)"
  let ?m = "fold max (map (severity_rank \<circ> fd_severity) ?open) 0"
  have listed: "set (list_open_for_ticket org t s) = set ?open"
    by (simp add: list_open_for_ticket_def by_display_id_def)
  have "tickets (refresh_ticket_summary org t s) t =
      Some (row\<lparr>tk_findings_count := length ?open, tk_max_severity := rank_to_severity ?m\<rparr>)"
    using assms by (simp add: refresh_ticket_summary_def update_findings_summary_def upd_ticket_def Let_def
        del: rank_to_severity.simps)
  then show ?thesis unfolding listed
    using max_severity_rank[of ?open]
    by (intro exI[of _ "row\<lparr>tk_findings_count := length ?open, tk_max_severity := rank_to_severity ?m\<rparr>"])
       (simp del: rank_to_severity.simps)
qed

definition blank_findings :: findings_db where
  "blank_findings =
     \<lparr>now = 0, next_id = 3, outbox = [], audits = [], sse_pending = [], notifications = [],
      memberships = [], oauth_identities = [], orgs = Map.empty, current_traceparent = None, commands = Map.empty,
      agents = Map.empty, bearers = Map.empty, workspaces = Map.empty, ca_runs = Map.empty,
      ca_activity = [],
      tickets = [2 \<mapsto> \<lparr>tk_id = 2, tk_org_id = 1, tk_source = [], tk_source_external_id = [], tk_title = [],
        tk_description = None, tk_status = TRunning, tk_plugin_id = [], tk_repo_external_id = [],
        tk_pr_id = None, tk_type = [], tk_idempotency_key = None, tk_payload = [],
        tk_current_run_id = None, tk_branch_name = [], tk_findings_count = 0, tk_max_severity = None,
        tk_created_at = 0\<rparr>],
      pull_requests = Map.empty, artifacts = Map.empty, findings = Map.empty\<rparr>"

definition sample_spec :: "uuid \<Rightarrow> severity \<Rightarrow> finding_spec" where
  "sample_spec i sev = \<lparr>fs_id = i, fs_severity = sev, fs_body = [], fs_code_file = None, fs_code_line = None,
     fs_artifact_section = None, fs_defect_in_artifact = None, fs_display_prefix = ''F''\<rparr>"

definition verdict :: "finding_status \<Rightarrow> finding_status_event" where
  "verdict st = \<lparr>fe_status = st, fe_method = ReviewVerdict, fe_actor = SystemActor, fe_run_id = None,
     fe_stage_execution_id = None, fe_comment_external_id = None, fe_at = 0\<rparr>"

definition two_findings :: findings_db where
  "two_findings = snd (record_findings 1 2 3 ''plan'' 4 1 [sample_spec 0 Nit, sample_spec 1 ShouldFix] blank_findings)"

lemma blank_findings_ok [simp]: "findings_ok blank_findings"
  by (simp add: findings_ok_def keyed_rows_def fnd.all_rows_def blank_findings_def)

lemma two_findings_step: "finding_step blank_findings two_findings"
  unfolding two_findings_def
  by (rule f_record[OF _ prod.collapse[symmetric]]) (simp add: sample_spec_def blank_findings_def)

lemma two_findings_ok: "findings_ok two_findings"
  using finding_step_moves[OF two_findings_step] by (simp add: findings_move_def)

lemmas two_findings_defs = two_findings_def blank_findings_def record_findings_def max_display_id_def
  sample_spec_def new_finding_def

theorem finding_history_witness:
  "\<exists>s1 f g. dismiss 0 (verdict FDismissed) two_findings = Inr s1 \<and> findings s1 0 = Some f \<and>
     fd_status f = FDismissed \<and> findings (snd (record_findings 1 2 3 ''plan'' 4 2 [sample_spec 0 Nit] s1)) 0 = Some g \<and>
     fd_status g = FDismissed"
proof -
  obtain r where r: "findings two_findings 0 = Some r" "fd_status r = FOpen"
    by (simp add: two_findings_defs)
  define s1 where "s1 = append_event_and_audit 0 ''finding.dismissed'' (verdict FDismissed)
      (upd_finding 0 (\<lambda>f. f\<lparr>fd_status := FDismissed\<rparr>) two_findings)"
  have s1: "dismiss 0 (verdict FDismissed) two_findings = Inr s1"
    using r by (simp add: dismiss_def change_status_def get_finding_def s1_def)
  then have st: "finding_step two_findings s1" by (rule f_dismiss[rotated]) (simp add: verdict_def)
  have ok: "findings_ok s1" using finding_step_moves[OF st two_findings_ok] by (simp add: findings_move_def)
  obtain f where f: "findings s1 0 = Some f" "fd_status f = FDismissed"
    using r unfolding s1_def by simp
  have "next_id s1 = 3" unfolding s1_def by (simp add: two_findings_defs)
  then have "finding_step s1 (snd (record_findings 1 2 3 ''plan'' 4 2 [sample_spec 0 Nit] s1))"
    by (intro f_record[OF _ prod.collapse[symmetric]]) (simp add: sample_spec_def)
  from finding_history[OF r_into_rtranclp[of finding_step, OF this] ok f(1)] f s1 show ?thesis by auto
qed

theorem ticket_rollup_witness:
  "\<exists>row. tickets (refresh_ticket_summary 1 2 two_findings) 2 = Some row \<and> tk_findings_count row = 2 \<and>
     tk_max_severity row \<noteq> None"
proof -
  obtain row where "tickets two_findings 2 = Some row" by (simp add: two_findings_defs)
  from ticket_rollup[OF this, of 1] obtain row' where
    row': "tickets (refresh_ticket_summary 1 2 two_findings) 2 = Some row'"
      "tk_findings_count row' = length (select (findings two_findings) (next_id two_findings)
        (\<lambda>f. fd_org_id f = 1 \<and> fd_ticket_id f = 2 \<and> fd_status f = FOpen))"
      "tk_max_severity row' = None \<longleftrightarrow> tk_findings_count row' = 0" by (elim exE conjE) (rule that)
  moreover have "tk_findings_count row' = 2" unfolding row'(2) by (simp add: two_findings_defs)
  ultimately show ?thesis by auto
qed

end
