(* ===== verification/Definition.thy ===== *)
theory Definition
  imports Prelude "HOL-Library.AList"
begin

text \<open>
  The authored pipeline model and its static checks, after
  \<^verbatim>\<open>domain/pipelines/definition.py\<close>: the stage union, \<open>flatten\<close> (recursive expansion of call
  stages), \<open>transitive_callers\<close> (the breadth-first search over the call graph) and
  \<open>validate_definition\<close>. The org's definition map is an association list in dict order.

  The declarative counterpart is \<open>expands\<close>, a big-step expansion relation with no notion of call
  chain or visited names. The lemmas show that \<open>flatten\<close> succeeds exactly on the definitions that
  have a finite expansion with distinct stage names and then returns that expansion, that the
  search computes the transitive closure of the call relation, and that the dry run of
  \<open>validate_definition\<close> keeps every stored pipeline of the org flattenable.
\<close>

section \<open>Stages\<close>

datatype confidence = Low | Medium | High

datatype boundary_mode = AlwaysHitl | AlwaysProceed | Conditional

record boundary_control =
  mode :: boundary_mode
  on_blocker_residuals :: bool
  on_should_fix_residuals :: bool
  on_nit_residuals :: bool
  on_protected_code :: bool
  on_confidence_below :: "confidence option"

record review_config =
  rc_skill_name :: string
  max_iterations :: nat

record skill_stage =
  sk_id :: uuid
  sk_name :: string
  sk_description :: string
  sk_skill_name :: string
  sk_plugin_id :: string
  sk_model :: string
  sk_effort :: string
  sk_review :: "review_config option"
  sk_context_stages :: "string list option"
  sk_wallclock_seconds :: int
  sk_boundary :: boundary_control

record review_skill_stage =
  rv_id :: uuid
  rv_name :: string
  rv_description :: string
  rv_skill_name :: string
  rv_plugin_id :: string
  rv_model :: string
  rv_effort :: string
  rv_context_stages :: "string list option"
  rv_wallclock_seconds :: int
  rv_boundary :: boundary_control

record action_stage =
  as_id :: uuid
  as_description :: string
  as_action_id :: string

record pipeline_call_stage =
  cs_id :: uuid
  cs_description :: string
  cs_pipeline_id :: uuid

datatype executable_stage =
    SkillStage skill_stage
  | ReviewSkillStage review_skill_stage
  | ActionStage action_stage

datatype stage =
    Exec executable_stage
  | PipelineCallStage pipeline_call_stage

record pipeline_definition =
  pd_id :: uuid
  pd_name :: string
  pd_description :: string
  pd_stages :: "stage list"

type_synonym flattened_definition = "executable_stage list"
type_synonym org_definitions = "(uuid \<times> pipeline_definition) list"

fun stage_name_of :: "executable_stage \<Rightarrow> string option" where
  "stage_name_of (SkillStage st) = Some (sk_name st)"
| "stage_name_of (ReviewSkillStage st) = Some (rv_name st)"
| "stage_name_of (ActionStage st) = None"

definition stage_names :: "executable_stage list \<Rightarrow> string list" where
  "stage_names xs = List.map_filter stage_name_of xs"

lemma stage_names_simps [simp]:
  "stage_names [] = []"
  "stage_names (x # xs) =
     (case stage_name_of x of None \<Rightarrow> stage_names xs | Some n \<Rightarrow> n # stage_names xs)"
  by (auto simp: stage_names_def List.map_filter_def split: option.splits)

lemma stage_names_append [simp]: "stage_names (xs @ ys) = stage_names xs @ stage_names ys"
  by (simp add: stage_names_def List.map_filter_def)

text \<open>The field constraints the request models enforce before anything below runs.\<close>

definition name_char :: "char \<Rightarrow> bool" where
  "name_char c \<longleftrightarrow> c \<in> set ''abcdefghijklmnopqrstuvwxyz0123456789-''"

definition stage_name_ok :: "string \<Rightarrow> bool" where
  "stage_name_ok n = (case n of [] \<Rightarrow> False
     | c # cs \<Rightarrow> c \<in> set ''abcdefghijklmnopqrstuvwxyz'' \<and> list_all name_char cs \<and> length cs \<le> 63)"

definition review_config_ok :: "review_config \<Rightarrow> bool" where
  "review_config_ok rc \<longleftrightarrow> 1 \<le> max_iterations rc \<and> max_iterations rc \<le> 3"

fun stage_ok :: "stage \<Rightarrow> bool" where
  "stage_ok (Exec (SkillStage st)) =
     (stage_name_ok (sk_name st) \<and> pred_option review_config_ok (sk_review st))"
| "stage_ok (Exec (ReviewSkillStage st)) = stage_name_ok (rv_name st)"
| "stage_ok (Exec (ActionStage _)) = True"
| "stage_ok (PipelineCallStage _) = True"

definition definition_ok :: "pipeline_definition \<Rightarrow> bool" where
  "definition_ok d \<longleftrightarrow> pd_stages d \<noteq> [] \<and> list_all stage_ok (pd_stages d)"

section \<open>Flattening\<close>

type_synonym flatten_acc = "executable_stage list \<times> string set"

definition append_stage :: "executable_stage \<Rightarrow> flatten_acc \<Rightarrow> flatten_acc res" where
  "append_stage x acc = (case acc of (stages, seen) \<Rightarrow>
     (case stage_name_of x of
        None \<Rightarrow> Inr (stages @ [x], seen)
      | Some n \<Rightarrow> if n \<in> seen then Inl (DuplicateStageName n)
                  else Inr (stages @ [x], insert n seen)))"

function expand_stages ::
  "org_definitions \<Rightarrow> uuid list \<Rightarrow> stage list \<Rightarrow> flatten_acc \<Rightarrow> flatten_acc res" where
  "expand_stages org chain [] acc = Inr acc"
| "expand_stages org chain (Exec x # sts) acc =
     ebind (append_stage x acc) (expand_stages org chain sts)"
| "expand_stages org chain (PipelineCallStage c # sts) acc =
     (case map_of org (cs_pipeline_id c) of
        None \<Rightarrow> Inl (UnknownPipeline (cs_id c) (cs_pipeline_id c))
      | Some callee \<Rightarrow>
          ebind (if pd_id callee \<in> set chain then Inl (CallCycle (chain @ [pd_id callee]))
                 else expand_stages org (chain @ [pd_id callee]) (pd_stages callee) acc)
            (expand_stages org chain sts))"
  by pat_completeness auto

definition def_ids :: "org_definitions \<Rightarrow> uuid set" where
  "def_ids org = (\<lambda>(k, d). pd_id d) ` set org"

lemma def_ids_less:
  assumes "map_of org p = Some callee" and "pd_id callee \<notin> set chain"
  shows "card (def_ids org - set (chain @ [pd_id callee])) < card (def_ids org - set chain)"
proof (rule psubset_card_mono)
  show "finite (def_ids org - set chain)" by (simp add: def_ids_def)
  have "pd_id callee \<in> def_ids org" using map_of_SomeD[OF assms(1)] by (force simp: def_ids_def)
  then show "def_ids org - set (chain @ [pd_id callee]) \<subset> def_ids org - set chain"
    using assms(2) by auto
qed

termination expand_stages
  by (relation "measures [\<lambda>(org, chain, sts, acc). card (def_ids org - set chain),
                          \<lambda>(org, chain, sts, acc). length sts]")
     (auto intro: def_ids_less simp del: set_append)

definition expand :: "org_definitions \<Rightarrow> pipeline_definition \<Rightarrow> uuid list \<Rightarrow> flatten_acc \<Rightarrow> flatten_acc res"
  where
  "expand org d chain acc =
     (if pd_id d \<in> set chain then Inl (CallCycle (chain @ [pd_id d]))
      else expand_stages org (chain @ [pd_id d]) (pd_stages d) acc)"

definition flatten :: "pipeline_definition \<Rightarrow> org_definitions \<Rightarrow> flattened_definition res" where
  "flatten d org = ebind (expand org d [] ([], {})) (\<lambda>(stages, seen). Inr stages)"

section \<open>Callers and validation\<close>

definition call_targets :: "pipeline_definition \<Rightarrow> uuid list" where
  "call_targets d =
     List.map_filter (\<lambda>st. case st of PipelineCallStage c \<Rightarrow> Some (cs_pipeline_id c) | Exec _ \<Rightarrow> None)
       (pd_stages d)"

definition direct_callers :: "org_definitions \<Rightarrow> uuid \<Rightarrow> uuid list" where
  "direct_callers defs target =
     List.map_filter (\<lambda>(pid, d). if target \<in> set (call_targets d) then Some pid else None) defs"

definition visit :: "uuid \<Rightarrow> uuid list \<times> uuid list \<Rightarrow> uuid list \<times> uuid list" where
  "visit caller acc = (case acc of (callers, next) \<Rightarrow>
     if caller \<in> set callers then (callers, next) else (callers @ [caller], next @ [caller]))"

definition visit_frontier :: "org_definitions \<Rightarrow> uuid list \<Rightarrow> uuid list \<Rightarrow> uuid list \<times> uuid list" where
  "visit_frontier defs frontier callers =
     fold (\<lambda>target. fold visit (direct_callers defs target)) frontier (callers, [])"

lemma fold_visit:
  "\<exists>new. fold visit cs (callers, nf) = (callers @ new, nf @ new) \<and>
     set new = set cs - set callers \<and> (distinct callers \<longrightarrow> distinct (callers @ new))"
proof (induction cs arbitrary: callers nf)
  case (Cons c cs)
  show ?case
  proof (cases "c \<in> set callers")
    case True
    then have "fold visit (c # cs) (callers, nf) = fold visit cs (callers, nf)"
      by (simp add: visit_def)
    moreover from Cons[of callers nf] obtain new where
      "fold visit cs (callers, nf) = (callers @ new, nf @ new)" "set new = set cs - set callers"
      "distinct callers \<longrightarrow> distinct (callers @ new)" by blast
    ultimately show ?thesis using True by (intro exI[of _ new]) auto
  next
    case False
    from Cons[of "callers @ [c]" "nf @ [c]"] obtain new where
      "fold visit cs (callers @ [c], nf @ [c]) = ((callers @ [c]) @ new, (nf @ [c]) @ new)"
      "set new = set cs - set (callers @ [c])"
      "distinct (callers @ [c]) \<longrightarrow> distinct ((callers @ [c]) @ new)" by blast
    moreover have "fold visit (c # cs) (callers, nf) = fold visit cs (callers @ [c], nf @ [c])"
      using False by (simp add: visit_def)
    ultimately show ?thesis using False
      by (intro exI[of _ "c # new"] conjI) (simp, force, simp)
  qed
qed simp

lemma fold_visit_frontier:
  "\<exists>new. fold (\<lambda>target. fold visit (direct_callers defs target)) ts (callers, nf)
        = (callers @ new, nf @ new) \<and>
     set new = (\<Union>t \<in> set ts. set (direct_callers defs t)) - set callers"
proof (induction ts arbitrary: callers nf)
  case (Cons t ts)
  obtain n1 where n1: "fold visit (direct_callers defs t) (callers, nf) = (callers @ n1, nf @ n1)"
    "set n1 = set (direct_callers defs t) - set callers"
    using fold_visit by blast
  obtain n2 where n2: "fold (\<lambda>target. fold visit (direct_callers defs target)) ts (callers @ n1, nf @ n1)
      = ((callers @ n1) @ n2, (nf @ n1) @ n2)"
    "set n2 = (\<Union>t \<in> set ts. set (direct_callers defs t)) - set (callers @ n1)"
    using Cons[of "callers @ n1" "nf @ n1"] by blast
  show ?case using n1 n2 by (intro exI[of _ "n1 @ n2"]) auto
qed simp

lemma visit_frontier_spec:
  obtains new where "visit_frontier defs frontier callers = (callers @ new, new)"
    and "set new = (\<Union>t \<in> set frontier. set (direct_callers defs t)) - set callers"
  using fold_visit_frontier[of defs frontier callers "[]"] by (auto simp: visit_frontier_def)

lemma direct_callers_subset: "set (direct_callers defs t) \<subseteq> fst ` set defs"
  by (force simp: direct_callers_def List.map_filter_def split: if_splits)

function search_callers :: "org_definitions \<Rightarrow> uuid list \<Rightarrow> uuid list \<Rightarrow> uuid list" where
  "search_callers defs callers frontier =
     (if frontier = [] then callers
      else case visit_frontier defs frontier callers of
             (callers', next) \<Rightarrow> search_callers defs callers' next)"
  by pat_completeness auto

termination search_callers
proof (relation "measures [\<lambda>(defs, callers, frontier). card (fst ` set defs - set callers),
                           \<lambda>(defs, callers, frontier). if frontier = [] then 0 else 1]", goal_cases)
  case (2 defs callers frontier callers' nf)
  obtain new where new: "visit_frontier defs frontier callers = (callers @ new, new)"
    "set new = (\<Union>t \<in> set frontier. set (direct_callers defs t)) - set callers"
    by (rule visit_frontier_spec)
  with 2 have eq: "callers' = callers @ new" "nf = new" by auto
  show ?case
  proof (cases "new = []")
    case True
    with 2(1) eq show ?thesis by simp
  next
    case False
    then obtain c where c: "c \<in> set new" by (cases new) auto
    then have "c \<in> fst ` set defs" "c \<notin> set callers"
      using new(2) direct_callers_subset by blast+
    then have "card (fst ` set defs - set (callers @ new)) < card (fst ` set defs - set callers)"
      using c by (intro psubset_card_mono) auto
    with eq show ?thesis by simp
  qed
qed simp

declare search_callers.simps [simp del]

definition transitive_callers :: "uuid \<Rightarrow> org_definitions \<Rightarrow> uuid list" where
  "transitive_callers pid defs = search_callers defs [] [pid]"

definition validate_definition :: "pipeline_definition \<Rightarrow> org_definitions \<Rightarrow> unit res" where
  "validate_definition d org =
     (let candidates = AList.update (pd_id d) d org in
      efold (\<lambda>pid _. ebind (require (map_of candidates pid) (KeyError pid))
                       (\<lambda>c. ebind (flatten c candidates) (\<lambda>_. Inr ())))
        (pd_id d # transitive_callers (pd_id d) candidates) ())"

section \<open>The expansion relation\<close>

text \<open>
  \<open>expands org sts xs n\<close>: replacing every call stage of \<open>sts\<close> by its callee's expansion gives
  \<open>xs\<close>, in \<open>n\<close> rule applications. There is no chain and no name set in it; \<open>n\<close> only measures the
  derivation.
\<close>

inductive expands :: "org_definitions \<Rightarrow> stage list \<Rightarrow> executable_stage list \<Rightarrow> nat \<Rightarrow> bool"
  for org where
  expands_Nil: "expands org [] [] 0"
| expands_Exec: "expands org sts xs n \<Longrightarrow> expands org (Exec x # sts) (x # xs) (Suc n)"
| expands_Call: "map_of org (cs_pipeline_id c) = Some callee \<Longrightarrow>
    expands org (pd_stages callee) ys m \<Longrightarrow> expands org sts xs n \<Longrightarrow>
    expands org (PipelineCallStage c # sts) (ys @ xs) (Suc (m + n))"

inductive_cases expands_NilE: "expands org [] xs n"
inductive_cases expands_ExecE: "expands org (Exec x # sts) xs n"
inductive_cases expands_CallE: "expands org (PipelineCallStage c # sts) xs n"

lemmas expands_elims = expands_NilE expands_ExecE expands_CallE

text \<open>Dict keys are the definitions' own ids.\<close>

definition keyed :: "org_definitions \<Rightarrow> bool" where
  "keyed org \<longleftrightarrow> (\<forall>(k, d) \<in> set org. pd_id d = k)"

lemma keyedD: "keyed org \<Longrightarrow> map_of org k = Some d \<Longrightarrow> pd_id d = k"
  by (auto simp: keyed_def dest: map_of_SomeD)

lemma expands_deterministic:
  "expands org sts xs n \<Longrightarrow> expands org sts ys m \<Longrightarrow> xs = ys \<and> n = m"
proof (induction arbitrary: ys m rule: expands.induct)
  case expands_Nil
  then show ?case by (auto elim: expands_elims)
next
  case (expands_Exec sts xs n x)
  from expands_Exec.prems obtain zs k where "ys = x # zs" "m = Suc k" "expands org sts zs k"
    by (auto elim: expands_ExecE)
  then show ?case using expands_Exec.IH by simp
next
  case (expands_Call c callee ys' m' sts xs n)
  from expands_Call.prems expands_Call.hyps(1) obtain ys2 m2 xs2 n2 where
    eq: "ys = ys2 @ xs2" "m = Suc (m2 + n2)"
    and e: "expands org (pd_stages callee) ys2 m2" "expands org sts xs2 n2"
    by (auto elim: expands_CallE)
  show ?case using expands_Call.IH(1)[OF e(1)] expands_Call.IH(2)[OF e(2)] eq by simp
qed

lemma append_stage_Inr:
  "append_stage x (stages, seen) = Inr acc' \<longleftrightarrow>
     acc' = (stages @ [x], seen \<union> set (stage_names [x])) \<and> set (stage_names [x]) \<inter> seen = {}"
  by (auto simp: append_stage_def split: option.splits)

text \<open>A successful expansion is one in the relation, appended to the accumulator.\<close>

lemma expand_stages_sound:
  "expand_stages org chain sts (stages, seen) = Inr acc' \<Longrightarrow>
     \<exists>xs n. expands org sts xs n \<and> acc' = (stages @ xs, seen \<union> set (stage_names xs)) \<and>
       distinct (stage_names xs) \<and> set (stage_names xs) \<inter> seen = {}"
proof (induction org chain sts "(stages, seen)" arbitrary: stages seen acc' rule: expand_stages.induct)
  case (1 org chain)
  then show ?case using expands_Nil by fastforce
next
  case (2 org chain x sts)
  from "2.prems" have step: "append_stage x (stages, seen) = Inr (stages @ [x], seen \<union> set (stage_names [x]))"
    and rest: "expand_stages org chain sts (stages @ [x], seen \<union> set (stage_names [x])) = Inr acc'"
    and disj: "set (stage_names [x]) \<inter> seen = {}"
    by (auto simp: res_simps append_stage_Inr)
  from "2.hyps"[OF step rest] obtain xs n where
    "expands org sts xs n" "acc' = (stages @ [x] @ xs, seen \<union> set (stage_names [x]) \<union> set (stage_names xs))"
    "distinct (stage_names xs)" "set (stage_names xs) \<inter> (seen \<union> set (stage_names [x])) = {}"
    by auto
  then show ?case using disj
    by (intro exI[of _ "x # xs"] exI[of _ "Suc n"])
       (auto intro: expands_Exec split: option.splits)
next
  case (3 org chain c sts)
  then obtain callee acc1 where callee: "map_of org (cs_pipeline_id c) = Some callee"
    and nc: "pd_id callee \<notin> set chain"
    and e1: "expand_stages org (chain @ [pd_id callee]) (pd_stages callee) (stages, seen) = Inr acc1"
    and e2: "expand_stages org chain sts acc1 = Inr acc'"
    by (auto simp: res_simps split: option.splits if_splits)
  obtain ys m where ys: "expands org (pd_stages callee) ys m"
    "acc1 = (stages @ ys, seen \<union> set (stage_names ys))" "distinct (stage_names ys)"
    "set (stage_names ys) \<inter> seen = {}"
    using "3.hyps"(1)[OF callee nc e1] by blast
  have c1: "(if pd_id callee \<in> set chain then Inl (CallCycle (chain @ [pd_id callee]))
      else expand_stages org (chain @ [pd_id callee]) (pd_stages callee) (stages, seen)) =
      Inr (stages @ ys, seen \<union> set (stage_names ys))"
    using nc e1 ys(2) by simp
  have e2': "expand_stages org chain sts (stages @ ys, seen \<union> set (stage_names ys)) = Inr acc'"
    using e2 ys(2) by simp
  obtain xs n where xs: "expands org sts xs n"
    "acc' = (stages @ ys @ xs, seen \<union> set (stage_names ys) \<union> set (stage_names xs))"
    "distinct (stage_names xs)" "set (stage_names xs) \<inter> (seen \<union> set (stage_names ys)) = {}"
    using "3.hyps"(2)[OF callee c1 e2'] by auto
  show ?case using expands_Call[OF callee ys(1) xs(1)] ys xs
    by (intro exI[of _ "ys @ xs"] exI[of _ "Suc (m + n)"]) auto
qed

text \<open>
  Conversely the chain check never rejects an expandable definition: a pipeline on the chain has a
  derivation at least as large as the one in progress, a callee's is strictly smaller.
\<close>

lemma expand_stages_complete:
  assumes "expands org sts xs n" and "keyed org"
    and "\<forall>k \<in> set chain. \<forall>d ys m. map_of org k = Some d \<longrightarrow> expands org (pd_stages d) ys m \<longrightarrow> n \<le> m"
    and "distinct (stage_names xs)" and "set (stage_names xs) \<inter> seen = {}"
  shows "expand_stages org chain sts (stages, seen) = Inr (stages @ xs, seen \<union> set (stage_names xs))"
  using assms
proof (induction arbitrary: chain stages seen rule: expands.induct)
  case expands_Nil
  then show ?case by simp
next
  case (expands_Exec sts xs n x)
  have step: "append_stage x (stages, seen) = Inr (stages @ [x], seen \<union> set (stage_names [x]))"
    using expands_Exec.prems by (simp add: append_stage_Inr) (auto split: option.splits)
  have "expand_stages org chain sts (stages @ [x], seen \<union> set (stage_names [x])) =
      Inr ((stages @ [x]) @ xs, (seen \<union> set (stage_names [x])) \<union> set (stage_names xs))"
  proof (rule expands_Exec.IH)
    show "\<forall>k \<in> set chain. \<forall>d ys m. map_of org k = Some d \<longrightarrow> expands org (pd_stages d) ys m \<longrightarrow> n \<le> m"
      using expands_Exec.prems(2) Suc_leD by blast
  qed (use expands_Exec.prems in \<open>auto split: option.splits\<close>)
  with step show ?case by (auto split: option.splits)
next
  case (expands_Call c callee ys m sts xs n)
  have id: "pd_id callee = cs_pipeline_id c" using keyedD[OF expands_Call.prems(1) expands_Call.hyps(1)] .
  have nc: "pd_id callee \<notin> set chain"
  proof
    assume "pd_id callee \<in> set chain"
    then have "Suc (m + n) \<le> m" using expands_Call.prems(2) expands_Call.hyps(1,2) unfolding id by blast
    then show False by simp
  qed
  have "expand_stages org (chain @ [pd_id callee]) (pd_stages callee) (stages, seen) =
      Inr (stages @ ys, seen \<union> set (stage_names ys))"
  proof (rule expands_Call.IH(1))
    have "m \<le> m'" if "expands org (pd_stages callee) ys' m'" for ys' m'
      using expands_deterministic[OF expands_Call.hyps(2) that] by simp
    moreover have "m \<le> m'" if "k \<in> set chain" "map_of org k = Some d" "expands org (pd_stages d) ys' m'"
      for k d ys' m'
      using expands_Call.prems(2) that by (meson Suc_leD add_leD1)
    ultimately show "\<forall>k \<in> set (chain @ [pd_id callee]). \<forall>d ys m'. map_of org k = Some d \<longrightarrow>
            expands org (pd_stages d) ys m' \<longrightarrow> m \<le> m'"
      using expands_Call.hyps(1) id by auto
  qed (use expands_Call.prems in auto)
  moreover have "expand_stages org chain sts (stages @ ys, seen \<union> set (stage_names ys)) =
      Inr ((stages @ ys) @ xs, (seen \<union> set (stage_names ys)) \<union> set (stage_names xs))"
  proof (rule expands_Call.IH(2))
    show "\<forall>k \<in> set chain. \<forall>d ys m'. map_of org k = Some d \<longrightarrow> expands org (pd_stages d) ys m' \<longrightarrow> n \<le> m'"
      using expands_Call.prems(2) by (meson Suc_leD add_leD2)
  qed (use expands_Call.prems in auto)
  ultimately show ?case using expands_Call.hyps(1) nc by (simp add: Un_assoc)
qed

lemma flatten_iff_expands:
  assumes "keyed org" and "map_of org (pd_id d) = Some d"
  shows "flatten d org = Inr xs \<longleftrightarrow>
           (\<exists>n. expands org (pd_stages d) xs n) \<and> distinct (stage_names xs)"
proof
  assume "flatten d org = Inr xs"
  then obtain seen where "expand_stages org [pd_id d] (pd_stages d) ([], {}) = Inr (xs, seen)"
    by (auto simp: flatten_def expand_def res_simps)
  from expand_stages_sound[OF this] show "(\<exists>n. expands org (pd_stages d) xs n) \<and> distinct (stage_names xs)"
    by auto
next
  assume "(\<exists>n. expands org (pd_stages d) xs n) \<and> distinct (stage_names xs)"
  then obtain n where "expands org (pd_stages d) xs n" "distinct (stage_names xs)" by blast
  moreover from this(1) have "n \<le> m" if "expands org (pd_stages d) ys m" for ys m
    using expands_deterministic that by blast
  ultimately have "expand_stages org [pd_id d] (pd_stages d) ([], {}) = Inr ([] @ xs, {} \<union> set (stage_names xs))"
    using assms by (intro expand_stages_complete) auto
  then show "flatten d org = Inr xs" by (simp add: flatten_def expand_def)
qed

section \<open>The call graph\<close>

definition calls :: "org_definitions \<Rightarrow> (uuid \<times> uuid) set" where
  "calls defs = {(p, q). \<exists>d. (p, d) \<in> set defs \<and> q \<in> set (call_targets d)}"

lemma set_direct_callers: "set (direct_callers defs t) = {p. (p, t) \<in> calls defs}"
  by (force simp: direct_callers_def calls_def List.map_filter_def split: if_splits)

text \<open>
  Loop invariant of the search: everything found calls \<open>pid\<close>, the frontier lies inside what was
  found (or is \<open>pid\<close> itself), and whatever is settled has all its callers found.
\<close>

lemma search_callers_spec:
  assumes "set callers \<subseteq> {p. (p, pid) \<in> (calls defs)\<^sup>+}"
    and "set frontier \<subseteq> insert pid (set callers)"
    and "\<forall>t \<in> insert pid (set callers) - set frontier. {p. (p, t) \<in> calls defs} \<subseteq> set callers"
  shows "set (search_callers defs callers frontier) = {p. (p, pid) \<in> (calls defs)\<^sup>+}"
  using assms
proof (induction defs callers frontier rule: search_callers.induct)
  case (1 defs callers frontier)
  show ?case
  proof (cases "frontier = []")
    case True
    have "p \<in> set callers" if "(p, pid) \<in> (calls defs)\<^sup>+" for p
      using that
    proof (induction rule: converse_trancl_induct)
      case (base p)
      then show ?case using "1.prems"(3) True by auto
    next
      case (step p q)
      then show ?case using "1.prems"(3) True by auto
    qed
    with "1.prems"(1) True show ?thesis by (auto simp: search_callers.simps)
  next
    case False
    obtain new where new: "visit_frontier defs frontier callers = (callers @ new, new)"
      "set new = (\<Union>t \<in> set frontier. {p. (p, t) \<in> calls defs}) - set callers"
      by (rule visit_frontier_spec[of defs frontier callers]) (simp add: set_direct_callers)
    have new_callers: "set new \<subseteq> {p. (p, pid) \<in> (calls defs)\<^sup>+}"
      using new(2) "1.prems"(1,2) by (blast intro: trancl_into_trancl2)
    have "set (search_callers defs (callers @ new) new) = {p. (p, pid) \<in> (calls defs)\<^sup>+}"
    proof (rule "1.IH"[OF False new(1)[symmetric]])
      show "set (callers @ new) \<subseteq> {p. (p, pid) \<in> (calls defs)\<^sup>+}"
        using "1.prems"(1) new_callers by simp
      show "\<forall>t \<in> insert pid (set (callers @ new)) - set new.
              {p. (p, t) \<in> calls defs} \<subseteq> set (callers @ new)"
        using "1.prems"(3) new(2) by auto
    qed auto
    with False new(1) show ?thesis by (simp add: search_callers.simps[of defs callers])
  qed
qed

lemma set_transitive_callers:
  "set (transitive_callers pid defs) = {p. (p, pid) \<in> (calls defs)\<^sup>+}"
  unfolding transitive_callers_def by (rule search_callers_spec) auto

section \<open>Validation keeps the org flattenable\<close>

definition flattenable :: "org_definitions \<Rightarrow> bool" where
  "flattenable org \<longleftrightarrow> (\<forall>k d. map_of org k = Some d \<longrightarrow> (\<exists>xs. flatten d org = Inr xs))"

lemma validate_definition_Inr:
  assumes "validate_definition d org = Inr ()"
    and "p = pd_id d \<or> p \<in> set (transitive_callers (pd_id d) (AList.update (pd_id d) d org))"
  shows "\<exists>c xs. map_of (AList.update (pd_id d) d org) p = Some c \<and>
           flatten c (AList.update (pd_id d) d org) = Inr xs"
proof -
  have each: "efold (\<lambda>x _. f x) ys () = Inr () \<Longrightarrow> y \<in> set ys \<Longrightarrow> f y = Inr ()"
    for f :: "uuid \<Rightarrow> unit res" and ys y
    by (induction ys) (auto simp: res_simps)
  from assms each show ?thesis
    unfolding validate_definition_def Let_def by (fastforce simp: res_simps)
qed

lemma expands_agree:
  assumes "expands org sts xs n"
    and "\<And>c. PipelineCallStage c \<in> set sts \<Longrightarrow> cs_pipeline_id c \<notin> bad"
    and "\<And>k. k \<notin> bad \<Longrightarrow> map_of org' k = map_of org k"
    and "\<And>k q. k \<notin> bad \<Longrightarrow> (k, q) \<in> calls org' \<Longrightarrow> q \<notin> bad"
  shows "expands org' sts xs n"
  using assms
proof (induction rule: expands.induct)
  case (expands_Call c callee ys m sts xs n)
  have ok: "cs_pipeline_id c \<notin> bad" using expands_Call.prems(1) by simp
  then have callee: "map_of org' (cs_pipeline_id c) = Some callee"
    using expands_Call.hyps(1) expands_Call.prems(2) by simp
  then have mem: "(cs_pipeline_id c, callee) \<in> set org'" by (rule map_of_SomeD)
  have "cs_pipeline_id c' \<notin> bad" if "PipelineCallStage c' \<in> set (pd_stages callee)" for c'
  proof -
    have "cs_pipeline_id c' \<in> set (call_targets callee)"
      using that by (force simp: call_targets_def List.map_filter_def)
    with mem show ?thesis using expands_Call.prems(3)[OF ok] by (auto simp: calls_def)
  qed
  then show ?case using expands_Call callee by (auto intro!: expands.expands_Call)
qed (auto intro: expands.intros)

lemma keyed_update: "keyed org \<Longrightarrow> keyed (AList.update (pd_id d) d org)"
  unfolding keyed_def by (induction org) auto

lemma call_targets_mem:
  "PipelineCallStage c \<in> set (pd_stages d) \<Longrightarrow> cs_pipeline_id c \<in> set (call_targets d)"
  by (force simp: call_targets_def List.map_filter_def)

lemma validate_preserves_flattenable:
  assumes valid: "validate_definition d org = Inr ()"
    and keyed: "keyed org" and flat: "flattenable org"
  shows "flattenable (AList.update (pd_id d) d org)"
  unfolding flattenable_def
proof (intro allI impI)
  let ?cand = "AList.update (pd_id d) d org"
  let ?bad = "insert (pd_id d) {p. (p, pd_id d) \<in> (calls ?cand)\<^sup>+}"
  fix k e assume k: "map_of ?cand k = Some e"
  show "\<exists>xs. flatten e ?cand = Inr xs"
  proof (cases "k \<in> ?bad")
    case True
    then have "k = pd_id d \<or> k \<in> set (transitive_callers (pd_id d) ?cand)"
      by (auto simp: set_transitive_callers)
    with validate_definition_Inr[OF valid] k show ?thesis by fastforce
  next
    case False
    then have old: "map_of org k = Some e" using k by (simp add: update_Some_unfold)
    have e: "pd_id e = k" using keyedD[OF keyed old] .
    obtain xs where "flatten e org = Inr xs" using flat old by (auto simp: flattenable_def)
    then obtain n where n: "expands org (pd_stages e) xs n" "distinct (stage_names xs)"
      using flatten_iff_expands[OF keyed] old e by auto
    have closed: "q \<notin> ?bad" if "p \<notin> ?bad" "(p, q) \<in> calls ?cand" for p q
      using that by (auto intro: trancl_into_trancl2)
    have "expands ?cand (pd_stages e) xs n"
    proof (rule expands_agree[OF n(1), of ?bad])
      fix c assume "PipelineCallStage c \<in> set (pd_stages e)"
      then have "(k, cs_pipeline_id c) \<in> calls ?cand"
        using map_of_SomeD[OF k] call_targets_mem by (auto simp: calls_def)
      with closed False show "cs_pipeline_id c \<notin> ?bad" by blast
    next
      fix p assume "p \<notin> ?bad"
      then show "map_of ?cand p = map_of org p" by (simp add: update_conv')
      fix q assume "(p, q) \<in> calls ?cand"
      with closed \<open>p \<notin> ?bad\<close> show "q \<notin> ?bad" by blast
    qed
    with n(2) k e show ?thesis using flatten_iff_expands[OF keyed_update[OF keyed, of d], of e xs] by auto
  qed
qed

text \<open>Removing a pipeline that nothing calls leaves every other expansion as it was.\<close>

lemma delete_preserves_flattenable:
  assumes keyed: "keyed org" and flat: "flattenable org" and unreferenced: "\<And>p. (p, pid) \<notin> calls org"
  shows "flattenable (AList.delete pid org)"
  unfolding flattenable_def
proof (intro allI impI)
  let ?rest = "AList.delete pid org"
  have keyed': "keyed ?rest" using keyed by (auto simp: keyed_def AList.delete_eq)
  fix k e assume k: "map_of ?rest k = Some e"
  then have old: "map_of org k = Some e" "k \<noteq> pid" by (auto simp: delete_conv' split: if_splits)
  have e: "pd_id e = k" using keyedD[OF keyed old(1)] .
  obtain xs where "flatten e org = Inr xs" using flat old by (auto simp: flattenable_def)
  then obtain n where n: "expands org (pd_stages e) xs n" "distinct (stage_names xs)"
    using flatten_iff_expands[OF keyed] old e by auto
  have "expands ?rest (pd_stages e) xs n"
  proof (rule expands_agree[OF n(1), of "{pid}"])
    fix c assume "PipelineCallStage c \<in> set (pd_stages e)"
    then have "(k, cs_pipeline_id c) \<in> calls org"
      using map_of_SomeD[OF old(1)] call_targets_mem by (auto simp: calls_def)
    with unreferenced show "cs_pipeline_id c \<notin> {pid}" by auto
  next
    fix p q assume "(p, q) \<in> calls ?rest"
    then have "(p, q) \<in> calls org" by (auto simp: calls_def AList.delete_eq)
    with unreferenced show "q \<notin> {pid}" by auto
  qed (simp add: delete_conv')
  with n(2) k e show "\<exists>xs. flatten e ?rest = Inr xs"
    using flatten_iff_expands[OF keyed', of e xs] by auto
qed

section \<open>What a rejected definition means\<close>

text \<open>
  The three ways \<open>flatten\<close> can fail, read off the call graph: a call chain that returns to one of its
  own pipelines, a call to a pipeline the org does not have, or a stage whose name was already taken,
  each reachable from the definition being flattened.
\<close>

definition call_chain :: "org_definitions \<Rightarrow> uuid list \<Rightarrow> bool" where
  "call_chain org ch \<longleftrightarrow> ch \<noteq> [] \<and> successively (\<lambda>p q. (p, q) \<in> calls org) ch"

definition flatten_fault :: "org_definitions \<Rightarrow> uuid \<Rightarrow> exn \<Rightarrow> bool" where
  "flatten_fault org root e \<longleftrightarrow>
     (\<exists>ch. e = CallCycle ch \<and> call_chain org ch \<and> hd ch = root \<and> last ch \<in> set (butlast ch) \<and>
        length ch \<le> Suc (length org)) \<or>
     (\<exists>i t q. e = UnknownPipeline i t \<and> map_of org t = None \<and> (q, t) \<in> calls org \<and>
        (root, q) \<in> (calls org)\<^sup>*) \<or>
     (\<exists>n q d x. e = DuplicateStageName n \<and> (root, q) \<in> (calls org)\<^sup>* \<and> map_of org q = Some d \<and>
        Exec x \<in> set (pd_stages d) \<and> stage_name_of x = Some n)"

lemma call_chain_last: "call_chain org ch \<Longrightarrow> (hd ch, last ch) \<in> (calls org)\<^sup>*"
proof (induction ch rule: rev_induct)
  case (snoc x xs)
  then show ?case
    by (cases "xs = []") (auto simp: call_chain_def successively_append_iff intro: rtrancl_into_rtrancl)
qed (simp add: call_chain_def)

lemma call_chain_snoc:
  "call_chain org ch \<Longrightarrow> (last ch, q) \<in> calls org \<Longrightarrow> call_chain org (ch @ [q])"
  by (simp add: call_chain_def successively_append_iff)

lemma known_distinct_length:
  assumes "distinct xs" and "\<forall>k \<in> set xs. map_of org k \<noteq> None"
  shows "length xs \<le> length org"
proof -
  have "set xs \<subseteq> fst ` set org" using assms(2) by (auto simp: map_of_eq_None_iff)
  then have "card (set xs) \<le> card (fst ` set org)" by (intro card_mono) auto
  also have "\<dots> \<le> length org" using card_image_le[of "set org" fst] card_length[of org] by simp
  finally show ?thesis using distinct_card[OF assms(1)] by simp
qed

lemma expand_stages_fault:
  assumes "expand_stages org chain sts acc = Inl e" and "keyed org"
    and "call_chain org chain" and "distinct chain" and "\<forall>k \<in> set chain. map_of org k \<noteq> None"
    and "map_of org (last chain) = Some d" and "set sts \<subseteq> set (pd_stages d)"
  shows "flatten_fault org (hd chain) e"
  using assms
proof (induction org chain sts acc arbitrary: d rule: expand_stages.induct)
  case (1 org chain acc)
  then show ?case by simp
next
  case (2 org chain x sts acc)
  show ?case
  proof (cases "append_stage x acc")
    case (Inl e')
    with "2.prems"(1) obtain n where n: "e = DuplicateStageName n" "stage_name_of x = Some n"
      by (auto simp: append_stage_def split: prod.splits option.splits if_splits)
    have "Exec x \<in> set (pd_stages d)" using "2.prems"(7) by simp
    with n call_chain_last[OF "2.prems"(3)] "2.prems"(6) show ?thesis
      unfolding flatten_fault_def by blast
  next
    case (Inr acc1)
    with "2.prems" "2.IH"[OF Inr, of d] show ?thesis by simp
  qed
next
  case (3 org chain c sts acc)
  have call: "(last chain, cs_pipeline_id c) \<in> calls org"
    using map_of_SomeD[OF "3.prems"(6)] call_targets_mem[of c d] "3.prems"(7) by (auto simp: calls_def)
  show ?case
  proof (cases "map_of org (cs_pipeline_id c)")
    case None
    with "3.prems"(1) have "e = UnknownPipeline (cs_id c) (cs_pipeline_id c)" by simp
    with None call call_chain_last[OF "3.prems"(3)] show ?thesis unfolding flatten_fault_def by blast
  next
    case (Some callee)
    have id: "pd_id callee = cs_pipeline_id c" using keyedD[OF "3.prems"(2) Some] .
    have ch: "call_chain org (chain @ [pd_id callee])"
      using call_chain_snoc[OF "3.prems"(3)] call id by simp
    show ?thesis
    proof (cases "pd_id callee \<in> set chain")
      case True
      with "3.prems"(1) Some have e: "e = CallCycle (chain @ [pd_id callee])" by simp
      have "hd (chain @ [pd_id callee]) = hd chain" using "3.prems"(3) by (simp add: call_chain_def)
      with e ch True known_distinct_length[OF "3.prems"(4,5)] show ?thesis
        unfolding flatten_fault_def by (intro disjI1) auto
    next
      case False
      show ?thesis
      proof (cases "expand_stages org (chain @ [pd_id callee]) (pd_stages callee) acc")
        case (Inl e')
        then have "expand_stages org (chain @ [pd_id callee]) (pd_stages callee) acc = Inl e"
          using "3.prems"(1) Some False by simp
        then have "flatten_fault org (hd (chain @ [pd_id callee])) e"
        proof (rule "3.IH"(1)[OF Some False _ "3.prems"(2) ch, of callee])
          show "\<forall>k \<in> set (chain @ [pd_id callee]). map_of org k \<noteq> None"
            using "3.prems"(5) Some id by simp
        qed (use "3.prems"(4) False Some id in simp_all)
        moreover have "hd (chain @ [pd_id callee]) = hd chain" using "3.prems"(3) by (simp add: call_chain_def)
        ultimately show ?thesis by simp
      next
        case (Inr acc1)
        with "3.prems" Some False show ?thesis
          by (intro "3.IH"(2)[OF Some, where d = d and x = acc1]) auto
      qed
    qed
  qed
qed

section \<open>Properties\<close>

text \<open>C11. Flattening is exact: it succeeds precisely on the definitions that have a finite
  expansion of their call stages with distinct stage names, and returns that expansion. The cycle
  check along the call chain rejects nothing else.\<close>

theorem flatten_exact:
  assumes "keyed org" and "map_of org (pd_id d) = Some d"
  shows "flatten d org = Inr xs \<longleftrightarrow> (\<exists>n. expands org (pd_stages d) xs n) \<and> distinct (stage_names xs)"
  using assms by (rule flatten_iff_expands)

text \<open>C12. Every rejection is justified by the call graph. A reported cycle is a real chain of calls
  from the flattened definition back into itself, of length at most one more than the number of
  pipelines; an unknown pipeline is called by a pipeline that is reachable; a duplicate name belongs
  to a stage of a reachable pipeline. No other exception is raised.\<close>

theorem flatten_rejections:
  assumes "keyed org" and "map_of org (pd_id d) = Some d" and "flatten d org = Inl e"
  shows "flatten_fault org (pd_id d) e"
proof -
  have "expand_stages org [pd_id d] (pd_stages d) ([], {}) = Inl e"
    using assms(3) by (auto simp: flatten_def expand_def res_simps)
  from expand_stages_fault[OF this assms(1), of d] assms(2) show ?thesis
    by (auto simp: call_chain_def)
qed

text \<open>The breadth-first search over the call graph computes its transitive closure: the
  callers it returns are exactly the pipelines from which the given one can be reached by calls.\<close>

theorem transitive_callers_exact:
  "p \<in> set (transitive_callers pid defs) \<longleftrightarrow> (p, pid) \<in> (calls defs)\<^sup>+"
  by (simp add: set_transitive_callers)

text \<open>The dry run of a save is enough: when it accepts a definition, every pipeline the org
  stores still flattens once the definition is in place, the callers it re-checked and all the
  others.\<close>

theorem validate_keeps_flattenable:
  assumes "validate_definition d org = Inr ()" and "keyed org" and "flattenable org"
    and "map_of (AList.update (pd_id d) d org) k = Some e"
  shows "\<exists>xs. flatten e (AList.update (pd_id d) d org) = Inr xs"
  using validate_preserves_flattenable[OF assms(1-3)] assms(4) by (simp add: flattenable_def)

definition sample_call :: "uuid \<Rightarrow> uuid \<Rightarrow> stage" where
  "sample_call i p = PipelineCallStage \<lparr>cs_id = i, cs_description = [], cs_pipeline_id = p\<rparr>"

definition sample_action :: "uuid \<Rightarrow> executable_stage" where
  "sample_action i = ActionStage \<lparr>as_id = i, as_description = [], as_action_id = ''merge''\<rparr>"

definition sample_pipeline :: "uuid \<Rightarrow> stage list \<Rightarrow> pipeline_definition" where
  "sample_pipeline i sts = \<lparr>pd_id = i, pd_name = [], pd_description = [], pd_stages = sts\<rparr>"

definition sample_org :: org_definitions where
  "sample_org = [(1, sample_pipeline 1 [Exec (sample_action 7), sample_call 8 2]),
                 (2, sample_pipeline 2 [Exec (sample_action 9)])]"

definition cyclic_org :: org_definitions where
  "cyclic_org = [(1, sample_pipeline 1 [sample_call 8 2]), (2, sample_pipeline 2 [sample_call 9 1])]"

lemmas sample_org_defs = sample_org_def cyclic_org_def sample_pipeline_def sample_call_def sample_action_def

lemma sample_keyed [simp]: "keyed sample_org" "keyed cyclic_org"
  by (simp_all add: keyed_def sample_org_defs)

theorem flatten_exact_witness:
  "\<exists>n. expands sample_org (pd_stages (sample_pipeline 1 [Exec (sample_action 7), sample_call 8 2]))
     [sample_action 7, sample_action 9] n"
proof -
  let ?d = "sample_pipeline 1 [Exec (sample_action 7), sample_call 8 2]"
  have "flatten ?d sample_org = Inr [sample_action 7, sample_action 9]"
    by (simp add: flatten_def expand_def append_stage_def sample_org_defs)
  moreover have "map_of sample_org (pd_id ?d) = Some ?d" by (simp add: sample_org_defs)
  ultimately show ?thesis
    using flatten_exact[of sample_org ?d "[sample_action 7, sample_action 9]"] by simp
qed

theorem flatten_rejections_witness:
  "flatten (sample_pipeline 1 [sample_call 8 2]) cyclic_org = Inl (CallCycle [1, 2, 1]) \<and>
   flatten_fault cyclic_org 1 (CallCycle [1, 2, 1])"
proof -
  let ?d = "sample_pipeline 1 [sample_call 8 2]"
  have f: "flatten ?d cyclic_org = Inl (CallCycle [1, 2, 1])"
    by (simp add: flatten_def expand_def append_stage_def sample_org_defs)
  moreover have "map_of cyclic_org (pd_id ?d) = Some ?d" "pd_id ?d = 1" by (simp_all add: sample_org_defs)
  ultimately show ?thesis using flatten_rejections[of cyclic_org ?d "CallCycle [1, 2, 1]"] by simp
qed

lemma sample_org_flattenable: "flattenable sample_org"
  by (auto simp: flattenable_def flatten_def expand_def append_stage_def sample_org_defs)

theorem validate_keeps_flattenable_witness:
  "\<exists>xs. flatten (sample_pipeline 1 [Exec (sample_action 7), sample_call 8 2])
     (AList.update 3 (sample_pipeline 3 [sample_call 5 1]) sample_org) = Inr xs"
proof -
  let ?d = "sample_pipeline 3 [sample_call 5 1]"
  have "transitive_callers 3 (AList.update 3 ?d sample_org) = []"
    by code_simp
  then have "validate_definition ?d sample_org = Inr ()"
    by (simp add: validate_definition_def Let_def flatten_def expand_def append_stage_def sample_org_defs)
  from validate_keeps_flattenable[OF this sample_keyed(1) sample_org_flattenable, of 1] show ?thesis
    by (simp add: sample_org_defs)
qed

end
