(* ===== verification/Contracts.thy ===== *)
theory Contracts
  imports Findings Definition
begin

text \<open>
  The value objects of a run (\<^verbatim>\<open>domain/pipelines/types.py\<close>), the skill contracts and the confidence
  buckets (\<^verbatim>\<open>contracts.py\<close>), the protected-path rule (\<^verbatim>\<open>domain/repos/service.py\<close>), the boundary
  evaluator (\<^verbatim>\<open>boundary.py\<close>) and escalation (\<^verbatim>\<open>escalation.py\<close>).

  \<open>match_file\<close>, the gitignore matcher of the \<^verbatim>\<open>pathspec\<close> package, is a parameter.
\<close>

section \<open>Run value objects\<close>

datatype revision_source = SrcInstruction | SrcSendBack | SrcFix

record revision_context =
  rx_source :: revision_source
  rx_text :: string
  rx_prior_artifact :: string

record kickoff =
  ko_intake_point_id :: string
  ko_actor :: actor
  ko_input_text :: "string option"
  ko_pr_base_sha :: "string option"
  ko_pr_head_sha :: "string option"
  ko_notify_user_ids :: "uuid list"
  ko_revision :: "revision_context option"

record pr_context =
  px_pr_external_id :: string
  px_head_sha :: string
  px_base_sha :: string
  px_prev_reviewed_head_sha :: "string option"

record prior_finding_ref =
  pf_finding_id :: uuid
  pf_severity :: severity
  pf_body :: string
  pf_code_file :: "string option"
  pf_code_line :: "int option"
  pf_artifact_section :: "string option"

record stage_invocation_context =
  sx_ticket_id :: uuid
  sx_stage_name :: string
  sx_branch_name :: string
  sx_input :: string
  sx_pr :: "pr_context option"
  sx_revision :: "revision_context option"
  sx_prior_findings :: "prior_finding_ref list"
  sx_artifact_path :: string

section \<open>Skill contracts\<close>

datatype skill_outcome = Completed | CannotComplete | SendBack

record skill_return =
  sr_outcome :: skill_outcome
  sr_outcome_reason :: "string option"
  sr_send_back_to_stage :: "string option"
  sr_confidence :: int
  sr_paths_affected :: "string list"
  sr_summary :: string

record skill_review_finding =
  sf_category :: string
  sf_severity :: severity
  sf_body :: string
  sf_code_file :: "string option"
  sf_code_line :: "int option"
  sf_artifact_section :: "string option"
  sf_defect_in_artifact :: "string option"

datatype verdict_status = Fixed | StillPresent | VUserOverrode

record prior_finding_verdict =
  vd_finding_id :: uuid
  vd_status :: "verdict_status option"
  vd_reply :: "string option"

record skill_review_return =
  sv_new_findings :: "skill_review_finding list"
  sv_prior_finding_verdicts :: "prior_finding_verdict list"
  sv_confidence :: int
  sv_summary :: string

definition LOW_CONFIDENCE_MAX :: int where "LOW_CONFIDENCE_MAX = 50"
definition HIGH_CONFIDENCE_MIN :: int where "HIGH_CONFIDENCE_MIN = 90"

definition bucket_confidence :: "int \<Rightarrow> confidence" where
  "bucket_confidence v = (if v < LOW_CONFIDENCE_MAX then Low
     else if v < HIGH_CONFIDENCE_MIN then Medium else High)"

definition prior_ref :: "finding \<Rightarrow> prior_finding_ref" where
  "prior_ref f = \<lparr>pf_finding_id = fd_id f, pf_severity = fd_severity f, pf_body = fd_body f,
     pf_code_file = fd_code_file f, pf_code_line = fd_code_line f,
     pf_artifact_section = fd_artifact_section f\<rparr>"

text \<open>\<^verbatim>\<open>dict.setdefault\<close> keeps the first entry and dict order is insertion order.\<close>

definition setdefault :: "finding \<Rightarrow> finding list \<Rightarrow> finding list" where
  "setdefault f acc = (if list_ex (\<lambda>g. fd_id g = fd_id f) acc then acc else acc @ [f])"

text \<open>The dict comprehension over \<open>loop_findings\<close>: a repeated id keeps its place, last value wins.\<close>

definition put_finding :: "finding \<Rightarrow> finding list \<Rightarrow> finding list" where
  "put_finding f acc = (if list_ex (\<lambda>g. fd_id g = fd_id f) acc
     then map (\<lambda>g. if fd_id g = fd_id f then f else g) acc else acc @ [f])"

definition merge_prior_findings ::
  "finding list \<Rightarrow> finding list \<Rightarrow> finding list \<Rightarrow> prior_finding_ref list" where
  "merge_prior_findings loop_findings ticket_open comment_findings =
     map prior_ref (fold setdefault comment_findings (fold setdefault ticket_open
       (fold put_finding loop_findings [])))"

section \<open>Protected paths\<close>

datatype protected_mode = Allow | Deny

record protected_path_set =
  ps_globs :: "string list"
  ps_owner_user_ids :: "uuid list"

record repo_settings =
  rs_protected_mode :: protected_mode
  rs_protected_path_sets :: "protected_path_set list"
  rs_auto_approve_enabled :: bool
  rs_auto_approve_conditions :: payload

record repo_settings_row = repo_settings +
  rs_updated_by :: "uuid option"

text \<open>An intake point bound to a pipeline for one repository; scheduled bindings carry their cron.\<close>

record schedule =
  sc_name :: string
  sc_cron :: string
  sc_notify_user_ids :: "uuid list"
  sc_kickoff_input :: "string option"

record binding_row =
  bg_id :: uuid
  bg_org_id :: uuid
  bg_repo_external_id :: string
  bg_intake_point_id :: string
  bg_pipeline_id :: uuid
  bg_schedule :: "schedule option"
  bg_created_by :: "uuid option"

text \<open>\<^verbatim>\<open>sorted({...}, key=str)\<close>: the ids in string order, which for UUIDs is the id order.\<close>

definition owners_of :: "protected_path_set list \<Rightarrow> uuid list" where
  "owners_of sets = sort (remdups (concat (map ps_owner_user_ids sets)))"

definition match_protected ::
  "(string list \<Rightarrow> string \<Rightarrow> bool) \<Rightarrow> string list \<Rightarrow> protected_mode \<Rightarrow> protected_path_set list \<Rightarrow>
   bool \<times> uuid list" where
  "match_protected match_file paths md path_sets =
     (if md = Deny then
        (let matched_sets = filter (\<lambda>ps. list_ex (match_file (ps_globs ps)) paths) path_sets in
         if matched_sets = [] then (False, []) else (True, owners_of matched_sets))
      else if list_ex (\<lambda>p. \<not> list_ex (\<lambda>ps. match_file (ps_globs ps) p) path_sets) paths
      then (True, owners_of path_sets) else (False, []))"

section \<open>Boundary\<close>

datatype tripped_value = TrippedTrue | TrippedConfidence confidence | TrippedStage string

type_synonym tripped = "(string \<times> tripped_value) list"

record boundary_decision =
  bd_pause :: bool
  bd_tripped :: tripped
  bd_protected_owner_user_ids :: "uuid list"

fun confidence_rank :: "confidence \<Rightarrow> nat" where
  "confidence_rank Low = 0" | "confidence_rank Medium = 1" | "confidence_rank High = 2"

definition evaluate_boundary ::
  "boundary_control \<Rightarrow> (string list \<Rightarrow> bool \<times> uuid list) \<Rightarrow> finding list \<Rightarrow> string list \<Rightarrow> confidence \<Rightarrow>
   boundary_decision" where
  "evaluate_boundary control evaluate_protected residuals paths_affected conf =
     (if mode control = AlwaysProceed
      then \<lparr>bd_pause = False, bd_tripped = [], bd_protected_owner_user_ids = []\<rparr>
      else if mode control = AlwaysHitl
      then \<lparr>bd_pause = True, bd_tripped = [(''always_hitl'', TrippedTrue)],
            bd_protected_owner_user_ids = []\<rparr>
      else
        let t1 = (if on_blocker_residuals control \<and> list_ex (\<lambda>f. fd_severity f = Blocker) residuals
                  then [(''blocker_residuals'', TrippedTrue)] else []);
            t2 = (if on_should_fix_residuals control \<and> list_ex (\<lambda>f. fd_severity f = ShouldFix) residuals
                  then [(''should_fix_residuals'', TrippedTrue)] else []);
            t3 = (if on_nit_residuals control \<and> list_ex (\<lambda>f. fd_severity f = Nit) residuals
                  then [(''nit_residuals'', TrippedTrue)] else []);
            (matched, owners) = (if on_protected_code control \<and> paths_affected \<noteq> []
                                 then evaluate_protected paths_affected else (False, []));
            t4 = (if matched then [(''protected_code'', TrippedTrue)] else []);
            t5 = (case on_confidence_below control of
                    None \<Rightarrow> []
                  | Some c \<Rightarrow> if confidence_rank conf < confidence_rank c
                              then [(''confidence_below'', TrippedConfidence c)] else []);
            tripped = t1 @ t2 @ t3 @ t4 @ t5
        in if tripped \<noteq> []
           then \<lparr>bd_pause = True, bd_tripped = tripped,
                 bd_protected_owner_user_ids = (if matched then owners else [])\<rparr>
           else \<lparr>bd_pause = False, bd_tripped = [], bd_protected_owner_user_ids = []\<rparr>)"

section \<open>Escalation\<close>

definition org_admin_ids :: "uuid \<Rightarrow> 'a infra_scheme \<Rightarrow> uuid list" where
  "org_admin_ids org_id s =
     remdups (map mb_user_id (filter (\<lambda>m. mb_role m \<in> {OWNER, ADMIN}) (list_memberships_for_org org_id s)))"

definition resolve_escalation_targets :: "kickoff \<Rightarrow> uuid \<Rightarrow> 'a infra_scheme \<Rightarrow> uuid list" where
  "resolve_escalation_targets ko org_id s =
     (case ko_actor ko of
        UserActor u _ \<Rightarrow> [u]
      | act \<Rightarrow>
          if ko_notify_user_ids ko \<noteq> [] then remdups (ko_notify_user_ids ko)
          else (case act of
                  GithubUser login \<Rightarrow>
                    (case find_oauth_identity ''github'' login s of
                       Some u \<Rightarrow> [u]
                     | None \<Rightarrow> org_admin_ids org_id s)
                | _ \<Rightarrow> org_admin_ids org_id s))"

definition is_pause_responder :: "uuid \<Rightarrow> uuid list \<Rightarrow> uuid \<Rightarrow> 'a infra_scheme \<Rightarrow> bool" where
  "is_pause_responder user_id escalation_user_ids org_id s =
     (if user_id \<in> set escalation_user_ids then True
      else case get_member_role user_id org_id s of
             None \<Rightarrow> False
           | Some r \<Rightarrow> covers r ADMIN)"

section \<open>Merging prior findings\<close>

lemma setdefault_ids:
  assumes "distinct (map fd_id acc)"
  shows "distinct (map fd_id (setdefault f acc))" "set (map fd_id (setdefault f acc)) = insert (fd_id f) (fd_id ` set acc)"
    "set acc \<subseteq> set (setdefault f acc)" "set (setdefault f acc) \<subseteq> insert f (set acc)"
  using assms by (auto simp: setdefault_def list_ex_iff intro: rev_image_eqI split: if_splits)

lemma fold_setdefault:
  assumes "distinct (map fd_id acc)"
  shows "distinct (map fd_id (fold setdefault fs acc))"
    and "set (map fd_id (fold setdefault fs acc)) = fd_id ` set fs \<union> fd_id ` set acc"
    and "set acc \<subseteq> set (fold setdefault fs acc)"
    and "set (fold setdefault fs acc) \<subseteq> set acc \<union> set fs"
proof -
  have "distinct (map fd_id (fold setdefault fs acc)) \<and>
     set (map fd_id (fold setdefault fs acc)) = fd_id ` set fs \<union> fd_id ` set acc \<and>
     set acc \<subseteq> set (fold setdefault fs acc) \<and> set (fold setdefault fs acc) \<subseteq> set acc \<union> set fs"
    using assms
  proof (induction fs arbitrary: acc)
    case (Cons f fs)
    note ih = Cons.IH[OF setdefault_ids(1)[OF Cons.prems, of f]]
    show ?case using ih setdefault_ids(2-)[OF Cons.prems, of f] by auto
  qed simp
  then show "distinct (map fd_id (fold setdefault fs acc))"
    and "set (map fd_id (fold setdefault fs acc)) = fd_id ` set fs \<union> fd_id ` set acc"
    and "set acc \<subseteq> set (fold setdefault fs acc)"
    and "set (fold setdefault fs acc) \<subseteq> set acc \<union> set fs" by blast+
qed

lemma put_finding_ids:
  assumes "distinct (map fd_id acc)"
  shows "distinct (map fd_id (put_finding f acc))"
    "set (map fd_id (put_finding f acc)) = insert (fd_id f) (fd_id ` set acc)"
    "set (put_finding f acc) \<subseteq> insert f (set acc)"
proof -
  have "map fd_id (map (\<lambda>g. if fd_id g = fd_id f then f else g) acc) = map fd_id acc" by simp
  with assms show "distinct (map fd_id (put_finding f acc))"
    "set (map fd_id (put_finding f acc)) = insert (fd_id f) (fd_id ` set acc)"
    by (auto simp: put_finding_def list_ex_iff simp del: map_map)
  show "set (put_finding f acc) \<subseteq> insert f (set acc)" by (auto simp: put_finding_def)
qed

lemma fold_put_finding:
  assumes "distinct (map fd_id acc)"
  shows "distinct (map fd_id (fold put_finding fs acc)) \<and>
     set (map fd_id (fold put_finding fs acc)) = fd_id ` set fs \<union> fd_id ` set acc \<and>
     set (fold put_finding fs acc) \<subseteq> set acc \<union> set fs"
  using assms
proof (induction fs arbitrary: acc)
  case (Cons f fs)
  note ih = Cons.IH[OF put_finding_ids(1)[OF Cons.prems, of f]]
  show ?case using ih put_finding_ids(2-)[OF Cons.prems, of f] by auto
qed simp

lemma by_unique_id:
  assumes "distinct (map fd_id xs)" and "f \<in> set xs" and "g \<in> set xs" and "fd_id f = fd_id g"
  shows "f = g"
  using assms by (simp add: distinct_map inj_on_def)

lemma prior_ref_id [simp]: "pf_finding_id (prior_ref f) = fd_id f"
  by (simp add: prior_ref_def)

text \<open>The prior findings shown to a reviewer list every finding of the loop, of the ticket's
  open findings and of the comments exactly once, and an id that several sources share is rendered
  from the loop if it is there, else from the ticket's open findings.\<close>

theorem merge_prior_findings_spec:
  "distinct (map pf_finding_id (merge_prior_findings loop open comments)) \<and>
   set (map pf_finding_id (merge_prior_findings loop open comments)) =
     fd_id ` (set loop \<union> set open \<union> set comments) \<and>
   (\<forall>p \<in> set (merge_prior_findings loop open comments).
      (pf_finding_id p \<in> fd_id ` set loop \<longrightarrow> p \<in> prior_ref ` set loop) \<and>
      (pf_finding_id p \<notin> fd_id ` set loop \<longrightarrow> pf_finding_id p \<in> fd_id ` set open \<longrightarrow> p \<in> prior_ref ` set open))"
proof -
  define a where "a = fold put_finding loop []"
  define b where "b = fold setdefault open a"
  define c where "c = fold setdefault comments b"
  have a: "distinct (map fd_id a)" "fd_id ` set a = fd_id ` set loop" "set a \<subseteq> set loop"
    using fold_put_finding[of "[]" loop] by (auto simp: a_def)
  have b: "distinct (map fd_id b)" "fd_id ` set b = fd_id ` set open \<union> fd_id ` set a" "set a \<subseteq> set b"
    "set b \<subseteq> set a \<union> set open"
    using fold_setdefault[OF a(1), of "open"] by (auto simp: b_def)
  have c: "distinct (map fd_id c)" "fd_id ` set c = fd_id ` set comments \<union> fd_id ` set b" "set b \<subseteq> set c"
    using fold_setdefault[OF b(1), of comments] by (auto simp: c_def)
  have m: "merge_prior_findings loop open comments = map prior_ref c"
    by (simp add: merge_prior_findings_def c_def b_def a_def)
  have ids: "pf_finding_id \<circ> prior_ref = fd_id" by (rule ext) simp
  have loop: "f \<in> set loop" if "f \<in> set c" "fd_id f \<in> fd_id ` set loop" for f
    using that a(2,3) b(3) c(3) by_unique_id[OF c(1) that(1)] by (metis imageE subsetD)
  have opn: "f \<in> set open" if f: "f \<in> set c" "fd_id f \<notin> fd_id ` set loop" "fd_id f \<in> fd_id ` set open" for f
  proof -
    obtain g where "g \<in> set b" "fd_id g = fd_id f" using f(3) b(2) by (metis UnI1 imageE)
    then have "f \<in> set b" using by_unique_id[OF c(1) f(1)] c(3) by (metis subsetD)
    with b(4) a(3) f(2) show ?thesis by auto
  qed
  show ?thesis
    unfolding m using c(1,2) b(2) a(2) loop opn by (auto simp: ids image_Un)
qed

section \<open>Protected paths and boundaries\<close>

text \<open>The protected-path rule: in deny mode a change is flagged exactly when one of its paths
  matches the globs of some path set, and the owners are those of the sets that matched; in allow mode
  exactly when some path lies outside every set, and then all owners are named. Owners come sorted and
  without repetition.\<close>

theorem match_protected_spec:
  assumes "match_protected m paths md sets = (flag, owners)"
  shows "(flag \<longleftrightarrow> (if md = Deny then \<exists>ps \<in> set sets. \<exists>p \<in> set paths. m (ps_globs ps) p
                   else \<exists>p \<in> set paths. \<forall>ps \<in> set sets. \<not> m (ps_globs ps) p)) \<and>
         set owners = (if flag then
            \<Union>(set ` ps_owner_user_ids ` {ps \<in> set sets. md = Deny \<longrightarrow> (\<exists>p \<in> set paths. m (ps_globs ps) p)})
            else {}) \<and> sorted owners \<and> distinct owners"
proof (cases "md = Deny")
  case True
  let ?hit = "filter (\<lambda>ps. list_ex (m (ps_globs ps)) paths) sets"
  have hit: "set ?hit = {ps \<in> set sets. \<exists>p \<in> set paths. m (ps_globs ps) p}" by (auto simp: list_ex_iff)
  have "(flag, owners) = (if ?hit = [] then (False, []) else (True, owners_of ?hit))"
    using assms True by (simp add: match_protected_def Let_def)
  moreover have "?hit = [] \<longleftrightarrow> \<not> (\<exists>ps \<in> set sets. \<exists>p \<in> set paths. m (ps_globs ps) p)"
    using hit by (auto simp: filter_empty_conv list_ex_iff)
  ultimately show ?thesis using True hit by (auto simp: owners_of_def split: if_splits)
next
  case False
  with assms show ?thesis
    by (auto simp: match_protected_def owners_of_def list_ex_iff split: if_splits)
qed

theorem match_protected_spec_witness:
  "match_protected (\<lambda>globs p. p \<in> set globs) [''a'', ''b''] Allow
     [\<lparr>ps_globs = [''a''], ps_owner_user_ids = [4, 2]\<rparr>] = (True, [2, 4]) \<and> sorted [2, 4::uuid]"
proof -
  have "match_protected (\<lambda>globs p. p \<in> set globs) [''a'', ''b''] Allow
     [\<lparr>ps_globs = [''a''], ps_owner_user_ids = [4, 2]\<rparr>] = (True, [2, 4])"
    by (simp add: match_protected_def owners_of_def)
  with match_protected_spec[OF this] show ?thesis by simp
qed

definition residual :: "severity \<Rightarrow> finding list \<Rightarrow> bool" where
  "residual sev fs \<longleftrightarrow> (\<exists>f \<in> set fs. fd_severity f = sev)"

lemma boundary_cases:
  "bd_pause (evaluate_boundary c ep residuals paths conf) \<longleftrightarrow>
     mode c = AlwaysHitl \<or> mode c = Conditional \<and>
       (on_blocker_residuals c \<and> residual Blocker residuals \<or>
        on_should_fix_residuals c \<and> residual ShouldFix residuals \<or>
        on_nit_residuals c \<and> residual Nit residuals \<or>
        on_protected_code c \<and> paths \<noteq> [] \<and> fst (ep paths) \<or>
        (\<exists>t. on_confidence_below c = Some t \<and> confidence_rank conf < confidence_rank t))"
  by (cases "mode c"; cases "ep paths"; cases "on_confidence_below c";
      auto simp: evaluate_boundary_def residual_def list_ex_iff Let_def)

text \<open>When a stage boundary stops a run: never in proceed mode, always in human-in-the-loop mode,
  and in conditional mode exactly when an enabled condition holds: an open finding of a severity that
  is switched on, a protected path touched while that check is on, or a confidence below the threshold.
  A decision to pause always names what tripped, and owners are escalated to only for protected
  code.\<close>

theorem boundary_pause_iff:
  "(bd_pause (evaluate_boundary c ep residuals paths conf) \<longleftrightarrow>
     mode c = AlwaysHitl \<or> mode c = Conditional \<and>
       (on_blocker_residuals c \<and> residual Blocker residuals \<or>
        on_should_fix_residuals c \<and> residual ShouldFix residuals \<or>
        on_nit_residuals c \<and> residual Nit residuals \<or>
        on_protected_code c \<and> paths \<noteq> [] \<and> fst (ep paths) \<or>
        (\<exists>t. on_confidence_below c = Some t \<and> confidence_rank conf < confidence_rank t))) \<and>
   (bd_pause (evaluate_boundary c ep residuals paths conf) \<longleftrightarrow> bd_tripped (evaluate_boundary c ep residuals paths conf) \<noteq> []) \<and>
   bd_protected_owner_user_ids (evaluate_boundary c ep residuals paths conf) =
     (if mode c = Conditional \<and> on_protected_code c \<and> paths \<noteq> [] \<and> fst (ep paths) then snd (ep paths) else [])"
  unfolding boundary_cases
  by (cases "mode c"; cases "ep paths"; cases "on_confidence_below c";
      auto simp: evaluate_boundary_def residual_def list_ex_iff Let_def)

text \<open>A boundary is monotone: fewer open findings and a higher confidence never turn a decision to
  proceed into a pause.\<close>

theorem boundary_monotone:
  assumes "bd_pause (evaluate_boundary c ep residuals paths (bucket_confidence v))"
    and "set residuals \<subseteq> set residuals'" and "v' \<le> v"
  shows "bd_pause (evaluate_boundary c ep residuals' paths (bucket_confidence v'))"
proof -
  have "residual sev residuals'" if "residual sev residuals" for sev
    using that assms(2) by (auto simp: residual_def)
  moreover have "confidence_rank (bucket_confidence v') \<le> confidence_rank (bucket_confidence v)"
    using assms(3) by (auto simp: bucket_confidence_def LOW_CONFIDENCE_MAX_def HIGH_CONFIDENCE_MIN_def)
  ultimately show ?thesis using assms(1) unfolding boundary_cases by (meson le_less_trans)
qed

definition sample_finding :: "uuid \<Rightarrow> severity \<Rightarrow> finding" where
  "sample_finding i sev = new_finding 1 2 3 ''plan'' 4 1 i
     \<lparr>fs_id = i, fs_severity = sev, fs_body = ''b'', fs_code_file = None, fs_code_line = None,
      fs_artifact_section = None, fs_defect_in_artifact = None, fs_display_prefix = ''F''\<rparr>"

definition probe_boundary :: boundary_control where
  "probe_boundary = \<lparr>mode = Conditional, on_blocker_residuals = True, on_should_fix_residuals = True,
     on_nit_residuals = False, on_protected_code = False, on_confidence_below = Some Medium\<rparr>"

theorem merge_prior_findings_spec_witness:
  "merge_prior_findings [sample_finding 1 Nit] [sample_finding 1 Blocker] [sample_finding 2 Nit] =
     map prior_ref [sample_finding 1 Nit, sample_finding 2 Nit] \<and>
   (\<exists>f. f \<in> set [sample_finding 1 Nit] \<and> prior_ref f = prior_ref (sample_finding 1 Nit))"
proof -
  let ?m = "merge_prior_findings [sample_finding 1 Nit] [sample_finding 1 Blocker] [sample_finding 2 Nit]"
  have m: "?m = map prior_ref [sample_finding 1 Nit, sample_finding 2 Nit]"
    by (simp add: merge_prior_findings_def put_finding_def setdefault_def sample_finding_def new_finding_def)
  have "\<forall>p \<in> set ?m. pf_finding_id p \<in> fd_id ` set [sample_finding 1 Nit] \<longrightarrow>
      p \<in> prior_ref ` set [sample_finding 1 Nit]"
    using merge_prior_findings_spec[of "[sample_finding 1 Nit]" "[sample_finding 1 Blocker]" "[sample_finding 2 Nit]"]
    by blast
  then show ?thesis unfolding m by auto
qed

theorem boundary_monotone_witness:
  "bd_pause (evaluate_boundary probe_boundary (\<lambda>_. (False, [])) [sample_finding 1 Blocker] [] (bucket_confidence 40))"
proof -
  have "bd_pause (evaluate_boundary probe_boundary (\<lambda>_. (False, [])) [] [] (bucket_confidence 49))"
    by (simp add: evaluate_boundary_def probe_boundary_def bucket_confidence_def LOW_CONFIDENCE_MAX_def)
  from boundary_monotone[OF this, of "[sample_finding 1 Blocker]" 40] show ?thesis by simp
qed

end
