(* ===== verification/Engine.thy ===== *)
theory Engine
  imports Contracts
begin

text \<open>
  The run engine of \<^verbatim>\<open>domain/pipelines/engine.py\<close>: promotion, pauses and their resolutions, the
  three task bodies \<open>route_run\<close>, \<open>start_stage\<close> and \<open>handle_agent_event\<close>, and everything they call.

  An ORM row a Python function receives is its id here; reading an attribute is a lookup in the
  current state and assigning one is an update, so aliasing through the session's identity map is
  kept. Each definition is one call inside one transaction; an \<open>Inl\<close> result rolls the transaction
  back. The two SAVEPOINTs of the code (promotion, action execution) continue from the state before
  the nested block.

  Parameters (record \<open>engine_env\<close>): the pydantic parsers and schemas of the two skill contracts, the
  gitignore matcher, the registered actions, the comment-findings provider, the run-terminal hooks
  and the rendering of ids.
\<close>

section \<open>Rows\<close>

datatype run_state = Queued | Running | Paused | RCompleted | RFailed | RKilled | RCancelled
datatype run_phase = PhProvision | PhStages | PhCleanup
datatype stage_kind = KSkill | KReview | KAction | KSystem
datatype stage_status = SRunning | SCompleted | SFailed
datatype stage_phase = PMain | PReview | PFix
datatype boundary_outcome = Proceeded | BPaused | SentBack
datatype pause_resolution = Approve | Instruct | ResSendBack | Kill

record run_row =
  r_id :: uuid
  r_org_id :: uuid
  r_ticket_id :: uuid
  r_pipeline_id :: "uuid option"
  r_pipeline_name :: string
  r_definition_snapshot :: flattened_definition
  r_state :: run_state
  r_phase :: run_phase
  r_current_stage_index :: "nat option"
  r_workspace_id :: "uuid option"
  r_pending_agent_command_id :: "uuid option"
  r_cancel_requested :: bool
  r_kickoff :: kickoff
  r_sendback_counts :: "(string \<times> nat) list"
  r_failure_reason :: "string option"
  r_otel_trace_context :: "string option"
  r_triggered_by_user_id :: "uuid option"
  r_created_at :: timestamp
  r_updated_at :: timestamp
  r_completed_at :: "timestamp option"

text \<open>
  One \<^verbatim>\<open>loop_state\<close> entry. Main and fix passes carry an artifact and paths, review passes carry the
  iteration, the finding ids and the verdicts.
\<close>

record loop_entry =
  le_phase :: stage_phase
  le_artifact_id :: "uuid option"
  le_confidence :: int
  le_paths_affected :: "string list option"
  le_iteration :: "nat option"
  le_new_finding_ids :: "uuid list"
  le_residual_finding_ids :: "uuid list"
  le_verdicts :: "prior_finding_verdict list"

record stage_exec =
  se_id :: uuid
  se_org_id :: uuid
  se_run_id :: uuid
  se_stage_index :: "nat option"
  se_kind :: stage_kind
  se_stage_name :: string
  se_skill_name :: "string option"
  se_status :: stage_status
  se_phase :: "stage_phase option"
  se_iteration :: nat
  se_confidence :: "confidence option"
  se_loop_state :: "loop_entry list"
  se_boundary_outcome :: "boundary_outcome option"
  se_boundary_detail :: "tripped option"
  se_action_result :: "json option"
  se_revision :: "revision_context option"
  se_failure_reason :: "string option"
  se_started_at :: timestamp
  se_completed_at :: "timestamp option"

record pause_row =
  p_id :: uuid
  p_org_id :: uuid
  p_run_id :: uuid
  p_stage_execution_id :: uuid
  p_tripped :: tripped
  p_escalation_user_ids :: "uuid list"
  p_resolution :: "pause_resolution option"
  p_instruction :: "string option"
  p_send_back_to_stage :: "string option"
  p_resolved_by :: "uuid option"
  p_resolved_at :: "timestamp option"

record pipeline_row =
  pi_org_id :: uuid
  pi_definition :: pipeline_definition
  pi_updated_by :: "uuid option"

record pipelines_db = findings_db +
  repo_settings_rows :: "((uuid \<times> string) \<times> repo_settings_row) list"
  bindings :: "binding_row table"
  pipelines :: "(uuid \<times> pipeline_row) list"
  runs :: "run_row table"
  stage_execs :: "stage_exec table"
  pauses :: "pause_row table"

record action_context =
  ax_org_id :: uuid
  ax_ticket_id :: uuid
  ax_run_id :: uuid
  ax_repo_external_id :: string
  ax_vcs_plugin_id :: string
  ax_pr_external_id :: "string option"
  ax_branch_name :: string
  ax_intake_point_id :: string
  ax_kickoff_input :: "string option"
  ax_preceding_residuals :: "finding list"
  ax_preceding_verdicts :: "prior_finding_verdict list"
  ax_preceding_artifact_id :: "uuid option"

record engine_env = coding_env +
  parse_skill_return :: "string \<Rightarrow> string + skill_return"
  parse_review_return :: "string \<Rightarrow> string + skill_review_return"
  skill_return_schema :: json
  review_return_schema :: json
  match_file :: "string list \<Rightarrow> string \<Rightarrow> bool"
  actions :: "string \<Rightarrow> (action_context \<Rightarrow> pipelines_db \<Rightarrow> (json \<times> pipelines_db) res) option"
  comment_finding_ids :: "(uuid \<Rightarrow> pipelines_db \<Rightarrow> uuid list) option"
  run_terminal_hooks :: "string list"
  uuid_str :: "uuid \<Rightarrow> string"

section \<open>Row access\<close>

text \<open>An UPDATE that changes something stamps \<^verbatim>\<open>updated_at\<close> (\<^verbatim>\<open>onupdate=func.now()\<close>).\<close>

definition touch :: "timestamp \<Rightarrow> (run_row \<Rightarrow> run_row) \<Rightarrow> run_row \<Rightarrow> run_row" where
  "touch t f r = (if f r = r then r else (f r)\<lparr>r_updated_at := t\<rparr>)"

definition upd_run :: "uuid \<Rightarrow> (run_row \<Rightarrow> run_row) \<Rightarrow> pipelines_db \<Rightarrow> pipelines_db" where
  "upd_run i f s = s\<lparr>runs := modify i (touch (now s) f) (runs s)\<rparr>"

definition upd_stage :: "uuid \<Rightarrow> (stage_exec \<Rightarrow> stage_exec) \<Rightarrow> pipelines_db \<Rightarrow> pipelines_db" where
  "upd_stage i f s = s\<lparr>stage_execs := modify i f (stage_execs s)\<rparr>"

definition upd_pause :: "uuid \<Rightarrow> (pause_row \<Rightarrow> pause_row) \<Rightarrow> pipelines_db \<Rightarrow> pipelines_db" where
  "upd_pause i f s = s\<lparr>pauses := modify i f (pauses s)\<rparr>"

interpretation stg: row_store stage_execs upd_stage
  by unfold_locales (simp add: upd_stage_def)

interpretation pse: row_store pauses upd_pause
  by unfold_locales (simp add: upd_pause_def)

definition run_of :: "pipelines_db \<Rightarrow> uuid \<Rightarrow> run_row" where
  "run_of s rid = the (runs s rid)"

definition stage_of :: "pipelines_db \<Rightarrow> uuid \<Rightarrow> stage_exec" where
  "stage_of s eid = the (stage_execs s eid)"

definition new_stage ::
  "uuid \<Rightarrow> uuid \<Rightarrow> uuid \<Rightarrow> nat option \<Rightarrow> stage_kind \<Rightarrow> string \<Rightarrow> string option \<Rightarrow> stage_phase option \<Rightarrow>
   revision_context option \<Rightarrow> nat \<Rightarrow> timestamp \<Rightarrow> stage_exec" where
  "new_stage i org_id run_id idx kind name skill_name phase revision iteration t =
     \<lparr>se_id = i, se_org_id = org_id, se_run_id = run_id, se_stage_index = idx, se_kind = kind,
      se_stage_name = name, se_skill_name = skill_name, se_status = SRunning, se_phase = phase,
      se_iteration = iteration, se_confidence = None, se_loop_state = [],
      se_boundary_outcome = None, se_boundary_detail = None, se_action_result = None,
      se_revision = revision, se_failure_reason = None, se_started_at = t, se_completed_at = None\<rparr>"

definition add_stage ::
  "uuid \<Rightarrow> nat option \<Rightarrow> stage_kind \<Rightarrow> string \<Rightarrow> string option \<Rightarrow> stage_phase option \<Rightarrow>
   revision_context option \<Rightarrow> nat \<Rightarrow> pipelines_db \<Rightarrow> uuid \<times> pipelines_db" where
  "add_stage rid idx kind name skill_name phase revision iteration s =
     (case fresh s of (i, s1) \<Rightarrow>
        (i, s1\<lparr>stage_execs := (stage_execs s1)(i \<mapsto>
              new_stage i (r_org_id (run_of s rid)) rid idx kind name skill_name phase revision
                iteration (now s1))\<rparr>))"

definition nth_stage :: "flattened_definition \<Rightarrow> nat option \<Rightarrow> executable_stage res" where
  "nth_stage stages idx =
     (case idx of None \<Rightarrow> Inl (ValueError ''list indices must be integers'')
      | Some i \<Rightarrow> if i < length stages then Inr (stages ! i) else Inl IndexError)"

definition SYSTEM_STAGE_PROVISION :: string where "SYSTEM_STAGE_PROVISION = ''provision-workspace''"
definition SYSTEM_STAGE_CLEANUP :: string where "SYSTEM_STAGE_CLEANUP = ''cleanup-workspace''"
definition SYSTEM_STAGE_REFRESH_AUTH :: string where "SYSTEM_STAGE_REFRESH_AUTH = ''refresh-auth''"

definition PAUSED_RUN_WORKSPACE_GRACE_SECONDS :: int where
  "PAUSED_RUN_WORKSPACE_GRACE_SECONDS = 1800"

text \<open>\<^verbatim>\<open>"auth_expired" in failure_reason.lower()\<close>.\<close>

definition is_infix :: "string \<Rightarrow> string \<Rightarrow> bool" where
  "is_infix x y = list_ex (\<lambda>n. take (length x) (drop n y) = x) [0..<Suc (length y)]"

definition is_auth_expired :: "string \<Rightarrow> bool" where
  "is_auth_expired failure_reason = is_infix ''auth_expired'' (map lower_char failure_reason)"

definition workspace_is_live :: "uuid option \<Rightarrow> 'a workspace_db_scheme \<Rightarrow> bool" where
  "workspace_is_live workspace_id s =
     (case workspace_id of None \<Rightarrow> False
      | Some w \<Rightarrow> (case get_workspace_info w s of
                     Inl _ \<Rightarrow> False
                   | Inr info \<Rightarrow> ws_status info = WActive))"

fun run_state_str :: "run_state \<Rightarrow> string" where
  "run_state_str Queued = ''queued''" | "run_state_str Running = ''running''"
| "run_state_str Paused = ''paused''" | "run_state_str RCompleted = ''completed''"
| "run_state_str RFailed = ''failed''" | "run_state_str RKilled = ''killed''"
| "run_state_str RCancelled = ''cancelled''"

section \<open>Published events and task enqueues\<close>

definition publish_run_state :: "uuid \<Rightarrow> pipelines_db \<Rightarrow> pipelines_db" where
  "publish_run_state rid s =
     (let r = run_of s rid in
      publish_general_after_commit (r_org_id r) RUN_STATE_CHANGED
        (JObj [(''ticket_id'', JId (r_ticket_id r)), (''run_id'', JId rid),
               (''state'', JStr (run_state_str (r_state r)))]) s)"

definition publish_stage_state :: "uuid \<Rightarrow> pipelines_db \<Rightarrow> pipelines_db" where
  "publish_stage_state rid s =
     publish_general_after_commit (r_org_id (run_of s rid)) STAGE_STATE_CHANGED
       (JObj [(''ticket_id'', JId (r_ticket_id (run_of s rid))), (''run_id'', JId rid)]) s"

definition publish_artifact_stored :: "uuid \<Rightarrow> pipelines_db \<Rightarrow> pipelines_db" where
  "publish_artifact_stored rid s =
     publish_general_after_commit (r_org_id (run_of s rid)) ARTIFACT_STORED
       (JObj [(''ticket_id'', JId (r_ticket_id (run_of s rid)))]) s"

section \<open>Promotion\<close>

definition in_flight :: "run_row \<Rightarrow> bool" where
  "in_flight r \<longleftrightarrow> r_state r \<in> {Running, Paused}"

text \<open>The partial unique index \<^verbatim>\<open>ux_pipeline_runs_one_in_flight\<close>: is the ticket's slot taken?\<close>

definition slot_taken :: "uuid \<Rightarrow> pipelines_db \<Rightarrow> bool" where
  "slot_taken ticket_id s \<longleftrightarrow>
     select (runs s) (next_id s) (\<lambda>r. r_ticket_id r = ticket_id \<and> in_flight r) \<noteq> []"

definition terminal_payload :: "run_row \<Rightarrow> string option \<Rightarrow> json" where
  "terminal_payload r failure_reason =
     JObj [(''ticket_id'', JId (r_ticket_id r)), (''pipeline_name'', JStr (r_pipeline_name r)),
           (''failure_reason'', jopt JStr failure_reason)]"

definition attempt_promotion :: "uuid \<Rightarrow> pipelines_db \<Rightarrow> bool \<times> pipelines_db" where
  "attempt_promotion rid s =
     (let r = run_of s rid in
      if r_state r \<noteq> Queued then (False, s)
      else if slot_taken (r_ticket_id r) s then (False, s)
      else
        let s1 = upd_run rid (\<lambda>r. r\<lparr>r_state := Running\<rparr>) s;
            s2 = set_current_run (r_ticket_id r) rid s1;
            s3 = snd (transition_ticket_on_run_start (r_ticket_id r) (r_org_id r) rid s2);
            s4 = audit ''pipeline_run'' rid ''run.started''
                   (JObj [(''ticket_id'', JId (r_ticket_id r)), (''pipeline_name'', JStr (r_pipeline_name r))])
                   (ko_actor (r_kickoff r)) (r_org_id r) s3;
            s5 = publish_run_state rid s4
        in (True, enqueue (RouteRun rid None None None) s5))"

definition promote_oldest_queued :: "uuid \<Rightarrow> pipelines_db \<Rightarrow> pipelines_db" where
  "promote_oldest_queued ticket_id s =
     (case first_row (select (runs s) (next_id s) (\<lambda>r. r_ticket_id r = ticket_id \<and> r_state r = Queued)) of
        None \<Rightarrow> s
      | Some candidate \<Rightarrow> snd (attempt_promotion (r_id candidate) s))"

definition cancel_queued :: "uuid \<Rightarrow> actor \<Rightarrow> pipelines_db \<Rightarrow> pipelines_db" where
  "cancel_queued rid act s =
     (let s1 = upd_run rid (\<lambda>r. r\<lparr>r_state := RCancelled, r_completed_at := Some (now s)\<rparr>) s;
          s2 = publish_run_state rid s1
      in audit ''pipeline_run'' rid ''run.cancelled'' (terminal_payload (run_of s2 rid) None) act
           (r_org_id (run_of s2 rid)) s2)"

section \<open>Entering a pause\<close>

definition tripped_json :: "tripped \<Rightarrow> json" where
  "tripped_json t =
     JObj (map (\<lambda>(k, v). (k, case v of TrippedTrue \<Rightarrow> JBool True
        | TrippedConfidence c \<Rightarrow> JStr (case c of Low \<Rightarrow> ''low'' | Medium \<Rightarrow> ''medium'' | High \<Rightarrow> ''high'')
        | TrippedStage n \<Rightarrow> JStr n)) t)"

definition enter_pause ::
  "uuid \<Rightarrow> uuid \<Rightarrow> boundary_decision \<Rightarrow> kickoff \<Rightarrow> pipelines_db \<Rightarrow> pipelines_db res" where
  "enter_pause rid eid decision ko s =
     (let s1 = upd_stage eid (\<lambda>e. e\<lparr>se_boundary_outcome := Some BPaused,
                                    se_boundary_detail := Some (bd_tripped decision)\<rparr>) s;
          r = run_of s1 rid;
          targets = remdups (resolve_escalation_targets ko (r_org_id r) s1 @
                             bd_protected_owner_user_ids decision)
      in case fresh s1 of (pid, s2) \<Rightarrow>
        let s3 = s2\<lparr>pauses := (pauses s2)(pid \<mapsto>
                   \<lparr>p_id = pid, p_org_id = r_org_id r, p_run_id = rid, p_stage_execution_id = eid,
                    p_tripped = bd_tripped decision, p_escalation_user_ids = targets,
                    p_resolution = None, p_instruction = None, p_send_back_to_stage = None,
                    p_resolved_by = None, p_resolved_at = None\<rparr>)\<rparr>;
            s4 = upd_run rid (\<lambda>r. r\<lparr>r_state := Paused\<rparr>) s3;
            s5 = (case r_workspace_id r of None \<Rightarrow> s4
                  | Some w \<Rightarrow> extend_expiry w PAUSED_RUN_WORKSPACE_GRACE_SECONDS s4);
            s6 = snd (transition_ticket_on_run_paused (r_ticket_id r) (r_org_id r) rid s5);
            s7 = publish_run_state rid s6;
            s8 = audit ''pipeline_run'' rid ''run.paused''
                   (JObj [(''ticket_id'', JId (r_ticket_id r)),
                          (''pipeline_name'', JStr (r_pipeline_name r)),
                          (''stage_name'', JStr (se_stage_name (stage_of s1 eid))),
                          (''tripped'', tripped_json (bd_tripped decision))])
                   SystemActor (r_org_id r) s7
        in efold (\<lambda>u. create_notification
                    \<lparr>nt_user_id = u, nt_org_id = r_org_id r, nt_type = ''pipeline_run_paused'',
                     nt_title = r_pipeline_name r @ '' needs your input'',
                     nt_body = se_stage_name (stage_of s1 eid) @ '' is waiting on a decision.'',
                     nt_subject_type = Some ''run_pause'', nt_subject_id = Some pid\<rparr>)
             targets s8)"

definition get_open_pause_for_run :: "uuid \<Rightarrow> pipelines_db \<Rightarrow> pause_row option res" where
  "get_open_pause_for_run rid s =
     one_or_none (select (pauses s) (next_id s) (\<lambda>p. p_run_id p = rid \<and> p_resolved_at p = None))"

section \<open>Invocation context\<close>

definition completed_before :: "run_row \<Rightarrow> timestamp \<times> uuid" where
  "completed_before r = (case r_completed_at r of Some t \<Rightarrow> t | None \<Rightarrow> 0, r_id r)"

text \<open>\<^verbatim>\<open>ORDER BY completed_at DESC, id DESC\<close>; a completed run always has a completion time.\<close>

definition prev_reviewed_head_sha :: "uuid \<Rightarrow> uuid \<Rightarrow> pipelines_db \<Rightarrow> string option" where
  "prev_reviewed_head_sha ticket_id exclude_run_id s =
     (let rows = rev (sort_key completed_before (select (runs s) (next_id s)
                   (\<lambda>r. r_ticket_id r = ticket_id \<and> r_state r = RCompleted \<and> r_id r \<noteq> exclude_run_id)))
      in first_row (List.map_filter (\<lambda>r. ko_pr_head_sha (r_kickoff r)) rows))"

definition build_pr_context ::
  "uuid \<Rightarrow> kickoff \<Rightarrow> ticket_row \<Rightarrow> pipelines_db \<Rightarrow> pr_context option res" where
  "build_pr_context rid ko ticket s =
     (case (tk_pr_id ticket, ko_pr_head_sha ko) of
        (Some prid, Some head) \<Rightarrow>
          ebind (get_pull_request prid (r_org_id (run_of s rid)) s) (\<lambda>pr.
            Inr (Some \<lparr>px_pr_external_id = pr_external_id pr, px_head_sha = head,
                       px_base_sha = or_else (ko_pr_base_sha ko) [],
                       px_prev_reviewed_head_sha =
                         prev_reviewed_head_sha (r_ticket_id (run_of s rid)) rid s\<rparr>))
      | _ \<Rightarrow> Inr None)"

definition latest_key :: "stage_exec \<Rightarrow> timestamp \<times> uuid" where
  "latest_key e = (se_started_at e, se_id e)"

definition latest_stage_execution :: "uuid \<Rightarrow> nat \<Rightarrow> pipelines_db \<Rightarrow> stage_exec option" where
  "latest_stage_execution rid idx s =
     latest_by latest_key (select (stage_execs s) (next_id s)
       (\<lambda>e. se_run_id e = rid \<and> se_stage_index e = Some idx))"

definition last_review_verdicts :: "stage_exec \<Rightarrow> prior_finding_verdict list" where
  "last_review_verdicts e =
     (case find (\<lambda>le. le_phase le = PReview) (rev (se_loop_state e)) of
        Some le \<Rightarrow> le_verdicts le | None \<Rightarrow> [])"

definition last_artifact_id :: "stage_exec \<Rightarrow> uuid res" where
  "last_artifact_id e =
     (case find (\<lambda>le. le_artifact_id le \<noteq> None) (rev (se_loop_state e)) of
        Some le \<Rightarrow> Inr (the (le_artifact_id le)) | None \<Rightarrow> Inl AssertionError)"

definition last_paths_affected :: "stage_exec \<Rightarrow> string list" where
  "last_paths_affected e =
     (case find (\<lambda>le. le_paths_affected le \<noteq> None) (rev (se_loop_state e)) of
        Some le \<Rightarrow> the (le_paths_affected le) | None \<Rightarrow> [])"

definition build_action_context ::
  "uuid \<Rightarrow> kickoff \<Rightarrow> nat \<Rightarrow> pipelines_db \<Rightarrow> action_context res" where
  "build_action_context rid ko idx s =
     (let r = run_of s rid in
      ebind (get_ticket (r_ticket_id r) (r_org_id r) s) (\<lambda>ticket.
      ebind (case tk_pr_id ticket of
               None \<Rightarrow> Inr None
             | Some prid \<Rightarrow> ebind (get_pull_request prid (r_org_id r) s) (\<lambda>pr. Inr (Some (pr_external_id pr))))
        (\<lambda>pr_ext.
      let preceding = (if idx > 0 then latest_stage_execution rid (idx - 1) s else None) in
      ebind (case preceding of
               None \<Rightarrow> Inr None
             | Some e \<Rightarrow> if se_kind e = KSkill then ebind (last_artifact_id e) (\<lambda>a. Inr (Some a))
                         else Inr None) (\<lambda>artifact_id.
      Inr \<lparr>ax_org_id = r_org_id r, ax_ticket_id = r_ticket_id r, ax_run_id = rid,
           ax_repo_external_id = tk_repo_external_id ticket, ax_vcs_plugin_id = tk_plugin_id ticket,
           ax_pr_external_id = pr_ext, ax_branch_name = tk_branch_name ticket,
           ax_intake_point_id = ko_intake_point_id ko, ax_kickoff_input = ko_input_text ko,
           ax_preceding_residuals = (case preceding of None \<Rightarrow> []
              | Some e \<Rightarrow> filter (\<lambda>f. fd_status f = FOpen) (list_for_stage_execution (se_id e) s)),
           ax_preceding_verdicts = (case preceding of None \<Rightarrow> [] | Some e \<Rightarrow> last_review_verdicts e),
           ax_preceding_artifact_id = artifact_id\<rparr>))))"

fun nearest_artifact ::
  "uuid \<Rightarrow> uuid \<Rightarrow> pipelines_db \<Rightarrow> executable_stage list \<Rightarrow> string option" where
  "nearest_artifact org_id ticket_id s [] = None"
| "nearest_artifact org_id ticket_id s (SkillStage p # ps) =
     (case latest_final org_id ticket_id (sk_name p) s of
        Some a \<Rightarrow> Some (ar_body a)
      | None \<Rightarrow> nearest_artifact org_id ticket_id s ps)"
| "nearest_artifact org_id ticket_id s (_ # ps) = nearest_artifact org_id ticket_id s ps"

definition resolve_stage_input :: "uuid \<Rightarrow> nat \<Rightarrow> kickoff \<Rightarrow> pipelines_db \<Rightarrow> string" where
  "resolve_stage_input rid idx ko s =
     (let r = run_of s rid in
      if idx = 0 then or_else (ko_input_text ko) []
      else case nearest_artifact (r_org_id r) (r_ticket_id r) s
                  (rev (take idx (r_definition_snapshot r))) of
             Some body \<Rightarrow> body
           | None \<Rightarrow> or_else (ko_input_text ko) [])"

definition resolve_prior_findings ::
  "engine_env \<Rightarrow> uuid \<Rightarrow> uuid \<Rightarrow> pipelines_db \<Rightarrow> prior_finding_ref list res" where
  "resolve_prior_findings env rid eid s =
     (let loop_findings = list_for_stage_execution eid s;
          ticket_open = list_open_for_ticket (r_org_id (run_of s rid)) (r_ticket_id (run_of s rid)) s;
          ids = (case comment_finding_ids env of None \<Rightarrow> [] | Some f \<Rightarrow> f rid s)
      in ebind (efold (\<lambda>i acc. ebind (get_finding i s) (\<lambda>f. Inr (acc @ [f]))) ids [])
           (\<lambda>comment_findings. Inr (merge_prior_findings loop_findings ticket_open comment_findings)))"

section \<open>Rendering\<close>

function dec_digits :: "nat \<Rightarrow> string" where
  "dec_digits n = (if n < 10 then [''0123456789'' ! n]
                   else dec_digits (n div 10) @ [''0123456789'' ! (n mod 10)])"
  by pat_completeness auto
termination dec_digits by (relation "measure id") auto

declare dec_digits.simps [simp del]

definition zero_pad3 :: "string \<Rightarrow> string" where
  "zero_pad3 x = replicate (3 - length x) (CHR ''0'') @ x"

definition int_str :: "int \<Rightarrow> string" where
  "int_str i = (if i < 0 then CHR ''-'' # dec_digits (nat (- i)) else dec_digits (nat i))"

definition handle_of :: "finding \<Rightarrow> string" where
  "handle_of f = fd_display_prefix f @ ''-'' @ zero_pad3 (dec_digits (fd_display_id f))"

fun severity_str :: "severity \<Rightarrow> string" where
  "severity_str Blocker = ''blocker''"
| "severity_str ShouldFix = ''should_fix''"
| "severity_str Nit = ''nit''"

definition finding_line :: "finding \<Rightarrow> string" where
  "finding_line f =
     (let file = or_else (fd_code_file f) [];
          location = (if file \<noteq> [] then
                        (case fd_code_line f of
                           Some l \<Rightarrow> '' ('' @ file @ '':'' @ int_str l @ '')''
                         | None \<Rightarrow> '' ('' @ file @ '')'')
                      else [])
      in ''- **'' @ handle_of f @ ''** ['' @ severity_str (fd_severity f) @ '']'' @ location @ '': '' @ fd_body f)"

fun join_lines :: "string list \<Rightarrow> string" where
  "join_lines [] = []"
| "join_lines [l] = l"
| "join_lines (l # m # ls) = l @ [CHR 0x0A] @ join_lines (m # ls)"

definition render_findings_for_fix :: "finding list \<Rightarrow> string" where
  "render_findings_for_fix fs = join_lines (map finding_line fs)"

definition revision_json :: "revision_context \<Rightarrow> json" where
  "revision_json rx =
     JObj [(''source'', JStr (case rx_source rx of SrcInstruction \<Rightarrow> ''instruction''
              | SrcSendBack \<Rightarrow> ''send_back'' | SrcFix \<Rightarrow> ''fix'')),
           (''text'', JStr (rx_text rx)), (''prior_artifact'', JStr (rx_prior_artifact rx))]"

definition prior_json :: "prior_finding_ref \<Rightarrow> json" where
  "prior_json p =
     JObj [(''finding_id'', JId (pf_finding_id p)), (''severity'', JStr (severity_str (pf_severity p))),
           (''body'', JStr (pf_body p)), (''code_file'', jopt JStr (pf_code_file p)),
           (''code_line'', jopt JNum (pf_code_line p)),
           (''artifact_section'', jopt JStr (pf_artifact_section p))]"

definition pr_json :: "pr_context \<Rightarrow> json" where
  "pr_json p =
     JObj [(''pr_external_id'', JStr (px_pr_external_id p)), (''head_sha'', JStr (px_head_sha p)),
           (''base_sha'', JStr (px_base_sha p)),
           (''prev_reviewed_head_sha'', jopt JStr (px_prev_reviewed_head_sha p))]"

definition context_json :: "stage_invocation_context \<Rightarrow> json \<Rightarrow> json" where
  "context_json c schema =
     JObj [(''ticket_id'', JId (sx_ticket_id c)), (''stage_name'', JStr (sx_stage_name c)),
           (''branch_name'', JStr (sx_branch_name c)), (''input'', JStr (sx_input c)),
           (''pr'', jopt pr_json (sx_pr c)), (''upstream_stages'', JArr []),
           (''revision'', jopt revision_json (sx_revision c)),
           (''prior_findings'', JArr (map prior_json (sx_prior_findings c))),
           (''artifact_path'', JStr (sx_artifact_path c)), (''output_schema'', schema)]"

section \<open>Routing and terminal states\<close>

fun run_state_to_ticket_status :: "run_state \<Rightarrow> ticket_status res" where
  "run_state_to_ticket_status RCompleted = Inr TDone"
| "run_state_to_ticket_status RFailed = Inr TFailed"
| "run_state_to_ticket_status RCancelled = Inr TCancelled"
| "run_state_to_ticket_status RKilled = Inr TCancelled"
| "run_state_to_ticket_status _ = Inl (ValueError ''KeyError'')"

definition enqueue_route ::
  "uuid \<Rightarrow> nat option \<Rightarrow> string \<Rightarrow> string option \<Rightarrow> pipelines_db \<Rightarrow> pipelines_db" where
  "enqueue_route rid idx label failure_reason = enqueue (RouteRun rid idx (Some label) failure_reason)"

definition dispatch_stage :: "uuid \<Rightarrow> nat \<Rightarrow> pipelines_db \<Rightarrow> pipelines_db" where
  "dispatch_stage rid idx s =
     enqueue (StartStage rid (Some idx)) (upd_run rid (\<lambda>r. r\<lparr>r_current_stage_index := Some idx\<rparr>) s)"

definition enter_terminal ::
  "engine_env \<Rightarrow> uuid \<Rightarrow> run_state \<Rightarrow> string option \<Rightarrow> pipelines_db \<Rightarrow> pipelines_db res" where
  "enter_terminal env rid st failure_reason s =
     (let s1 = upd_run rid (\<lambda>r. r\<lparr>r_state := st, r_failure_reason := failure_reason,
                                  r_completed_at := Some (now s)\<rparr>) s;
          s2 = publish_run_state rid s1;
          r = run_of s2 rid
      in ebind (run_state_to_ticket_status st) (\<lambda>to_status.
         let s3 = snd (transition_ticket_on_run_terminal (r_ticket_id r) (r_org_id r) rid to_status
                         failure_reason s2);
             s4 = audit ''pipeline_run'' rid (''run.'' @ run_state_str st)
                    (terminal_payload r failure_reason) SystemActor (r_org_id r) s3
         in ebind (if st = RFailed then
                     efold (\<lambda>u. create_notification
                        \<lparr>nt_user_id = u, nt_org_id = r_org_id r, nt_type = ''pipeline_run_failed'',
                         nt_title = r_pipeline_name r @ '' failed'',
                         nt_body = or_else failure_reason ''Run failed.'',
                         nt_subject_type = Some ''pipeline_run'', nt_subject_id = Some rid\<rparr>)
                       (resolve_escalation_targets (r_kickoff r) (r_org_id r) s4) s4
                   else Inr s4) (\<lambda>s5.
            let s6 = fold (\<lambda>h. enqueue (RunTerminalHook h (r_org_id r) (r_ticket_id r)))
                       (run_terminal_hooks env) s5
            in Inr (promote_oldest_queued (r_ticket_id r) s6))))"

definition system_command_context :: "uuid \<Rightarrow> uuid \<Rightarrow> pipelines_db \<Rightarrow> dispatch_context" where
  "system_command_context rid eid s =
     \<lparr>dc_run_id = rid, dc_ticket_id = r_ticket_id (run_of s rid), dc_stage_execution_id = eid,
      dc_attempt = 0, dc_traceparent = r_otel_trace_context (run_of s rid),
      dc_user_id = r_triggered_by_user_id (run_of s rid)\<rparr>"

definition dispatch_cleanup_stage :: "uuid \<Rightarrow> pipelines_db \<Rightarrow> pipelines_db res" where
  "dispatch_cleanup_stage rid s =
     (case add_stage rid None KSystem SYSTEM_STAGE_CLEANUP None None None 0 s of (eid, s1) \<Rightarrow>
      case r_workspace_id (run_of s1 rid) of
        None \<Rightarrow> Inl AssertionError
      | Some w \<Rightarrow>
          ebind (dispatch_cleanup w (system_command_context rid eid s1) s1) (\<lambda>(command_id, s2).
          Inr (upd_run rid (\<lambda>r. r\<lparr>r_phase := PhCleanup,
                                  r_pending_agent_command_id := Some command_id\<rparr>) s2)))"

definition finish_or_cleanup ::
  "engine_env \<Rightarrow> uuid \<Rightarrow> run_state \<Rightarrow> string option \<Rightarrow> pipelines_db \<Rightarrow> pipelines_db res" where
  "finish_or_cleanup env rid target_state failure_reason s =
     (let s1 = upd_run rid (\<lambda>r. r\<lparr>r_failure_reason := failure_reason\<rparr>) s;
          r = run_of s1 rid
      in if r_workspace_id r \<noteq> None \<and> r_phase r \<noteq> PhCleanup
         then dispatch_cleanup_stage rid s1
         else enter_terminal env rid target_state failure_reason s1)"

definition run_was_killed :: "uuid \<Rightarrow> pipelines_db \<Rightarrow> bool" where
  "run_was_killed rid s \<longleftrightarrow>
     select (pauses s) (next_id s) (\<lambda>p. p_run_id p = rid \<and> p_resolution p = Some Kill) \<noteq> []"

definition finalize_after_cleanup :: "engine_env \<Rightarrow> uuid \<Rightarrow> pipelines_db \<Rightarrow> pipelines_db res" where
  "finalize_after_cleanup env rid s =
     (let r = run_of s rid;
          target_state = (if r_failure_reason r \<noteq> None then RFailed
                          else if r_cancel_requested r then RCancelled
                          else if run_was_killed rid s then RKilled
                          else RCompleted)
      in enter_terminal env rid target_state (r_failure_reason r) s)"

definition route_run ::
  "engine_env \<Rightarrow> uuid \<Rightarrow> nat option \<Rightarrow> string option \<Rightarrow> string option \<Rightarrow> pipelines_db \<Rightarrow> pipelines_db res" where
  "route_run env rid completed_stage_index outcome_label failure_reason s =
     (case runs s rid of
        None \<Rightarrow> Inr s
      | Some r \<Rightarrow>
          if r_state r \<noteq> Running then Inr s
          else (case completed_stage_index of
            None \<Rightarrow> Inr (dispatch_stage rid
                      (case r_current_stage_index r of Some i \<Rightarrow> i | None \<Rightarrow> 0) s)
          | Some i \<Rightarrow>
              if outcome_label = Some ''failure''
              then finish_or_cleanup env rid RFailed failure_reason s
              else if r_cancel_requested r then finish_or_cleanup env rid RCancelled None s
              else if length (r_definition_snapshot r) \<le> i + 1
              then finish_or_cleanup env rid RCompleted None s
              else Inr (dispatch_stage rid (i + 1) s)))"

section \<open>Stage dispatch\<close>

definition fail_stage ::
  "uuid \<Rightarrow> uuid \<Rightarrow> nat option \<Rightarrow> string \<Rightarrow> pipelines_db \<Rightarrow> pipelines_db" where
  "fail_stage rid eid idx failure_reason s =
     (let s1 = upd_stage eid (\<lambda>e. e\<lparr>se_status := SFailed, se_failure_reason := Some failure_reason,
                                    se_completed_at := Some (now s)\<rparr>) s
      in enqueue_route rid idx ''failure'' (Some failure_reason) (publish_stage_state rid s1))"

definition dispatch_provision_stage :: "engine_env \<Rightarrow> uuid \<Rightarrow> kickoff \<Rightarrow> pipelines_db \<Rightarrow> pipelines_db res" where
  "dispatch_provision_stage env rid ko s =
     (let r = run_of s rid in
      ebind (get_ticket (r_ticket_id r) (r_org_id r) s) (\<lambda>ticket.
      case add_stage rid None KSystem SYSTEM_STAGE_PROVISION None None None 0 s of (eid, s1) \<Rightarrow>
      case fresh s1 of (workspace_id, s2) \<Rightarrow>
      let spec = (case ko_pr_head_sha ko of
            Some head \<Rightarrow>
              \<lparr>pw_workspace_id = workspace_id, pw_org_id = r_org_id r, pw_plugin_id = tk_plugin_id ticket,
               pw_repo_external_id = tk_repo_external_id ticket, pw_head_sha = Some head,
               pw_branch_name = None, pw_base_sha = ko_pr_base_sha ko\<rparr>
          | None \<Rightarrow>
              \<lparr>pw_workspace_id = workspace_id, pw_org_id = r_org_id r, pw_plugin_id = tk_plugin_id ticket,
               pw_repo_external_id = tk_repo_external_id ticket, pw_head_sha = None,
               pw_branch_name = Some (tk_branch_name ticket), pw_base_sha = None\<rparr>)
      in ebind (dispatch_provision env spec (system_command_context rid eid s2) s2) (\<lambda>(command_id, s3).
         Inr (upd_run rid (\<lambda>r. r\<lparr>r_workspace_id := Some workspace_id, r_phase := PhProvision,
                                 r_pending_agent_command_id := Some command_id\<rparr>) s3))))"

text \<open>
  The tail shared by the four invocation dispatches: assemble the \<^verbatim>\<open>Invocation\<close>, dispatch it, and
  either fail the stage when a credential is missing or run the caller's continuation (the row
  updates that park the run).
\<close>

definition send_invocation ::
  "engine_env \<Rightarrow> uuid \<Rightarrow> uuid \<Rightarrow> nat option \<Rightarrow> uuid \<Rightarrow> string \<Rightarrow> string \<Rightarrow> string \<Rightarrow> string \<Rightarrow> int \<Rightarrow> json \<Rightarrow>
   (pipelines_db \<Rightarrow> pipelines_db) \<Rightarrow> pipelines_db \<Rightarrow> pipelines_db res" where
  "send_invocation env rid eid idx command_id plugin_id skill model effort wallclock ctx_json parked s =
     ebind (get_plugin env plugin_id) (\<lambda>plugin.
     case r_workspace_id (run_of s rid) of
       None \<Rightarrow> Inl AssertionError
     | Some w \<Rightarrow>
         (case dispatch_invocation
                 \<lparr>iv_workspace_id = w, iv_skill = skill, iv_model = model, iv_effort = effort,
                  iv_context = ctx_json, iv_wallclock_seconds = wallclock\<rparr>
                 plugin (system_command_context rid eid s) command_id s of
            Inl (CredentialUnavailableError user_message) \<Rightarrow> Inr (fail_stage rid eid idx user_message s)
          | Inl e \<Rightarrow> Inl e
          | Inr s1 \<Rightarrow> Inr (parked s1)))"

definition park :: "uuid \<Rightarrow> uuid \<Rightarrow> pipelines_db \<Rightarrow> pipelines_db" where
  "park rid command_id = upd_run rid (\<lambda>r. r\<lparr>r_pending_agent_command_id := Some command_id\<rparr>)"

definition artifact_path :: "engine_env \<Rightarrow> uuid \<Rightarrow> string" where
  "artifact_path env command_id = ''$TMPDIR/'' @ uuid_str env command_id @ ''.md''"

definition dispatch_skill_stage ::
  "engine_env \<Rightarrow> uuid \<Rightarrow> skill_stage \<Rightarrow> nat \<Rightarrow> kickoff \<Rightarrow> revision_context option \<Rightarrow>
   pipelines_db \<Rightarrow> pipelines_db res" where
  "dispatch_skill_stage env rid st idx ko revision s =
     (case add_stage rid (Some idx) KSkill (sk_name st) (Some (sk_skill_name st)) (Some PMain) revision 0 s
      of (eid, s1) \<Rightarrow>
      case fresh s1 of (command_id, s2) \<Rightarrow>
      let r = run_of s2 rid in
      ebind (get_ticket (r_ticket_id r) (r_org_id r) s2) (\<lambda>ticket.
      let input_text = resolve_stage_input rid idx ko s2 in
      ebind (build_pr_context rid ko ticket s2) (\<lambda>pr.
      send_invocation env rid eid (Some idx) command_id (sk_plugin_id st) (sk_skill_name st)
        (sk_model st) (sk_effort st) (sk_wallclock_seconds st)
        (context_json
           \<lparr>sx_ticket_id = r_ticket_id r, sx_stage_name = sk_name st,
            sx_branch_name = tk_branch_name ticket, sx_input = input_text, sx_pr = pr,
            sx_revision = revision, sx_prior_findings = [],
            sx_artifact_path = artifact_path env command_id\<rparr> (skill_return_schema env))
        (park rid command_id) s2)))"

definition dispatch_review_invocation ::
  "engine_env \<Rightarrow> uuid \<Rightarrow> skill_stage \<Rightarrow> uuid \<Rightarrow> string \<Rightarrow> pipelines_db \<Rightarrow> pipelines_db res" where
  "dispatch_review_invocation env rid st eid artifact_body s =
     ebind (require (sk_review st) AssertionError) (\<lambda>rc.
     let s1 = upd_stage eid (\<lambda>e. e\<lparr>se_iteration := se_iteration e + 1\<rparr>) s in
     case fresh s1 of (command_id, s2) \<Rightarrow>
     let r = run_of s2 rid in
     ebind (get_ticket (r_ticket_id r) (r_org_id r) s2) (\<lambda>ticket.
     ebind (resolve_prior_findings env rid eid s2) (\<lambda>prior_findings.
     ebind (build_pr_context rid (r_kickoff r) ticket s2) (\<lambda>pr.
     send_invocation env rid eid (se_stage_index (stage_of s2 eid)) command_id (sk_plugin_id st)
       (rc_skill_name rc) (sk_model st) (sk_effort st) (sk_wallclock_seconds st)
       (context_json
          \<lparr>sx_ticket_id = r_ticket_id r, sx_stage_name = sk_name st,
           sx_branch_name = tk_branch_name ticket, sx_input = artifact_body, sx_pr = pr,
           sx_revision = None, sx_prior_findings = prior_findings,
           sx_artifact_path = artifact_path env command_id\<rparr> (review_return_schema env))
       (park rid command_id \<circ> upd_stage eid (\<lambda>e. e\<lparr>se_phase := Some PReview\<rparr>)) s2))))"

definition dispatch_fix_invocation ::
  "engine_env \<Rightarrow> uuid \<Rightarrow> skill_stage \<Rightarrow> uuid \<Rightarrow> nat \<Rightarrow> kickoff \<Rightarrow> string \<Rightarrow> finding list \<Rightarrow>
   pipelines_db \<Rightarrow> pipelines_db res" where
  "dispatch_fix_invocation env rid st eid idx ko prior_artifact_body residuals s =
     (case fresh s of (command_id, s1) \<Rightarrow>
      let r = run_of s1 rid in
      ebind (get_ticket (r_ticket_id r) (r_org_id r) s1) (\<lambda>ticket.
      let input_text = resolve_stage_input rid idx ko s1 in
      ebind (build_pr_context rid ko ticket s1) (\<lambda>pr.
      let revision = \<lparr>rx_source = SrcFix, rx_text = render_findings_for_fix residuals,
                      rx_prior_artifact = prior_artifact_body\<rparr> in
      send_invocation env rid eid (Some idx) command_id (sk_plugin_id st) (sk_skill_name st)
        (sk_model st) (sk_effort st) (sk_wallclock_seconds st)
        (context_json
           \<lparr>sx_ticket_id = r_ticket_id r, sx_stage_name = sk_name st,
            sx_branch_name = tk_branch_name ticket, sx_input = input_text, sx_pr = pr,
            sx_revision = Some revision, sx_prior_findings = [],
            sx_artifact_path = artifact_path env command_id\<rparr> (skill_return_schema env))
        (park rid command_id \<circ>
           upd_stage eid (\<lambda>e. e\<lparr>se_revision := Some revision, se_phase := Some PFix\<rparr>)) s1)))"

definition dispatch_review_only_stage ::
  "engine_env \<Rightarrow> uuid \<Rightarrow> review_skill_stage \<Rightarrow> nat \<Rightarrow> kickoff \<Rightarrow> revision_context option \<Rightarrow>
   pipelines_db \<Rightarrow> pipelines_db res" where
  "dispatch_review_only_stage env rid st idx ko revision s =
     (case add_stage rid (Some idx) KReview (rv_name st) (Some (rv_skill_name st)) (Some PReview) revision 1 s
      of (eid, s1) \<Rightarrow>
      case fresh s1 of (command_id, s2) \<Rightarrow>
      let r = run_of s2 rid in
      ebind (get_ticket (r_ticket_id r) (r_org_id r) s2) (\<lambda>ticket.
      let input_text = resolve_stage_input rid idx ko s2 in
      ebind (resolve_prior_findings env rid eid s2) (\<lambda>prior_findings.
      ebind (build_pr_context rid ko ticket s2) (\<lambda>pr.
      send_invocation env rid eid (Some idx) command_id (rv_plugin_id st) (rv_skill_name st)
        (rv_model st) (rv_effort st) (rv_wallclock_seconds st)
        (context_json
           \<lparr>sx_ticket_id = r_ticket_id r, sx_stage_name = rv_name st,
            sx_branch_name = tk_branch_name ticket, sx_input = input_text, sx_pr = pr,
            sx_revision = revision, sx_prior_findings = prior_findings,
            sx_artifact_path = artifact_path env command_id\<rparr> (review_return_schema env))
        (park rid command_id) s2))))"

definition execute_action ::
  "engine_env \<Rightarrow> string \<Rightarrow> action_context \<Rightarrow> pipelines_db \<Rightarrow> (json \<times> pipelines_db) res" where
  "execute_action env action_id ctx s =
     (case actions env action_id of
        None \<Rightarrow> Inl (ActionNotFoundError action_id)
      | Some execute \<Rightarrow> execute ctx s)"

definition run_action_stage ::
  "engine_env \<Rightarrow> uuid \<Rightarrow> action_stage \<Rightarrow> nat \<Rightarrow> kickoff \<Rightarrow> pipelines_db \<Rightarrow> pipelines_db res" where
  "run_action_stage env rid st idx ko s =
     (case add_stage rid (Some idx) KAction (as_action_id st) None None None 0 s of (eid, s1) \<Rightarrow>
      ebind (build_action_context rid ko idx s1) (\<lambda>ctx.
      case execute_action env (as_action_id st) ctx s1 of
        Inr (result, s2) \<Rightarrow>
          Inr (enqueue_route rid (Some idx) ''success'' None
                 (upd_stage eid (\<lambda>e. e\<lparr>se_status := SCompleted, se_action_result := Some result,
                     se_boundary_outcome := Some Proceeded, se_completed_at := Some (now s2)\<rparr>) s2))
      | Inl (ActionError msg) \<Rightarrow>
          Inr (enqueue_route rid (Some idx) ''failure'' (Some msg)
                 (upd_stage eid (\<lambda>e. e\<lparr>se_status := SFailed, se_failure_reason := Some msg,
                     se_completed_at := Some (now s1)\<rparr>) s1))
      | Inl e \<Rightarrow> Inl e))"

definition start_stage :: "engine_env \<Rightarrow> uuid \<Rightarrow> nat option \<Rightarrow> pipelines_db \<Rightarrow> pipelines_db res" where
  "start_stage env rid idx s =
     (case runs s rid of
        None \<Rightarrow> Inr s
      | Some r \<Rightarrow>
          if r_state r \<noteq> Running then Inr s
          else ebind (nth_stage (r_definition_snapshot r) idx) (\<lambda>st.
            let ko = r_kickoff r; i = the idx in
            case st of
              ActionStage ast \<Rightarrow> run_action_stage env rid ast i ko s
            | _ \<Rightarrow>
                if \<not> workspace_is_live (r_workspace_id r) s
                then dispatch_provision_stage env rid ko s
                else
                  let revision = ko_revision ko;
                      s1 = (if revision \<noteq> None
                            then upd_run rid (\<lambda>r. r\<lparr>r_kickoff := ko\<lparr>ko_revision := None\<rparr>\<rparr>) s else s)
                  in (case st of
                        SkillStage sk \<Rightarrow> dispatch_skill_stage env rid sk i ko revision s1
                      | ReviewSkillStage rv \<Rightarrow> dispatch_review_only_stage env rid rv i ko revision s1
                      | ActionStage _ \<Rightarrow> Inl AssertionError)))"

section \<open>Findings and verdicts of a review pass\<close>

definition verdict_event ::
  "finding_status \<Rightarrow> status_event_method \<Rightarrow> uuid \<Rightarrow> uuid \<Rightarrow> timestamp \<Rightarrow> finding_status_event" where
  "verdict_event status meth rid eid t =
     \<lparr>fe_status = status, fe_method = meth, fe_actor = SystemActor, fe_run_id = Some rid,
      fe_stage_execution_id = Some eid, fe_comment_external_id = None, fe_at = t\<rparr>"

definition apply_verdict ::
  "uuid \<Rightarrow> uuid \<Rightarrow> (uuid \<times> finding_status) list \<Rightarrow> prior_finding_verdict \<Rightarrow> pipelines_db \<Rightarrow> pipelines_db res" where
  "apply_verdict rid eid own_status_by_id v s =
     (case vd_status v of
        None \<Rightarrow> Inr s
      | Some Fixed \<Rightarrow> resolve (vd_finding_id v) (verdict_event FResolved ReviewVerdict rid eid (now s)) s
      | Some StillPresent \<Rightarrow>
          (let current = (case map_of own_status_by_id (vd_finding_id v) of Some st \<Rightarrow> st | None \<Rightarrow> FOpen);
               ev = verdict_event FOpen ReviewVerdict rid eid (now s)
           in if current = FResolved then reopen (vd_finding_id v) ev s else reflag (vd_finding_id v) ev s)
      | Some VUserOverrode \<Rightarrow>
          dismiss (vd_finding_id v) (verdict_event FDismissed UserOverrode rid eid (now s)) s)"

definition apply_verdicts ::
  "uuid \<Rightarrow> uuid \<Rightarrow> prior_finding_verdict list \<Rightarrow> (uuid \<times> finding_status) list \<Rightarrow>
   pipelines_db \<Rightarrow> pipelines_db res" where
  "apply_verdicts rid eid verdicts own_status_by_id s = efold (apply_verdict rid eid own_status_by_id) verdicts s"

text \<open>The \<^verbatim>\<open>FindingSpec\<close> comprehension: each spec mints an id.\<close>

fun mint_specs :: "skill_review_finding list \<Rightarrow> 'a infra_scheme \<Rightarrow> finding_spec list \<times> 'a infra_scheme" where
  "mint_specs [] s = ([], s)"
| "mint_specs (f # fs) s =
     (case fresh s of (i, s1) \<Rightarrow>
      case mint_specs fs s1 of (specs, s2) \<Rightarrow>
        (\<lparr>fs_id = i, fs_severity = sf_severity f, fs_body = sf_body f, fs_code_file = sf_code_file f,
          fs_code_line = sf_code_line f, fs_artifact_section = sf_artifact_section f,
          fs_defect_in_artifact = sf_defect_in_artifact f, fs_display_prefix = sf_category f\<rparr> # specs, s2))"

definition record_and_apply_review ::
  "uuid \<Rightarrow> uuid \<Rightarrow> skill_review_return \<Rightarrow> nat \<Rightarrow> pipelines_db \<Rightarrow> (uuid list \<times> pipelines_db) res" where
  "record_and_apply_review rid eid ret iteration s =
     (case mint_specs (sv_new_findings ret) s of (specs, s1) \<Rightarrow>
      case record_findings (r_org_id (run_of s1 rid)) (r_ticket_id (run_of s1 rid)) rid
             (se_stage_name (stage_of s1 eid)) eid iteration specs s1 of (recorded, s2) \<Rightarrow>
      let own = map (\<lambda>f. (fd_id f, fd_status f)) (list_for_stage_execution eid s2) in
      ebind (apply_verdicts rid eid (sv_prior_finding_verdicts ret) own s2)
        (\<lambda>s3. Inr (recorded, s3)))"

section \<open>Send-back\<close>

fun find_skill_stage ::
  "string \<Rightarrow> nat \<Rightarrow> executable_stage list \<Rightarrow> (nat \<times> skill_stage) option" where
  "find_skill_stage target i [] = None"
| "find_skill_stage target i (SkillStage st # xs) =
     (if sk_name st = target then Some (i, st) else find_skill_stage target (Suc i) xs)"
| "find_skill_stage target i (_ # xs) = find_skill_stage target (Suc i) xs"

definition resolve_send_back_target ::
  "flattened_definition \<Rightarrow> string list option \<Rightarrow> nat \<Rightarrow> string \<Rightarrow> (nat \<times> skill_stage) option" where
  "resolve_send_back_target flattened context_stages before_index target_name =
     (case find_skill_stage target_name 0 (take before_index flattened) of
        None \<Rightarrow> None
      | Some (i, st) \<Rightarrow>
          (case context_stages of
             Some cs \<Rightarrow> if target_name \<notin> set cs then None else Some (i, st)
           | None \<Rightarrow> Some (i, st)))"

fun resolve_residual_send_back ::
  "flattened_definition \<Rightarrow> string list option \<Rightarrow> nat \<Rightarrow> finding list \<Rightarrow> (nat \<times> skill_stage \<times> string) option" where
  "resolve_residual_send_back flattened context_stages before_index [] = None"
| "resolve_residual_send_back flattened context_stages before_index (f # fs) =
     (let target = or_else (fd_defect_in_artifact f) [] in
      if target = [] then resolve_residual_send_back flattened context_stages before_index fs
      else (case resolve_send_back_target flattened context_stages before_index target of
              None \<Rightarrow> resolve_residual_send_back flattened context_stages before_index fs
            | Some (i, st) \<Rightarrow> Some (i, st, fd_body f)))"

definition count_of :: "(string \<times> nat) list \<Rightarrow> string \<Rightarrow> nat" where
  "count_of counts k = (case map_of counts k of Some n \<Rightarrow> n | None \<Rightarrow> 0)"

definition send_back_to_stage ::
  "engine_env \<Rightarrow> uuid \<Rightarrow> uuid \<Rightarrow> nat \<Rightarrow> skill_stage \<Rightarrow> string \<Rightarrow> kickoff \<Rightarrow> pipelines_db \<Rightarrow> pipelines_db res" where
  "send_back_to_stage env rid eid target_index target_stage gap_text ko s =
     (let r = run_of s rid; counts = r_sendback_counts r; target = sk_name target_stage in
      if 1 \<le> count_of counts target
      then enter_pause rid eid
             \<lparr>bd_pause = True, bd_tripped = [(''sendback_loop'', TrippedStage target)],
              bd_protected_owner_user_ids = []\<rparr> ko s
      else
        let s1 = upd_run rid (\<lambda>r. r\<lparr>r_sendback_counts := AList.update target 1 counts\<rparr>) s;
            s2 = upd_stage eid (\<lambda>e. e\<lparr>se_boundary_outcome := Some SentBack\<rparr>) s1;
            s3 = publish_stage_state rid s2;
            prior = latest_final (r_org_id r) (r_ticket_id r) target s3;
            revision = \<lparr>rx_source = SrcSendBack, rx_text = gap_text,
                        rx_prior_artifact = (case prior of Some a \<Rightarrow> ar_body a | None \<Rightarrow> [])\<rparr>;
            s4 = upd_run rid (\<lambda>r. r\<lparr>r_kickoff := ko\<lparr>ko_revision := Some revision\<rparr>,
                                    r_current_stage_index := Some target_index\<rparr>) s3
        in start_stage env rid (Some target_index) s4)"

section \<open>Settling a stage\<close>

text \<open>Python's \<^verbatim>\<open>!r\<close> on an optional string without special characters.\<close>

definition py_repr :: "string option \<Rightarrow> string" where
  "py_repr x = (case x of None \<Rightarrow> ''None'' | Some y \<Rightarrow> [CHR 0x27] @ y @ [CHR 0x27])"

definition validate_skill_return_and_artifact ::
  "engine_env \<Rightarrow> uuid \<Rightarrow> skill_stage \<Rightarrow> uuid \<Rightarrow> nat \<Rightarrow> kickoff \<Rightarrow> payload \<Rightarrow> pipelines_db \<Rightarrow>
   ((skill_return \<times> uuid \<times> string) option \<times> pipelines_db) res" where
  "validate_skill_return_and_artifact env rid st eid idx ko outs s =
     (case parse_skill_return env (case get_str outs ''output'' of Some x \<Rightarrow> x | None \<Rightarrow> []) of
        Inl err \<Rightarrow>
          Inr (None, fail_stage rid eid (Some idx) (''SkillReturn schema violation: '' @ err) s)
      | Inr ret \<Rightarrow>
          if sr_outcome ret = CannotComplete
          then Inr (None, fail_stage rid eid (Some idx)
                      (or_else (sr_outcome_reason ret) ''stage reported cannot_complete'') s)
          else if sr_outcome ret = SendBack then
            (let target_name = or_else (sr_send_back_to_stage ret) [];
                 resolved = (if target_name \<noteq> []
                             then resolve_send_back_target (r_definition_snapshot (run_of s rid))
                                    (sk_context_stages st) idx target_name
                             else None)
             in case resolved of
                  None \<Rightarrow>
                    Inr (None, fail_stage rid eid (Some idx)
                      (''send_back_to_stage '' @ py_repr (sr_send_back_to_stage ret) @
                         '' is not a valid upstream stage'') s)
                | Some (target_index, target_stage) \<Rightarrow>
                    let s1 = upd_stage eid (\<lambda>e. e\<lparr>se_status := SCompleted,
                                                  se_completed_at := Some (now s)\<rparr>) s
                    in ebind (send_back_to_stage env rid eid target_index target_stage
                                (or_else (sr_outcome_reason ret) []) ko s1)
                         (\<lambda>s2. Inr (None, s2)))
          else
            (let body = or_else (artifact_body_of outs) [] in
             if body = [] then
               Inr (None, fail_stage rid eid (Some idx)
                      (or_else (get_str outs ''artifact_error'')
                         ''outcome=completed requires an artifact but none was provided'') s)
             else
               (case store_artifact (r_org_id (run_of s rid)) (r_ticket_id (run_of s rid)) rid eid
                       (se_stage_name (stage_of s eid)) body (se_iteration (stage_of s eid)) s of
                  (artifact_id, s1) \<Rightarrow>
                    Inr (Some (ret, artifact_id, body), mark_final artifact_id s1))))"

definition get_settings :: "uuid \<Rightarrow> string \<Rightarrow> pipelines_db \<Rightarrow> repo_settings" where
  "get_settings org_id repo_external_id s =
     (case map_of (repo_settings_rows s) (org_id, repo_external_id) of
        Some rs \<Rightarrow> repo_settings.truncate rs
      | None \<Rightarrow> \<lparr>rs_protected_mode = Deny, rs_protected_path_sets = [], rs_auto_approve_enabled = False,
                 rs_auto_approve_conditions = []\<rparr>)"

definition evaluate_protected ::
  "engine_env \<Rightarrow> uuid \<Rightarrow> string \<Rightarrow> string list \<Rightarrow> pipelines_db \<Rightarrow> bool \<times> uuid list" where
  "evaluate_protected env org_id repo_external_id paths s =
     (let settings = get_settings org_id repo_external_id s in
      match_protected (match_file env) paths (rs_protected_mode settings) (rs_protected_path_sets settings))"

definition open_residuals :: "uuid \<Rightarrow> 'a findings_db_scheme \<Rightarrow> finding list" where
  "open_residuals eid s = filter (\<lambda>f. fd_status f = FOpen) (list_for_stage_execution eid s)"

definition settle_stage_boundary ::
  "engine_env \<Rightarrow> uuid \<Rightarrow> string list option \<Rightarrow> boundary_control \<Rightarrow> uuid \<Rightarrow> kickoff \<Rightarrow> string list \<Rightarrow> nat \<Rightarrow>
   pipelines_db \<Rightarrow> pipelines_db res" where
  "settle_stage_boundary env rid context_stages boundary eid ko paths_affected idx s =
     (let residuals = open_residuals eid s; r = run_of s rid in
      case resolve_residual_send_back (r_definition_snapshot r) context_stages idx residuals of
        Some (target_index, target_stage, gap_text) \<Rightarrow>
          send_back_to_stage env rid eid target_index target_stage gap_text ko
            (upd_stage eid (\<lambda>e. e\<lparr>se_status := SCompleted, se_completed_at := Some (now s)\<rparr>) s)
      | None \<Rightarrow>
          ebind (get_ticket (r_ticket_id r) (r_org_id r) s) (\<lambda>ticket.
          ebind (require (se_confidence (stage_of s eid)) AssertionError) (\<lambda>conf.
          let decision = evaluate_boundary boundary
                (\<lambda>paths. evaluate_protected env (r_org_id r) (tk_repo_external_id ticket) paths s)
                residuals paths_affected conf;
              s1 = upd_stage eid (\<lambda>e. e\<lparr>se_status := SCompleted, se_completed_at := Some (now s)\<rparr>) s
          in if bd_pause decision then enter_pause rid eid decision ko s1
             else Inr (enqueue_route rid (Some idx) ''success'' None
                    (publish_stage_state rid
                       (upd_stage eid (\<lambda>e. e\<lparr>se_boundary_outcome := Some Proceeded\<rparr>) s1))))))"

definition pass_entry :: "stage_phase \<Rightarrow> uuid \<Rightarrow> skill_return \<Rightarrow> loop_entry" where
  "pass_entry ph artifact_id ret =
     \<lparr>le_phase = ph, le_artifact_id = Some artifact_id, le_confidence = sr_confidence ret,
      le_paths_affected = Some (sr_paths_affected ret), le_iteration = None,
      le_new_finding_ids = [], le_residual_finding_ids = [], le_verdicts = []\<rparr>"

definition record_pass ::
  "stage_phase \<Rightarrow> uuid \<Rightarrow> uuid \<Rightarrow> uuid \<Rightarrow> skill_return \<Rightarrow> pipelines_db \<Rightarrow> pipelines_db" where
  "record_pass ph rid eid artifact_id ret s =
     publish_artifact_stored rid
       (upd_stage eid (\<lambda>e. e\<lparr>se_loop_state := se_loop_state e @ [pass_entry ph artifact_id ret],
                             se_confidence := Some (bucket_confidence (sr_confidence ret))\<rparr>) s)"

definition handle_main_return ::
  "engine_env \<Rightarrow> uuid \<Rightarrow> skill_stage \<Rightarrow> uuid \<Rightarrow> nat \<Rightarrow> kickoff \<Rightarrow> payload \<Rightarrow> pipelines_db \<Rightarrow> pipelines_db res" where
  "handle_main_return env rid st eid idx ko outs s =
     ebind (validate_skill_return_and_artifact env rid st eid idx ko outs s) (\<lambda>(result, s1).
     case result of
       None \<Rightarrow> Inr s1
     | Some (ret, artifact_id, body) \<Rightarrow>
         let s2 = record_pass PMain rid eid artifact_id ret s1 in
         if sk_review st = None
         then settle_stage_boundary env rid (sk_context_stages st) (sk_boundary st) eid ko
                (sr_paths_affected ret) idx s2
         else dispatch_review_invocation env rid st eid body s2)"

definition handle_fix_return ::
  "engine_env \<Rightarrow> uuid \<Rightarrow> skill_stage \<Rightarrow> uuid \<Rightarrow> nat \<Rightarrow> kickoff \<Rightarrow> payload \<Rightarrow> pipelines_db \<Rightarrow> pipelines_db res" where
  "handle_fix_return env rid st eid idx ko outs s =
     ebind (validate_skill_return_and_artifact env rid st eid idx ko outs s) (\<lambda>(result, s1).
     case result of
       None \<Rightarrow> Inr s1
     | Some (ret, artifact_id, body) \<Rightarrow>
         dispatch_review_invocation env rid st eid body (record_pass PFix rid eid artifact_id ret s1))"

definition review_entry ::
  "nat \<Rightarrow> skill_review_return \<Rightarrow> uuid list \<Rightarrow> finding list \<Rightarrow> loop_entry" where
  "review_entry iteration ret recorded residuals =
     \<lparr>le_phase = PReview, le_artifact_id = None, le_confidence = sv_confidence ret,
      le_paths_affected = None, le_iteration = Some iteration, le_new_finding_ids = recorded,
      le_residual_finding_ids = map fd_id residuals, le_verdicts = sv_prior_finding_verdicts ret\<rparr>"

definition handle_review_return ::
  "engine_env \<Rightarrow> uuid \<Rightarrow> skill_stage \<Rightarrow> uuid \<Rightarrow> nat \<Rightarrow> kickoff \<Rightarrow> payload \<Rightarrow> pipelines_db \<Rightarrow> pipelines_db res" where
  "handle_review_return env rid st eid idx ko outs s =
     ebind (require (sk_review st) AssertionError) (\<lambda>rc.
     case parse_review_return env (case get_str outs ''output'' of Some x \<Rightarrow> x | None \<Rightarrow> []) of
       Inl err \<Rightarrow> Inr (fail_stage rid eid (Some idx) (''SkillReviewReturn schema violation: '' @ err) s)
     | Inr ret \<Rightarrow>
         let iteration = se_iteration (stage_of s eid) in
         ebind (record_and_apply_review rid eid ret iteration s) (\<lambda>(recorded, s1).
         let residuals = open_residuals eid s1;
             s2 = upd_stage eid (\<lambda>e. e\<lparr>se_loop_state := se_loop_state e @
                    [review_entry iteration ret recorded residuals]\<rparr>) s1;
             s3 = publish_stage_state rid s2
         in if residuals \<noteq> [] \<and> iteration < max_iterations rc then
              ebind (last_artifact_id (stage_of s3 eid)) (\<lambda>aid.
              ebind (get_artifact aid (r_org_id (run_of s3 rid)) s3) (\<lambda>artifact.
              dispatch_fix_invocation env rid st eid idx ko (ar_body artifact) residuals s3))
            else
              settle_stage_boundary env rid (sk_context_stages st) (sk_boundary st) eid ko
                (last_paths_affected (stage_of s3 eid)) idx s3))"

definition handle_review_stage_event ::
  "engine_env \<Rightarrow> uuid \<Rightarrow> uuid \<Rightarrow> string \<Rightarrow> payload \<Rightarrow> pipelines_db \<Rightarrow> pipelines_db res" where
  "handle_review_stage_event env rid eid outcome_label outs s =
     (let idx = se_stage_index (stage_of s eid); r = run_of s rid; ko = r_kickoff r in
      if outcome_label \<noteq> ''success''
      then Inr (fail_stage rid eid idx (or_else (get_str outs ''error_message'') outcome_label) s)
      else ebind (nth_stage (r_definition_snapshot r) idx) (\<lambda>st.
        case st of
          ReviewSkillStage rv \<Rightarrow>
            (case parse_review_return env (case get_str outs ''output'' of Some x \<Rightarrow> x | None \<Rightarrow> []) of
               Inl err \<Rightarrow> Inr (fail_stage rid eid idx (''SkillReviewReturn schema violation: '' @ err) s)
             | Inr ret \<Rightarrow>
                 ebind (record_and_apply_review rid eid ret 1 s) (\<lambda>(recorded, s1).
                 let residuals = open_residuals eid s1;
                     s2 = upd_stage eid (\<lambda>e. e\<lparr>se_loop_state := se_loop_state e @
                            [review_entry 1 ret recorded residuals],
                            se_confidence := Some (bucket_confidence (sv_confidence ret))\<rparr>) s1
                 in settle_stage_boundary env rid (rv_context_stages rv) (rv_boundary rv) eid ko []
                      (the idx) s2))
        | _ \<Rightarrow> Inl AssertionError))"

section \<open>Agent events\<close>

definition auth_retry_key :: "string \<Rightarrow> string" where
  "auth_retry_key name = ''auth_retry:'' @ name"

definition dispatch_refresh_auth :: "engine_env \<Rightarrow> uuid \<Rightarrow> pipelines_db \<Rightarrow> pipelines_db res" where
  "dispatch_refresh_auth env rid s =
     (case add_stage rid None KSystem SYSTEM_STAGE_REFRESH_AUTH None None None 0 s of (eid, s1) \<Rightarrow>
      let r = run_of s1 rid in
      case r_workspace_id r of
        None \<Rightarrow> Inl AssertionError
      | Some w \<Rightarrow>
          ebind (get_ticket (r_ticket_id r) (r_org_id r) s1) (\<lambda>ticket.
          ebind (dispatch_auth_refresh env w (system_command_context rid eid s1) (r_org_id r)
                   (tk_plugin_id ticket) s1)
            (\<lambda>(command_id, s2). Inr (park rid command_id s2))))"

definition handle_skill_stage_event ::
  "engine_env \<Rightarrow> uuid \<Rightarrow> uuid \<Rightarrow> string \<Rightarrow> payload \<Rightarrow> pipelines_db \<Rightarrow> pipelines_db res" where
  "handle_skill_stage_event env rid eid outcome_label outs s =
     (let e = stage_of s eid; idx = se_stage_index e; r = run_of s rid; ko = r_kickoff r in
      if outcome_label \<noteq> ''success'' then
        (let failure_reason = or_else (get_str outs ''error_message'') outcome_label;
             retry_key = auth_retry_key (se_stage_name e);
             counts = r_sendback_counts r
         in if is_auth_expired failure_reason \<and> se_phase e = Some PMain \<and> count_of counts retry_key < 1
            then dispatch_refresh_auth env rid
                   (publish_stage_state rid
                     (upd_stage eid (\<lambda>e. e\<lparr>se_status := SFailed, se_failure_reason := Some failure_reason,
                                           se_completed_at := Some (now s)\<rparr>)
                       (upd_run rid (\<lambda>r. r\<lparr>r_sendback_counts := AList.update retry_key 1 counts\<rparr>) s)))
            else Inr (fail_stage rid eid idx failure_reason s))
      else ebind (nth_stage (r_definition_snapshot r) idx) (\<lambda>st.
        case st of
          SkillStage sk \<Rightarrow>
            if se_phase e = Some PReview then handle_review_return env rid sk eid (the idx) ko outs s
            else if se_phase e = Some PFix then handle_fix_return env rid sk eid (the idx) ko outs s
            else handle_main_return env rid sk eid (the idx) ko outs s
        | _ \<Rightarrow> Inl AssertionError))"

definition handle_system_stage_event ::
  "engine_env \<Rightarrow> uuid \<Rightarrow> uuid \<Rightarrow> string \<Rightarrow> payload \<Rightarrow> pipelines_db \<Rightarrow> pipelines_db res" where
  "handle_system_stage_event env rid eid outcome_label outs s =
     (let name = se_stage_name (stage_of s eid);
          s0 = upd_stage eid (\<lambda>e. e\<lparr>se_completed_at := Some (now s)\<rparr>) s in
      if outcome_label \<noteq> ''success'' then
        (let failure_reason = or_else (get_str outs ''error_message'') outcome_label;
             s1 = upd_stage eid (\<lambda>e. e\<lparr>se_status := SFailed, se_failure_reason := Some failure_reason\<rparr>) s0
         in if name = SYSTEM_STAGE_CLEANUP then finalize_after_cleanup env rid s1
            else finish_or_cleanup env rid RFailed (Some failure_reason) s1)
      else
        let s1 = upd_stage eid (\<lambda>e. e\<lparr>se_status := SCompleted\<rparr>) s0; r = run_of s1 rid in
        if name = SYSTEM_STAGE_PROVISION then
          Inr (enqueue (StartStage rid (r_current_stage_index r))
                 (upd_run rid (\<lambda>r. r\<lparr>r_phase := PhStages\<rparr>) s1))
        else if name = SYSTEM_STAGE_CLEANUP then finalize_after_cleanup env rid s1
        else if name = SYSTEM_STAGE_REFRESH_AUTH then
          ebind (nth_stage (r_definition_snapshot r) (r_current_stage_index r)) (\<lambda>st.
            case st of
              SkillStage sk \<Rightarrow>
                dispatch_skill_stage env rid sk (the (r_current_stage_index r)) (r_kickoff r) None s1
            | _ \<Rightarrow> finish_or_cleanup env rid RFailed
                     (Some ''refresh-auth recovery reached a non-skill stage'') s1)
        else Inr s1)"

definition running_stage :: "uuid \<Rightarrow> pipelines_db \<Rightarrow> stage_exec option" where
  "running_stage rid s =
     latest_by latest_key (select (stage_execs s) (next_id s)
       (\<lambda>e. se_run_id e = rid \<and> se_status e = SRunning))"

definition handle_agent_event ::
  "engine_env \<Rightarrow> uuid option \<Rightarrow> uuid \<Rightarrow> string \<Rightarrow> payload \<Rightarrow> pipelines_db \<Rightarrow> pipelines_db res" where
  "handle_agent_event env run_id agent_command_id outcome_label outs s =
     (case run_id of
        None \<Rightarrow> Inr s
      | Some rid \<Rightarrow>
     (case runs s rid of
        None \<Rightarrow> Inr s
      | Some r \<Rightarrow>
          if r_state r \<noteq> Running then Inr s
          else if r_pending_agent_command_id r \<noteq> Some agent_command_id then Inr s
          else (case running_stage rid s of
                  None \<Rightarrow> Inr s
                | Some e \<Rightarrow>
                    let s1 = upd_run rid (\<lambda>r. r\<lparr>r_pending_agent_command_id := None\<rparr>) s in
                    (case se_kind e of
                       KSystem \<Rightarrow> handle_system_stage_event env rid (se_id e) outcome_label outs s1
                     | KReview \<Rightarrow> handle_review_stage_event env rid (se_id e) outcome_label outs s1
                     | _ \<Rightarrow> handle_skill_stage_event env rid (se_id e) outcome_label outs s1))))"

section \<open>Resolving a pause\<close>

definition resume_from_pause :: "pause_row \<Rightarrow> uuid \<Rightarrow> pipelines_db \<Rightarrow> pipelines_db res" where
  "resume_from_pause pause rid s =
     ebind (require (stage_execs s (p_stage_execution_id pause)) AssertionError) (\<lambda>e.
     let s1 = upd_run rid (\<lambda>r. r\<lparr>r_state := Running\<rparr>) s;
         r = run_of s1 rid;
         s2 = snd (transition_ticket_on_run_resumed (r_ticket_id r) (r_org_id r) rid s1);
         s3 = publish_run_state rid s2
     in Inr (enqueue_route rid (se_stage_index e) ''success'' None s3))"

definition named_stage :: "executable_stage \<Rightarrow> string res" where
  "named_stage st = require (stage_name_of st) AssertionError"

definition resume_with_instruction ::
  "engine_env \<Rightarrow> pause_row \<Rightarrow> uuid \<Rightarrow> string \<Rightarrow> pipelines_db \<Rightarrow> pipelines_db res" where
  "resume_with_instruction env pause rid instruction s =
     ebind (require (stage_execs s (p_stage_execution_id pause)) AssertionError) (\<lambda>e.
     ebind (require (se_stage_index e) AssertionError) (\<lambda>idx.
     let r = run_of s rid in
     ebind (nth_stage (r_definition_snapshot r) (Some idx)) (\<lambda>st.
     ebind (named_stage st) (\<lambda>name.
     let prior = latest_final (r_org_id r) (r_ticket_id r) name s;
         revision = \<lparr>rx_source = SrcInstruction, rx_text = instruction,
                     rx_prior_artifact = (case prior of Some a \<Rightarrow> ar_body a | None \<Rightarrow> [])\<rparr>;
         s1 = upd_run rid (\<lambda>r. r\<lparr>r_kickoff := (r_kickoff r)\<lparr>ko_revision := Some revision\<rparr>,
                                 r_current_stage_index := Some idx, r_state := Running\<rparr>) s;
         s2 = snd (transition_ticket_on_run_resumed (r_ticket_id r) (r_org_id r) rid s1);
         s3 = publish_run_state rid s2
     in start_stage env rid (Some idx) s3))))"

definition resume_with_send_back ::
  "engine_env \<Rightarrow> uuid \<Rightarrow> uuid \<Rightarrow> nat \<Rightarrow> skill_stage \<Rightarrow> pipelines_db \<Rightarrow> pipelines_db res" where
  "resume_with_send_back env rid eid target_index target_stage s =
     (let ko = r_kickoff (run_of s rid);
          s1 = upd_run rid (\<lambda>r. r\<lparr>r_state := Running\<rparr>) s;
          r = run_of s1 rid;
          s2 = snd (transition_ticket_on_run_resumed (r_ticket_id r) (r_org_id r) rid s1);
          s3 = publish_run_state rid s2
      in send_back_to_stage env rid eid target_index target_stage [] ko s3)"

definition kill_run :: "engine_env \<Rightarrow> uuid \<Rightarrow> pipelines_db \<Rightarrow> pipelines_db res" where
  "kill_run env rid s =
     finish_or_cleanup env rid RKilled None (upd_run rid (\<lambda>r. r\<lparr>r_state := Running\<rparr>) s)"

definition cancel_paused :: "engine_env \<Rightarrow> uuid \<Rightarrow> uuid \<Rightarrow> pipelines_db \<Rightarrow> pipelines_db res" where
  "cancel_paused env rid pid s =
     finish_or_cleanup env rid RCancelled None
       (upd_run rid (\<lambda>r. r\<lparr>r_state := Running, r_cancel_requested := True\<rparr>)
         (upd_pause pid (\<lambda>p. p\<lparr>p_resolved_at := Some (now s)\<rparr>) s))"

end
