(* ===== verification/PipelineService.thy ===== *)
theory PipelineService
  imports Engine
begin

text \<open>
  The pipelines service (\<^verbatim>\<open>domain/pipelines/service.py\<close>): definition CRUD with the dry-run flatten,
  starting and re-running runs, cancellation, and the resolution of a human-in-the-loop pause; and
  the stall sweeper (\<^verbatim>\<open>domain/pipelines/scheduler_jobs.py\<close>).

  \<^verbatim>\<open>require_org_context()\<close> is the argument \<open>org_id\<close>.
\<close>

section \<open>Definition CRUD\<close>

definition load_org_definitions :: "uuid \<Rightarrow> pipelines_db \<Rightarrow> org_definitions" where
  "load_org_definitions org_id s =
     map (\<lambda>(k, row). (k, pi_definition row)) (filter (\<lambda>(k, row). pi_org_id row = org_id) (pipelines s))"

definition assert_name_available ::
  "uuid \<Rightarrow> string \<Rightarrow> uuid option \<Rightarrow> pipelines_db \<Rightarrow> unit res" where
  "assert_name_available org_id name exclude_id s =
     guard (\<not> list_ex (\<lambda>(k, row). pi_org_id row = org_id \<and> pd_name (pi_definition row) = name \<and>
                                   Some k \<noteq> exclude_id) (pipelines s))
       (PipelineNameTakenError name)"

definition get_row :: "uuid \<Rightarrow> uuid \<Rightarrow> pipelines_db \<Rightarrow> pipeline_row option" where
  "get_row pipeline_id org_id s =
     (case map_of (pipelines s) pipeline_id of
        Some row \<Rightarrow> if pi_org_id row = org_id then Some row else None
      | None \<Rightarrow> None)"

definition audit_for_pipeline ::
  "uuid \<Rightarrow> string \<Rightarrow> json \<Rightarrow> actor \<Rightarrow> uuid \<Rightarrow> 'a infra_scheme \<Rightarrow> 'a infra_scheme" where
  "audit_for_pipeline pipeline_id = audit ''pipeline'' pipeline_id"

definition definition_payload :: "pipeline_definition \<Rightarrow> json" where
  "definition_payload d =
     JObj [(''name'', JStr (pd_name d)), (''stage_count'', JNum (int (length (pd_stages d))))]"

definition create_pipeline ::
  "uuid \<Rightarrow> pipeline_definition \<Rightarrow> actor \<Rightarrow> pipelines_db \<Rightarrow> (uuid \<times> pipelines_db) res" where
  "create_pipeline org_id d act s =
     ebind (validate_definition d (load_org_definitions org_id s)) (\<lambda>_.
     ebind (assert_name_available org_id (pd_name d) None s) (\<lambda>_.
     ebind (guard (map_of (pipelines s) (pd_id d) = None) IntegrityError) (\<lambda>_.
     let row = \<lparr>pi_org_id = org_id, pi_definition = d, pi_updated_by = actor_user_id act\<rparr>;
         s1 = s\<lparr>pipelines := pipelines s @ [(pd_id d, row)]\<rparr>
     in Inr (pd_id d, audit_for_pipeline (pd_id d) ''pipeline.created'' (definition_payload d) act org_id s1))))"

definition update_pipeline ::
  "uuid \<Rightarrow> uuid \<Rightarrow> pipeline_definition \<Rightarrow> actor \<Rightarrow> pipelines_db \<Rightarrow> pipelines_db res" where
  "update_pipeline org_id pipeline_id d0 act s =
     ebind (require (get_row pipeline_id org_id s) (PipelineNotFoundError (Some pipeline_id))) (\<lambda>_.
     let d = d0\<lparr>pd_id := pipeline_id\<rparr> in
     ebind (validate_definition d (load_org_definitions org_id s)) (\<lambda>_.
     ebind (assert_name_available org_id (pd_name d) (Some pipeline_id) s) (\<lambda>_.
     let row = \<lparr>pi_org_id = org_id, pi_definition = d, pi_updated_by = actor_user_id act\<rparr>;
         s1 = s\<lparr>pipelines := AList.update pipeline_id row (pipelines s)\<rparr>
     in Inr (audit_for_pipeline pipeline_id ''pipeline.updated'' (definition_payload d) act org_id s1))))"

definition pipeline_referenced_by_call :: "uuid \<Rightarrow> uuid \<Rightarrow> pipelines_db \<Rightarrow> bool" where
  "pipeline_referenced_by_call org_id pipeline_id s =
     list_ex (\<lambda>(k, row). pi_org_id row = org_id \<and> k \<noteq> pipeline_id \<and>
                         pipeline_id \<in> set (call_targets (pi_definition row))) (pipelines s)"

definition pipeline_referenced_by_binding :: "uuid \<Rightarrow> pipelines_db \<Rightarrow> bool" where
  "pipeline_referenced_by_binding pipeline_id s \<longleftrightarrow>
     select (bindings s) (next_id s) (\<lambda>b. bg_pipeline_id b = pipeline_id) \<noteq> []"

definition delete_pipeline :: "uuid \<Rightarrow> uuid \<Rightarrow> actor \<Rightarrow> pipelines_db \<Rightarrow> pipelines_db res" where
  "delete_pipeline org_id pipeline_id act s =
     ebind (require (get_row pipeline_id org_id s) (PipelineNotFoundError (Some pipeline_id))) (\<lambda>row.
     if pipeline_referenced_by_call org_id pipeline_id s \<or> pipeline_referenced_by_binding pipeline_id s
     then Inl (PipelineReferencedError pipeline_id)
     else Inr (audit_for_pipeline pipeline_id ''pipeline.deleted''
                 (JObj [(''name'', JStr (pd_name (pi_definition row)))]) act org_id
                 (s\<lparr>pipelines := AList.delete pipeline_id (pipelines s)\<rparr>)))"

section \<open>Starting runs\<close>

definition new_run ::
  "uuid \<Rightarrow> uuid \<Rightarrow> uuid \<Rightarrow> uuid option \<Rightarrow> string \<Rightarrow> flattened_definition \<Rightarrow> nat option \<Rightarrow> kickoff \<Rightarrow>
   uuid option \<Rightarrow> timestamp \<Rightarrow> run_row" where
  "new_run i org_id ticket_id pipeline_id name snapshot idx ko user t =
     \<lparr>r_id = i, r_org_id = org_id, r_ticket_id = ticket_id, r_pipeline_id = pipeline_id,
      r_pipeline_name = name, r_definition_snapshot = snapshot, r_state = Queued,
      r_phase = PhStages, r_current_stage_index = idx, r_workspace_id = None,
      r_pending_agent_command_id = None, r_cancel_requested = False, r_kickoff = ko,
      r_sendback_counts = [], r_failure_reason = None, r_otel_trace_context = None,
      r_triggered_by_user_id = user, r_created_at = t, r_updated_at = t, r_completed_at = None\<rparr>"

text \<open>The row refers to its ticket by a foreign key, which is checked when it is flushed.\<close>

definition insert_run ::
  "uuid \<Rightarrow> uuid \<Rightarrow> uuid option \<Rightarrow> string \<Rightarrow> flattened_definition \<Rightarrow> nat option \<Rightarrow> kickoff \<Rightarrow> uuid option \<Rightarrow>
   pipelines_db \<Rightarrow> (uuid \<times> pipelines_db) res" where
  "insert_run org_id ticket_id pipeline_id name snapshot idx ko user s =
     (if tickets s ticket_id = None then Inl IntegrityError
      else case fresh s of (i, s1) \<Rightarrow>
        Inr (i, s1\<lparr>runs := (runs s1)(i \<mapsto>
              new_run i org_id ticket_id pipeline_id name snapshot idx ko user (now s1))\<rparr>))"

definition start_run ::
  "uuid \<Rightarrow> uuid \<Rightarrow> uuid \<Rightarrow> kickoff \<Rightarrow> uuid option \<Rightarrow> pipelines_db \<Rightarrow> (uuid \<times> pipelines_db) res" where
  "start_run org_id ticket_id pipeline_id ko user s =
     (let org_definitions = load_org_definitions org_id s in
      ebind (require (map_of org_definitions pipeline_id) (PipelineNotFoundError (Some pipeline_id))) (\<lambda>d.
      ebind (flatten d org_definitions) (\<lambda>flattened.
      ebind (insert_run org_id ticket_id (Some pipeline_id) (pd_name d) flattened None ko user s)
        (\<lambda>(rid, s1). Inr (rid, snd (attempt_promotion rid s1))))))"

definition run_in_org :: "uuid \<Rightarrow> uuid \<Rightarrow> pipelines_db \<Rightarrow> run_row option" where
  "run_in_org run_id org_id s =
     (case runs s run_id of
        Some r \<Rightarrow> if r_org_id r = org_id then Some r else None
      | None \<Rightarrow> None)"

definition RERUNNABLE_RUN_STATES :: "run_state list" where
  "RERUNNABLE_RUN_STATES = [RFailed, RCancelled, RKilled]"

definition start_rerun ::
  "uuid \<Rightarrow> uuid \<Rightarrow> actor \<Rightarrow> uuid option \<Rightarrow> pipelines_db \<Rightarrow> (uuid \<times> pipelines_db) res" where
  "start_rerun org_id run_id act user s =
     ebind (require (run_in_org run_id org_id s) (RunNotFoundError run_id)) (\<lambda>run.
     ebind (get_ticket (r_ticket_id run) org_id s) (\<lambda>ticket.
     ebind (guard (tk_current_run_id ticket = Some run_id) (RunNotRerunnableError run_id)) (\<lambda>_.
     ebind (guard (r_state run \<in> set RERUNNABLE_RUN_STATES) (RunNotRerunnableError run_id)) (\<lambda>_.
     ebind (require (r_pipeline_id run) (PipelineNotFoundError None)) (\<lambda>pipeline_id.
     start_run org_id (r_ticket_id run) pipeline_id
       ((r_kickoff run)\<lparr>ko_actor := act, ko_intake_point_id := ''rerun'', ko_revision := None\<rparr>) user s)))))"

text \<open>The backward walk over the upstream skill stages.\<close>

fun upstream_resolvable :: "uuid \<Rightarrow> uuid \<Rightarrow> pipelines_db \<Rightarrow> string option \<Rightarrow> executable_stage list \<Rightarrow> unit res" where
  "upstream_resolvable org_id ticket_id s nearest [] =
     (case nearest of None \<Rightarrow> Inr () | Some n \<Rightarrow> Inl (MissingInheritedArtifactError n))"
| "upstream_resolvable org_id ticket_id s nearest (SkillStage p # ps) =
     (let nearest' = (case nearest of None \<Rightarrow> Some (sk_name p) | Some n \<Rightarrow> Some n) in
      if latest_final org_id ticket_id (sk_name p) s \<noteq> None then Inr ()
      else upstream_resolvable org_id ticket_id s nearest' ps)"
| "upstream_resolvable org_id ticket_id s nearest (_ # ps) =
     upstream_resolvable org_id ticket_id s nearest ps"

definition nearest_upstream_skill_stage_resolvable ::
  "flattened_definition \<Rightarrow> uuid \<Rightarrow> uuid \<Rightarrow> nat \<Rightarrow> pipelines_db \<Rightarrow> unit res" where
  "nearest_upstream_skill_stage_resolvable flattened org_id ticket_id from_index s =
     upstream_resolvable org_id ticket_id s None (rev (take from_index flattened))"

definition index_of_stage :: "string \<Rightarrow> flattened_definition \<Rightarrow> nat option" where
  "index_of_stage name flattened =
     find (\<lambda>i. stage_name_of (flattened ! i) = Some name) [0..<length flattened]"

definition start_rerun_from_stage ::
  "uuid \<Rightarrow> uuid \<Rightarrow> string \<Rightarrow> string \<Rightarrow> actor \<Rightarrow> uuid option \<Rightarrow> pipelines_db \<Rightarrow> (uuid \<times> pipelines_db) res" where
  "start_rerun_from_stage org_id ticket_id from_stage instruction act user s =
     ebind (get_ticket ticket_id org_id s) (\<lambda>ticket.
     ebind (require (tk_current_run_id ticket) (RunNotFoundError ticket_id)) (\<lambda>cur.
     ebind (require (runs s cur) (RunNotFoundError cur)) (\<lambda>prior_run.
     let org_definitions = load_org_definitions org_id s in
     ebind (require (Option.bind (r_pipeline_id prior_run) (map_of org_definitions))
              (StageNotInDefinitionError from_stage)) (\<lambda>d.
     ebind (flatten d org_definitions) (\<lambda>flattened.
     ebind (require (index_of_stage from_stage flattened) (StageNotInDefinitionError from_stage)) (\<lambda>from_index.
     ebind (nearest_upstream_skill_stage_resolvable flattened org_id ticket_id from_index s) (\<lambda>_.
     let own_prior = latest_final org_id ticket_id from_stage s;
         ko = \<lparr>ko_intake_point_id = ''rerun'', ko_actor = act, ko_input_text = None,
               ko_pr_base_sha = None, ko_pr_head_sha = None, ko_notify_user_ids = [],
               ko_revision = Some \<lparr>rx_source = SrcInstruction, rx_text = instruction,
                  rx_prior_artifact = (case own_prior of Some a \<Rightarrow> ar_body a | None \<Rightarrow> [])\<rparr>\<rparr>
     in ebind (insert_run org_id ticket_id (r_pipeline_id prior_run) (pd_name d) flattened
               (Some from_index) ko user s)
          (\<lambda>(rid, s1). Inr (rid, snd (attempt_promotion rid s1))))))))))"

section \<open>Cancellation and pause resolution\<close>

definition run_terminal :: "run_state \<Rightarrow> bool" where
  "run_terminal st \<longleftrightarrow> st \<in> {RCompleted, RFailed, RKilled, RCancelled}"

definition request_cancel ::
  "engine_env \<Rightarrow> uuid \<Rightarrow> uuid \<Rightarrow> actor \<Rightarrow> pipelines_db \<Rightarrow> pipelines_db res" where
  "request_cancel env org_id run_id act s =
     ebind (require (run_in_org run_id org_id s) (RunNotFoundError run_id)) (\<lambda>run.
     if run_terminal (r_state run) then Inl (RunAlreadyTerminalError run_id)
     else if r_state run = Queued then Inr (cancel_queued run_id act s)
     else if r_state run = Running
     then Inr (upd_run run_id (\<lambda>r. r\<lparr>r_cancel_requested := True\<rparr>) s)
     else ebind (get_open_pause_for_run run_id s) (\<lambda>p.
          ebind (require p AssertionError) (\<lambda>pause.
          cancel_paused env run_id (p_id pause) s)))"

record pause_resolution_body =
  pb_action :: pause_resolution
  pb_instruction :: "string option"
  pb_send_back_to_stage :: "string option"

fun resolution_str :: "pause_resolution \<Rightarrow> string" where
  "resolution_str Approve = ''approve''"
| "resolution_str Instruct = ''instruct''"
| "resolution_str ResSendBack = ''send_back''"
| "resolution_str Kill = ''kill''"

definition context_stages_of :: "executable_stage \<Rightarrow> string list option res" where
  "context_stages_of st =
     (case st of SkillStage sk \<Rightarrow> Inr (sk_context_stages sk)
      | ReviewSkillStage rv \<Rightarrow> Inr (rv_context_stages rv)
      | ActionStage _ \<Rightarrow> Inl AssertionError)"

definition pause_send_back_target ::
  "pause_row \<Rightarrow> string option \<Rightarrow> pipelines_db \<Rightarrow> (nat \<times> skill_stage) res" where
  "pause_send_back_target pause target s =
     (let name = or_else target [] in
      ebind (guard (name \<noteq> []) InvalidPauseResolutionError) (\<lambda>_.
      ebind (require (stage_execs s (p_stage_execution_id pause)) AssertionError) (\<lambda>e.
      ebind (require (se_stage_index e) AssertionError) (\<lambda>idx.
      ebind (require (runs s (p_run_id pause)) AssertionError) (\<lambda>r.
      ebind (nth_stage (r_definition_snapshot r) (Some idx)) (\<lambda>st.
      ebind (context_stages_of st) (\<lambda>ctx.
      require (resolve_send_back_target (r_definition_snapshot r) ctx idx name)
        InvalidPauseResolutionError)))))))"

definition resolve_pause ::
  "engine_env \<Rightarrow> uuid \<Rightarrow> uuid \<Rightarrow> pause_resolution_body \<Rightarrow> actor \<Rightarrow> pipelines_db \<Rightarrow> pipelines_db res" where
  "resolve_pause env org_id pause_id resolution act s =
     (case pauses s pause_id of
        None \<Rightarrow> Inl (PauseNotFoundError pause_id)
      | Some pause \<Rightarrow>
     ebind (guard (p_org_id pause = org_id) (PauseNotFoundError pause_id)) (\<lambda>_.
     ebind (require (actor_user_id act) (NotEscalationTargetError pause_id)) (\<lambda>user_id.
     ebind (guard (is_pause_responder user_id (p_escalation_user_ids pause) org_id s)
              (NotEscalationTargetError pause_id)) (\<lambda>_.
     ebind (guard (p_resolved_at pause = None) (PauseAlreadyResolvedError pause_id)) (\<lambda>_.
     ebind (guard (pb_action resolution = Instruct \<longrightarrow> or_else (pb_instruction resolution) [] \<noteq> [])
              InvalidPauseResolutionError) (\<lambda>_.
     ebind (if pb_action resolution = ResSendBack
            then ebind (pause_send_back_target pause (pb_send_back_to_stage resolution) s)
                   (\<lambda>t. Inr (Some t))
            else Inr None) (\<lambda>target.
     ebind (require (runs s (p_run_id pause)) (RunNotFoundError (p_run_id pause))) (\<lambda>run.
     let rid = p_run_id pause;
         s1 = upd_pause pause_id (\<lambda>p. p\<lparr>p_resolution := Some (pb_action resolution),
                p_instruction := pb_instruction resolution,
                p_send_back_to_stage := pb_send_back_to_stage resolution,
                p_resolved_by := Some user_id, p_resolved_at := Some (now s)\<rparr>) s;
         s2 = audit ''pipeline_run'' rid ''run.pause_resolved''
                (JObj [(''action'', JStr (resolution_str (pb_action resolution)))]) act org_id s1
     in (case pb_action resolution of
           Approve \<Rightarrow> resume_from_pause pause rid s2
         | Instruct \<Rightarrow> resume_with_instruction env pause rid (or_else (pb_instruction resolution) []) s2
         | ResSendBack \<Rightarrow>
             ebind (require target AssertionError) (\<lambda>(target_index, target_stage).
             resume_with_send_back env rid (p_stage_execution_id pause) target_index target_stage s2)
         | Kill \<Rightarrow> kill_run env rid s2)))))))))"

definition has_run_in_flight :: "uuid \<Rightarrow> pipelines_db \<Rightarrow> bool" where
  "has_run_in_flight ticket_id s \<longleftrightarrow>
     select (runs s) (next_id s)
       (\<lambda>r. r_ticket_id r = ticket_id \<and> r_state r \<in> {Queued, Running, Paused}) \<noteq> []"

section \<open>Stall sweeper\<close>

definition latest_visible_stage :: "uuid \<Rightarrow> pipelines_db \<Rightarrow> stage_exec option" where
  "latest_visible_stage rid s =
     latest_by latest_key (select (stage_execs s) (next_id s)
       (\<lambda>e. se_run_id e = rid \<and> se_kind e \<noteq> KSystem))"

definition reconcile_one_stale :: "run_row \<Rightarrow> pipelines_db \<Rightarrow> pipelines_db" where
  "reconcile_one_stale run s =
     (case latest_visible_stage (r_id run) s of
        None \<Rightarrow> enqueue (RouteRun (r_id run) None None None) s
      | Some e \<Rightarrow>
          (case se_status e of
             SRunning \<Rightarrow> s
           | SCompleted \<Rightarrow> enqueue (RouteRun (r_id run) (se_stage_index e) (Some ''success'') None) s
           | SFailed \<Rightarrow> enqueue (RouteRun (r_id run) (se_stage_index e) (Some ''failure'')
                                    (se_failure_reason e)) s))"

definition reconcile_stale_running :: "timestamp \<Rightarrow> pipelines_db \<Rightarrow> pipelines_db" where
  "reconcile_stale_running cutoff s =
     fold reconcile_one_stale
       (select (runs s) (next_id s) (\<lambda>r. r_state r = Running \<and> r_pending_agent_command_id r = None \<and>
          r_updated_at r < cutoff)) s"

definition lost_resume_message :: string where
  "lost_resume_message = ''agent command completed and its terminal event was recorded, but the engine resume was never processed (lost after outbox drain) - the original outcome could not be recovered''"

definition reconcile_one_lost :: "run_row \<Rightarrow> pipelines_db \<Rightarrow> pipelines_db" where
  "reconcile_one_lost run s =
     (case r_pending_agent_command_id run of
        None \<Rightarrow> s
      | Some c \<Rightarrow>
          if get_command_status c s \<noteq> Some Done then s
          else enqueue (HandleAgentEvent (Some (r_id run)) c ''failure''
                          [(''error_message'', JStr lost_resume_message)]) s)"

definition reconcile_lost_resume :: "timestamp \<Rightarrow> pipelines_db \<Rightarrow> pipelines_db" where
  "reconcile_lost_resume cutoff s =
     fold reconcile_one_lost
       (select (runs s) (next_id s) (\<lambda>r. r_state r = Running \<and> r_pending_agent_command_id r \<noteq> None \<and>
          r_updated_at r < cutoff)) s"

definition reconcile_one_orphan :: "uuid \<Rightarrow> pipelines_db \<Rightarrow> pipelines_db" where
  "reconcile_one_orphan ticket_id s = (if slot_taken ticket_id s then s else promote_oldest_queued ticket_id s)"

definition reconcile_orphaned_queued :: "pipelines_db \<Rightarrow> pipelines_db" where
  "reconcile_orphaned_queued s =
     fold reconcile_one_orphan
       (remdups (map r_ticket_id (select (runs s) (next_id s) (\<lambda>r. r_state r = Queued)))) s"

definition resume_stalled_runs :: "int \<Rightarrow> pipelines_db \<Rightarrow> pipelines_db" where
  "resume_stalled_runs threshold s =
     (let cutoff = now s - threshold in
      reconcile_orphaned_queued (reconcile_lost_resume cutoff (reconcile_stale_running cutoff s)))"

end
