(* ===== verification/EngineSteps.thy ===== *)
theory EngineSteps
  imports PipelineService
begin

text \<open>
  The abstract run machine. \<open>estep\<close> is an inductive step relation on the pipeline tables: a run is
  created queued, promoted when its ticket's slot is free, paused together with an open pause,
  resumed together with closing it, and ended; a stage execution is added for a stage of the pinned
  definition and goes through main, review and fix passes. Everything else is invisible to it
  (\<open>below\<close>, and the benign row updates).

  \<open>engine_ok\<close> is invariant under \<open>estep\<close>: row keys, at most one run in flight per ticket, a run is
  paused exactly when it has one open pause, the review counter never exceeds the configured
  maximum, send-back and auth-retry counters never exceed one.
\<close>

section \<open>Observations\<close>

text \<open>What the lower components may do to the pipeline tables: nothing.\<close>

definition below :: "pipelines_db \<Rightarrow> pipelines_db \<Rightarrow> bool" where
  "below s s' \<longleftrightarrow> runs s' = runs s \<and> stage_execs s' = stage_execs s \<and> pauses s' = pauses s \<and>
     pipelines s' = pipelines s \<and>
     next_id s \<le> next_id s' \<and> now s' = now s"

lemma below_refl [simp, intro]: "below s s"
  by (simp add: below_def)

lemma below_trans [trans]: "below s t \<Longrightarrow> below t u \<Longrightarrow> below s u"
  by (auto simp: below_def)

definition same_run :: "run_row \<Rightarrow> run_row \<Rightarrow> bool" where
  "same_run r r' \<longleftrightarrow> r_id r' = r_id r \<and> r_ticket_id r' = r_ticket_id r \<and> r_org_id r' = r_org_id r \<and>
     r_definition_snapshot r' = r_definition_snapshot r"

definition same_stage :: "stage_exec \<Rightarrow> stage_exec \<Rightarrow> bool" where
  "same_stage e e' \<longleftrightarrow> se_id e' = se_id e \<and> se_run_id e' = se_run_id e \<and>
     se_stage_index e' = se_stage_index e \<and> se_kind e' = se_kind e"

definition benign :: "stage_exec \<Rightarrow> stage_exec \<Rightarrow> bool" where
  "benign e e' \<longleftrightarrow> same_stage e e' \<and> (se_kind e = KSkill \<longrightarrow> se_iteration e' = se_iteration e \<and>
     (se_status e' = SRunning \<longrightarrow> se_status e = SRunning \<and> se_phase e' = se_phase e))"

definition iteration_cap :: "skill_stage \<Rightarrow> nat" where
  "iteration_cap sk = (case sk_review sk of None \<Rightarrow> 0 | Some rc \<Rightarrow> max_iterations rc)"

definition skill_at :: "run_row \<Rightarrow> stage_exec \<Rightarrow> skill_stage \<Rightarrow> bool" where
  "skill_at r e sk \<longleftrightarrow>
     (\<exists>i. se_stage_index e = Some i \<and> i < length (r_definition_snapshot r) \<and>
          r_definition_snapshot r ! i = SkillStage sk)"

text \<open>How far the loop of a stage may have got, given the phase it is waiting in.\<close>

definition phase_ok :: "skill_stage \<Rightarrow> stage_exec \<Rightarrow> bool" where
  "phase_ok sk e \<longleftrightarrow>
     (case se_phase e of
        Some PMain \<Rightarrow> se_iteration e = 0
      | Some PReview \<Rightarrow> sk_review sk \<noteq> None
      | Some PFix \<Rightarrow> sk_review sk \<noteq> None \<and> se_iteration e < iteration_cap sk
      | None \<Rightarrow> False)"

definition loop_ok :: "run_row \<Rightarrow> stage_exec \<Rightarrow> bool" where
  "loop_ok r e \<longleftrightarrow> (se_kind e = KSkill \<longrightarrow>
     (\<exists>sk. skill_at r e sk \<and> se_iteration e \<le> iteration_cap sk \<and>
           (se_status e = SRunning \<longrightarrow> phase_ok sk e)))"

definition open_pause :: "pause_row \<Rightarrow> bool" where
  "open_pause p \<longleftrightarrow> p_resolved_at p = None"

definition snapshot_ok :: "flattened_definition \<Rightarrow> bool" where
  "snapshot_ok xs \<longleftrightarrow> list_all (\<lambda>x. stage_ok (Exec x)) xs"

section \<open>Steps\<close>

inductive estep :: "pipelines_db \<Rightarrow> pipelines_db \<Rightarrow> bool" where
  e_below: "below s s' \<Longrightarrow> estep s s'"
| e_run: "(\<And>r. runs s rid = Some r \<Longrightarrow> same_run r (f r) \<and> r_state (f r) = r_state r \<and>
      r_sendback_counts (f r) = r_sendback_counts r) \<Longrightarrow> estep s (upd_run rid f s)"
| e_count: "runs s rid = Some r \<Longrightarrow>
    estep s (upd_run rid (\<lambda>r. r\<lparr>r_sendback_counts := AList.update k 1 (r_sendback_counts r)\<rparr>) s)"
| e_stage: "(\<And>e. stage_execs s eid = Some e \<Longrightarrow> benign e (f e)) \<Longrightarrow> estep s (upd_stage eid f s)"
| e_add_stage: "runs s (se_run_id e) = Some r \<Longrightarrow> se_id e = next_id s \<Longrightarrow> loop_ok r e \<Longrightarrow>
    estep s (s\<lparr>next_id := Suc (next_id s), stage_execs := (stage_execs s)(next_id s \<mapsto> e)\<rparr>)"
| e_review_pass: "stage_execs s eid = Some e \<Longrightarrow> runs s (se_run_id e) = Some r \<Longrightarrow> skill_at r e sk \<Longrightarrow>
    sk_review sk \<noteq> None \<Longrightarrow> se_kind e = KSkill \<Longrightarrow> se_status e = SRunning \<Longrightarrow>
    se_phase e \<in> {Some PMain, Some PFix} \<Longrightarrow> same_stage e (f e) \<Longrightarrow>
    se_iteration (f e) = Suc (se_iteration e) \<Longrightarrow>
    se_status (f e) \<noteq> SRunning \<or> se_phase (f e) = Some PReview \<Longrightarrow> estep s (upd_stage eid f s)"
| e_fix_pass: "stage_execs s eid = Some e \<Longrightarrow> runs s (se_run_id e) = Some r \<Longrightarrow> skill_at r e sk \<Longrightarrow>
    se_iteration e < iteration_cap sk \<Longrightarrow> same_stage e (f e) \<Longrightarrow>
    se_iteration (f e) = se_iteration e \<Longrightarrow> se_phase (f e) = Some PFix \<Longrightarrow>
    estep s (upd_stage eid f s)"
| e_new_run: "r_id r = next_id s \<Longrightarrow> r_state r = Queued \<Longrightarrow> r_sendback_counts r = [] \<Longrightarrow>
    snapshot_ok (r_definition_snapshot r) \<Longrightarrow>
    estep s (s\<lparr>next_id := Suc (next_id s), runs := (runs s)(next_id s \<mapsto> r)\<rparr>)"
| e_promote: "runs s rid = Some r \<Longrightarrow> r_state r = Queued \<Longrightarrow> \<not> slot_taken (r_ticket_id r) s \<Longrightarrow>
    estep s (upd_run rid (\<lambda>r. r\<lparr>r_state := Running\<rparr>) s)"
| e_pause: "runs s rid = Some r \<Longrightarrow> r_state r = Running \<Longrightarrow> p_id p = next_id s \<Longrightarrow> p_run_id p = rid \<Longrightarrow>
    open_pause p \<Longrightarrow>
    estep s (upd_run rid (\<lambda>r. r\<lparr>r_state := Paused\<rparr>)
      (s\<lparr>next_id := Suc (next_id s), pauses := (pauses s)(next_id s \<mapsto> p)\<rparr>))"
| e_resume: "pauses s pid = Some p \<Longrightarrow> open_pause p \<Longrightarrow> p_run_id p = rid \<Longrightarrow>
    (\<And>p. p_id (g p) = p_id p \<and> p_run_id (g p) = p_run_id p \<and> \<not> open_pause (g p)) \<Longrightarrow>
    below (upd_pause pid g s) s' \<Longrightarrow>
    (\<And>r. runs s rid = Some r \<Longrightarrow> same_run r (f r) \<and> r_state (f r) = Running \<and>
      r_sendback_counts (f r) = r_sendback_counts r) \<Longrightarrow>
    estep s (upd_run rid f s')"
| e_end: "runs s rid = Some r \<Longrightarrow> r_state r \<in> {Queued, Running} \<Longrightarrow>
    (\<And>r. same_run r (f r) \<and> r_state (f r) \<notin> {Queued, Running, Paused} \<and>
      r_sendback_counts (f r) = r_sendback_counts r) \<Longrightarrow>
    estep s (upd_run rid f s)"

abbreviation esteps :: "pipelines_db \<Rightarrow> pipelines_db \<Rightarrow> bool" where
  "esteps \<equiv> estep\<^sup>*\<^sup>*"

section \<open>Invariant\<close>

definition keys_ok :: "pipelines_db \<Rightarrow> bool" where
  "keys_ok s \<longleftrightarrow> keyed_rows r_id (next_id s) (runs s) \<and> keyed_rows se_id (next_id s) (stage_execs s) \<and>
     keyed_rows p_id (next_id s) (pauses s)"

definition slot_ok :: "pipelines_db \<Rightarrow> bool" where
  "slot_ok s \<longleftrightarrow> (\<forall>i j r q. runs s i = Some r \<longrightarrow> runs s j = Some q \<longrightarrow> in_flight r \<longrightarrow> in_flight q \<longrightarrow>
     r_ticket_id r = r_ticket_id q \<longrightarrow> i = j)"

definition pauses_ok :: "pipelines_db \<Rightarrow> bool" where
  "pauses_ok s \<longleftrightarrow>
     (\<forall>i p. pauses s i = Some p \<longrightarrow> open_pause p \<longrightarrow>
        (\<exists>r. runs s (p_run_id p) = Some r \<and> r_state r = Paused)) \<and>
     (\<forall>i j p q. pauses s i = Some p \<longrightarrow> pauses s j = Some q \<longrightarrow> open_pause p \<longrightarrow> open_pause q \<longrightarrow>
        p_run_id p = p_run_id q \<longrightarrow> i = j) \<and>
     (\<forall>i r. runs s i = Some r \<longrightarrow> r_state r = Paused \<longrightarrow>
        (\<exists>j p. pauses s j = Some p \<and> open_pause p \<and> p_run_id p = i))"

definition counts_ok :: "pipelines_db \<Rightarrow> bool" where
  "counts_ok s \<longleftrightarrow> (\<forall>i r k. runs s i = Some r \<longrightarrow> count_of (r_sendback_counts r) k \<le> 1)"

definition loops_ok :: "pipelines_db \<Rightarrow> bool" where
  "loops_ok s \<longleftrightarrow> (\<forall>i e. stage_execs s i = Some e \<longrightarrow>
     (\<exists>r. runs s (se_run_id e) = Some r \<and> loop_ok r e))"

definition snapshots_ok :: "pipelines_db \<Rightarrow> bool" where
  "snapshots_ok s \<longleftrightarrow> (\<forall>i r. runs s i = Some r \<longrightarrow> snapshot_ok (r_definition_snapshot r))"

definition engine_ok :: "pipelines_db \<Rightarrow> bool" where
  "engine_ok s \<longleftrightarrow> keys_ok s \<and> slot_ok s \<and> pauses_ok s \<and> counts_ok s \<and> loops_ok s \<and> snapshots_ok s"

lemmas engine_ok_defs = keys_ok_def slot_ok_def pauses_ok_def counts_ok_def loops_ok_def snapshots_ok_def

section \<open>Run updates seen through \<open>touch\<close>\<close>

lemma touch_simps [simp]:
  "r_pipeline_id (touch t f r) = r_pipeline_id (f r)" "r_id (touch t f r) = r_id (f r)" "r_ticket_id (touch t f r) = r_ticket_id (f r)"
  "r_org_id (touch t f r) = r_org_id (f r)" "r_state (touch t f r) = r_state (f r)"
  "r_definition_snapshot (touch t f r) = r_definition_snapshot (f r)"
  "r_sendback_counts (touch t f r) = r_sendback_counts (f r)"
  "r_workspace_id (touch t f r) = r_workspace_id (f r)" "r_phase (touch t f r) = r_phase (f r)"
  "r_kickoff (touch t f r) = r_kickoff (f r)"
  "r_current_stage_index (touch t f r) = r_current_stage_index (f r)"
  "r_pending_agent_command_id (touch t f r) = r_pending_agent_command_id (f r)"
  "r_cancel_requested (touch t f r) = r_cancel_requested (f r)"
  "r_failure_reason (touch t f r) = r_failure_reason (f r)"
  "r_pipeline_name (touch t f r) = r_pipeline_name (f r)"
  "r_completed_at (touch t f r) = r_completed_at (f r)"
  by (simp_all add: touch_def)

lemma runs_upd_run [simp]:
  "runs (upd_run rid f s) i = (if i = rid then map_option (touch (now s) f) (runs s rid) else runs s i)"
  by (simp add: upd_run_def)

lemma upd_run_frame [simp]:
  "stage_execs (upd_run rid f s) = stage_execs s" "pauses (upd_run rid f s) = pauses s"
  "next_id (upd_run rid f s) = next_id s" "now (upd_run rid f s) = now s"
  "pipelines (upd_run rid f s) = pipelines s" "bindings (upd_run rid f s) = bindings s"
  "workspaces (upd_run rid f s) = workspaces s" "tickets (upd_run rid f s) = tickets s"
  "findings (upd_run rid f s) = findings s" "artifacts (upd_run rid f s) = artifacts s"
  by (simp_all add: upd_run_def)

lemma upd_stage_frame [simp]:
  "runs (upd_stage eid f s) = runs s" "pauses (upd_stage eid f s) = pauses s"
  "next_id (upd_stage eid f s) = next_id s" "now (upd_stage eid f s) = now s"
  "pipelines (upd_stage eid f s) = pipelines s" "bindings (upd_stage eid f s) = bindings s"
  "workspaces (upd_stage eid f s) = workspaces s" "tickets (upd_stage eid f s) = tickets s"
  "findings (upd_stage eid f s) = findings s" "artifacts (upd_stage eid f s) = artifacts s"
  by (simp_all add: upd_stage_def)

lemma upd_pause_frame [simp]:
  "runs (upd_pause pid f s) = runs s" "stage_execs (upd_pause pid f s) = stage_execs s"
  "next_id (upd_pause pid f s) = next_id s" "now (upd_pause pid f s) = now s"
  "pipelines (upd_pause pid f s) = pipelines s" "bindings (upd_pause pid f s) = bindings s"
  by (simp_all add: upd_pause_def)

lemmas stages_upd_stage [simp] = stg.get_upd
lemmas pauses_upd_pause [simp] = pse.get_upd

section \<open>Preservation\<close>

lemma belowD:
  assumes "below s s'"
  shows "runs s' = runs s" "stage_execs s' = stage_execs s" "pauses s' = pauses s" "next_id s \<le> next_id s'"
    "now s' = now s" "pipelines s' = pipelines s"
  using assms by (auto simp: below_def)

lemma estep_keys:
  assumes "estep s s'" and "keys_ok s"
  shows "keys_ok s'"
  using assms
proof (induction rule: estep.induct)
  case (e_below s s')
  then show ?case by (auto simp: keys_ok_def below_def intro: keyed_rows_mono)
next
  case (e_run s rid f)
  then show ?case by (auto simp: keys_ok_def keyed_rows_def same_run_def)
next
  case (e_stage s eid f)
  then show ?case by (auto simp: keys_ok_def keyed_rows_def benign_def same_stage_def)
next
  case (e_review_pass s eid e r sk f)
  then show ?case by (auto simp: keys_ok_def keyed_rows_def same_stage_def)
next
  case (e_fix_pass s eid e r sk f)
  then show ?case by (auto simp: keys_ok_def keyed_rows_def same_stage_def)
next
  case (e_pause s rid r p)
  then show ?case by (auto simp: keys_ok_def keyed_rows_def less_Suc_eq)
next
  case (e_resume s pid p rid g s' f)
  have "next_id s \<le> next_id s'" "runs s' = runs s" "stage_execs s' = stage_execs s"
    "pauses s' = modify pid g (pauses s)" using e_resume.hyps(5) by (auto simp: below_def upd_pause_def)
  then show ?case using e_resume.hyps(4,6) e_resume.prems
    by (fastforce simp: keys_ok_def keyed_rows_def same_run_def)
next
  case (e_end s rid r f)
  then show ?case by (auto simp: keys_ok_def keyed_rows_def same_run_def)
qed (auto simp: keys_ok_def keyed_rows_def less_Suc_eq)

lemma slot_free:
  assumes "keys_ok s" and "\<not> slot_taken t s" and "runs s i = Some r" and "r_ticket_id r = t"
  shows "\<not> in_flight r"
  using assms keyed_rowsD[of r_id "next_id s" "runs s" i r]
  by (auto simp: slot_taken_def keys_ok_def select_eq_Nil)

lemma slot_ok_mono:
  assumes "slot_ok s"
    and "\<And>i r'. runs s' i = Some r' \<Longrightarrow> in_flight r' \<Longrightarrow>
           \<exists>r. runs s i = Some r \<and> in_flight r \<and> r_ticket_id r = r_ticket_id r'"
  shows "slot_ok s'"
  unfolding slot_ok_def
proof (intro allI impI)
  fix i j r q
  assume "runs s' i = Some r" "runs s' j = Some q" "in_flight r" "in_flight q" "r_ticket_id r = r_ticket_id q"
  moreover from this assms(2) obtain r0 q0 where
    "runs s i = Some r0" "in_flight r0" "r_ticket_id r0 = r_ticket_id r"
    "runs s j = Some q0" "in_flight q0" "r_ticket_id q0 = r_ticket_id q" by metis
  ultimately show "i = j" using assms(1) unfolding slot_ok_def by metis
qed

lemma estep_slot:
  assumes "estep s s'" and "slot_ok s" and "keys_ok s" and "pauses_ok s"
  shows "slot_ok s'"
  using assms
proof (induction rule: estep.induct)
  case (e_run s rid f)
  show ?case by (rule slot_ok_mono[OF e_run.prems(1)])
    (use e_run.hyps in \<open>auto simp: same_run_def in_flight_def split: if_splits\<close>)
next
  case (e_count s rid r k)
  show ?case by (rule slot_ok_mono[OF e_count.prems(1)])
    (auto simp: in_flight_def split: if_splits)
next
  case (e_new_run r s)
  show ?case by (rule slot_ok_mono[OF e_new_run.prems(1)])
    (use e_new_run.hyps in \<open>auto simp: in_flight_def split: if_splits\<close>)
next
  case (e_promote s rid r)
  have free: "\<not> in_flight q" if "runs s j = Some q" "r_ticket_id q = r_ticket_id r" for j q
    using slot_free[OF e_promote.prems(2) e_promote.hyps(3) that] .
  have rid: "i = rid" if "runs (upd_run rid (\<lambda>r. r\<lparr>r_state := Running\<rparr>) s) i = Some q"
      "in_flight q" "r_ticket_id q = r_ticket_id r" for i q
    using that free by (auto split: if_splits)
  show ?case unfolding slot_ok_def
  proof (intro allI impI)
    fix i j a b
    assume h: "runs (upd_run rid (\<lambda>r. r\<lparr>r_state := Running\<rparr>) s) i = Some a"
      "runs (upd_run rid (\<lambda>r. r\<lparr>r_state := Running\<rparr>) s) j = Some b"
      "in_flight a" "in_flight b" "r_ticket_id a = r_ticket_id b"
    show "i = j"
    proof (cases "i = rid \<or> j = rid")
      case True
      then have "r_ticket_id a = r_ticket_id r \<or> r_ticket_id b = r_ticket_id r"
        using h(1,2) e_promote.hyps(1) by auto
      then show ?thesis using rid[OF h(1,3)] rid[OF h(2,4)] h(5) by simp
    next
      case False
      then show ?thesis using h e_promote.prems(1) unfolding slot_ok_def by simp
    qed
  qed
next
  case (e_pause s rid r p)
  show ?case by (rule slot_ok_mono[OF e_pause.prems(1)])
    (use e_pause.hyps in \<open>auto simp: in_flight_def split: if_splits\<close>)
next
  case (e_resume s pid p rid g s' f)
  obtain r where r: "runs s rid = Some r" "r_state r = Paused"
    using e_resume.prems(3) e_resume.hyps(1-3) unfolding pauses_ok_def by blast
  have "runs s' = runs s" using e_resume.hyps(5) by (auto simp: below_def)
  show ?case by (rule slot_ok_mono[OF e_resume.prems(1)])
    (use r e_resume.hyps(6) \<open>runs s' = runs s\<close> in
      \<open>auto simp: in_flight_def same_run_def split: if_splits\<close>)
next
  case (e_end s rid r f)
  show ?case by (rule slot_ok_mono[OF e_end.prems(1)])
    (use e_end.hyps in \<open>auto simp: in_flight_def same_run_def split: if_splits\<close>)
qed (auto simp: slot_ok_def below_def)

lemma count_of_update: "count_of (AList.update k n c) j = (if j = k then n else count_of c j)"
  by (simp add: count_of_def update_conv')

lemma estep_counts:
  assumes "estep s s'" and "counts_ok s"
  shows "counts_ok s'"
  using assms
proof (induction rule: estep.induct)
  case (e_resume s pid p rid g s' f)
  have "runs s' = runs s" using e_resume.hyps(5) by (auto simp: below_def)
  then show ?case using e_resume.hyps(6) e_resume.prems by (auto simp: counts_ok_def)
next
  case (e_new_run r s)
  then show ?case by (auto simp: counts_ok_def count_of_def)
qed (auto simp: counts_ok_def below_def count_of_update)

lemma estep_snapshots:
  assumes "estep s s'" and "snapshots_ok s"
  shows "snapshots_ok s'"
  using assms
proof (induction rule: estep.induct)
  case (e_resume s pid p rid g s' f)
  have "runs s' = runs s" using e_resume.hyps(5) by (auto simp: below_def)
  then show ?case using e_resume.hyps(6) e_resume.prems by (auto simp: snapshots_ok_def same_run_def)
qed (auto simp: snapshots_ok_def below_def same_run_def)

lemma pauses_ok_mono:
  assumes "pauses_ok s" and "pauses s' = pauses s"
    and "\<And>i. map_option (\<lambda>r. r_state r = Paused) (runs s' i) = map_option (\<lambda>r. r_state r = Paused) (runs s i)"
  shows "pauses_ok s'"
proof -
  have eq: "(\<exists>r. runs s' i = Some r \<and> r_state r = Paused) \<longleftrightarrow> (\<exists>r. runs s i = Some r \<and> r_state r = Paused)" for i
    using assms(3)[of i] by (cases "runs s i"; cases "runs s' i") auto
  show ?thesis
    unfolding pauses_ok_def
  proof (intro conjI allI impI)
    fix i p assume "pauses s' i = Some p" "open_pause p"
    then show "\<exists>r. runs s' (p_run_id p) = Some r \<and> r_state r = Paused"
      unfolding eq using assms(1,2) by (simp add: pauses_ok_def)
  next
    fix i j p q
    assume "pauses s' i = Some p" "pauses s' j = Some q" "open_pause p" "open_pause q" "p_run_id p = p_run_id q"
    then show "i = j" using assms(1,2) unfolding pauses_ok_def by simp
  next
    fix i r assume "runs s' i = Some r" "r_state r = Paused"
    then have "\<exists>r. runs s i = Some r \<and> r_state r = Paused" using eq[of i] by blast
    then show "\<exists>j p. pauses s' j = Some p \<and> open_pause p \<and> p_run_id p = i"
      using assms(1) unfolding pauses_ok_def assms(2) by blast
  qed
qed

lemma pauses_ok_new:
  assumes "pauses_ok s" and "keyed_rows p_id (next_id s) (pauses s)"
    and "pauses s' = (pauses s)(next_id s \<mapsto> p)" and "open_pause p" and "p_run_id p = rid"
    and "runs s rid = Some r" "r_state r \<noteq> Paused" "runs s' rid = Some r'" "r_state r' = Paused"
    and "\<And>i. i \<noteq> rid \<Longrightarrow> runs s' i = runs s i"
  shows "pauses_ok s'"
proof -
  have none: "pauses s (next_id s) = None"
    using keyed_rowsD[OF assms(2)] by (cases "pauses s (next_id s)") auto
  have other: "p_run_id q \<noteq> rid" if "pauses s i = Some q" "open_pause q" for i q
    using assms(1,6,7) that unfolding pauses_ok_def by fastforce
  show ?thesis
    unfolding pauses_ok_def
  proof (intro conjI allI impI)
    fix i q assume "pauses s' i = Some q" "open_pause q"
    then show "\<exists>r. runs s' (p_run_id q) = Some r \<and> r_state r = Paused"
      using assms other by (cases "i = next_id s") (auto simp: pauses_ok_def)
  next
    fix i j a b
    assume "pauses s' i = Some a" "pauses s' j = Some b" "open_pause a" "open_pause b" "p_run_id a = p_run_id b"
    then show "i = j"
      using assms(1,3,5) other unfolding pauses_ok_def by (auto split: if_splits)
  next
    fix i q assume h: "runs s' i = Some q" "r_state q = Paused"
    show "\<exists>j p. pauses s' j = Some p \<and> open_pause p \<and> p_run_id p = i"
    proof (cases "i = rid")
      case True
      then show ?thesis using assms(3-5) by auto
    next
      case False
      with h assms(1,10) obtain j a where "pauses s j = Some a" "open_pause a" "p_run_id a = i"
        unfolding pauses_ok_def by metis
      with assms(3) none show ?thesis by (intro exI[of _ j] exI[of _ a]) auto
    qed
  qed
qed

lemma pauses_ok_close:
  assumes "pauses_ok s" and "pauses s pid = Some p" and "open_pause p" and "p_run_id p = rid"
    and "\<And>q. p_run_id (g q) = p_run_id q \<and> \<not> open_pause (g q)"
    and "pauses s' = modify pid g (pauses s)"
    and "\<And>r. runs s' rid = Some r \<Longrightarrow> r_state r \<noteq> Paused"
    and "\<And>i. i \<noteq> rid \<Longrightarrow> runs s' i = runs s i"
  shows "pauses_ok s'"
proof -
  have old: "pauses s i = Some q \<and> i \<noteq> pid" if "pauses s' i = Some q" "open_pause q" for i q
    using that assms(5,6) by (auto split: if_splits)
  have other: "p_run_id q \<noteq> rid" if "pauses s i = Some q" "open_pause q" "i \<noteq> pid" for i q
    using assms(1-4) that unfolding pauses_ok_def by metis
  show ?thesis
    unfolding pauses_ok_def
  proof (intro conjI allI impI)
    fix i q assume "pauses s' i = Some q" "open_pause q"
    then show "\<exists>r. runs s' (p_run_id q) = Some r \<and> r_state r = Paused"
      using assms(1,8) old other unfolding pauses_ok_def by metis
  next
    fix i j a b
    assume "pauses s' i = Some a" "pauses s' j = Some b" "open_pause a" "open_pause b" "p_run_id a = p_run_id b"
    then show "i = j" using assms(1) old unfolding pauses_ok_def by metis
  next
    fix i q assume h: "runs s' i = Some q" "r_state q = Paused"
    then have "i \<noteq> rid" using assms(7) by auto
    with h assms(1,8) obtain j a where a: "pauses s j = Some a" "open_pause a" "p_run_id a = i"
      unfolding pauses_ok_def by metis
    with \<open>i \<noteq> rid\<close> assms(2,4) have "j \<noteq> pid" by auto
    with a assms(6) show "\<exists>j p. pauses s' j = Some p \<and> open_pause p \<and> p_run_id p = i" by auto
  qed
qed

lemma pauses_ok_add_run:
  assumes "pauses_ok s" and "r_state r \<noteq> Paused" and "\<And>i p. pauses s i = Some p \<Longrightarrow> open_pause p \<Longrightarrow> p_run_id p \<noteq> k"
  shows "pauses_ok (s\<lparr>next_id := n, runs := (runs s)(k \<mapsto> r)\<rparr>)"
  unfolding pauses_ok_def
proof (intro conjI allI impI, goal_cases)
  case (1 i p)
  then show ?case using assms(1) assms(3)[of i p] by (simp add: pauses_ok_def)
next
  case (2 i j p q)
  then show ?case using assms(1) by (simp add: pauses_ok_def)
next
  case (3 i q)
  then have "i \<noteq> k" "runs s i = Some q" using assms(2) by (auto split: if_splits)
  with 3 show ?case using assms(1) unfolding pauses_ok_def by simp
qed

lemma estep_pauses:
  assumes "estep s s'" and "pauses_ok s" and "keys_ok s"
  shows "pauses_ok s'"
  using assms
proof (induction rule: estep.induct)
  case (e_run s rid f)
  show ?case by (rule pauses_ok_mono[OF e_run.prems(1)])
    (use e_run.hyps in \<open>auto split: option.splits simp: map_option_case\<close>)
next
  case (e_count s rid r k)
  then show ?case by (intro pauses_ok_mono[OF e_count.prems(1)]) auto
next
  case (e_new_run r s)
  have "runs s (next_id s) = None"
    using e_new_run.prems(2) by (cases "runs s (next_id s)") (auto simp: keys_ok_def keyed_rows_def)
  then have "p_run_id p \<noteq> next_id s" if "pauses s i = Some p" "open_pause p" for i p
    using e_new_run.prems(1) that \<open>runs s (next_id s) = None\<close> unfolding pauses_ok_def by force
  then show ?case using e_new_run.prems(1) e_new_run.hyps(2) by (intro pauses_ok_add_run) auto
next
  case (e_promote s rid r)
  then show ?case by (intro pauses_ok_mono[OF e_promote.prems(1)]) auto
next
  case (e_pause s rid r p)
  show ?case
    by (rule pauses_ok_new[OF e_pause.prems(1), of _ p rid r])
       (use e_pause.hyps e_pause.prems(2) in \<open>auto simp: keys_ok_def\<close>)
next
  case (e_resume s pid p rid g s' f)
  have s': "runs s' = runs s" "pauses s' = modify pid g (pauses s)"
    using e_resume.hyps(5) by (auto simp: below_def upd_pause_def)
  show ?case
    by (rule pauses_ok_close[OF e_resume.prems(1) e_resume.hyps(1-3), of g])
       (use e_resume.hyps(4,6) s' in auto)
next
  case (e_end s rid r f)
  then show ?case by (intro pauses_ok_mono[OF e_end.prems(1)]) auto
qed (auto simp: pauses_ok_def below_def)

lemma loop_ok_same_run: "same_run r r' \<Longrightarrow> loop_ok r e \<Longrightarrow> loop_ok r' e"
  by (simp add: same_run_def loop_ok_def skill_at_def)

lemma loop_ok_benign:
  assumes b: "benign e e'" and l: "loop_ok r e"
  shows "loop_ok r e'"
proof (cases "se_kind e = KSkill")
  case True
  have at: "skill_at r e' sk \<longleftrightarrow> skill_at r e sk" for sk
    using b by (simp add: benign_def same_stage_def skill_at_def)
  have ph: "se_status e' = SRunning \<Longrightarrow> phase_ok sk e' = phase_ok sk e \<and> se_status e = SRunning" for sk
    using b True by (auto simp: benign_def phase_ok_def split: option.split stage_phase.split)
  have "se_kind e' = se_kind e" "se_iteration e' = se_iteration e"
    using b True by (auto simp: benign_def same_stage_def)
  with l at ph show ?thesis unfolding loop_ok_def by metis
next
  case False
  then show ?thesis using b by (simp add: benign_def same_stage_def loop_ok_def)
qed

lemma loops_ok_runs:
  assumes "loops_ok s" and "stage_execs s' = stage_execs s"
    and "\<And>i r. runs s i = Some r \<Longrightarrow> \<exists>r'. runs s' i = Some r' \<and> same_run r r'"
  shows "loops_ok s'"
  using assms unfolding loops_ok_def by (metis loop_ok_same_run)

lemma loops_ok_upd_stage:
  assumes "loops_ok s" and "\<And>e r. stage_execs s eid = Some e \<Longrightarrow> runs s (se_run_id e) = Some r \<Longrightarrow>
      loop_ok r e \<Longrightarrow> se_run_id (f e) = se_run_id e \<and> loop_ok r (f e)"
  shows "loops_ok (upd_stage eid f s)"
  unfolding loops_ok_def
proof (intro allI impI)
  fix i e' assume e': "stage_execs (upd_stage eid f s) i = Some e'"
  show "\<exists>r. runs (upd_stage eid f s) (se_run_id e') = Some r \<and> loop_ok r e'"
  proof (cases "i = eid")
    case True
    with e' obtain e where e: "stage_execs s eid = Some e" "e' = f e" by auto
    with assms(1) obtain r where "runs s (se_run_id e) = Some r" "loop_ok r e"
      unfolding loops_ok_def by blast
    with assms(2) e show ?thesis by auto
  next
    case False
    with e' assms(1) show ?thesis by (simp add: loops_ok_def)
  qed
qed

lemma snapshot_cap:
  assumes "snapshots_ok s" and "runs s i = Some r" and "skill_at r e sk" and "sk_review sk \<noteq> None"
  shows "0 < iteration_cap sk"
proof -
  obtain j where "j < length (r_definition_snapshot r)" "r_definition_snapshot r ! j = SkillStage sk"
    using assms(3) by (auto simp: skill_at_def)
  moreover have "list_all (\<lambda>x. stage_ok (Exec x)) (r_definition_snapshot r)"
    using assms(1,2) by (auto simp: snapshots_ok_def snapshot_ok_def)
  ultimately have "stage_ok (Exec (SkillStage sk))" by (metis list_all_length)
  then show ?thesis using assms(4) by (auto simp: iteration_cap_def review_config_ok_def)
qed

lemma skill_at_unique: "skill_at r e sk \<Longrightarrow> skill_at r e sk' \<Longrightarrow> sk = sk'"
  by (auto simp: skill_at_def)

lemma loop_ok_review_pass:
  assumes "loop_ok r e" and "skill_at r e sk" and "se_kind e = KSkill" and "se_status e = SRunning"
    and "se_phase e \<in> {Some PMain, Some PFix}" and "same_stage e e'"
    and "se_iteration e' = Suc (se_iteration e)" and "0 < iteration_cap sk" and "sk_review sk \<noteq> None"
    and "se_status e' \<noteq> SRunning \<or> se_phase e' = Some PReview"
  shows "loop_ok r e'"
proof -
  have "phase_ok sk e" "skill_at r e' sk" "se_kind e' = KSkill"
    using assms(1-4,6) skill_at_unique by (auto simp: loop_ok_def same_stage_def skill_at_def)
  then have "se_iteration e' \<le> iteration_cap sk"
    using assms(5,7,8) by (auto simp: phase_ok_def)
  then show ?thesis
    using \<open>skill_at r e' sk\<close> assms(9,10) by (auto simp: loop_ok_def phase_ok_def)
qed

lemma loop_ok_fix_pass:
  assumes "loop_ok r e" and "skill_at r e sk" and "same_stage e e'"
    and "se_iteration e' = se_iteration e" and "se_iteration e < iteration_cap sk"
    and "se_phase e' = Some PFix"
  shows "loop_ok r e'"
proof -
  have "skill_at r e' sk" using assms(2,3) by (simp add: same_stage_def skill_at_def)
  moreover have "sk_review sk \<noteq> None" using assms(5) by (auto simp: iteration_cap_def split: option.splits)
  ultimately show ?thesis using assms(4-6) by (auto simp: loop_ok_def phase_ok_def)
qed

lemma estep_loops:
  assumes "estep s s'" and "loops_ok s" and "keys_ok s" and "snapshots_ok s"
  shows "loops_ok s'"
  using assms
proof (induction rule: estep.induct)
  case (e_stage s eid f)
  then show ?case by (intro loops_ok_upd_stage) (auto intro: loop_ok_benign simp: benign_def same_stage_def)
next
  case (e_add_stage s e r)
  then show ?case by (auto simp: loops_ok_def)
next
  case (e_review_pass s eid e r sk f)
  have cap: "0 < iteration_cap sk"
    using snapshot_cap[OF e_review_pass.prems(3) e_review_pass.hyps(2,3,4)] .
  show ?case
  proof (rule loops_ok_upd_stage[OF e_review_pass.prems(1)])
    fix e' r' assume "stage_execs s eid = Some e'" "runs s (se_run_id e') = Some r'" "loop_ok r' e'"
    then show "se_run_id (f e') = se_run_id e' \<and> loop_ok r' (f e')"
      using e_review_pass.hyps(1,2,8)
        loop_ok_review_pass[OF _ e_review_pass.hyps(3,5,6,7,8,9) cap e_review_pass.hyps(4,10)]
      by (simp add: same_stage_def)
  qed
next
  case (e_fix_pass s eid e r sk f)
  show ?case
  proof (rule loops_ok_upd_stage[OF e_fix_pass.prems(1)])
    fix e' r' assume "stage_execs s eid = Some e'" "runs s (se_run_id e') = Some r'" "loop_ok r' e'"
    then show "se_run_id (f e') = se_run_id e' \<and> loop_ok r' (f e')"
      using e_fix_pass.hyps(1,2,5) loop_ok_fix_pass[OF _ e_fix_pass.hyps(3,5,6,4,7)]
      by (simp add: same_stage_def)
  qed
next
  case (e_new_run r s)
  have "runs s (next_id s) = None"
    using e_new_run.prems(2) by (cases "runs s (next_id s)") (auto simp: keys_ok_def keyed_rows_def)
  then show ?case
    by (intro loops_ok_runs[OF e_new_run.prems(1)]) (auto simp: same_run_def)
next
  case (e_resume s pid p rid g s' f)
  have "runs s' = runs s" "stage_execs s' = stage_execs s" using e_resume.hyps(5) by (auto simp: below_def)
  then show ?case using e_resume.hyps(6)
    by (intro loops_ok_runs[OF e_resume.prems(1)]) (auto simp: same_run_def)
next
  case (e_run s rid f)
  show ?case by (rule loops_ok_runs[OF e_run.prems(1)]) (use e_run.hyps in \<open>auto simp: same_run_def\<close>)
next
  case (e_end s rid r f)
  show ?case by (rule loops_ok_runs[OF e_end.prems(1)]) (use e_end.hyps in \<open>auto simp: same_run_def\<close>)
next
  case (e_count s rid r k)
  show ?case by (rule loops_ok_runs[OF e_count.prems(1)]) (use e_count.hyps in \<open>auto simp: same_run_def\<close>)
next
  case (e_promote s rid r)
  show ?case by (rule loops_ok_runs[OF e_promote.prems(1)]) (use e_promote.hyps in \<open>auto simp: same_run_def\<close>)
next
  case (e_pause s rid r p)
  show ?case by (rule loops_ok_runs[OF e_pause.prems(1)]) (use e_pause.hyps in \<open>auto simp: same_run_def\<close>)
next
  case (e_below s s')
  then show ?case by (auto simp: loops_ok_def below_def)
qed

theorem estep_engine_ok: "estep s s' \<Longrightarrow> engine_ok s \<Longrightarrow> engine_ok s'"
  unfolding engine_ok_def
  using estep_keys estep_slot estep_pauses estep_counts estep_loops estep_snapshots by blast

lemma esteps_engine_ok: "esteps s s' \<Longrightarrow> engine_ok s \<Longrightarrow> engine_ok s'"
  by (induction rule: rtranclp_induct) (auto intro: estep_engine_ok)

end
