(* ===== verification/EngineFrame.thy ===== *)
theory EngineFrame
  imports EngineSteps
begin

text \<open>
  The operations of the lower components, seen from the pipeline tables: each of them is invisible
  (\<open>below\<close>). These are the frame facts on which the refinement of the engine rests.
\<close>

named_theorems below_intros "operations that leave the pipeline tables alone"

section \<open>Infrastructure\<close>

lemma below_infra [below_intros]:
  fixes s :: pipelines_db
  shows "below s (enqueue t s)" "below s (audit ek ei k p a org s)"
    "below s (publish_general_after_commit org gk pl s)" "below s (s\<lparr>next_id := Suc (next_id s)\<rparr>)"
  by (simp_all add: below_def infra_defs)

lemma below_enqueue: "below s t \<Longrightarrow> below s (enqueue k t)"
  by (simp add: below_def infra_defs)

lemma below_audit: "below s t \<Longrightarrow> below s (audit ek ei k p a org t)"
  by (simp add: below_def infra_defs)

lemma below_publish: "below s t \<Longrightarrow> below s (publish_general_after_commit org gk pl t)"
  by (simp add: below_def infra_defs)

lemma below_fresh: "below s t \<Longrightarrow> below s (t\<lparr>next_id := Suc (next_id t)\<rparr>)"
  by (simp add: below_def)

lemma fold_below:
  assumes "\<And>x t. below t (f x t)"
  shows "below s (fold f xs s)"
  by (rule fold_invariant[where I = "below s"]) (use assms below_trans in blast)+

lemma efold_below:
  assumes "efold f xs s = Inr s'" and "\<And>x t t'. f x t = Inr t' \<Longrightarrow> below t t'"
  shows "below s s'"
  by (rule efold_invariant[OF assms(1), where I = "below s"]) (use assms(2) below_trans in blast)+

lemma create_notification_below:
  fixes s :: pipelines_db
  shows "create_notification n s = Inr s' \<Longrightarrow> below s s'"
  by (auto simp: create_notification_def below_def split: if_splits)

lemma publish_state_below [below_intros]:
  "below s (publish_run_state rid s)" "below s (publish_stage_state rid s)"
  "below s (publish_artifact_stored rid s)" "below s (enqueue_route rid i l r s)"
  by (simp_all add: publish_run_state_def publish_stage_state_def publish_artifact_stored_def
      enqueue_route_def Let_def below_intros)

section \<open>Tickets\<close>

lemma upd_ticket_below [below_intros]: "below s (upd_ticket i f s)"
  by (simp add: below_def upd_ticket_def)

lemma notify_below [below_intros]: "below s (notify_ticket_status_change t org st prev s)"
  by (auto simp: notify_ticket_status_change_def Let_def intro: below_enqueue below_publish)

lemma apply_transition_below [below_intros]: "below s (apply_transition row st reason org s)"
  unfolding apply_transition_def Let_def audit_for_ticket_def
  by (rule below_trans[OF below_audit[OF upd_ticket_below] notify_below])

lemma ticket_transitions_below [below_intros]:
  "below s (snd (transition_ticket_on_run_start t org r s))"
  "below s (snd (transition_ticket_on_run_terminal t org r st reason s))"
  "below s (snd (transition_ticket_on_run_paused t org r s))"
  "below s (snd (transition_ticket_on_run_resumed t org r s))"
  by (simp_all add: transition_ticket_on_run_start_def transition_ticket_on_run_terminal_def
      transition_ticket_on_run_paused_def transition_ticket_on_run_resumed_def apply_transition_below
      split: option.split)

lemma set_current_run_below [below_intros]: "below s (set_current_run t r s)"
  by (simp add: set_current_run_def upd_ticket_below)

section \<open>Gateway, workspaces and coding-agent runs\<close>

lemma upd_command_below [below_intros]: "below s (upd_command i f s)"
  by (simp add: below_def upd_command_def)

lemma upd_workspace_below [below_intros]: "below s (upd_workspace i f s)"
  by (simp add: below_def upd_workspace_def)

lemma extend_expiry_below [below_intros]: "below s (extend_expiry w n s)"
  by (simp add: extend_expiry_def upd_workspace_below)

lemma enqueue_command_below:
  fixes s :: pipelines_db
  shows "enqueue_command org c r s = Inr s' \<Longrightarrow> below s s'"
  by (auto simp: enqueue_command_def enqueue_command_payload_def Let_def below_def split: if_splits)

lemma try_claim_below [below_intros]: "below s (snd (try_claim w c a s))"
  by (simp add: try_claim_def upd_workspace_below split: option.split)

lemma dispatch_via_workspace_below:
  fixes s :: pipelines_db
  assumes "dispatch_via_workspace c w ctx b s = Inr (i, s')"
  shows "below s s'"
proof -
  from assms obtain row s1 where row: "workspaces s w = Some row"
    and s1: "enqueue_command (ws_org_id row) c (Some (dc_run_id ctx)) s = Inr s1"
    by (auto simp: dispatch_via_workspace_def res_simps split: option.splits)
  let ?s2 = "case ws_owning_agent_id row of None \<Rightarrow> s1
               | Some a \<Rightarrow> pin_command_to_agent (ac_command_id c) a s1"
  have s2: "below s ?s2"
    using enqueue_command_below[OF s1] below_trans
    by (auto simp: pin_command_to_agent_def split: option.split intro: upd_command_below)
  have eq: "dispatch_via_workspace c w ctx b s =
      (if b then (case try_claim w (ac_command_id c) None ?s2 of
                    (True, s3) \<Rightarrow> Inr (ac_command_id c, s3) | (False, _) \<Rightarrow> Inl (WorkspaceClaimFailed w))
       else Inr (ac_command_id c, ?s2))"
    unfolding dispatch_via_workspace_def row option.case s1 ebind_simps Let_def ..
  show ?thesis
  proof (cases b)
    case True
    obtain ok s3 where tc: "try_claim w (ac_command_id c) None ?s2 = (ok, s3)" by fastforce
    with eq True assms have "s' = s3" by (cases ok) auto
    then show ?thesis using below_trans[OF s2 try_claim_below, of w "ac_command_id c" None] tc by simp
  next
    case False
    with eq assms s2 show ?thesis by simp
  qed
qed

lemma dispatch_cleanup_below:
  fixes s :: pipelines_db
  assumes "dispatch_cleanup w ctx s = Inr (i, s')"
  shows "below s s'"
  using assms below_trans[OF below_infra(4) dispatch_via_workspace_below]
  by (auto simp: dispatch_cleanup_def fresh_def)

lemma dispatch_auth_refresh_below:
  fixes s :: pipelines_db
  assumes "dispatch_auth_refresh env w ctx org pl s = Inr (i, s')"
  shows "below s s'"
  using assms below_trans[OF below_infra(4) dispatch_via_workspace_below]
  by (auto simp: dispatch_auth_refresh_def fresh_def res_simps)

lemma dispatch_provision_below:
  fixes s :: pipelines_db
  assumes "dispatch_provision env spec ctx s = Inr (i, s')"
  shows "below s s'"
  using assms below_trans[OF below_infra(4) enqueue_command_below]
  by (auto simp: dispatch_provision_def dispatch_provision_workspace_def fresh_def res_simps)

lemma create_run_below [below_intros]: "below s (create_run org r e c k p s)"
  by (simp add: create_run_def fresh_def below_def)

lemma dispatch_invocation_below:
  fixes s :: pipelines_db
  assumes "dispatch_invocation iv pl ctx c s = Inr s'"
  shows "below s s'"
  using assms
  by (auto simp: dispatch_invocation_def Let_def res_simps split: option.splits
      dest!: dispatch_via_workspace_below intro: below_trans[OF _ create_run_below])

section \<open>Artifacts and findings\<close>

lemma store_artifact_below: "store_artifact org t r e n b it s = (i, s') \<Longrightarrow> below s s'"
  by (auto simp: store_artifact_def Let_def fresh_def below_def)

lemma mark_final_below [below_intros]: "below s (mark_final i s)"
  by (simp add: mark_final_def upd_artifact_def below_def)

lemma upd_finding_below [below_intros]: "below s (upd_finding i f s)"
  by (simp add: below_def upd_finding_def)

lemma append_event_below [below_intros]: "below s (append_event_and_audit i k ev s)"
  by (simp add: append_event_and_audit_def Let_def audit_for_finding_def below_audit upd_finding_below)

lemma change_status_below:
  fixes s :: pipelines_db
  shows "change_status st k i ev s = Inr s' \<Longrightarrow> below s s'"
  by (auto simp: change_status_def res_simps split: if_splits
      intro: below_trans[OF upd_finding_below append_event_below])

lemma reflag_below:
  fixes s :: pipelines_db
  shows "reflag i ev s = Inr s' \<Longrightarrow> below s s'"
  by (auto simp: reflag_def res_simps append_event_below split: if_splits)

lemma apply_verdicts_below: "apply_verdicts rid eid vs own s = Inr s' \<Longrightarrow> below s s'"
  unfolding apply_verdicts_def
  by (erule efold_below)
     (auto simp: apply_verdict_def Let_def resolve_def reopen_def dismiss_def change_status_below reflag_below
       split: option.splits verdict_status.splits if_splits)

lemma mint_specs_below:
  fixes s :: pipelines_db
  shows "mint_specs fs s = (specs, s') \<Longrightarrow> below s s'"
proof (induction fs arbitrary: s specs)
  case (Cons f fs)
  then show ?case
    by (auto simp: fresh_def split: prod.splits intro: below_trans[OF below_infra(4)])
qed simp

lemma record_specs_below:
  fixes s :: pipelines_db
  shows "record_specs org t r n e it specs d s = (ids, s') \<Longrightarrow> below s s'"
proof (induction specs arbitrary: s d ids)
  case (Cons spec specs)
  show ?case
  proof (cases "findings s (fs_id spec)")
    case None
    have "below s (s\<lparr>findings := (findings s)(fs_id spec \<mapsto> new_finding org t r n e it d spec)\<rparr>)"
      by (simp add: below_def)
    with None Cons show ?thesis by (auto split: prod.splits intro: below_trans)
  next
    case (Some f)
    with Cons show ?thesis by (auto split: prod.splits intro: below_trans[OF upd_finding_below])
  qed
qed simp

lemma record_findings_below:
  fixes s :: pipelines_db
  shows "record_findings org t r n e it specs s = (ids, s') \<Longrightarrow> below s s'"
  by (auto simp: record_findings_def record_specs_below split: if_splits)

lemma record_and_apply_review_below:
  assumes "record_and_apply_review rid eid ret it s = Inr (ids, s')"
  shows "below s s'"
  using assms
  by (auto simp: record_and_apply_review_def Let_def res_simps split: prod.splits
      dest!: mint_specs_below record_findings_below apply_verdicts_below intro: below_trans)

section \<open>Agent traffic\<close>

lemma upd_agent_below [below_intros]: "below s (upd_agent i f s)"
  by (simp add: below_def upd_agent_def)

lemma command_updates_below [below_intros]:
  "below s (retire_command c s)" "below s (acknowledge_command_received c s)" "below s (revert_claim c s)"
  "below s (pin_command_to_agent c a s)"
  by (simp_all add: retire_command_def acknowledge_command_received_def revert_claim_def
      pin_command_to_agent_def upd_command_below)

lemma mark_agent_configured_below [below_intros]: "below s (mark_agent_configured a s)"
  by (auto simp: mark_agent_configured_def split: option.split intro: below_publish upd_agent_below)

lemma release_command_claim_below:
  fixes s :: pipelines_db
  shows "release_command_claim c s = Inr s' \<Longrightarrow> below s s'"
  by (auto simp: release_command_claim_def release_claim_def split: list.splits option.splits
      intro: upd_workspace_below)

lemma handle_terminal_event_below:
  fixes s :: pipelines_db
  assumes "handle_terminal_event env c k ek outs s = Inr (x, s')"
  shows "below s s'"
proof (cases "k \<in> set RUN_BEARING_KINDS")
  case False
  with assms show ?thesis by (auto simp: handle_terminal_event_def)
next
  case True
  have fin: "below s (finalize_run i r st s)" for i r st
    by (simp add: finalize_run_def Let_def upd_ca_run_def below_def split: option.split)
  from True assms obtain ref where ref: "get_run_ref_for_command c s = Inr ref"
    by (auto simp: handle_terminal_event_def res_simps)
  show ?thesis
  proof (cases ref)
    case None
    with True assms ref show ?thesis by (simp add: handle_terminal_event_def)
  next
    case (Some r)
    with True assms ref fin show ?thesis
      by (cases "plugins env (ca_plugin_id r)") (auto simp: handle_terminal_event_def Let_def)
  qed
qed

lemma materialise_below:
  fixes s :: pipelines_db
  shows "materialise_provision_success env c a s = Inr s' \<Longrightarrow> below s s'"
  by (auto simp: materialise_provision_success_def insert_lean_workspace_row_def below_def
      split: option.splits if_splits)

lemma record_agent_event_below:
  fixes s :: pipelines_db
  assumes "record_agent_event env ev a s = Inr s'"
  shows "below s s'"
proof (cases "\<exists>row. commands s (ev_command_id ev) = Some row \<and> ev_kind ev \<noteq> RECEIVED \<and> is_terminal (ev_kind ev)")
  case False
  with assms show ?thesis
    by (auto simp: record_agent_event_def Let_def res_simps command_updates_below split: option.splits if_splits)
next
  case True
  then obtain row where row: "commands s (ev_command_id ev) = Some row"
    and kind: "ev_kind ev \<noteq> RECEIVED" "is_terminal (ev_kind ev)" by blast
  define s1 where "s1 = (case cr_agent_id row of
                        Some a \<Rightarrow> if ev_kind ev = COMPLETED_SUCCESS \<and> cr_kind row = CONFIG_UPDATE
                                  then mark_agent_configured a s else s
                      | None \<Rightarrow> s)"
  have s1: "below s s1" by (simp add: s1_def mark_agent_configured_below split: option.split)
  let ?c = "ev_command_id ev"
  let ?mat = "\<lambda>s4. case a of
       Some a \<Rightarrow> if cr_kind row = PROVISION_WORKSPACE \<and> cr_workspace_id row \<noteq> None \<and>
                      ev_kind ev = COMPLETED_SUCCESS
                   then materialise_provision_success env ?c a s4 else Inr s4
     | None \<Rightarrow> Inr s4"
  let ?fin = "\<lambda>extras s5. case cr_run_id row of
       None \<Rightarrow> (Inr s5 :: pipelines_db res)
     | Some rid \<Rightarrow> Inr (enqueue_agent_event rid ?c
           (or_else (ev_outcome_label ev) (if ev_kind ev = COMPLETED_FAILURE then ''failure'' else ''success''))
           (forwarded_outputs ev extras) s5)"
  have "ebind (guard (token_accepted env row ev) (StaleClaimError ?c)) (\<lambda>_.
     ebind (release_command_claim ?c s1) (\<lambda>s2.
     ebind (handle_terminal_event env ?c (cr_kind row) (ev_kind ev) (ev_outputs ev) (retire_command ?c s2))
       (\<lambda>(extras, s4). ebind (?mat s4) (?fin extras)))) = Inr s'"
    using assms row kind unfolding record_agent_event_def Let_def s1_def by simp
  then obtain s2 x s4 s5 where
    s2: "release_command_claim ?c s1 = Inr s2"
    and s4: "handle_terminal_event env ?c (cr_kind row) (ev_kind ev) (ev_outputs ev) (retire_command ?c s2) = Inr (x, s4)"
    and m5: "?mat s4 = Inr s5" and m': "?fin x s5 = Inr s'"
    unfolding ebind_eq_Inr split_paired_Ex prod.case by (elim exE conjE) (rule that)
  have s5: "s5 = s4 \<or> (\<exists>a. materialise_provision_success env ?c a s4 = Inr s5)"
    using m5 by (auto split: option.splits if_splits)
  have s': "s' = s5 \<or> (\<exists>r l outs. s' = enqueue_agent_event r ?c l outs s5)"
    using m' by (auto split: option.splits)
  have "below s s4"
    using below_trans[OF below_trans[OF s1 release_command_claim_below[OF s2]]
        below_trans[OF command_updates_below(1) handle_terminal_event_below[OF s4]]] .
  moreover have "below s4 s5" using s5 materialise_below by auto
  moreover have "below s5 s'" using s' by (auto simp: enqueue_agent_event_def below_infra)
  ultimately show ?thesis using below_trans by blast
qed

end
