(* ===== verification/EngineRefine.thy ===== *)
theory EngineRefine
  imports EngineFrame
begin

text \<open>
  Refinement: every transaction of the engine and of the pipelines service is a sequence of steps of
  the abstract run machine. \<open>evolves\<close> is the simulation relation; each lemma follows the code of one
  function.
\<close>

section \<open>The simulation relation\<close>

definition evolves :: "pipelines_db \<Rightarrow> pipelines_db \<Rightarrow> bool" where
  "evolves s s' \<longleftrightarrow> (engine_ok s \<longrightarrow> esteps s s')"

lemma evolves_refl [simp, intro]: "evolves s s"
  by (simp add: evolves_def)

lemma evolves_trans [trans]: "evolves s t \<Longrightarrow> evolves t u \<Longrightarrow> evolves s u"
  unfolding evolves_def using esteps_engine_ok by (meson rtranclp_trans)

lemma evolves_step: "estep s t \<Longrightarrow> evolves s t"
  by (simp add: evolves_def r_into_rtranclp)

lemma evolves_below: "below s t \<Longrightarrow> evolves s t"
  by (intro evolves_step e_below)

lemma evolves_ok: "evolves s t \<Longrightarrow> engine_ok s \<Longrightarrow> engine_ok t"
  using esteps_engine_ok by (auto simp: evolves_def)

lemma evolves_assuming: "(engine_ok s \<Longrightarrow> evolves s t) \<Longrightarrow> evolves s t"
  by (simp add: evolves_def)

lemmas evolves_then_below = evolves_trans[OF _ evolves_below]
lemmas evolves_below_then = evolves_trans[OF evolves_below]

lemma evolves_stage: "(\<And>e. benign e (f e)) \<Longrightarrow> evolves s (upd_stage eid f s)"
  by (intro evolves_step e_stage)

lemma evolves_run:
  "(\<And>r. same_run r (f r) \<and> r_state (f r) = r_state r \<and> r_sendback_counts (f r) = r_sendback_counts r) \<Longrightarrow>
     evolves s (upd_run rid f s)"
  by (intro evolves_step e_run)

lemmas below_chain = below_intros[THEN [2] below_trans]

lemma below_extend: "below s t \<Longrightarrow> below s (case w of None \<Rightarrow> t | Some v \<Rightarrow> extend_expiry v n t)"
  by (auto split: option.split intro: below_trans extend_expiry_below)

lemma evolves_then_stage:
  "evolves s t \<Longrightarrow> (\<And>e. benign e (f e)) \<Longrightarrow> evolves s (upd_stage eid f t)"
  using evolves_stage evolves_trans by blast

lemma evolves_then_run:
  "evolves s t \<Longrightarrow>
   (\<And>r. same_run r (f r) \<and> r_state (f r) = r_state r \<and> r_sendback_counts (f r) = r_sendback_counts r) \<Longrightarrow>
   evolves s (upd_run rid f t)"
  using evolves_run evolves_trans by blast

lemmas evolves_chain = below_intros[THEN evolves_below, THEN [2] evolves_trans]
  evolves_then_stage evolves_then_run evolves_refl

definition running :: "uuid \<Rightarrow> pipelines_db \<Rightarrow> bool" where
  "running rid s \<longleftrightarrow> (\<exists>r. runs s rid = Some r \<and> r_state r = Running)"

lemma running_below: "below s t \<Longrightarrow> running rid t \<longleftrightarrow> running rid s"
  by (simp add: running_def below_def)

lemma running_upd_stage [simp]: "running rid (upd_stage eid f s) \<longleftrightarrow> running rid s"
  by (simp add: running_def)

lemma running_upd_run:
  "(\<And>r. r_state (f r) = r_state r) \<Longrightarrow> running rid (upd_run i f s) \<longleftrightarrow> running rid s"
  by (auto simp: running_def)

lemma benign_simps [simp]:
  "benign e (e\<lparr>se_status := SFailed, se_failure_reason := x, se_completed_at := t\<rparr>)"
  "benign e (e\<lparr>se_status := SCompleted, se_completed_at := t\<rparr>)"
  "benign e (e\<lparr>se_boundary_outcome := b, se_boundary_detail := d\<rparr>)"
  "benign e (e\<lparr>se_boundary_outcome := b\<rparr>)"
  "benign e (e\<lparr>se_status := SCompleted, se_action_result := a, se_boundary_outcome := b, se_completed_at := t\<rparr>)"
  "benign e (e\<lparr>se_completed_at := t\<rparr>)"
  "benign e (e\<lparr>se_status := SFailed, se_failure_reason := x\<rparr>)"
  "benign e (e\<lparr>se_status := SCompleted\<rparr>)"
  "benign e (e\<lparr>se_loop_state := l, se_confidence := c\<rparr>)"
  "benign e (e\<lparr>se_loop_state := l\<rparr>)"
  by (simp_all add: benign_def same_stage_def)

section \<open>Pauses and promotion\<close>

lemma enter_pause_shape:
  assumes "enter_pause rid eid d ko s = Inr s'"
  shows "\<exists>f p. (\<forall>e. benign e (f e)) \<and> p_id p = next_id s \<and> p_run_id p = rid \<and> open_pause p \<and>
     p_stage_execution_id p = eid \<and> p_tripped p = bd_tripped d \<and>
     below (upd_run rid (\<lambda>r. r\<lparr>r_state := Paused\<rparr>)
       ((upd_stage eid f s)\<lparr>next_id := Suc (next_id s), pauses := (pauses s)(next_id s \<mapsto> p)\<rparr>)) s'"
proof -
  define f where "f = (\<lambda>e::stage_exec. e\<lparr>se_boundary_outcome := Some BPaused,
                                    se_boundary_detail := Some (bd_tripped d)\<rparr>)"
  define s1 where "s1 = upd_stage eid f s"
  define p where "p = \<lparr>p_id = next_id s, p_org_id = r_org_id (run_of s1 rid), p_run_id = rid,
     p_stage_execution_id = eid, p_tripped = bd_tripped d,
     p_escalation_user_ids = remdups (resolve_escalation_targets ko (r_org_id (run_of s1 rid)) s1 @
                             bd_protected_owner_user_ids d),
     p_resolution = None, p_instruction = None, p_send_back_to_stage = None,
     p_resolved_by = None, p_resolved_at = None\<rparr>"
  define s4 where "s4 = upd_run rid (\<lambda>r. r\<lparr>r_state := Paused\<rparr>)
     (s1\<lparr>next_id := Suc (next_id s), pauses := (pauses s)(next_id s \<mapsto> p)\<rparr>)"
  have "below s4 s'"
    by (rule below_trans[OF _ efold_below[OF assms[unfolded enter_pause_def Let_def fresh_def prod.case]
          create_notification_below]], intro below_chain below_extend)
       (simp_all add: s4_def p_def s1_def f_def)
  then show ?thesis unfolding s4_def s1_def
    by (intro exI[of _ f] exI[of _ p]) (simp add: f_def p_def open_pause_def)
qed

lemma enter_pause_evolves:
  assumes "enter_pause rid eid d ko s = Inr s'" and "running rid s"
  shows "evolves s s'"
proof -
  from enter_pause_shape[OF assms(1)] obtain f p where fp: "\<forall>e. benign e (f e)"
    "p_id p = next_id s" "p_run_id p = rid" "open_pause p"
    "below (upd_run rid (\<lambda>r. r\<lparr>r_state := Paused\<rparr>)
       ((upd_stage eid f s)\<lparr>next_id := Suc (next_id s), pauses := (pauses s)(next_id s \<mapsto> p)\<rparr>)) s'"
    by blast
  let ?s1 = "upd_stage eid f s"
  obtain r where r: "runs ?s1 rid = Some r" "r_state r = Running" using assms(2) by (auto simp: running_def)
  have "evolves s ?s1" using fp(1) by (intro evolves_stage) blast
  also have "evolves ?s1 s'"
    using evolves_step[OF e_pause[OF r, of p]] evolves_below[OF fp(5)] fp(2-4)
    by (auto intro: evolves_trans)
  finally show ?thesis .
qed

lemma attempt_promotion_evolves:
  assumes "runs s rid = Some r"
  shows "evolves s (snd (attempt_promotion rid s))"
proof (cases "r_state r = Queued \<and> \<not> slot_taken (r_ticket_id r) s")
  case True
  let ?s1 = "upd_run rid (\<lambda>r. r\<lparr>r_state := Running\<rparr>) s"
  have "evolves s ?s1" using True assms by (intro evolves_step e_promote) auto
  also have "evolves ?s1 (snd (attempt_promotion rid s))"
    using True assms unfolding attempt_promotion_def Let_def run_of_def
    by (auto intro!: evolves_below below_chain)
  finally show ?thesis .
next
  case False
  then show ?thesis using assms by (auto simp: attempt_promotion_def Let_def run_of_def)
qed

lemma promote_oldest_queued_evolves: "evolves s (promote_oldest_queued t s)"
proof (rule evolves_assuming)
  assume "engine_ok s"
  then have "keyed_rows r_id (next_id s) (runs s)" by (simp add: engine_ok_def keys_ok_def)
  from attempt_promotion_evolves[OF keyed_first_row(1)[OF this]] show ?thesis
    by (simp add: promote_oldest_queued_def split: option.split)
qed

lemma fold_evolves:
  assumes "\<And>x t. evolves t (f x t)"
  shows "evolves s (fold f xs s)"
  by (rule fold_invariant[where I = "evolves s"]) (use assms evolves_trans in blast)+

lemma cancel_queued_evolves:
  assumes "runs s rid = Some r" and "r_state r = Queued"
  shows "evolves s (cancel_queued rid act s)"
proof -
  let ?f = "\<lambda>r. r\<lparr>r_state := RCancelled, r_completed_at := Some (now s)\<rparr>"
  have "evolves s (upd_run rid ?f s)"
    using assms by (intro evolves_step e_end) (auto simp: same_run_def)
  also have "evolves (upd_run rid ?f s) (cancel_queued rid act s)"
    unfolding cancel_queued_def Let_def by (intro evolves_below below_chain) simp
  finally show ?thesis .
qed

section \<open>Routing and terminal states\<close>

lemma fail_stage_after:
  assumes "evolves s (upd_stage eid (\<lambda>e. e\<lparr>se_status := SFailed, se_failure_reason := Some reason,
                                    se_completed_at := Some (now t)\<rparr>) t)"
  shows "evolves s (fail_stage rid eid idx reason t)"
  unfolding fail_stage_def Let_def
  by (rule evolves_then_below[OF assms], intro below_chain below_refl)

lemma fail_stage_evolves: "evolves s (fail_stage rid eid idx reason s)"
  by (intro fail_stage_after evolves_stage) simp

lemma dispatch_stage_evolves: "evolves s (dispatch_stage rid idx s)"
  unfolding dispatch_stage_def by (intro evolves_chain) (simp add: same_run_def)

lemma enter_terminal_evolves:
  assumes "enter_terminal env rid st reason s = Inr s'" and "running rid s"
  shows "evolves s s'"
proof -
  let ?f = "\<lambda>r. r\<lparr>r_state := st, r_failure_reason := reason, r_completed_at := Some (now s)\<rparr>"
  obtain r where r: "runs s rid = Some r" "r_state r = Running" using assms(2) by (auto simp: running_def)
  have st: "st \<notin> {Queued, Running, Paused}"
    using assms(1) by (cases st) (auto simp: enter_terminal_def Let_def)
  have e: "evolves s (upd_run rid ?f s)"
    using r st by (intro evolves_step e_end) (auto simp: same_run_def)
  from assms(1) show ?thesis
    unfolding enter_terminal_def Let_def ebind_eq_Inr
  proof (elim exE conjE, goal_cases)
    case (1 to s5)
    have "evolves s s5"
    proof (cases "st = RFailed")
      case True
      show ?thesis
        by (rule evolves_then_below[OF e],
            rule below_trans[OF _ efold_below[OF 1(2)[unfolded if_P[OF True]] create_notification_below]],
            intro below_chain below_refl)
    next
      case False
      show ?thesis
        by (rule evolves_then_below[OF e],
            rule subst[OF Inr_inject[OF 1(2)[unfolded if_not_P[OF False]]]],
            intro below_chain below_refl)
    qed
    also have "evolves s5 s'"
      by (rule subst[OF Inr_inject[OF 1(3)]],
          rule evolves_trans[OF evolves_below[OF fold_below] promote_oldest_queued_evolves]) (rule below_infra)
    finally show ?thesis .
  qed
qed

section \<open>System stages\<close>

lemma add_stage_simps:
  "fst (add_stage rid idx k n sn ph rv it s) = next_id s"
  "runs (snd (add_stage rid idx k n sn ph rv it s)) = runs s"
  "pauses (snd (add_stage rid idx k n sn ph rv it s)) = pauses s"
  by (simp_all add: add_stage_def fresh_def)

lemma add_stage_evolves:
  assumes "add_stage rid idx k n sn ph rv it s = (eid, s1)" and "runs s rid = Some r"
    and "k = KSkill \<Longrightarrow> ph = Some PMain \<and> it = 0 \<and>
      (\<exists>i sk. idx = Some i \<and> i < length (r_definition_snapshot r) \<and> r_definition_snapshot r ! i = SkillStage sk)"
  shows "evolves s s1" "runs s1 = runs s" "pauses s1 = pauses s" "workspaces s1 = workspaces s"
proof -
  define e where "e = new_stage (next_id s) (r_org_id (run_of s rid)) rid idx k n sn ph rv it (now s)"
  have s1: "s1 = s\<lparr>next_id := Suc (next_id s), stage_execs := (stage_execs s)(next_id s \<mapsto> e)\<rparr>"
    using assms(1) by (auto simp: add_stage_def fresh_def e_def)
  have "loop_ok r e"
    using assms(3) by (auto simp: loop_ok_def skill_at_def phase_ok_def e_def new_stage_def)
  then show "evolves s s1"
    unfolding s1 using assms(2) by (intro evolves_step e_add_stage[where r = r]) (simp_all add: e_def new_stage_def)
  show "runs s1 = runs s" "pauses s1 = pauses s" "workspaces s1 = workspaces s" unfolding s1 by simp_all
qed

lemma dispatch_cleanup_stage_evolves:
  assumes "dispatch_cleanup_stage rid s = Inr s'" and "runs s rid = Some r"
  shows "evolves s s'"
proof -
  obtain eid s1 where a: "add_stage rid None KSystem SYSTEM_STAGE_CLEANUP None None None 0 s = (eid, s1)"
    by fastforce
  with assms(1) obtain w c s2 where c: "dispatch_cleanup w (system_command_context rid eid s1) s1 = Inr (c, s2)"
    and s': "s' = upd_run rid (\<lambda>r. r\<lparr>r_phase := PhCleanup, r_pending_agent_command_id := Some c\<rparr>) s2"
    by (auto simp: dispatch_cleanup_stage_def res_simps split: option.splits)
  have "evolves s s1" using add_stage_evolves[OF a assms(2)] by simp
  also have "evolves s1 s2" by (rule evolves_below[OF dispatch_cleanup_below[OF c]])
  finally show ?thesis unfolding s' by (intro evolves_chain) (simp_all add: same_run_def)
qed

lemma finish_or_cleanup_evolves:
  assumes "finish_or_cleanup env rid st reason s = Inr s'" and "running rid s"
  shows "evolves s s'"
proof -
  let ?s1 = "upd_run rid (\<lambda>r. r\<lparr>r_failure_reason := reason\<rparr>) s"
  have run: "running rid ?s1" using assms(2) by (simp add: running_upd_run)
  then obtain r where r: "runs ?s1 rid = Some r" by (auto simp: running_def)
  have "evolves s ?s1" by (intro evolves_chain) (simp add: same_run_def)
  also have "evolves ?s1 s'"
    using assms(1) dispatch_cleanup_stage_evolves[OF _ r] enter_terminal_evolves[OF _ run]
    unfolding finish_or_cleanup_def Let_def by (auto split: if_splits)
  finally show ?thesis .
qed

lemma finalize_after_cleanup_evolves:
  "finalize_after_cleanup env rid s = Inr s' \<Longrightarrow> running rid s \<Longrightarrow> evolves s s'"
  unfolding finalize_after_cleanup_def Let_def by (rule enter_terminal_evolves)

lemma route_run_evolves:
  assumes "route_run env rid idx label reason s = Inr s'"
  shows "evolves s s'"
  using assms finish_or_cleanup_evolves[where rid = rid and s = s] dispatch_stage_evolves
  by (auto simp: route_run_def running_def split: option.splits if_splits)

lemma dispatch_provision_stage_evolves:
  assumes "dispatch_provision_stage env rid ko s = Inr s'" and "runs s rid = Some r"
  shows "evolves s s'"
proof -
  obtain eid s1 where a: "add_stage rid None KSystem SYSTEM_STAGE_PROVISION None None None 0 s = (eid, s1)"
    by fastforce
  with assms(1) obtain spec c s3 where
    c: "dispatch_provision env spec (system_command_context rid eid (s1\<lparr>next_id := Suc (next_id s1)\<rparr>))
          (s1\<lparr>next_id := Suc (next_id s1)\<rparr>) = Inr (c, s3)"
    and s': "\<exists>w. s' = upd_run rid (\<lambda>r. r\<lparr>r_workspace_id := Some w, r_phase := PhProvision,
                                 r_pending_agent_command_id := Some c\<rparr>) s3"
    by (auto simp: dispatch_provision_stage_def Let_def fresh_def res_simps)
  have "evolves s s1" using add_stage_evolves[OF a assms(2)] by simp
  also have "evolves s1 s3" by (rule evolves_below[OF below_trans[OF below_infra(4) dispatch_provision_below[OF c]]])
  finally show ?thesis using s' by (auto intro!: evolves_chain simp: same_run_def)
qed

section \<open>Invocations\<close>

lemma send_invocation_shape:
  assumes "send_invocation env rid eid idx c pl sk m ef wc cj parked s = Inr s'"
  shows "(\<exists>msg. s' = fail_stage rid eid idx msg s) \<or> (\<exists>s1. below s s1 \<and> s' = parked s1)"
proof -
  from assms obtain plugin w where eq: "get_plugin env pl = Inr plugin" "r_workspace_id (run_of s rid) = Some w"
    by (auto simp: send_invocation_def res_simps split: option.splits)
  let ?d = "dispatch_invocation \<lparr>iv_workspace_id = w, iv_skill = sk, iv_model = m, iv_effort = ef,
      iv_context = cj, iv_wallclock_seconds = wc\<rparr> plugin (system_command_context rid eid s) c s"
  note h = assms[unfolded send_invocation_def eq ebind_simps option.case]
  show ?thesis
  proof (cases ?d)
    case (Inl e)
    with h show ?thesis by (cases e) auto
  next
    case (Inr s1)
    with h show ?thesis using dispatch_invocation_below[OF Inr] by auto
  qed
qed

lemma park_evolves: "evolves s t \<Longrightarrow> evolves s (park rid c t)"
  unfolding park_def by (intro evolves_chain) (simp_all add: same_run_def)

lemma send_invocation_park_evolves:
  assumes "send_invocation env rid eid idx c pl sk m ef wc cj (park rid c) s = Inr s'"
  shows "evolves s s'"
  using send_invocation_shape[OF assms] fail_stage_evolves park_evolves[OF evolves_below] by auto

lemma dispatch_skill_stage_evolves:
  assumes "dispatch_skill_stage env rid st idx ko rv s = Inr s'" and "runs s rid = Some r"
    and "idx < length (r_definition_snapshot r)" "r_definition_snapshot r ! idx = SkillStage st"
  shows "evolves s s'"
proof -
  obtain eid s1 where a: "add_stage rid (Some idx) KSkill (sk_name st) (Some (sk_skill_name st))
      (Some PMain) rv 0 s = (eid, s1)" by fastforce
  have "evolves s s1" using add_stage_evolves(1)[OF a assms(2)] assms(3,4) by simp
  also have "evolves s1 (s1\<lparr>next_id := Suc (next_id s1)\<rparr>)" by (intro evolves_below below_infra)
  also have "evolves \<dots> s'"
    using assms(1) a send_invocation_park_evolves
    by (auto simp: dispatch_skill_stage_def Let_def fresh_def res_simps)
  finally show ?thesis .
qed

lemma dispatch_review_only_stage_evolves:
  assumes "dispatch_review_only_stage env rid st idx ko rv s = Inr s'" and "runs s rid = Some r"
  shows "evolves s s'"
proof -
  obtain eid s1 where a: "add_stage rid (Some idx) KReview (rv_name st) (Some (rv_skill_name st))
      (Some PReview) rv 1 s = (eid, s1)" by fastforce
  have "evolves s s1" using add_stage_evolves(1)[OF a assms(2)] by simp
  also have "evolves s1 (s1\<lparr>next_id := Suc (next_id s1)\<rparr>)" by (intro evolves_below below_infra)
  also have "evolves \<dots> s'"
    using assms(1) a send_invocation_park_evolves
    by (auto simp: dispatch_review_only_stage_def Let_def fresh_def res_simps)
  finally show ?thesis .
qed

text \<open>An update split around frame steps is one update of the row.\<close>

lemma upd_stage_fuse:
  assumes "below (upd_stage eid f s) t"
  shows "\<exists>s0. below s s0 \<and> upd_stage eid g t = upd_stage eid (g \<circ> f) s0"
proof (intro exI conjI)
  let ?s0 = "t\<lparr>stage_execs := stage_execs s\<rparr>"
  show "below s ?s0" using assms by (simp add: below_def)
  have "stage_execs t = modify eid f (stage_execs s)" using assms by (simp add: below_def upd_stage_def)
  then show "upd_stage eid g t = upd_stage eid (g \<circ> f) ?s0" by (simp add: upd_stage_def)
qed

lemma dispatch_review_invocation_evolves:
  assumes disp: "dispatch_review_invocation env rid st eid body s = Inr s'"
    and e: "stage_execs s eid = Some e" "se_run_id e = rid" "runs s rid = Some r" "skill_at r e st"
      "se_status e = SRunning" "se_kind e = KSkill \<Longrightarrow> se_phase e \<in> {Some PMain, Some PFix}"
  shows "evolves s s'"
proof -
  let ?f = "\<lambda>e. e\<lparr>se_iteration := se_iteration e + 1\<rparr>"
  have pass: "evolves s (upd_stage eid g t)"
    if t: "below (upd_stage eid ?f s) t" and g: "\<And>e. same_stage e (g e) \<and> se_iteration (g e) = se_iteration e \<and>
        (se_status (g e) \<noteq> SRunning \<or> se_phase (g e) = Some PReview)" for g t
  proof -
    obtain s0 where s0: "below s s0" "upd_stage eid g t = upd_stage eid (g \<circ> ?f) s0"
      using upd_stage_fuse[OF t] by blast
    have "estep s0 (upd_stage eid (g \<circ> ?f) s0)"
    proof (cases "se_kind e = KSkill")
      case True
      obtain rc where "sk_review st = Some rc" using disp by (auto simp: dispatch_review_invocation_def res_simps)
      then show ?thesis
        using e True s0(1) g[of "?f e"]
        by (intro e_review_pass[where e = e and r = r and sk = st])
           (auto simp: belowD[OF s0(1)] same_stage_def)
    next
      case False
      then show ?thesis
        using e(1) g[of "?f e"] by (intro e_stage) (auto simp: belowD[OF s0(1)] benign_def same_stage_def)
    qed
    then show ?thesis unfolding s0(2) using s0(1) evolves_step evolves_below_then by blast
  qed
  have fresh: "below (upd_stage eid ?f s) ((upd_stage eid ?f s)\<lparr>next_id := Suc (next_id s)\<rparr>)"
    by (simp add: below_def)
  from disp obtain c pl sk m ef wc cj where
    "send_invocation env rid eid (se_stage_index (stage_of ((upd_stage eid ?f s)\<lparr>next_id := Suc (next_id s)\<rparr>) eid))
       c pl sk m ef wc cj (park rid c \<circ> upd_stage eid (\<lambda>e. e\<lparr>se_phase := Some PReview\<rparr>))
       ((upd_stage eid ?f s)\<lparr>next_id := Suc (next_id s)\<rparr>) = Inr s'"
    by (auto simp: dispatch_review_invocation_def res_simps fresh_def Let_def)
  from send_invocation_shape[OF this] show ?thesis
  proof (elim disjE exE conjE)
    fix msg
    assume "s' = fail_stage rid eid (se_stage_index (stage_of ((upd_stage eid ?f s)\<lparr>next_id := Suc (next_id s)\<rparr>) eid))
        msg ((upd_stage eid ?f s)\<lparr>next_id := Suc (next_id s)\<rparr>)"
    then show ?thesis
      by (simp only:) (intro fail_stage_after pass fresh, simp add: same_stage_def)
  next
    fix s1 assume s1: "below ((upd_stage eid ?f s)\<lparr>next_id := Suc (next_id s)\<rparr>) s1"
      "s' = (park rid c \<circ> upd_stage eid (\<lambda>e. e\<lparr>se_phase := Some PReview\<rparr>)) s1"
    then have "below (upd_stage eid ?f s) s1"
      using below_trans[OF fresh] by blast
    then show ?thesis unfolding s1(2) o_apply by (intro park_evolves pass) (auto simp: same_stage_def)
  qed
qed

lemma dispatch_fix_invocation_evolves:
  assumes disp: "dispatch_fix_invocation env rid st eid idx ko body res s = Inr s'"
    and e: "stage_execs s eid = Some e" "se_run_id e = rid" "runs s rid = Some r" "skill_at r e st"
      "se_iteration e < iteration_cap st"
  shows "evolves s s'"
proof -
  from disp obtain c pl sk m ef wc cj rv where
    "send_invocation env rid eid (Some idx) c pl sk m ef wc cj
       (park rid c \<circ> upd_stage eid (\<lambda>e. e\<lparr>se_revision := Some rv, se_phase := Some PFix\<rparr>))
       (s\<lparr>next_id := Suc (next_id s)\<rparr>) = Inr s'"
    by (auto simp: dispatch_fix_invocation_def res_simps fresh_def Let_def)
  from send_invocation_shape[OF this] show ?thesis
  proof (elim disjE exE conjE)
    fix msg assume "s' = fail_stage rid eid (Some idx) msg (s\<lparr>next_id := Suc (next_id s)\<rparr>)"
    then show ?thesis using evolves_below_then[OF below_infra(4) fail_stage_evolves] by simp
  next
    fix s1 assume s1: "below (s\<lparr>next_id := Suc (next_id s)\<rparr>) s1"
      "s' = (park rid c \<circ> upd_stage eid (\<lambda>e. e\<lparr>se_revision := Some rv, se_phase := Some PFix\<rparr>)) s1"
    have b: "below s s1" using below_trans[OF below_infra(4) s1(1)] .
    have "estep s1 (upd_stage eid (\<lambda>e. e\<lparr>se_revision := Some rv, se_phase := Some PFix\<rparr>) s1)"
      using e by (intro e_fix_pass[where e = e and r = r and sk = st]) (auto simp: belowD[OF b] same_stage_def)
    then show ?thesis
      unfolding s1(2) o_apply by (intro park_evolves evolves_below_then[OF b] evolves_step)
  qed
qed

section \<open>Starting a stage\<close>

text \<open>What the engine relies on of a registered action: it does not write the pipeline tables.\<close>

definition actions_frame :: "engine_env \<Rightarrow> bool" where
  "actions_frame env \<longleftrightarrow>
     (\<forall>i execute ctx s x s'. actions env i = Some execute \<longrightarrow> execute ctx s = Inr (x, s') \<longrightarrow> below s s')"

lemma run_action_stage_evolves:
  assumes "run_action_stage env rid st idx ko s = Inr s'" and "runs s rid = Some r" and "actions_frame env"
  shows "evolves s s'"
proof -
  obtain eid s1 where a: "add_stage rid (Some idx) KAction (as_action_id st) None None None 0 s = (eid, s1)"
    by fastforce
  have s1: "evolves s s1" using add_stage_evolves(1)[OF a assms(2)] by simp
  obtain ctx where ctx: "build_action_context rid ko idx s1 = Inr ctx"
    using assms(1) a by (auto simp: run_action_stage_def res_simps)
  note h = assms(1)[unfolded run_action_stage_def a prod.case ctx ebind_simps]
  show ?thesis
  proof (cases "execute_action env (as_action_id st) ctx s1")
    case (Inl e)
    with h show ?thesis by (cases e) (auto intro!: evolves_chain s1)
  next
    case (Inr x)
    obtain res s2 where x: "x = (res, s2)" by fastforce
    with Inr assms(3) have "evolves s s2"
      using evolves_then_below[OF s1]
      by (auto simp: execute_action_def actions_frame_def split: option.splits)
    with h Inr x show ?thesis by (auto intro!: evolves_chain)
  qed
qed

lemma nth_stage_Inr: "nth_stage xs idx = Inr st \<longleftrightarrow> (\<exists>i. idx = Some i \<and> i < length xs \<and> st = xs ! i)"
  by (auto simp: nth_stage_def split: option.splits)

lemma start_stage_evolves:
  assumes "start_stage env rid idx s = Inr s'" and "actions_frame env"
  shows "evolves s s'"
proof (cases "running rid s")
  case False
  with assms(1) show ?thesis by (auto simp: start_stage_def running_def split: option.splits)
next
  case True
  then obtain r where r: "runs s rid = Some r" "r_state r = Running" by (auto simp: running_def)
  with assms(1) obtain i where i: "idx = Some i" "i < length (r_definition_snapshot r)"
    by (auto simp: start_stage_def res_simps nth_stage_Inr)
  let ?s1 = "if ko_revision (r_kickoff r) \<noteq> None
     then upd_run rid (\<lambda>q. q\<lparr>r_kickoff := (r_kickoff r)\<lparr>ko_revision := None\<rparr>\<rparr>) s else s"
  obtain r1 where r1: "runs ?s1 rid = Some r1" "r_definition_snapshot r1 = r_definition_snapshot r"
    using r by (cases "ko_revision (r_kickoff r)") auto
  have s1: "evolves s ?s1" by (auto intro!: evolves_chain simp: same_run_def)
  note h = assms(1)[unfolded start_stage_def r(1) option.case i(1)]
  show ?thesis
  proof (cases "r_definition_snapshot r ! i")
    case (ActionStage ast)
    with h r i show ?thesis
      using run_action_stage_evolves[OF _ r(1) assms(2)] by (auto simp: nth_stage_def Let_def)
  next
    case (SkillStage sk)
    with h r i have "dispatch_provision_stage env rid (r_kickoff r) s = Inr s' \<or>
        dispatch_skill_stage env rid sk i (r_kickoff r) (ko_revision (r_kickoff r)) ?s1 = Inr s'"
      by (auto simp: nth_stage_def Let_def split: if_splits)
    then show ?thesis
      using dispatch_provision_stage_evolves[OF _ r(1)] dispatch_skill_stage_evolves[OF _ r1(1)] r1(2) i
        SkillStage evolves_trans[OF s1] by metis
  next
    case (ReviewSkillStage rv)
    with h r i have "dispatch_provision_stage env rid (r_kickoff r) s = Inr s' \<or>
        dispatch_review_only_stage env rid rv i (r_kickoff r) (ko_revision (r_kickoff r)) ?s1 = Inr s'"
      by (auto simp: nth_stage_def Let_def split: if_splits)
    then show ?thesis
      using dispatch_provision_stage_evolves[OF _ r(1)] dispatch_review_only_stage_evolves[OF _ r1(1)]
        evolves_trans[OF s1] by metis
  qed
qed

section \<open>Send-back and boundary\<close>

lemma upd_run_cong: "runs s rid = Some r \<Longrightarrow> f r = g r \<Longrightarrow> upd_run rid f s = upd_run rid g s"
  by (simp add: upd_run_def modify_def touch_def)

lemma count_update_evolves:
  assumes "runs s rid = Some r" and "counts = r_sendback_counts r"
  shows "evolves s (upd_run rid (\<lambda>q. q\<lparr>r_sendback_counts := AList.update k 1 counts\<rparr>) s)"
proof -
  have "upd_run rid (\<lambda>q. q\<lparr>r_sendback_counts := AList.update k 1 counts\<rparr>) s =
      upd_run rid (\<lambda>q. q\<lparr>r_sendback_counts := AList.update k 1 (r_sendback_counts q)\<rparr>) s"
    using assms by (intro upd_run_cong[OF assms(1)]) simp
  then show ?thesis using evolves_step[OF e_count[OF assms(1)]] by simp
qed

text \<open>A send-back that is granted: the counter is set before anything else happens.\<close>

lemma send_back_granted:
  assumes "send_back_to_stage env rid eid ti ts gap ko s = Inr s'" and "runs s rid = Some r"
    and "count_of (r_sendback_counts r) (sk_name ts) < 1" and "actions_frame env"
  shows "evolves (upd_run rid (\<lambda>q. q\<lparr>r_sendback_counts := AList.update (sk_name ts) 1 (r_sendback_counts r)\<rparr>) s) s'"
proof -
  have ro: "run_of s rid = r" using assms(2) by (simp add: run_of_def)
  have F: "\<not> 1 \<le> count_of (r_sendback_counts (run_of s rid)) (sk_name ts)" using assms(3) ro by simp
  note h = start_stage_evolves[OF assms(1)[unfolded send_back_to_stage_def Let_def if_not_P[OF F]] assms(4)]
  show ?thesis unfolding ro[symmetric]
    by (rule evolves_trans[OF _ h], intro evolves_chain) (simp_all add: same_run_def)
qed

text \<open>A send-back that is refused: the run waits for a person.\<close>

lemma send_back_refused:
  assumes "send_back_to_stage env rid eid ti ts gap ko s = Inr s'" and "runs s rid = Some r"
    and "\<not> count_of (r_sendback_counts r) (sk_name ts) < 1"
  shows "enter_pause rid eid \<lparr>bd_pause = True, bd_tripped = [(''sendback_loop'', TrippedStage (sk_name ts))],
           bd_protected_owner_user_ids = []\<rparr> ko s = Inr s'"
proof -
  have T: "1 \<le> count_of (r_sendback_counts (run_of s rid)) (sk_name ts)" using assms(2,3) by (simp add: run_of_def)
  show ?thesis using assms(1)[unfolded send_back_to_stage_def Let_def if_P[OF T]] .
qed

lemma send_back_to_stage_evolves:
  assumes "send_back_to_stage env rid eid ti ts gap ko s = Inr s'" and "running rid s" and "actions_frame env"
  shows "evolves s s'"
proof -
  obtain r where r: "runs s rid = Some r" using assms(2) by (auto simp: running_def)
  show ?thesis
  proof (cases "count_of (r_sendback_counts r) (sk_name ts) < 1")
    case True
    from evolves_trans[OF count_update_evolves[OF r refl] send_back_granted[OF assms(1) r True assms(3)]]
    show ?thesis .
  next
    case False
    from enter_pause_evolves[OF send_back_refused[OF assms(1) r False] assms(2)] show ?thesis .
  qed
qed

lemma validate_evolves:
  assumes "validate_skill_return_and_artifact env rid st eid idx ko outs s = Inr (x, s')"
    and "running rid s" and "actions_frame env"
  shows "evolves s s'" "x \<noteq> None \<Longrightarrow> below s s'"
proof -
  have sb: "evolves s t" if "send_back_to_stage env rid eid ti ts gap ko
      (upd_stage eid (\<lambda>e. e\<lparr>se_status := SCompleted, se_completed_at := Some (now s)\<rparr>) s) = Inr t" for ti ts gap t
    using evolves_trans[OF evolves_stage send_back_to_stage_evolves[OF that _ assms(3)]] assms(2) by simp
  have art: "below s (mark_final i t)" if "store_artifact org tk r e n b it s = (i, t)" for org tk r e n b it i t
    using below_trans[OF store_artifact_below[OF that] mark_final_below] .
  show "evolves s s'"
    using assms(1) fail_stage_evolves sb evolves_below[OF art]
    by (auto simp: validate_skill_return_and_artifact_def Let_def res_simps
        split: sum.splits if_splits option.splits prod.splits)
  show "x \<noteq> None \<Longrightarrow> below s s'"
    using assms(1) art
    by (auto simp: validate_skill_return_and_artifact_def Let_def res_simps
        split: sum.splits if_splits option.splits prod.splits)
qed

lemma settle_stage_boundary_evolves:
  assumes "settle_stage_boundary env rid cs bc eid ko paths idx s = Inr s'"
    and "running rid s" and "actions_frame env"
  shows "evolves s s'"
proof -
  let ?s1 = "upd_stage eid (\<lambda>e. e\<lparr>se_status := SCompleted, se_completed_at := Some (now s)\<rparr>) s"
  have s1: "evolves s ?s1" by (intro evolves_stage) simp
  have run: "running rid ?s1" using assms(2) by simp
  show ?thesis
  proof (cases "resolve_residual_send_back (r_definition_snapshot (run_of s rid)) cs idx (open_residuals eid s)")
    case (Some x)
    obtain ti ts gap where "x = (ti, ts, gap)" by (cases x) auto
    with assms(1) Some have "send_back_to_stage env rid eid ti ts gap ko ?s1 = Inr s'"
      by (simp add: settle_stage_boundary_def Let_def)
    from evolves_trans[OF s1 send_back_to_stage_evolves[OF this run assms(3)]] show ?thesis .
  next
    case None
    with assms(1) obtain d where "enter_pause rid eid d ko ?s1 = Inr s' \<or>
        s' = enqueue_route rid (Some idx) ''success'' None (publish_stage_state rid
               (upd_stage eid (\<lambda>e. e\<lparr>se_boundary_outcome := Some Proceeded\<rparr>) ?s1))"
      by (auto simp: settle_stage_boundary_def Let_def res_simps split: if_splits)
    then show ?thesis
      using evolves_trans[OF s1 enter_pause_evolves[OF _ run]] by (auto intro!: evolves_chain)
  qed
qed

section \<open>Returns of a skill stage\<close>

text \<open>The stage execution an event is handled for: a running row of the run, at a skill stage.\<close>

definition at_stage :: "uuid \<Rightarrow> uuid \<Rightarrow> skill_stage \<Rightarrow> stage_exec \<Rightarrow> run_row \<Rightarrow> pipelines_db \<Rightarrow> bool" where
  "at_stage rid eid st e r s \<longleftrightarrow> stage_execs s eid = Some e \<and> se_run_id e = rid \<and> runs s rid = Some r \<and>
     r_state r = Running \<and> skill_at r e st \<and> se_status e = SRunning"

lemma at_stage_running: "at_stage rid eid st e r s \<Longrightarrow> running rid s"
  by (auto simp: at_stage_def running_def)

lemma at_stage_below: "at_stage rid eid st e r s \<Longrightarrow> below s t \<Longrightarrow> at_stage rid eid st e r t"
  by (simp add: at_stage_def below_def)

lemma at_stage_upd_stage:
  "at_stage rid eid st e r s \<Longrightarrow> same_stage e (f e) \<Longrightarrow> se_status (f e) = SRunning \<Longrightarrow>
     at_stage rid eid st (f e) r (upd_stage eid f s)"
  by (simp add: at_stage_def same_stage_def skill_at_def)

lemma record_pass_evolves: "evolves s (record_pass ph rid eid a ret s)"
  unfolding record_pass_def by (intro evolves_chain) simp

lemma record_pass_at_stage:
  assumes "at_stage rid eid st e r s"
  shows "\<exists>e'. at_stage rid eid st e' r (record_pass ph rid eid a ret s) \<and> se_phase e' = se_phase e \<and>
    se_kind e' = se_kind e"
  unfolding record_pass_def
  by (intro exI conjI, rule at_stage_below[OF at_stage_upd_stage[OF assms] publish_state_below(3)])
     (use assms in \<open>auto simp: same_stage_def at_stage_def\<close>)

lemma dispatch_review_at_stage:
  assumes "dispatch_review_invocation env rid st eid body s = Inr s'" and "at_stage rid eid st e r s"
    and "se_kind e = KSkill \<Longrightarrow> se_phase e \<in> {Some PMain, Some PFix}"
  shows "evolves s s'"
  using assms dispatch_review_invocation_evolves[OF assms(1)] by (auto simp: at_stage_def)

lemma handle_main_return_evolves:
  assumes h: "handle_main_return env rid st eid idx ko outs s = Inr s'" and e: "at_stage rid eid st e r s"
    and ph: "se_kind e = KSkill \<Longrightarrow> se_phase e \<in> {Some PMain, Some PFix}" and "actions_frame env"
  shows "evolves s s'"
proof -
  from h obtain x s1 where v: "validate_skill_return_and_artifact env rid st eid idx ko outs s = Inr (x, s1)"
    by (auto simp: handle_main_return_def res_simps)
  note v' = validate_evolves[OF v at_stage_running[OF e] assms(4)]
  show ?thesis
  proof (cases x)
    case None
    with h v v' show ?thesis by (simp add: handle_main_return_def)
  next
    case (Some y)
    obtain ret a body where y: "y = (ret, a, body)" by (cases y) auto
    let ?s2 = "record_pass PMain rid eid a ret s1"
    obtain e' where e': "at_stage rid eid st e' r ?s2" "se_phase e' = se_phase e" "se_kind e' = se_kind e"
      using record_pass_at_stage[OF at_stage_below[OF e v'(2)]] Some by blast
    have "evolves s ?s2" using evolves_trans[OF v'(1) record_pass_evolves] .
    also have "evolves ?s2 s'"
      using h v Some y settle_stage_boundary_evolves[OF _ at_stage_running[OF e'(1)] assms(4)]
        dispatch_review_at_stage[OF _ e'(1)] ph e'(2,3)
      by (auto simp: handle_main_return_def Let_def split: if_splits)
    finally show ?thesis .
  qed
qed

lemma handle_fix_return_evolves:
  assumes h: "handle_fix_return env rid st eid idx ko outs s = Inr s'" and e: "at_stage rid eid st e r s"
    and ph: "se_kind e = KSkill \<Longrightarrow> se_phase e \<in> {Some PMain, Some PFix}" and "actions_frame env"
  shows "evolves s s'"
proof -
  from h obtain x s1 where v: "validate_skill_return_and_artifact env rid st eid idx ko outs s = Inr (x, s1)"
    by (auto simp: handle_fix_return_def res_simps)
  note v' = validate_evolves[OF v at_stage_running[OF e] assms(4)]
  show ?thesis
  proof (cases x)
    case None
    with h v v' show ?thesis by (simp add: handle_fix_return_def)
  next
    case (Some y)
    obtain ret a body where y: "y = (ret, a, body)" by (cases y) auto
    let ?s2 = "record_pass PFix rid eid a ret s1"
    obtain e' where e': "at_stage rid eid st e' r ?s2" "se_phase e' = se_phase e" "se_kind e' = se_kind e"
      using record_pass_at_stage[OF at_stage_below[OF e v'(2)]] Some by blast
    have "evolves s ?s2" using evolves_trans[OF v'(1) record_pass_evolves] .
    also have "evolves ?s2 s'"
      using h v Some y dispatch_review_at_stage[OF _ e'(1)] ph e'(2,3) by (simp add: handle_fix_return_def)
    finally show ?thesis .
  qed
qed

lemma handle_review_return_evolves:
  assumes h: "handle_review_return env rid st eid idx ko outs s = Inr s'" and e: "at_stage rid eid st e r s"
    and "actions_frame env"
  shows "evolves s s'"
proof -
  from h obtain rc where rc: "sk_review st = Some rc" by (auto simp: handle_review_return_def res_simps)
  show ?thesis
  proof (cases "parse_review_return env (case get_str outs ''output'' of Some x \<Rightarrow> x | None \<Rightarrow> [])")
    case (Inl err)
    with h rc fail_stage_evolves show ?thesis by (auto simp: handle_review_return_def)
  next
    case (Inr ret)
    let ?it = "se_iteration e"
    have it: "se_iteration (stage_of s eid) = ?it" using e by (simp add: at_stage_def stage_of_def)
    note h' = h[unfolded handle_review_return_def rc require_simps ebind_simps Inr sum.case Let_def it]
    then obtain ids s1 where ra: "record_and_apply_review rid eid ret ?it s = Inr (ids, s1)"
      by (auto simp: res_simps)
    define f :: "stage_exec \<Rightarrow> stage_exec" where "f = (\<lambda>e. e\<lparr>se_loop_state := se_loop_state e @
                    [review_entry ?it ret ids (open_residuals eid s1)]\<rparr>)"
    define s3 where "s3 = publish_stage_state rid (upd_stage eid f s1)"
    note h'' = h'[unfolded ra ebind_simps prod.case, folded f_def, folded s3_def]
    have at: "at_stage rid eid st (f e) r s3"
      unfolding s3_def
      by (rule at_stage_below[OF at_stage_upd_stage[OF at_stage_below[OF e
            record_and_apply_review_below[OF ra]]] publish_state_below(2)])
         (use e in \<open>auto simp: f_def same_stage_def at_stage_def\<close>)
    have "evolves s s3"
      unfolding s3_def f_def using evolves_below[OF record_and_apply_review_below[OF ra]]
      by (intro evolves_chain) simp_all
    also have "evolves s3 s'"
    proof (cases "open_residuals eid s1 \<noteq> [] \<and> ?it < max_iterations rc")
      case True
      with h'' obtain body where
        "dispatch_fix_invocation env rid st eid idx ko body (open_residuals eid s1) s3 = Inr s'"
        by (auto simp: res_simps)
      then show ?thesis
        using at True rc
        by (intro dispatch_fix_invocation_evolves[where e = "f e" and r = r])
           (auto simp: at_stage_def iteration_cap_def f_def)
    next
      case False
      from h''[unfolded if_not_P[OF False]] show ?thesis
        by (rule settle_stage_boundary_evolves[OF _ at_stage_running[OF at] assms(3)])
    qed
    finally show ?thesis .
  qed
qed

lemma handle_review_stage_event_evolves:
  assumes h: "handle_review_stage_event env rid eid label outs s = Inr s'" and "running rid s"
    and "actions_frame env"
  shows "evolves s s'"
proof (cases "label = ''success'' \<and> (\<exists>ret. parse_review_return env
      (case get_str outs ''output'' of Some x \<Rightarrow> x | None \<Rightarrow> []) = Inr ret)")
  case False
  show ?thesis
  proof (cases "label = ''success''")
    case True
    with False obtain err where err: "parse_review_return env
        (case get_str outs ''output'' of Some x \<Rightarrow> x | None \<Rightarrow> []) = Inl err" by (metis sum.exhaust)
    from h True obtain st where st: "nth_stage (r_definition_snapshot (run_of s rid))
        (se_stage_index (stage_of s eid)) = Inr st"
      by (auto simp: handle_review_stage_event_def Let_def res_simps)
    from h True err show ?thesis
      unfolding handle_review_stage_event_def Let_def st ebind_simps
      by (cases st) (auto intro: fail_stage_evolves)
  next
    case False
    with h fail_stage_evolves show ?thesis by (auto simp: handle_review_stage_event_def Let_def)
  qed
next
  case True
  then obtain ret where label: "label = ''success''" and ret: "parse_review_return env
      (case get_str outs ''output'' of Some x \<Rightarrow> x | None \<Rightarrow> []) = Inr ret" by blast
  from h label obtain st where st: "nth_stage (r_definition_snapshot (run_of s rid))
      (se_stage_index (stage_of s eid)) = Inr st"
    by (auto simp: handle_review_stage_event_def Let_def res_simps)
  note h' = h[unfolded handle_review_stage_event_def Let_def st ebind_simps ret sum.case]
  from h' label obtain rv where rv: "st = ReviewSkillStage rv" by (cases st) auto
  note h' = h'[unfolded rv executable_stage.case]
  from h' label obtain ids s1 where ra: "record_and_apply_review rid eid ret 1 s = Inr (ids, s1)"
    by (auto simp: res_simps)
  note b = record_and_apply_review_below[OF ra]
  note h' = h'[unfolded ra ebind_simps prod.case]
  have neg: "\<not> label \<noteq> ''success''" using label by simp
  show ?thesis
    by (rule evolves_trans[OF evolves_then_stage[OF evolves_below[OF b]]
          settle_stage_boundary_evolves[OF h'[unfolded if_not_P[OF neg]] _ assms(3)]])
       (use running_below[OF b] assms(2) in simp_all)
qed

section \<open>Agent events\<close>

lemma dispatch_refresh_auth_evolves:
  assumes "dispatch_refresh_auth env rid s = Inr s'" and "runs s rid = Some r"
  shows "evolves s s'"
proof -
  obtain eid s1 where a: "add_stage rid None KSystem SYSTEM_STAGE_REFRESH_AUTH None None None 0 s = (eid, s1)"
    by fastforce
  with assms(1) obtain w org pl c s2 where
    c: "dispatch_auth_refresh env w (system_command_context rid eid s1) org pl s1 = Inr (c, s2)"
    and s': "s' = park rid c s2"
    by (auto simp: dispatch_refresh_auth_def Let_def res_simps split: option.splits)
  have "evolves s s1" using add_stage_evolves(1)[OF a assms(2)] by simp
  also have "evolves s1 s2" by (rule evolves_below[OF dispatch_auth_refresh_below[OF c]])
  finally show ?thesis unfolding s' by (rule park_evolves)
qed

lemma loops_ok_phase:
  assumes "loops_ok s" and "stage_execs s eid = Some e" and "se_status e = SRunning" and "se_kind e = KSkill"
  shows "se_phase e \<noteq> None"
proof -
  obtain r where "loop_ok r e" using assms(1,2) unfolding loops_ok_def by blast
  with assms(3,4) obtain sk where "phase_ok sk e" unfolding loop_ok_def by blast
  then show ?thesis by (cases "se_phase e") (auto simp: phase_ok_def)
qed

lemma handle_skill_stage_event_evolves:
  assumes h: "handle_skill_stage_event env rid eid label outs s = Inr s'"
    and e: "stage_execs s eid = Some e" "se_run_id e = rid" "se_status e = SRunning"
    and r: "runs s rid = Some r" "r_state r = Running" and act: "actions_frame env"
  shows "evolves s s'"
proof (rule evolves_assuming)
  assume ok: "engine_ok s"
  have so: "stage_of s eid = e" "run_of s rid = r" using e r by (simp_all add: stage_of_def run_of_def)
  show ?thesis
  proof (cases "label = ''success''")
    case False
    let ?reason = "or_else (get_str outs ''error_message'') label"
    let ?s1 = "upd_run rid (\<lambda>r'. r'\<lparr>r_sendback_counts :=
        AList.update (auth_retry_key (se_stage_name e)) 1 (r_sendback_counts r)\<rparr>) s"
    let ?s2 = "publish_stage_state rid (upd_stage eid (\<lambda>e. e\<lparr>se_status := SFailed,
        se_failure_reason := Some ?reason, se_completed_at := Some (now s)\<rparr>) ?s1)"
    from h False so have "dispatch_refresh_auth env rid ?s2 = Inr s' \<or> (\<exists>i m. s' = fail_stage rid eid i m s)"
      by (auto simp: handle_skill_stage_event_def Let_def split: if_splits)
    moreover have "evolves s ?s2"
      by (rule evolves_trans[OF count_update_evolves[OF r(1) refl]],
          rule evolves_then_below[OF _ publish_state_below(2)], rule evolves_stage) simp
    moreover have "\<exists>q. runs ?s2 rid = Some q"
      using r(1) belowD(1)[OF publish_state_below(2)] by simp
    ultimately show ?thesis
      using dispatch_refresh_auth_evolves fail_stage_evolves evolves_trans by blast
  next
    case True
    then have neg: "\<not> label \<noteq> ''success''" by simp
    note h1 = h[unfolded handle_skill_stage_event_def Let_def if_not_P[OF neg] so]
    then obtain st where st: "nth_stage (r_definition_snapshot r) (se_stage_index e) = Inr st"
      by (auto simp: res_simps)
    then obtain i where i': "se_stage_index e = Some i" "i < length (r_definition_snapshot r)"
      "r_definition_snapshot r ! i = st" by (auto simp: nth_stage_Inr)
    obtain sk where i: "se_stage_index e = Some i" "i < length (r_definition_snapshot r)"
      "r_definition_snapshot r ! i = SkillStage sk"
      and h': "(if se_phase e = Some PReview then handle_review_return env rid sk eid i (r_kickoff r) outs s
         else if se_phase e = Some PFix then handle_fix_return env rid sk eid i (r_kickoff r) outs s
         else handle_main_return env rid sk eid i (r_kickoff r) outs s) = Inr s'"
      using h1[unfolded st ebind_simps, unfolded i'(1) option.sel] i' by (cases st) auto
    have at: "at_stage rid eid sk e r s" using e r i by (auto simp: at_stage_def skill_at_def)
    have "se_phase e \<noteq> None" if "se_kind e = KSkill"
      using loops_ok_phase[OF _ e(1,3) that] ok by (simp add: engine_ok_def)
    then have ph: "se_phase e \<in> {Some PMain, Some PFix}" if "se_kind e = KSkill" "se_phase e \<noteq> Some PReview"
      using that by (cases "se_phase e"; cases "the (se_phase e)") auto
    show ?thesis
    proof (cases "se_phase e = Some PReview")
      case True
      with h' handle_review_return_evolves[OF _ at act] show ?thesis by simp
    next
      case False
      with h' handle_main_return_evolves[OF _ at _ act] handle_fix_return_evolves[OF _ at _ act] ph
      show ?thesis by (auto split: if_splits)
    qed
  qed
qed

lemma handle_system_stage_event_evolves:
  assumes h: "handle_system_stage_event env rid eid label outs s = Inr s'" and run: "running rid s"
  shows "evolves s s'"
proof -
  let ?s0 = "upd_stage eid (\<lambda>e. e\<lparr>se_completed_at := Some (now s)\<rparr>) s"
  show ?thesis
  proof (cases "label = ''success''")
    case False
    let ?reason = "or_else (get_str outs ''error_message'') label"
    let ?s1 = "upd_stage eid (\<lambda>e. e\<lparr>se_status := SFailed, se_failure_reason := Some ?reason\<rparr>) ?s0"
    have "evolves s ?s1" by (intro evolves_chain) simp_all
    also have "evolves ?s1 s'"
      using h False run finalize_after_cleanup_evolves[of env rid ?s1 s']
        finish_or_cleanup_evolves[of env rid _ _ ?s1 s']
      by (auto simp: handle_system_stage_event_def Let_def split: if_splits)
    finally show ?thesis .
  next
    case True
    let ?s1 = "upd_stage eid (\<lambda>e. e\<lparr>se_status := SCompleted\<rparr>) ?s0"
    have run1: "running rid ?s1" using run by simp
    then obtain r where r: "runs ?s1 rid = Some r" "run_of ?s1 rid = r" by (auto simp: running_def run_of_def)
    have "evolves s ?s1" by (intro evolves_chain) simp_all
    also have "evolves ?s1 s'"
    proof (cases "se_stage_name (stage_of s eid) = SYSTEM_STAGE_REFRESH_AUTH")
      case name: True
      have names: "SYSTEM_STAGE_REFRESH_AUTH \<noteq> SYSTEM_STAGE_PROVISION"
        "SYSTEM_STAGE_REFRESH_AUTH \<noteq> SYSTEM_STAGE_CLEANUP"
        by (simp_all add: SYSTEM_STAGE_PROVISION_def SYSTEM_STAGE_CLEANUP_def SYSTEM_STAGE_REFRESH_AUTH_def)
      let ?next = "\<lambda>st i. case st of SkillStage sk \<Rightarrow> dispatch_skill_stage env rid sk i (r_kickoff r) None ?s1
            | _ \<Rightarrow> finish_or_cleanup env rid RFailed
                     (Some ''refresh-auth recovery reached a non-skill stage'') ?s1"
      have "ebind (nth_stage (r_definition_snapshot r) (r_current_stage_index r))
          (\<lambda>st. ?next st (the (r_current_stage_index r))) = Inr s'"
        using h names True name
        unfolding handle_system_stage_event_def Let_def r(2) by (simp only: if_True if_False simp_thms)
      then obtain st i where i: "r_current_stage_index r = Some i"
        "i < length (r_definition_snapshot r)" "st = r_definition_snapshot r ! i" and h': "?next st i = Inr s'"
        by (auto simp only: ebind_eq_Inr nth_stage_Inr option.sel)
      show ?thesis
      proof (cases "\<exists>sk. st = SkillStage sk")
        case True
        then obtain sk where sk: "st = SkillStage sk" by blast
        show ?thesis
          using dispatch_skill_stage_evolves[OF h'[unfolded sk executable_stage.case] r(1) i(2)] i(3) sk by simp
      next
        case False
        with h' show ?thesis by (cases st) (auto intro: finish_or_cleanup_evolves[OF _ run1])
      qed
    next
      case False
      with True h r have "s' = ?s1 \<or> finalize_after_cleanup env rid ?s1 = Inr s' \<or>
          s' = enqueue (StartStage rid (r_current_stage_index r)) (upd_run rid (\<lambda>r. r\<lparr>r_phase := PhStages\<rparr>) ?s1)"
        by (auto simp: handle_system_stage_event_def Let_def split: if_splits)
      then show ?thesis
        using finalize_after_cleanup_evolves[OF _ run1] by (auto intro!: evolves_chain simp: same_run_def)
    qed
    finally show ?thesis .
  qed
qed

lemma handle_agent_event_evolves:
  assumes h: "handle_agent_event env rid_opt c label outs s = Inr s'" and act: "actions_frame env"
  shows "evolves s s'"
proof (rule evolves_assuming)
  assume "engine_ok s"
  then have k: "keyed_rows se_id (next_id s) (stage_execs s)" by (simp add: engine_ok_def keys_ok_def)
  show ?thesis
  proof (cases "s' = s")
    case False
    with h obtain rid r e where r: "rid_opt = Some rid" "runs s rid = Some r" "r_state r = Running"
      and e: "running_stage rid s = Some e"
      and h': "(case se_kind e of
           KSystem \<Rightarrow> handle_system_stage_event env rid (se_id e) label outs
             (upd_run rid (\<lambda>r. r\<lparr>r_pending_agent_command_id := None\<rparr>) s)
         | KReview \<Rightarrow> handle_review_stage_event env rid (se_id e) label outs
             (upd_run rid (\<lambda>r. r\<lparr>r_pending_agent_command_id := None\<rparr>) s)
         | _ \<Rightarrow> handle_skill_stage_event env rid (se_id e) label outs
             (upd_run rid (\<lambda>r. r\<lparr>r_pending_agent_command_id := None\<rparr>) s)) = Inr s'"
      unfolding handle_agent_event_def Let_def by (auto split: option.splits if_splits)
    let ?s1 = "upd_run rid (\<lambda>r. r\<lparr>r_pending_agent_command_id := None\<rparr>) s"
    have e': "stage_execs ?s1 (se_id e) = Some e" "se_run_id e = rid" "se_status e = SRunning"
      using latest_by_mem[OF e[unfolded running_stage_def]] keyed_select_mem[OF k] by auto
    obtain r' where r': "runs ?s1 rid = Some r'" "r_state r' = Running" using r by auto
    have "evolves s ?s1" by (intro evolves_chain) (simp add: same_run_def)
    also have "evolves ?s1 s'"
      using h' handle_system_stage_event_evolves[of env rid "se_id e" label outs ?s1 s']
        handle_review_stage_event_evolves[of env rid "se_id e" label outs ?s1 s']
        handle_skill_stage_event_evolves[OF _ e' r' act] r' act
      by (auto simp: running_def split: stage_kind.splits)
    finally show ?thesis .
  qed simp
qed

section \<open>Resolving a pause\<close>

text \<open>Closing the pause and the run's return to running form one step.\<close>

lemma resume_evolves:
  assumes "pauses s pid = Some p" and "open_pause p" and "p_run_id p = rid"
    and "\<And>p. p_id (g p) = p_id p \<and> p_run_id (g p) = p_run_id p \<and> \<not> open_pause (g p)"
    and "below (upd_pause pid g s) t"
    and "\<And>r. same_run r (f r) \<and> r_state (f r) = Running \<and> r_sendback_counts (f r) = r_sendback_counts r"
  shows "evolves s (upd_run rid f t)" "engine_ok s \<Longrightarrow> running rid (upd_run rid f t)"
proof -
  show "evolves s (upd_run rid f t)" using assms by (intro evolves_step e_resume) auto
  assume "engine_ok s"
  then have "pauses_ok s" by (simp add: engine_ok_def)
  with assms(1-3) obtain r where "runs s rid = Some r" unfolding pauses_ok_def by blast
  then show "running rid (upd_run rid f t)" using belowD(1)[OF assms(5)] assms(6) by (simp add: running_def)
qed

lemma cancel_paused_evolves:
  assumes "cancel_paused env rid pid s = Inr s'" and "pauses s pid = Some p" "open_pause p" "p_run_id p = rid"
  shows "evolves s s'"
proof (rule evolves_assuming)
  assume ok: "engine_ok s"
  note res = resume_evolves[OF assms(2-4), where g = "\<lambda>p. p\<lparr>p_resolved_at := Some (now s)\<rparr>"
      and f = "\<lambda>r. r\<lparr>r_state := Running, r_cancel_requested := True\<rparr>", OF _ below_refl]
  show ?thesis
    by (rule evolves_trans[OF res(1) finish_or_cleanup_evolves[OF assms(1)[unfolded cancel_paused_def] res(2)]])
       (auto simp: ok same_run_def open_pause_def)
qed

lemma get_open_pause_Some:
  assumes "get_open_pause_for_run rid s = Inr (Some p)" and "engine_ok s"
  shows "pauses s (p_id p) = Some p" "open_pause p" "p_run_id p = rid"
proof -
  have k: "keyed_rows p_id (next_id s) (pauses s)" using assms(2) by (simp add: engine_ok_def keys_ok_def)
  have "p \<in> set (select (pauses s) (next_id s) (\<lambda>p. p_run_id p = rid \<and> p_resolved_at p = None))"
    using assms(1) by (auto simp: get_open_pause_for_run_def one_or_none_def split: list.splits)
  then show "pauses s (p_id p) = Some p" "open_pause p" "p_run_id p = rid"
    unfolding keyed_select_mem[OF k] open_pause_def by auto
qed

lemma request_cancel_evolves:
  assumes "request_cancel env org rid act s = Inr s'"
  shows "evolves s s'"
proof (rule evolves_assuming)
  assume ok: "engine_ok s"
  from assms obtain run where run: "runs s rid = Some run" "run_in_org rid org s = Some run"
    by (auto simp: request_cancel_def res_simps run_in_org_def split: option.splits if_splits)
  note h = assms[unfolded request_cancel_def run(2) require_simps ebind_simps]
  show ?thesis
  proof (cases "r_state run")
    case Queued
    then show ?thesis using h cancel_queued_evolves[OF run(1)] by (auto simp: run_terminal_def)
  next
    case Running
    then show ?thesis using h by (auto simp: run_terminal_def same_run_def intro!: evolves_chain)
  next
    case Paused
    with h obtain p where p: "get_open_pause_for_run rid s = Inr (Some p)"
      and c: "cancel_paused env rid (p_id p) s = Inr s'"
      by (auto simp: run_terminal_def res_simps)
    show ?thesis by (rule cancel_paused_evolves[OF c get_open_pause_Some[OF p ok]])
  qed (use h in \<open>simp_all add: run_terminal_def\<close>)
qed

lemma resume_from_pause_keeps:
  assumes h: "resume_from_pause pause rid t = Inr s'"
    and res: "\<And>f. (\<And>r. same_run r (f r) \<and> r_state (f r) = Running \<and>
        r_sendback_counts (f r) = r_sendback_counts r) \<Longrightarrow> Q (upd_run rid f t)"
    and keep: "\<And>u v. Q u \<Longrightarrow> evolves u v \<Longrightarrow> Q v"
  shows "Q s'"
proof (rule keep)
  show "Q (upd_run rid (\<lambda>r. r\<lparr>r_state := Running\<rparr>) t)" by (rule res) (simp add: same_run_def)
  show "evolves (upd_run rid (\<lambda>r. r\<lparr>r_state := Running\<rparr>) t) s'"
    using h by (auto simp: resume_from_pause_def Let_def res_simps intro!: evolves_below below_chain)
qed

lemma resume_with_instruction_keeps:
  assumes h: "resume_with_instruction env pause rid ins t = Inr s'" and "actions_frame env"
    and res: "\<And>f. (\<And>r. same_run r (f r) \<and> r_state (f r) = Running \<and>
        r_sendback_counts (f r) = r_sendback_counts r) \<Longrightarrow> Q (upd_run rid f t)"
    and keep: "\<And>u v. Q u \<Longrightarrow> evolves u v \<Longrightarrow> Q v"
  shows "Q s'"
proof -
  from h obtain rv idx tk org where
    "start_stage env rid (Some idx) (publish_run_state rid (snd (transition_ticket_on_run_resumed tk org rid
       (upd_run rid (\<lambda>r. r\<lparr>r_kickoff := (r_kickoff r)\<lparr>ko_revision := Some rv\<rparr>,
                                 r_current_stage_index := Some idx, r_state := Running\<rparr>) t)))) = Inr s'"
    by (auto simp: resume_with_instruction_def Let_def res_simps)
  note h' = start_stage_evolves[OF this assms(2)]
  let ?f = "\<lambda>r. r\<lparr>r_kickoff := (r_kickoff r)\<lparr>ko_revision := Some rv\<rparr>,
                                 r_current_stage_index := Some idx, r_state := Running\<rparr>"
  have "Q (upd_run rid ?f t)" by (rule res) (simp add: same_run_def)
  then show ?thesis
    by (rule keep[OF keep h']) (intro evolves_below below_chain below_refl)
qed

lemma resume_with_send_back_keeps:
  assumes h: "resume_with_send_back env rid eid ti ts t = Inr s'" and "actions_frame env"
    and res: "Q (upd_run rid (\<lambda>r. r\<lparr>r_state := Running\<rparr>) t)"
    and run: "running rid (upd_run rid (\<lambda>r. r\<lparr>r_state := Running\<rparr>) t)"
    and keep: "\<And>u v. Q u \<Longrightarrow> evolves u v \<Longrightarrow> Q v"
  shows "Q s'"
proof -
  let ?s1 = "upd_run rid (\<lambda>r. r\<lparr>r_state := Running\<rparr>) t"
  let ?s3 = "publish_run_state rid (snd (transition_ticket_on_run_resumed (r_ticket_id (run_of ?s1 rid))
      (r_org_id (run_of ?s1 rid)) rid ?s1))"
  have b: "below ?s1 ?s3" by (intro below_chain below_refl)
  have "send_back_to_stage env rid eid ti ts [] (r_kickoff (run_of t rid)) ?s3 = Inr s'"
    using h by (simp add: resume_with_send_back_def Let_def)
  from send_back_to_stage_evolves[OF this _ assms(2)] running_below[OF b, of rid] run
  have "evolves ?s3 s'" by blast
  then show ?thesis by (rule keep[OF keep[OF res evolves_below[OF b]]])
qed

lemma resolve_pause_shape:
  assumes "resolve_pause env org pid body act s = Inr s'"
  shows "\<exists>pause g t. pauses s pid = Some pause \<and> open_pause pause \<and> p_org_id pause = org \<and>
     (\<forall>p. p_id (g p) = p_id p \<and> p_run_id (g p) = p_run_id p \<and> p_resolved_at (g p) = Some (now s) \<and>
        p_resolution (g p) = Some (pb_action body) \<and> p_resolved_by (g p) = actor_user_id act) \<and>
     below (upd_pause pid g s) t \<and>
     (resume_from_pause pause (p_run_id pause) t = Inr s' \<or>
      (\<exists>ins. resume_with_instruction env pause (p_run_id pause) ins t = Inr s') \<or>
      (\<exists>ti ts. resume_with_send_back env (p_run_id pause) (p_stage_execution_id pause) ti ts t = Inr s') \<or>
      kill_run env (p_run_id pause) t = Inr s')"
proof -
  from assms obtain pause where p: "pauses s pid = Some pause" by (auto simp: resolve_pause_def split: option.splits)
  from assms[unfolded resolve_pause_def p option.case] obtain u tgt run where
    u: "actor_user_id act = Some u" "open_pause pause" "p_org_id pause = org"
    and h: "(let rid = p_run_id pause;
         s1 = upd_pause pid (\<lambda>p. p\<lparr>p_resolution := Some (pb_action body),
                p_instruction := pb_instruction body,
                p_send_back_to_stage := pb_send_back_to_stage body,
                p_resolved_by := Some u, p_resolved_at := Some (now s)\<rparr>) s;
         s2 = audit ''pipeline_run'' rid ''run.pause_resolved''
                (JObj [(''action'', JStr (resolution_str (pb_action body)))]) act org s1
     in (case pb_action body of
           Approve \<Rightarrow> resume_from_pause pause rid s2
         | Instruct \<Rightarrow> resume_with_instruction env pause rid (or_else (pb_instruction body) []) s2
         | ResSendBack \<Rightarrow>
             ebind (require tgt AssertionError) (\<lambda>(target_index, target_stage).
             resume_with_send_back env rid (p_stage_execution_id pause) target_index target_stage s2)
         | Kill \<Rightarrow> kill_run env rid s2)) = Inr s'"
    unfolding ebind_eq_Inr require_eq guard_eq open_pause_def by blast
  define g where "g = (\<lambda>p::pause_row. p\<lparr>p_resolution := Some (pb_action body), p_instruction := pb_instruction body,
                p_send_back_to_stage := pb_send_back_to_stage body,
                p_resolved_by := Some u, p_resolved_at := Some (now s)\<rparr>)"
  define t where "t = audit ''pipeline_run'' (p_run_id pause) ''run.pause_resolved''
                (JObj [(''action'', JStr (resolution_str (pb_action body)))]) act org (upd_pause pid g s)"
  note h' = h[unfolded Let_def, folded g_def, folded t_def]
  have "resume_from_pause pause (p_run_id pause) t = Inr s' \<or>
      (\<exists>ins. resume_with_instruction env pause (p_run_id pause) ins t = Inr s') \<or>
      (\<exists>ti ts. resume_with_send_back env (p_run_id pause) (p_stage_execution_id pause) ti ts t = Inr s') \<or>
      kill_run env (p_run_id pause) t = Inr s'"
    using h' by (cases "pb_action body") (auto simp: res_simps)
  moreover have "below (upd_pause pid g s) t" unfolding t_def by (rule below_infra)
  moreover have "p_id (g p) = p_id p \<and> p_run_id (g p) = p_run_id p \<and> p_resolved_at (g p) = Some (now s) \<and>
      p_resolution (g p) = Some (pb_action body) \<and> p_resolved_by (g p) = actor_user_id act" for p
    by (simp add: g_def u)
  ultimately show ?thesis using p u by blast
qed

text \<open>
  What a resolution does, for a property \<open>Q\<close> that later engine steps keep: it holds at the end when it
  holds once the pause is closed and its run is running.
\<close>

lemma resolve_pause_keeps:
  assumes "resolve_pause env org pid body act s = Inr s'" and act: "actions_frame env" and ok: "engine_ok s"
    and keep: "\<And>u v. Q u \<Longrightarrow> evolves u v \<Longrightarrow> Q v"
    and closed: "\<And>pause g t f. pauses s pid = Some pause \<Longrightarrow> open_pause pause \<Longrightarrow>
      (\<And>p. p_id (g p) = p_id p \<and> p_run_id (g p) = p_run_id p \<and> p_resolved_at (g p) = Some (now s) \<and>
        p_resolution (g p) = Some (pb_action body) \<and> p_resolved_by (g p) = actor_user_id act) \<Longrightarrow>
      below (upd_pause pid g s) t \<Longrightarrow> evolves s (upd_run (p_run_id pause) f t) \<Longrightarrow> Q (upd_run (p_run_id pause) f t)"
  shows "Q s'"
proof -
  from resolve_pause_shape[OF assms(1)] obtain pause g t where p: "pauses s pid = Some pause" "open_pause pause"
    and g: "\<And>p. p_id (g p) = p_id p \<and> p_run_id (g p) = p_run_id p \<and> p_resolved_at (g p) = Some (now s) \<and>
        p_resolution (g p) = Some (pb_action body) \<and> p_resolved_by (g p) = actor_user_id act"
    and t: "below (upd_pause pid g s) t" and cont: "resume_from_pause pause (p_run_id pause) t = Inr s' \<or>
      (\<exists>ins. resume_with_instruction env pause (p_run_id pause) ins t = Inr s') \<or>
      (\<exists>ti ts. resume_with_send_back env (p_run_id pause) (p_stage_execution_id pause) ti ts t = Inr s') \<or>
      kill_run env (p_run_id pause) t = Inr s'" by blast
  let ?rid = "p_run_id pause" and ?f = "\<lambda>r. r\<lparr>r_state := Running\<rparr>"
  have g': "p_id (g p) = p_id p \<and> p_run_id (g p) = p_run_id p \<and> \<not> open_pause (g p)" for p
    using g[of p] by (simp add: open_pause_def)
  note res = resume_evolves[OF p refl g' t]
  have Q: "Q (upd_run ?rid f t)" if "\<And>r. same_run r (f r) \<and> r_state (f r) = Running \<and>
      r_sendback_counts (f r) = r_sendback_counts r" for f
    by (rule closed[OF p g t res(1)[OF that]])
  have f: "same_run r (?f r) \<and> r_state (?f r) = Running \<and> r_sendback_counts (?f r) = r_sendback_counts r" for r
    by (simp add: same_run_def)
  note run = res(2)[of ?f, OF f ok]
  from cont show ?thesis
  proof (elim disjE exE)
    assume "resume_from_pause pause ?rid t = Inr s'"
    then show ?thesis by (rule resume_from_pause_keeps[where Q = Q, OF _ Q keep])
  next
    fix ins assume "resume_with_instruction env pause ?rid ins t = Inr s'"
    then show ?thesis by (rule resume_with_instruction_keeps[where Q = Q, OF _ act Q keep])
  next
    fix ti ts assume "resume_with_send_back env ?rid (p_stage_execution_id pause) ti ts t = Inr s'"
    then show ?thesis by (rule resume_with_send_back_keeps[where Q = Q, OF _ act Q[of ?f, OF f] run keep])
  next
    assume "kill_run env ?rid t = Inr s'"
    from keep[OF Q[of ?f, OF f] finish_or_cleanup_evolves[OF this[unfolded kill_run_def] run]]
    show ?thesis .
  qed
qed

lemma resolve_pause_evolves:
  assumes "resolve_pause env org pid body act s = Inr s'" and "actions_frame env"
  shows "evolves s s'"
proof (rule evolves_assuming)
  assume "engine_ok s"
  then show ?thesis by (rule resolve_pause_keeps[OF assms]) (auto intro: evolves_trans)
qed

section \<open>Sweeper\<close>

lemma resume_stalled_runs_evolves: "evolves s (resume_stalled_runs n s)"
proof -
  have stale: "evolves t (reconcile_one_stale r t)" for r t
    by (simp add: reconcile_one_stale_def evolves_below below_infra split: option.split stage_status.split)
  have lost: "evolves t (reconcile_one_lost r t)" for r t
    by (simp add: reconcile_one_lost_def evolves_below below_infra split: option.split)
  have orphan: "evolves t (reconcile_one_orphan k t)" for k t
    by (simp add: reconcile_one_orphan_def promote_oldest_queued_evolves)
  show ?thesis
    unfolding resume_stalled_runs_def Let_def reconcile_orphaned_queued_def reconcile_lost_resume_def
      reconcile_stale_running_def
    by (rule evolves_trans[OF evolves_trans[OF fold_evolves fold_evolves] fold_evolves])
       (rule stale lost orphan)+
qed

section \<open>Starting runs\<close>

lemma insert_run_evolves:
  assumes "insert_run org t pid n xs idx ko u s = Inr (rid, s1)" and "snapshot_ok xs"
  shows "evolves s s1" "\<exists>r. runs s1 rid = Some r"
proof -
  let ?r = "new_run (next_id s) org t pid n xs idx ko u (now s)"
  have s1: "rid = next_id s" "s1 = s\<lparr>next_id := Suc (next_id s), runs := (runs s)(next_id s \<mapsto> ?r)\<rparr>"
    using assms(1) by (auto simp: insert_run_def fresh_def split: if_splits)
  show "evolves s s1"
    unfolding s1(2) using assms(2) by (intro evolves_step e_new_run) (simp_all add: new_run_def)
  show "\<exists>r. runs s1 rid = Some r" using s1 by simp
qed

lemma insert_and_promote_evolves:
  assumes "insert_run org t pid n xs idx ko u s = Inr (rid, s1)" and "snapshot_ok xs"
  shows "evolves s (snd (attempt_promotion rid s1))"
  using insert_run_evolves[OF assms] attempt_promotion_evolves evolves_trans by blast

end
