(* ===== verification/System.thy ===== *)
theory System
  imports EngineRefine
begin

text \<open>
  The whole pipelines system as a transition system over the database: the three task bodies with
  arbitrary arguments (tasks are delivered at least once and in any order), the service calls, the
  stall sweeper, and every other transaction, which is \<open>below\<close>. \<open>sys_ok\<close> is its invariant: the
  engine invariant together with well-formed, flattenable definitions.
\<close>

section \<open>Definitions of an organisation\<close>

definition rows_ok :: "(uuid \<times> pipeline_row) list \<Rightarrow> bool" where
  "rows_ok ps \<longleftrightarrow> distinct (map fst ps) \<and>
     (\<forall>(k, row) \<in> set ps. pd_id (pi_definition row) = k \<and> definition_ok (pi_definition row))"

definition defs_ok :: "pipelines_db \<Rightarrow> bool" where
  "defs_ok s \<longleftrightarrow> rows_ok (pipelines s) \<and> (\<forall>org. flattenable (load_org_definitions org s))"

lemma defs_ok_cong: "pipelines s' = pipelines s \<Longrightarrow> defs_ok s' = defs_ok s"
  by (simp add: defs_ok_def load_org_definitions_def)

definition org_rows :: "uuid \<Rightarrow> (uuid \<times> pipeline_row) list \<Rightarrow> org_definitions" where
  "org_rows org ps = map (\<lambda>(k, row). (k, pi_definition row)) (filter (\<lambda>(k, row). pi_org_id row = org) ps)"

lemma load_org_rows: "load_org_definitions org s = org_rows org (pipelines s)"
  by (simp add: load_org_definitions_def org_rows_def)

lemma keyed_org_rows: "rows_ok ps \<Longrightarrow> keyed (org_rows org ps)"
  by (auto simp: rows_ok_def keyed_def org_rows_def)

lemma org_rows_mem: "(k, d) \<in> set (org_rows org ps) \<longleftrightarrow>
    (\<exists>row. (k, row) \<in> set ps \<and> pi_org_id row = org \<and> d = pi_definition row)"
  by (auto simp: org_rows_def)

lemma org_rows_simps [simp]:
  "org_rows org [] = []"
  "org_rows org ((k, row) # ps) =
     (if pi_org_id row = org then (k, pi_definition row) # org_rows org ps else org_rows org ps)"
  by (simp_all add: org_rows_def)

lemma org_rows_append:
  assumes "map_of ps k = None"
  shows "org_rows org (ps @ [(k, row)]) =
    (if pi_org_id row = org then AList.update k (pi_definition row) (org_rows org ps) else org_rows org ps)"
  using assms
proof (induction ps)
  case (Cons p ps)
  then show ?case by (cases p) (simp split: if_splits)
qed simp

lemma org_rows_update:
  assumes "map_of ps k = Some old" and "pi_org_id old = pi_org_id row"
  shows "org_rows org (AList.update k row ps) =
    (if pi_org_id row = org then AList.update k (pi_definition row) (org_rows org ps) else org_rows org ps)"
  using assms
proof (induction ps)
  case (Cons p ps)
  then show ?case by (cases p) (simp split: if_splits)
qed simp

lemma org_rows_delete: "org_rows org (AList.delete k ps) = AList.delete k (org_rows org ps)"
proof (induction ps)
  case (Cons p ps)
  then show ?case by (cases p) auto
qed simp

text \<open>A definition that calls itself has no expansion.\<close>

lemma expands_call_smaller:
  assumes "expands org sts xs n" and "PipelineCallStage c \<in> set sts" and "map_of org (cs_pipeline_id c) = Some d"
  shows "\<exists>ys m. expands org (pd_stages d) ys m \<and> m < n"
  using assms by (induction rule: expands.induct) fastforce+

lemma flattenable_no_self_call:
  assumes "keyed org" and "flattenable org" and "distinct (map fst org)"
  shows "(p, p) \<notin> calls org"
proof
  assume "(p, p) \<in> calls org"
  then obtain d c where d: "map_of org p = Some d" and c: "PipelineCallStage c \<in> set (pd_stages d)" "cs_pipeline_id c = p"
    using assms(3) unfolding calls_def call_targets_def List.map_filter_def
    by (auto split: stage.splits if_splits)
  obtain xs where "flatten d org = Inr xs" using assms(2) d unfolding flattenable_def by blast
  then obtain n where n: "expands org (pd_stages d) xs n"
    using d flatten_iff_expands[OF assms(1), of d] keyedD[OF assms(1) d] by auto
  from expands_call_smaller[OF this c(1)] c(2) d obtain ys m where "expands org (pd_stages d) ys m" "m < n" by auto
  with expands_deterministic[OF n] show False by blast
qed

lemma distinct_org_rows: "distinct (map fst ps) \<Longrightarrow> distinct (map fst (org_rows org ps))"
proof (induction ps)
  case (Cons p ps)
  moreover have "fst ` set (org_rows org ps) \<subseteq> fst ` set ps" by (force simp: org_rows_mem)
  ultimately show ?case by (cases p) auto
qed simp

lemma set_delete: "set (AList.delete k ps) \<subseteq> set ps"
  by (auto simp: AList.delete_eq)

lemma set_update_subset: "set (AList.update k v ps) \<subseteq> insert (k, v) (set ps)"
  by (induction ps) auto

section \<open>The CRUD operations keep the definitions well-formed\<close>

lemma audit_pipelines [simp]: "pipelines (audit_for_pipeline i k p a org s) = pipelines s"
  by (simp add: audit_for_pipeline_def audit_def)

lemma create_pipeline_defs_ok:
  assumes "create_pipeline org d act s = Inr (i, s')" and "definition_ok d" and "defs_ok s"
  shows "defs_ok s'"
proof -
  let ?row = "\<lparr>pi_org_id = org, pi_definition = d, pi_updated_by = actor_user_id act\<rparr>"
  from assms(1) have v: "validate_definition d (org_rows org (pipelines s)) = Inr ()"
    and new: "map_of (pipelines s) (pd_id d) = None" and s': "pipelines s' = pipelines s @ [(pd_id d, ?row)]"
    by (auto simp: create_pipeline_def Let_def res_simps load_org_rows)
  have "rows_ok (pipelines s')"
    using assms(2,3) new unfolding s' by (auto simp: defs_ok_def rows_ok_def map_of_eq_None_iff)
  moreover have "flattenable (org_rows o' (pipelines s'))" for o'
    using assms(3) validate_preserves_flattenable[OF v keyed_org_rows]
    unfolding s' org_rows_append[OF new] by (auto simp: defs_ok_def load_org_rows)
  ultimately show ?thesis by (simp add: defs_ok_def load_org_rows)
qed

lemma update_pipeline_defs_ok:
  assumes "update_pipeline org pid d0 act s = Inr s'" and "definition_ok d0" and "defs_ok s"
  shows "defs_ok s'"
proof -
  let ?d = "d0\<lparr>pd_id := pid\<rparr>"
  let ?row = "\<lparr>pi_org_id = org, pi_definition = ?d, pi_updated_by = actor_user_id act\<rparr>"
  from assms(1) obtain old where old: "map_of (pipelines s) pid = Some old" "pi_org_id old = org"
    by (auto simp: update_pipeline_def Let_def res_simps get_row_def split: option.splits if_splits)
  from assms(1) have v: "validate_definition ?d (org_rows org (pipelines s)) = Inr ()"
    and s': "pipelines s' = AList.update pid ?row (pipelines s)"
    by (auto simp: update_pipeline_def Let_def res_simps load_org_rows)
  have "rows_ok (pipelines s')"
    using assms(2,3) distinct_update[of "pipelines s" pid ?row] set_update_subset[of pid ?row "pipelines s"]
    unfolding s' by (fastforce simp: defs_ok_def rows_ok_def definition_ok_def)
  moreover have "flattenable (org_rows o' (pipelines s'))" for o'
    using assms(3) validate_preserves_flattenable[OF v keyed_org_rows]
    unfolding s' using org_rows_update[OF old(1), of ?row] old(2) by (auto simp: defs_ok_def load_org_rows)
  ultimately show ?thesis by (simp add: defs_ok_def load_org_rows)
qed

lemma delete_pipeline_defs_ok:
  assumes "delete_pipeline org pid act s = Inr s'" and ok: "defs_ok s"
  shows "defs_ok s'"
proof -
  let ?ps = "pipelines s"
  from assms(1) obtain row where row: "map_of ?ps pid = Some row" "pi_org_id row = org"
    by (auto simp: delete_pipeline_def res_simps get_row_def split: option.splits if_splits)
  from assms(1) have un: "\<not> pipeline_referenced_by_call org pid s"
    and s': "pipelines s' = AList.delete pid ?ps"
    by (auto simp: delete_pipeline_def res_simps split: if_splits)
  have rows: "rows_ok ?ps" using ok by (simp add: defs_ok_def)
  have "rows_ok (pipelines s')"
    using rows distinct_delete[of ?ps pid] set_delete[of pid ?ps] unfolding s' by (auto simp: rows_ok_def)
  moreover have "flattenable (org_rows o' (pipelines s'))" for o'
  proof -
    have flat: "flattenable (org_rows o' ?ps)" using ok by (simp add: defs_ok_def load_org_rows)
    have keyed: "keyed (org_rows o' ?ps)" using rows by (rule keyed_org_rows)
    show ?thesis
    proof (cases "o' = org")
      case True
      have "(p, pid) \<notin> calls (org_rows org ?ps)" for p
      proof (cases "p = pid")
        case True
        then show ?thesis
          using flattenable_no_self_call[OF keyed flat] distinct_org_rows rows \<open>o' = org\<close>
          by (auto simp: rows_ok_def)
      next
        case False
        then show ?thesis
          using un by (auto simp: pipeline_referenced_by_call_def list_ex_iff calls_def org_rows_mem)
      qed
      then show ?thesis
        unfolding s' org_rows_delete using delete_preserves_flattenable[OF keyed flat] True by simp
    next
      case False
      have "pid \<notin> fst ` set (org_rows o' ?ps)"
        using row rows False by (auto simp: org_rows_mem rows_ok_def dest!: map_of_SomeD dest: eq_key_imp_eq_value)
      then have "AList.delete pid (org_rows o' ?ps) = org_rows o' ?ps"
        by (auto simp: AList.delete_eq filter_id_conv image_iff)
      with flat show ?thesis unfolding s' org_rows_delete by simp
    qed
  qed
  ultimately show ?thesis by (simp add: defs_ok_def load_org_rows)
qed

section \<open>Starting runs\<close>

lemma expands_stage_ok:
  assumes "expands org sts xs n" and "list_all stage_ok sts" and "\<And>k d. map_of org k = Some d \<Longrightarrow> definition_ok d"
  shows "snapshot_ok xs"
  using assms by (induction rule: expands.induct) (auto simp: snapshot_ok_def definition_ok_def)

lemma flatten_snapshot_ok:
  assumes "defs_ok s" and "map_of (load_org_definitions org s) pid = Some d"
    and "flatten d (load_org_definitions org s) = Inr xs"
  shows "snapshot_ok xs"
proof -
  let ?org = "load_org_definitions org s"
  have rows: "rows_ok (pipelines s)" using assms(1) by (simp add: defs_ok_def)
  have ok: "definition_ok e" if "map_of ?org k = Some e" for k e
    using map_of_SomeD[OF that] rows by (auto simp: load_org_rows org_rows_mem rows_ok_def)
  have keyed: "keyed ?org" using keyed_org_rows[OF rows] by (simp add: load_org_rows)
  have "map_of ?org (pd_id d) = Some d" using assms(2) keyedD[OF keyed assms(2)] by simp
  from flatten_iff_expands[OF keyed this] assms(3) obtain n where "expands ?org (pd_stages d) xs n" by auto
  from expands_stage_ok[OF this] ok assms(2) show ?thesis by (auto simp: definition_ok_def)
qed

lemma insert_promote_case:
  assumes "insert_run org t pid n xs idx ko u s = Inr x"
    and "(case x of (rid, s1) \<Rightarrow> Inr (rid, snd (attempt_promotion rid s1))) = Inr (rid', s')"
    and "snapshot_ok xs"
  shows "evolves s s'"
proof -
  from assms(1,2) obtain rid s1 where ins: "insert_run org t pid n xs idx ko u s = Inr (rid, s1)"
    and "s' = snd (attempt_promotion rid s1)" by (cases x) auto
  with insert_and_promote_evolves[OF ins assms(3)] show ?thesis by simp
qed

lemma start_run_evolves:
  assumes "start_run org t pid ko u s = Inr (rid, s')" and "defs_ok s"
  shows "evolves s s'"
  using assms(1) unfolding start_run_def Let_def ebind_eq_Inr require_eq
proof (elim exE conjE, goal_cases)
  case (1 d xs x)
  show ?case by (rule insert_promote_case[OF 1(3,4) flatten_snapshot_ok[OF assms(2) 1(1,2)]])
qed

lemma start_rerun_evolves:
  assumes "start_rerun org rid act u s = Inr (rid', s')" and "defs_ok s"
  shows "evolves s s'"
  using assms start_run_evolves unfolding start_rerun_def ebind_eq_Inr by blast

lemma start_rerun_from_stage_evolves:
  assumes "start_rerun_from_stage org t from ins act u s = Inr (rid, s')" and "defs_ok s"
  shows "evolves s s'"
  using assms(1) unfolding start_rerun_from_stage_def Let_def ebind_eq_Inr require_eq bind_eq_Some_conv
proof (elim exE conjE, goal_cases)
  case 1
  show ?case by (rule insert_promote_case[OF 1(9,10) flatten_snapshot_ok[OF assms(2) 1(5,6)]])
qed

section \<open>The transition system\<close>

inductive sys_step :: "engine_env \<Rightarrow> pipelines_db \<Rightarrow> pipelines_db \<Rightarrow> bool" for env where
  s_route_run: "route_run env rid idx label reason s = Inr s' \<Longrightarrow> sys_step env s s'"
| s_start_stage: "start_stage env rid idx s = Inr s' \<Longrightarrow> sys_step env s s'"
| s_agent_event: "handle_agent_event env rid c label outs s = Inr s' \<Longrightarrow> sys_step env s s'"
| s_start_run: "start_run org t pid ko u s = Inr (rid, s') \<Longrightarrow> sys_step env s s'"
| s_rerun: "start_rerun org rid0 act u s = Inr (rid, s') \<Longrightarrow> sys_step env s s'"
| s_rerun_from: "start_rerun_from_stage org t st ins act u s = Inr (rid, s') \<Longrightarrow> sys_step env s s'"
| s_cancel: "request_cancel env org rid act s = Inr s' \<Longrightarrow> sys_step env s s'"
| s_resolve: "resolve_pause env org pid body act s = Inr s' \<Longrightarrow> sys_step env s s'"
| s_sweep: "sys_step env s (resume_stalled_runs n s)"
| s_create: "create_pipeline org d act s = Inr (i, s') \<Longrightarrow> definition_ok d \<Longrightarrow> sys_step env s s'"
| s_update: "update_pipeline org pid d act s = Inr s' \<Longrightarrow> definition_ok d \<Longrightarrow> sys_step env s s'"
| s_delete: "delete_pipeline org pid act s = Inr s' \<Longrightarrow> sys_step env s s'"
| s_other: "below s s' \<Longrightarrow> sys_step env s s'"
| s_tick: "now s \<le> t \<Longrightarrow> sys_step env s (s\<lparr>now := t\<rparr>)"

definition sys_init :: "pipelines_db \<Rightarrow> bool" where
  "sys_init s \<longleftrightarrow> runs s = Map.empty \<and> stage_execs s = Map.empty \<and> pauses s = Map.empty \<and> pipelines s = []"

definition reachable :: "engine_env \<Rightarrow> pipelines_db \<Rightarrow> bool" where
  "reachable env s \<longleftrightarrow> (\<exists>s0. sys_init s0 \<and> (sys_step env)\<^sup>*\<^sup>* s0 s)"

definition sys_ok :: "pipelines_db \<Rightarrow> bool" where
  "sys_ok s \<longleftrightarrow> engine_ok s \<and> defs_ok s"

lemma esteps_pipelines: "esteps s s' \<Longrightarrow> pipelines s' = pipelines s"
proof (induction rule: rtranclp_induct)
  case (step t u)
  from step.hyps(2) have "pipelines u = pipelines t"
    by (induction rule: estep.induct) (auto simp: below_def)
  with step.IH show ?case by simp
qed simp

lemma evolves_sys_ok:
  assumes "evolves s s'" and "sys_ok s"
  shows "sys_ok s'"
proof -
  have "esteps s s'" using assms by (simp add: sys_ok_def evolves_def)
  with assms evolves_ok[OF assms(1)] defs_ok_cong[OF esteps_pipelines] show ?thesis by (simp add: sys_ok_def)
qed

lemma engine_ok_cong:
  assumes "runs s' = runs s" and "stage_execs s' = stage_execs s" and "pauses s' = pauses s"
    and "next_id s' = next_id s"
  shows "engine_ok s' = engine_ok s"
  unfolding engine_ok_def engine_ok_defs assms ..

lemma audit_for_pipeline_frame [simp]:
  "runs (audit_for_pipeline i k p a org s) = runs s"
  "stage_execs (audit_for_pipeline i k p a org s) = stage_execs s"
  "pauses (audit_for_pipeline i k p a org s) = pauses s"
  "next_id (audit_for_pipeline i k p a org s) = next_id s" for s :: pipelines_db
  by (simp_all add: audit_for_pipeline_def audit_def)

lemma crud_engine_ok:
  "create_pipeline org d act s = Inr (i, s') \<Longrightarrow> engine_ok s' = engine_ok s"
  "update_pipeline org pid d act s = Inr s' \<Longrightarrow> engine_ok s' = engine_ok s"
  "delete_pipeline org pid act s = Inr s' \<Longrightarrow> engine_ok s' = engine_ok s"
  by (rule engine_ok_cong; auto simp: create_pipeline_def update_pipeline_def delete_pipeline_def Let_def
      res_simps split: if_splits)+

lemma sys_step_ok:
  assumes "sys_step env s s'" and "sys_ok s" and "actions_frame env"
  shows "sys_ok s'"
  using assms(1)
proof cases
  case (s_route_run rid idx label reason)
  then show ?thesis using evolves_sys_ok[OF route_run_evolves] assms(2) by blast
next
  case (s_start_stage rid idx)
  then show ?thesis using evolves_sys_ok[OF start_stage_evolves] assms(2,3) by blast
next
  case (s_agent_event rid c label outs)
  then show ?thesis using evolves_sys_ok[OF handle_agent_event_evolves] assms(2,3) by blast
next
  case (s_start_run org t pid ko u rid)
  then show ?thesis using evolves_sys_ok[OF start_run_evolves] assms(2) unfolding sys_ok_def by blast
next
  case (s_rerun org rid0 act u rid)
  then show ?thesis using evolves_sys_ok[OF start_rerun_evolves] assms(2) unfolding sys_ok_def by blast
next
  case (s_rerun_from org t st ins act u rid)
  then show ?thesis using evolves_sys_ok[OF start_rerun_from_stage_evolves] assms(2) unfolding sys_ok_def by blast
next
  case (s_cancel org rid act)
  then show ?thesis using evolves_sys_ok[OF request_cancel_evolves] assms(2) by blast
next
  case (s_resolve org pid body act)
  then show ?thesis using evolves_sys_ok[OF resolve_pause_evolves] assms(2,3) by blast
next
  case (s_sweep n)
  then show ?thesis using evolves_sys_ok[OF resume_stalled_runs_evolves] assms(2) by blast
next
  case (s_create org d act i)
  then show ?thesis using create_pipeline_defs_ok crud_engine_ok(1) assms(2) unfolding sys_ok_def by blast
next
  case (s_update org pid d act)
  then show ?thesis using update_pipeline_defs_ok crud_engine_ok(2) assms(2) unfolding sys_ok_def by blast
next
  case (s_delete org pid act)
  then show ?thesis using delete_pipeline_defs_ok crud_engine_ok(3) assms(2) unfolding sys_ok_def by blast
next
  case (s_other)
  then show ?thesis using evolves_sys_ok[OF evolves_below] assms(2) by blast
next
  case (s_tick t)
  then show ?thesis using assms(2) engine_ok_cong[of s' s] defs_ok_cong[of s' s] by (simp add: sys_ok_def)
qed

lemma sys_init_ok: "sys_init s \<Longrightarrow> sys_ok s"
  by (simp add: sys_init_def sys_ok_def engine_ok_def engine_ok_defs keyed_rows_def defs_ok_def rows_ok_def
      load_org_definitions_def flattenable_def)

theorem reachable_ok:
  assumes "reachable env s" and "actions_frame env"
  shows "sys_ok s"
proof -
  from assms(1) obtain s0 where "sys_init s0" "(sys_step env)\<^sup>*\<^sup>* s0 s" by (auto simp: reachable_def)
  from this(2) show ?thesis
    by (induction rule: rtranclp_induct) (auto intro: sys_init_ok[OF \<open>sys_init s0\<close>] sys_step_ok assms(2))
qed

section \<open>What a system step does to the engine's tables\<close>

lemma sys_step_shape:
  assumes "sys_step env s s'" and "sys_ok s" and "actions_frame env"
  shows "esteps s s' \<or> runs s' = runs s \<and> stage_execs s' = stage_execs s \<and> pauses s' = pauses s"
proof -
  have ev: "esteps s s'" if "evolves s s'" using that assms(2) by (simp add: evolves_def sys_ok_def)
  have defs: "defs_ok s" using assms(2) by (simp add: sys_ok_def)
  from assms(1) show ?thesis
  proof cases
    case s_create
    then show ?thesis by (auto simp: create_pipeline_def Let_def res_simps)
  next
    case s_update
    then show ?thesis by (auto simp: update_pipeline_def Let_def res_simps)
  next
    case s_delete
    then show ?thesis by (auto simp: delete_pipeline_def res_simps split: if_splits)
  next
    case s_other
    then show ?thesis using belowD by blast
  next
    case s_tick
    then show ?thesis by simp
  next
    case s_sweep
    then show ?thesis using ev resume_stalled_runs_evolves by blast
  qed (auto intro!: ev intro: route_run_evolves start_stage_evolves[OF _ assms(3)]
        handle_agent_event_evolves[OF _ assms(3)] start_run_evolves[OF _ defs]
        start_rerun_evolves[OF _ defs] start_rerun_from_stage_evolves[OF _ defs]
        request_cancel_evolves resolve_pause_evolves[OF _ assms(3)])
qed

section \<open>Life of a run\<close>

text \<open>The edges of the run state machine.\<close>

inductive run_edge :: "run_state \<Rightarrow> run_state \<Rightarrow> bool" where
  edge_promote: "run_edge Queued Running"
| edge_pause: "run_edge Running Paused"
| edge_resume: "run_edge Paused Running"
| edge_end: "st \<in> {Queued, Running} \<Longrightarrow> run_terminal st' \<Longrightarrow> run_edge st st'"

inductive_cases run_edgeE: "run_edge st st'"

lemma run_terminal_iff: "run_terminal st \<longleftrightarrow> st \<notin> {Queued, Running, Paused}"
  by (cases st) (auto simp: run_terminal_def)

lemma run_edge_terminal: "run_terminal st \<Longrightarrow> run_edge\<^sup>*\<^sup>* st st' \<Longrightarrow> st' = st"
  by (erule converse_rtranclpE) (auto simp: run_terminal_def elim: run_edgeE)

text \<open>A counter that has been set stays set.\<close>

definition counts_kept :: "run_row \<Rightarrow> run_row \<Rightarrow> bool" where
  "counts_kept r r' \<longleftrightarrow> (\<forall>k. 1 \<le> count_of (r_sendback_counts r) k \<longrightarrow> 1 \<le> count_of (r_sendback_counts r') k)"

lemma counts_kept_same [simp]: "r_sendback_counts r' = r_sendback_counts r \<Longrightarrow> counts_kept r r'"
  by (simp add: counts_kept_def)

lemma counts_kept_set [simp]: "counts_kept r (r\<lparr>r_sendback_counts := AList.update k (Suc n) (r_sendback_counts r)\<rparr>)"
  by (simp add: counts_kept_def count_of_update)

lemma counts_kept_touch [simp]: "counts_kept r (touch t f q) = counts_kept r (f q)"
  by (simp add: counts_kept_def)

lemma counts_kept_trans: "counts_kept a b \<Longrightarrow> counts_kept b c \<Longrightarrow> counts_kept a c"
  by (simp add: counts_kept_def)

definition run_moves :: "pipelines_db \<Rightarrow> pipelines_db \<Rightarrow> bool" where
  "run_moves s s' \<longleftrightarrow> (\<forall>i r. runs s i = Some r \<longrightarrow>
     (\<exists>r'. runs s' i = Some r' \<and> same_run r r' \<and> counts_kept r r' \<and> run_edge\<^sup>*\<^sup>* (r_state r) (r_state r')))"

lemma run_moves_same: "runs s' = runs s \<Longrightarrow> run_moves s s'"
  by (simp add: run_moves_def same_run_def)

lemma same_run_trans: "same_run a b \<Longrightarrow> same_run b c \<Longrightarrow> same_run a c"
  by (simp add: same_run_def)

lemma run_moves_trans: "run_moves s t \<Longrightarrow> run_moves t u \<Longrightarrow> run_moves s u"
  unfolding run_moves_def by (meson rtranclp_trans same_run_trans counts_kept_trans)

lemma run_moves_upd:
  assumes "\<And>r. runs s rid = Some r \<Longrightarrow> same_run r (f r) \<and> counts_kept r (f r) \<and>
      run_edge\<^sup>*\<^sup>* (r_state r) (r_state (f r))"
    and "runs t = runs s"
  shows "run_moves s (upd_run rid f t)"
  using assms by (auto simp: run_moves_def same_run_def)

lemma estep_run_moves:
  assumes "estep s s'" and "keys_ok s" and "pauses_ok s"
  shows "run_moves s s'"
  using assms
proof (induction rule: estep.induct)
  case (e_run s rid f)
  then show ?case by (intro run_moves_upd) auto
next
  case (e_count s rid r k)
  then show ?case by (intro run_moves_upd) (auto simp: same_run_def)
next
  case (e_new_run r s)
  have "runs s (next_id s) = None"
    using e_new_run.prems(1) by (cases "runs s (next_id s)") (auto simp: keys_ok_def keyed_rows_def)
  then show ?case by (auto simp: run_moves_def same_run_def)
next
  case (e_promote s rid r)
  then show ?case by (intro run_moves_upd) (auto simp: same_run_def intro: edge_promote)
next
  case (e_pause s rid r p)
  then show ?case by (intro run_moves_upd) (auto simp: same_run_def intro: edge_pause)
next
  case (e_resume s pid p rid g s' f)
  obtain r where "runs s rid = Some r" "r_state r = Paused"
    using e_resume.prems(2) e_resume.hyps(1-3) unfolding pauses_ok_def by blast
  then show ?case
    using e_resume.hyps(6) belowD(1)[OF e_resume.hyps(5)] by (intro run_moves_upd) (auto intro: edge_resume)
next
  case (e_end s rid r f)
  then show ?case by (intro run_moves_upd) (auto simp: run_terminal_iff intro!: edge_end r_into_rtranclp)
qed (simp_all add: run_moves_same below_def)

lemma esteps_run_moves:
  assumes "esteps s s'" and "engine_ok s"
  shows "run_moves s s'"
  using assms
proof (induction rule: rtranclp_induct)
  case base
  then show ?case by (simp add: run_moves_same)
next
  case (step t u)
  then have "engine_ok t" using esteps_engine_ok by blast
  with step estep_run_moves[of t u] show ?case by (auto simp: engine_ok_def intro: run_moves_trans)
qed

lemma sys_step_run_moves:
  assumes "sys_step env s s'" and "sys_ok s" and "actions_frame env"
  shows "run_moves s s'"
  using sys_step_shape[OF assms] assms(2) esteps_run_moves run_moves_same by (auto simp: sys_ok_def)

lemma sys_steps_run_moves:
  assumes "(sys_step env)\<^sup>*\<^sup>* s s'" and "sys_ok s" and "actions_frame env"
  shows "run_moves s s' \<and> sys_ok s'"
  using assms
proof (induction rule: rtranclp_induct)
  case base
  then show ?case by (simp add: run_moves_same)
next
  case (step t u)
  then show ?case using sys_step_run_moves sys_step_ok run_moves_trans by blast
qed

section \<open>Starting a stored pipeline\<close>

lemma attempt_promotion_row:
  assumes "runs s rid = Some r"
  shows "\<exists>r'. runs (snd (attempt_promotion rid s)) rid = Some r' \<and> same_run r r' \<and> r_pipeline_id r' = r_pipeline_id r"
proof (cases "r_state r = Queued \<and> \<not> slot_taken (r_ticket_id r) s")
  case True
  let ?s1 = "upd_run rid (\<lambda>r. r\<lparr>r_state := Running\<rparr>) s"
  have "below ?s1 (snd (attempt_promotion rid s))"
    using True assms unfolding attempt_promotion_def Let_def run_of_def by (auto intro!: below_chain)
  from belowD(1)[OF this] assms show ?thesis by (simp add: same_run_def)
next
  case False
  then show ?thesis using assms by (auto simp: attempt_promotion_def Let_def run_of_def same_run_def)
qed

lemma start_run_total:
  assumes "defs_ok s" and "engine_ok s" and "get_row pid org s = Some row" and "tickets s t \<noteq> None"
  shows "\<exists>rid s' r n. start_run org t pid ko u s = Inr (rid, s') \<and> runs s rid = None \<and>
           runs s' rid = Some r \<and> r_ticket_id r = t \<and> r_pipeline_id r = Some pid \<and>
           expands (load_org_definitions org s) (pd_stages (pi_definition row)) (r_definition_snapshot r) n \<and>
           distinct (stage_names (r_definition_snapshot r))"
proof -
  let ?org = "load_org_definitions org s" and ?d = "pi_definition row"
  have rows: "rows_ok (pipelines s)" using assms(1) by (simp add: defs_ok_def)
  have row: "map_of (pipelines s) pid = Some row" "pi_org_id row = org"
    using assms(3) by (auto simp: get_row_def split: option.splits if_splits)
  have "(pid, ?d) \<in> set (org_rows org (pipelines s))" using map_of_SomeD[OF row(1)] row(2) by (auto simp: org_rows_mem)
  moreover have "distinct (map fst (org_rows org (pipelines s)))"
    using rows by (intro distinct_org_rows) (simp add: rows_ok_def)
  ultimately have d: "map_of ?org pid = Some ?d" by (simp add: load_org_rows)
  have keyed: "keyed ?org" using keyed_org_rows[OF rows] by (simp add: load_org_rows)
  obtain xs where xs: "flatten ?d ?org = Inr xs" using assms(1) d unfolding defs_ok_def flattenable_def by blast
  have "map_of ?org (pd_id ?d) = Some ?d" using d keyedD[OF keyed d] by simp
  from flatten_iff_expands[OF keyed this] xs obtain n where n: "expands ?org (pd_stages ?d) xs n" "distinct (stage_names xs)"
    by auto
  obtain rid s1 where ins: "insert_run org t (Some pid) (pd_name ?d) xs None ko u s = Inr (rid, s1)"
    using assms(4) by (auto simp: insert_run_def fresh_def)
  then have r: "rid = next_id s" "runs s1 rid = Some (new_run rid org t (Some pid) (pd_name ?d) xs None ko u (now s))"
    by (auto simp: insert_run_def fresh_def split: if_splits)
  from attempt_promotion_row[OF r(2)] obtain r' where r': "runs (snd (attempt_promotion rid s1)) rid = Some r'"
    "r_ticket_id r' = t" "r_definition_snapshot r' = xs" "r_pipeline_id r' = Some pid" by (auto simp: same_run_def new_run_def)
  have "runs s rid = None"
    using assms(2) r(1) by (cases "runs s rid") (auto simp: engine_ok_def keys_ok_def keyed_rows_def)
  moreover have "start_run org t pid ko u s = Inr (rid, snd (attempt_promotion rid s1))"
    by (simp add: start_run_def Let_def d xs ins)
  ultimately show ?thesis using r' n by blast
qed

lemma start_run_without_ticket:
  assumes "defs_ok s" and "get_row pid org s = Some row" and "tickets s t = None"
  shows "start_run org t pid ko u s = Inl IntegrityError"
proof -
  have rows: "rows_ok (pipelines s)" using assms(1) by (simp add: defs_ok_def)
  have row: "map_of (pipelines s) pid = Some row" "pi_org_id row = org"
    using assms(2) by (auto simp: get_row_def split: option.splits if_splits)
  have "(pid, pi_definition row) \<in> set (org_rows org (pipelines s))"
    using map_of_SomeD[OF row(1)] row(2) by (auto simp: org_rows_mem)
  moreover have "distinct (map fst (org_rows org (pipelines s)))"
    using rows by (intro distinct_org_rows) (simp add: rows_ok_def)
  ultimately have d: "map_of (load_org_definitions org s) pid = Some (pi_definition row)" by (simp add: load_org_rows)
  then obtain xs where "flatten (pi_definition row) (load_org_definitions org s) = Inr xs"
    using assms(1) unfolding defs_ok_def flattenable_def by blast
  then show ?thesis by (simp add: start_run_def Let_def d insert_run_def assms(3))
qed

section \<open>Send-backs and retries\<close>

lemma counts_kept_evolves:
  assumes "evolves t t'" and "engine_ok t" and "runs t i = Some q"
  shows "\<exists>q'. runs t' i = Some q' \<and> counts_kept q q' \<and> (\<forall>k. count_of (r_sendback_counts q') k \<le> 1)"
proof -
  have e: "esteps t t'" using assms(1,2) by (simp add: evolves_def)
  have "counts_ok t'" using esteps_engine_ok[OF e assms(2)] by (simp add: engine_ok_def)
  moreover obtain q' where "runs t' i = Some q'" "counts_kept q q'"
    using esteps_run_moves[OF e assms(2)] assms(3) unfolding run_moves_def by blast
  ultimately show ?thesis unfolding counts_ok_def by blast
qed

text \<open>Setting a counter and whatever may follow in the transaction.\<close>

lemma count_set_then:
  assumes "evolves (upd_run i (\<lambda>q. q\<lparr>r_sendback_counts := AList.update k 1 (r_sendback_counts q0)\<rparr>) t) t'"
    and "engine_ok t" and "runs t i = Some q0"
  shows "\<exists>q'. runs t' i = Some q' \<and> count_of (r_sendback_counts q') k = 1"
proof -
  let ?u = "upd_run i (\<lambda>q. q\<lparr>r_sendback_counts := AList.update k 1 (r_sendback_counts q0)\<rparr>) t"
  have "esteps t ?u" using count_update_evolves[OF assms(3) refl, of k] assms(2) by (simp add: evolves_def)
  then have ok: "engine_ok ?u" using esteps_engine_ok assms(2) by blast
  obtain q1 where q1: "runs ?u i = Some q1" "count_of (r_sendback_counts q1) k = 1"
    using assms(3) by (simp add: count_of_update)
  from counts_kept_evolves[OF assms(1) ok q1(1)] obtain q' where
    "runs t' i = Some q'" "counts_kept q1 q'" "count_of (r_sendback_counts q') k \<le> 1" by blast
  then show ?thesis using q1(2) by (auto simp: counts_kept_def intro!: le_antisym)
qed

lemma send_back_outcome:
  assumes "engine_ok t" and "runs t i = Some q" and "r_state q = Running"
    and "send_back_to_stage env i eid ti st gap ko t = Inr t'" and "actions_frame env"
  shows "\<exists>q'. runs t' i = Some q' \<and>
     (if count_of (r_sendback_counts q) (sk_name st) = 0 then count_of (r_sendback_counts q') (sk_name st) = 1
      else r_state q' = Paused \<and> r_sendback_counts q' = r_sendback_counts q \<and>
           r_current_stage_index q' = r_current_stage_index q \<and> dom (stage_execs t') = dom (stage_execs t) \<and>
           (\<exists>j p. pauses t j = None \<and> pauses t' j = Some p \<and> p_run_id p = i \<and> p_stage_execution_id p = eid \<and>
              open_pause p \<and> p_tripped p = [(''sendback_loop'', TrippedStage (sk_name st))]))"
proof (cases "count_of (r_sendback_counts q) (sk_name st) < 1")
  case True
  from count_set_then[OF send_back_granted[OF assms(4,2) True assms(5)] assms(1,2)] True show ?thesis by simp
next
  case False
  from enter_pause_shape[OF send_back_refused[OF assms(4,2) False]] obtain f p where
    p: "p_id p = next_id t" "p_run_id p = i" "open_pause p" "p_stage_execution_id p = eid"
      "p_tripped p = [(''sendback_loop'', TrippedStage (sk_name st))]"
    and b: "below (upd_run i (\<lambda>r. r\<lparr>r_state := Paused\<rparr>)
      ((upd_stage eid f t)\<lparr>next_id := Suc (next_id t), pauses := (pauses t)(next_id t \<mapsto> p)\<rparr>)) t'" by auto
  have "runs t' i = Some (touch (now t) (\<lambda>r. r\<lparr>r_state := Paused\<rparr>) q)" using belowD(1)[OF b] assms(2) by simp
  moreover have "dom (stage_execs t') = dom (stage_execs t)"
    using belowD(2)[OF b] by (auto simp: dom_def modify_def split: option.splits if_splits)
  moreover have "pauses t' (next_id t) = Some p" using belowD(3)[OF b] by simp
  moreover have "pauses t (next_id t) = None"
    using assms(1) by (cases "pauses t (next_id t)") (auto simp: engine_ok_def keys_ok_def keyed_rows_def)
  ultimately show ?thesis using p False by auto
qed

lemma auth_retry_outcome:
  assumes "engine_ok t" and "runs t i = Some q" and "stage_execs t eid = Some e" and "se_phase e = Some PMain"
    and "label \<noteq> ''success''" and "is_auth_expired (or_else (get_str outs ''error_message'') label)"
    and "handle_skill_stage_event env i eid label outs t = Inr t'" and "actions_frame env"
  shows "if count_of (r_sendback_counts q) (auth_retry_key (se_stage_name e)) = 0
    then \<exists>q'. runs t' i = Some q' \<and> count_of (r_sendback_counts q') (auth_retry_key (se_stage_name e)) = 1
    else t' = fail_stage i eid (se_stage_index e) (or_else (get_str outs ''error_message'') label) t"
proof -
  have so: "stage_of t eid = e" "run_of t i = q" using assms(2,3) by (simp_all add: stage_of_def run_of_def)
  let ?k = "auth_retry_key (se_stage_name e)"
  show ?thesis
  proof (cases "count_of (r_sendback_counts q) ?k = 0")
    case True
    let ?s1 = "upd_run i (\<lambda>q'. q'\<lparr>r_sendback_counts := AList.update ?k 1 (r_sendback_counts q)\<rparr>) t"
    let ?s2 = "publish_stage_state i (upd_stage eid (\<lambda>e. e\<lparr>se_status := SFailed,
        se_failure_reason := Some (or_else (get_str outs ''error_message'') label), se_completed_at := Some (now t)\<rparr>) ?s1)"
    have d: "dispatch_refresh_auth env i ?s2 = Inr t'"
      using assms(4-7) True so by (simp add: handle_skill_stage_event_def Let_def)
    have "evolves ?s1 ?s2" by (rule evolves_then_below[OF _ publish_state_below(2)], rule evolves_stage) simp
    moreover have "\<exists>q. runs ?s2 i = Some q" using assms(2) belowD(1)[OF publish_state_below(2)] by simp
    ultimately have "evolves ?s1 t'" using dispatch_refresh_auth_evolves[OF d] evolves_trans by blast
    from count_set_then[OF this assms(1,2)] True show ?thesis by simp
  next
    case False
    then show ?thesis using assms(4-7) so by (simp add: handle_skill_stage_event_def Let_def)
  qed
qed

section \<open>Resolved pauses\<close>

lemma estep_resolved_pause:
  assumes "estep s s'" and "engine_ok s" and "pauses s i = Some p" and "\<not> open_pause p"
  shows "pauses s' i = Some p"
  using assms
proof (induction rule: estep.induct)
  case (e_pause s rid r p')
  then have "i < next_id s" by (auto simp: engine_ok_def keys_ok_def keyed_rows_def)
  with e_pause show ?case by simp
next
  case (e_resume s pid p' rid g s' f)
  then have "i \<noteq> pid" by auto
  with e_resume.prems(2) belowD(3)[OF e_resume.hyps(5)] show ?case by (simp add: upd_pause_def)
qed (use belowD in auto)

lemma esteps_resolved_pause:
  assumes "esteps s s'" and "engine_ok s" and "pauses s i = Some p" and "\<not> open_pause p"
  shows "pauses s' i = Some p"
  using assms
proof (induction rule: rtranclp_induct)
  case (step t u)
  then show ?case using estep_resolved_pause esteps_engine_ok by blast
qed simp

lemma sys_steps_resolved_pause:
  assumes "(sys_step env)\<^sup>*\<^sup>* s s'" and "sys_ok s" and "actions_frame env"
    and "pauses s i = Some p" and "\<not> open_pause p"
  shows "pauses s' i = Some p"
  using assms
proof (induction rule: rtranclp_induct)
  case (step t u)
  have t: "sys_ok t" using sys_steps_run_moves[OF step.hyps(1) step.prems(1,2)] by blast
  from sys_step_shape[OF step.hyps(2) t step.prems(2)] step.IH[OF step.prems] step.prems(4) t
  show ?case using esteps_resolved_pause by (auto simp: sys_ok_def)
qed simp

lemma resolve_pause_resolved:
  assumes "resolve_pause env org pid body act s = Inr s'" and "actions_frame env" and "engine_ok s"
  shows "\<exists>p. pauses s' pid = Some p \<and> p_resolution p = Some (pb_action body) \<and>
    p_resolved_by p = actor_user_id act \<and> \<not> open_pause p"
proof -
  let ?Q = "\<lambda>u. engine_ok u \<and> (\<exists>p. pauses u pid = Some p \<and> p_resolution p = Some (pb_action body) \<and>
    p_resolved_by p = actor_user_id act \<and> \<not> open_pause p)"
  have "?Q s'"
  proof (rule resolve_pause_keeps[where Q = ?Q, OF assms])
    fix u v assume "?Q u" "evolves u v"
    then show "?Q v" using esteps_resolved_pause evolves_ok unfolding evolves_def by blast
  next
    fix pause g t f assume p: "pauses s pid = Some pause"
      and g: "\<And>p. p_id (g p) = p_id p \<and> p_run_id (g p) = p_run_id p \<and> p_resolved_at (g p) = Some (now s) \<and>
        p_resolution (g p) = Some (pb_action body) \<and> p_resolved_by (g p) = actor_user_id act"
      and t: "below (upd_pause pid g s) t" and ev: "evolves s (upd_run (p_run_id pause) f t)"
    have "pauses (upd_run (p_run_id pause) f t) pid = Some (g pause)"
      using p belowD(3)[OF t] by (simp add: upd_pause_def)
    then show "?Q (upd_run (p_run_id pause) f t)"
      using evolves_ok[OF ev assms(3)] g[of pause] by (auto simp: open_pause_def)
  qed
  then show ?thesis by blast
qed

text \<open>The second answer to a pause.\<close>

lemma resolve_pause_refused:
  assumes "pauses s pid = Some p" and "\<not> open_pause p"
  shows "\<exists>e. resolve_pause env org pid body act s = Inl e"
  using assms unfolding resolve_pause_def open_pause_def
  by (auto simp: res_simps guard_def require_def ebind_def split: sum.split option.split)

end
