(* ===== verification/EngineRelation.thy ===== *)
theory EngineRelation
  imports System
begin

text \<open>
  A second pass over the whole engine, made once and used twice. The locale \<open>engine_relation\<close> says
  what a relation between databases must satisfy for every engine task, service call and sweep to
  stay inside it: it may look at the run table only, and it must tolerate the few ways the code
  changes a run row. Its lemmas go through every function of the engine; its last one covers a system
  step.

  Two instances. \<open>parks_afresh\<close>: a run is only ever parked on a command id drawn in the same
  transaction, which makes the handling of agent events idempotent. \<open>keeps_served\<close>: no run stays
  queued behind an idle ticket.
\<close>

section \<open>Facts about the code\<close>

lemma dispatch_via_workspace_id:
  assumes "dispatch_via_workspace c w ctx b s = Inr (i, s')"
  shows "i = ac_command_id c"
proof -
  from assms obtain row s1 where row: "workspaces s w = Some row"
    and s1: "enqueue_command (ws_org_id row) c (Some (dc_run_id ctx)) s = Inr s1"
    by (auto simp: dispatch_via_workspace_def res_simps split: option.splits)
  let ?s2 = "case ws_owning_agent_id row of None \<Rightarrow> s1 | Some a \<Rightarrow> pin_command_to_agent (ac_command_id c) a s1"
  obtain ok s3 where "try_claim w (ac_command_id c) None ?s2 = (ok, s3)" by fastforce
  with assms show ?thesis
    unfolding dispatch_via_workspace_def row option.case s1 ebind_simps Let_def by (cases b; cases ok) auto
qed

lemma dispatched_ids:
  fixes s :: pipelines_db
  shows "dispatch_cleanup w ctx s = Inr (i, s') \<Longrightarrow> i = next_id s"
    and "dispatch_auth_refresh env w ctx org pl s = Inr (i, s') \<Longrightarrow> i = next_id s"
    and "dispatch_provision env spec ctx s = Inr (i, s') \<Longrightarrow> i = next_id s"
  by (auto simp: dispatch_cleanup_def dispatch_auth_refresh_def dispatch_provision_def
      dispatch_provision_workspace_def fresh_def res_simps dest!: dispatch_via_workspace_id)

lemma add_stage_tables:
  assumes "add_stage rid idx k n sn ph rv it s = (eid, s1)"
  shows "runs s1 = runs s" "next_id s1 = Suc (next_id s)"
  using assms by (auto simp: add_stage_def fresh_def)

text \<open>A terminal run: the row, then invisible writes, then the promotion of the next run.\<close>

lemma enter_terminal_shape:
  assumes "enter_terminal env rid st reason s = Inr s'"
  shows "\<exists>t. below (upd_run rid (\<lambda>r. r\<lparr>r_state := st, r_failure_reason := reason, r_completed_at := Some (now s)\<rparr>) s) t \<and>
    s' = promote_oldest_queued (r_ticket_id (run_of s rid)) t \<and> run_terminal st"
proof -
  let ?f = "\<lambda>r. r\<lparr>r_state := st, r_failure_reason := reason, r_completed_at := Some (now s)\<rparr>"
  let ?s2 = "publish_run_state rid (upd_run rid ?f s)"
  have run: "runs ?s2 = runs (upd_run rid ?f s)" by (rule belowD(1)[OF publish_state_below(1)])
  have ticket: "r_ticket_id (run_of ?s2 rid) = r_ticket_id (run_of s rid)" if "runs s rid \<noteq> None"
    using that unfolding run_of_def run by auto
  have ticket': "run_of ?s2 rid = run_of s rid" if "runs s rid = None"
    using that unfolding run_of_def run by simp
  have st: "run_terminal st"
    using assms by (cases st) (auto simp: enter_terminal_def Let_def run_terminal_def)
  from assms show ?thesis unfolding enter_terminal_def Let_def ebind_eq_Inr
  proof (elim exE conjE, goal_cases)
    case (1 to s5)
    have "below (upd_run rid ?f s) s5"
    proof (cases "st = RFailed")
      case True
      show ?thesis
        by (rule below_trans[OF _ efold_below[OF 1(2)[unfolded if_P[OF True]] create_notification_below]],
            intro below_chain below_refl)
    next
      case False
      show ?thesis
        by (rule subst[OF Inr_inject[OF 1(2)[unfolded if_not_P[OF False]]]], intro below_chain below_refl)
    qed
    let ?t = "fold (\<lambda>h. enqueue (RunTerminalHook h (r_org_id (run_of ?s2 rid)) (r_ticket_id (run_of ?s2 rid))))
       (run_terminal_hooks env) s5"
    have "below (upd_run rid ?f s) ?t"
      by (rule below_trans[OF \<open>below (upd_run rid ?f s) s5\<close> fold_below]) (rule below_infra)
    moreover have "s' = promote_oldest_queued (r_ticket_id (run_of s rid)) ?t"
      using 1(3) ticket ticket' by (cases "runs s rid = None") auto
    ultimately show ?thesis using st by blast
  qed
qed

section \<open>The interface\<close>

locale engine_relation =
  fixes R :: "pipelines_db \<Rightarrow> pipelines_db \<Rightarrow> bool"
  assumes rel_refl [simp, intro]: "R s s"
    and rel_trans [trans]: "R s t \<Longrightarrow> R t u \<Longrightarrow> R s u"
    and tables: "R s t \<Longrightarrow> runs u = runs t \<Longrightarrow> next_id t \<le> next_id u \<Longrightarrow> R s u"
    and run_update: "R s t \<Longrightarrow>
      (\<And>r. r_id (f r) = r_id r \<and> r_ticket_id (f r) = r_ticket_id r \<and>
         (r_state (f r) = r_state r \<or> r_state (f r) = Running \<or> r_state (f r) = Paused) \<and>
         (r_pending_agent_command_id (f r) = r_pending_agent_command_id r \<or>
          r_pending_agent_command_id (f r) = None \<or>
          (\<exists>c \<ge> next_id s. r_pending_agent_command_id (f r) = Some c))) \<Longrightarrow>
      R s (upd_run rid f t)"
    and enter_terminal_rel: "enter_terminal env rid st reason s = Inr s' \<Longrightarrow> R s s'"
    and insert_run_rel: "insert_run org tk p n sn i ko usr s = Inr (rid, s1) \<Longrightarrow> R s (snd (attempt_promotion rid s1))"
    and cancel_queued_rel: "runs s rid = Some r \<Longrightarrow> r_state r = Queued \<Longrightarrow> R s (cancel_queued rid act s)"
begin

lemma rel_then_below: "below t u \<Longrightarrow> R s t \<Longrightarrow> R s u"
  by (rule tables) (auto simp: below_def)

lemmas rel_below = rel_then_below[OF _ rel_refl]

lemmas rel_chain = below_intros[THEN rel_then_below]

lemma rel_stage: "R s t \<Longrightarrow> R s (upd_stage eid f t)"
  by (erule tables) simp_all

lemma rel_state:
  "(\<And>r. r_id (f r) = r_id r \<and> r_ticket_id (f r) = r_ticket_id r \<and>
      (r_state (f r) = r_state r \<or> r_state (f r) = Running \<or> r_state (f r) = Paused) \<and>
      r_pending_agent_command_id (f r) = r_pending_agent_command_id r) \<Longrightarrow>
    R s t \<Longrightarrow> R s (upd_run rid f t)"
  by (rule run_update) auto

lemma rel_note:
  "(\<And>r. r_id (f r) = r_id r \<and> r_ticket_id (f r) = r_ticket_id r \<and> r_state (f r) = r_state r \<and>
      r_pending_agent_command_id (f r) = r_pending_agent_command_id r) \<Longrightarrow>
    R s t \<Longrightarrow> R s (upd_run rid f t)"
  by (rule run_update) auto

lemma rel_run:
  "(\<And>r. r_id (f r) = r_id r \<and> r_ticket_id (f r) = r_ticket_id r \<and> r_state (f r) = r_state r \<and>
      r_pending_agent_command_id (f r) = Some c) \<Longrightarrow> next_id s \<le> c \<Longrightarrow>
    R s t \<Longrightarrow> R s (upd_run rid f t)"
  by (rule run_update) auto

lemma rel_unpark: "R s (upd_run rid (\<lambda>r. r\<lparr>r_pending_agent_command_id := None\<rparr>) s)"
  by (rule run_update) auto

lemma rel_park: "next_id s \<le> c \<Longrightarrow> R s t \<Longrightarrow> R s (park rid c t)"
  unfolding park_def by (rule rel_run) auto

lemma add_stage_rel:
  "add_stage rid idx k n sn ph rv it s = (eid, s1) \<Longrightarrow> R s s1 \<and> next_id s1 = Suc (next_id s)"
  using tables[OF rel_refl] add_stage_tables by (metis le_SucI order_refl)

section \<open>Promotion, pauses, terminal states\<close>

lemma attempt_promotion_rel: "R s (snd (attempt_promotion rid s))"
  unfolding attempt_promotion_def Let_def
  by (auto intro!: rel_chain rel_state)

lemma promote_oldest_queued_rel: "R s (promote_oldest_queued t s)"
  by (auto simp: promote_oldest_queued_def attempt_promotion_rel split: option.split)

lemma enter_pause_rel:
  assumes "enter_pause rid eid d ko s = Inr s'"
  shows "R s s'"
proof -
  from enter_pause_shape[OF assms] obtain f p where
    b: "below (upd_run rid (\<lambda>r. r\<lparr>r_state := Paused\<rparr>)
       ((upd_stage eid f s)\<lparr>next_id := Suc (next_id s), pauses := (pauses s)(next_id s \<mapsto> p)\<rparr>)) s'"
    by blast
  have "R s ((upd_stage eid f s)\<lparr>next_id := Suc (next_id s), pauses := (pauses s)(next_id s \<mapsto> p)\<rparr>)"
    by (rule tables[OF rel_refl]) simp_all
  from rel_then_below[OF b rel_state[OF _ this]] show ?thesis by simp
qed

lemma fail_stage_rel: "R s t \<Longrightarrow> R s (fail_stage rid eid idx reason t)"
  unfolding fail_stage_def Let_def by (intro rel_chain rel_stage)

lemma dispatch_stage_rel: "R s (dispatch_stage rid idx s)"
  unfolding dispatch_stage_def by (intro rel_chain rel_note) simp_all

section \<open>System stages\<close>

lemma dispatch_cleanup_stage_rel:
  assumes "dispatch_cleanup_stage rid s = Inr s'"
  shows "R s s'"
proof -
  obtain eid s1 where a: "add_stage rid None KSystem SYSTEM_STAGE_CLEANUP None None None 0 s = (eid, s1)"
    by fastforce
  with assms obtain w c s2 where c: "dispatch_cleanup w (system_command_context rid eid s1) s1 = Inr (c, s2)"
    and s': "s' = upd_run rid (\<lambda>r. r\<lparr>r_phase := PhCleanup, r_pending_agent_command_id := Some c\<rparr>) s2"
    by (auto simp: dispatch_cleanup_stage_def res_simps split: option.splits)
  have "R s s2" using rel_then_below[OF dispatch_cleanup_below[OF c]] add_stage_rel[OF a] by blast
  moreover have "next_id s \<le> c" using dispatched_ids(1)[OF c] add_stage_rel[OF a] by simp
  ultimately show ?thesis unfolding s' by (intro rel_run) auto
qed

lemma finish_or_cleanup_rel:
  assumes "finish_or_cleanup env rid st reason s = Inr s'"
  shows "R s s'"
proof -
  let ?s1 = "upd_run rid (\<lambda>r. r\<lparr>r_failure_reason := reason\<rparr>) s"
  have "R s ?s1" by (rule rel_note) simp_all
  also have "R ?s1 s'"
    using assms dispatch_cleanup_stage_rel enter_terminal_rel
    unfolding finish_or_cleanup_def Let_def by (auto split: if_splits)
  finally show ?thesis .
qed

lemma dispatch_provision_stage_rel:
  assumes "dispatch_provision_stage env rid ko s = Inr s'"
  shows "R s s'"
proof -
  obtain eid s1 where a: "add_stage rid None KSystem SYSTEM_STAGE_PROVISION None None None 0 s = (eid, s1)"
    by fastforce
  let ?s2 = "s1\<lparr>next_id := Suc (next_id s1)\<rparr>"
  from assms a obtain spec c s3 w where
    c: "dispatch_provision env spec (system_command_context rid eid ?s2) ?s2 = Inr (c, s3)"
    and s': "s' = upd_run rid (\<lambda>r. r\<lparr>r_workspace_id := Some w, r_phase := PhProvision,
                                 r_pending_agent_command_id := Some c\<rparr>) s3"
    by (auto simp: dispatch_provision_stage_def Let_def fresh_def res_simps)
  have "R s s3"
    using rel_then_below[OF below_trans[OF below_infra(4) dispatch_provision_below[OF c]]] add_stage_rel[OF a] by blast
  moreover have "next_id s \<le> c" using dispatched_ids(3)[OF c] add_stage_rel[OF a] by simp
  ultimately show ?thesis unfolding s' by (intro rel_run) auto
qed

section \<open>Invocations\<close>

lemma send_invocation_rel:
  assumes "send_invocation env rid eid idx c pl sk m ef wc cj parked t = Inr s'"
    and "R s t" and "\<And>u. R s u \<Longrightarrow> R s (parked u)"
  shows "R s s'"
  using send_invocation_shape[OF assms(1)] fail_stage_rel[OF assms(2)] assms(3) rel_then_below[OF _ assms(2)]
  by blast

lemma dispatch_skill_stage_rel:
  assumes "dispatch_skill_stage env rid st idx ko rv s = Inr s'"
  shows "R s s'"
proof -
  obtain eid s1 where a: "add_stage rid (Some idx) KSkill (sk_name st) (Some (sk_skill_name st))
      (Some PMain) rv 0 s = (eid, s1)" by fastforce
  have s2: "R s (s1\<lparr>next_id := Suc (next_id s1)\<rparr>)"
    by (rule rel_then_below[OF below_infra(4)]) (simp add: add_stage_rel[OF a])
  have le: "next_id s \<le> next_id s1" using add_stage_rel[OF a] by simp
  from assms a show ?thesis
    by (auto simp: dispatch_skill_stage_def Let_def fresh_def res_simps
        elim!: send_invocation_rel[OF _ s2] intro: rel_park[OF le])
qed

lemma dispatch_review_only_stage_rel:
  assumes "dispatch_review_only_stage env rid st idx ko rv s = Inr s'"
  shows "R s s'"
proof -
  obtain eid s1 where a: "add_stage rid (Some idx) KReview (rv_name st) (Some (rv_skill_name st))
      (Some PReview) rv 1 s = (eid, s1)" by fastforce
  have s2: "R s (s1\<lparr>next_id := Suc (next_id s1)\<rparr>)"
    by (rule rel_then_below[OF below_infra(4)]) (simp add: add_stage_rel[OF a])
  have le: "next_id s \<le> next_id s1" using add_stage_rel[OF a] by simp
  from assms a show ?thesis
    by (auto simp: dispatch_review_only_stage_def Let_def fresh_def res_simps
        elim!: send_invocation_rel[OF _ s2] intro: rel_park[OF le])
qed

lemma dispatch_review_invocation_rel:
  assumes "dispatch_review_invocation env rid st eid body s = Inr s'"
  shows "R s s'"
proof -
  let ?s1 = "upd_stage eid (\<lambda>e. e\<lparr>se_iteration := se_iteration e + 1\<rparr>) s"
  have s2: "R s (?s1\<lparr>next_id := Suc (next_id ?s1)\<rparr>)" and le: "next_id s \<le> next_id ?s1"
    by (intro rel_then_below[OF below_infra(4)] rel_stage rel_refl) simp
  have parked: "R s ((park rid (next_id ?s1) \<circ> upd_stage eid f) u)" if "R s u" for u f
    using that by (auto intro: rel_park rel_stage)
  from assms show ?thesis
    unfolding dispatch_review_invocation_def Let_def fresh_def prod.case ebind_eq_Inr
    by (elim exE conjE) (erule send_invocation_rel[OF _ s2 parked])
qed

lemma dispatch_fix_invocation_rel:
  assumes "dispatch_fix_invocation env rid st eid idx ko body res s = Inr s'"
  shows "R s s'"
proof -
  have s1: "R s (s\<lparr>next_id := Suc (next_id s)\<rparr>)"
    by (intro rel_then_below[OF below_infra(4)] rel_refl)
  have parked: "R s ((park rid (next_id s) \<circ> upd_stage eid f) u)" if "R s u" for u f
    using that by (auto intro: rel_park rel_stage)
  from assms show ?thesis
    unfolding dispatch_fix_invocation_def Let_def fresh_def prod.case ebind_eq_Inr
    by (elim exE conjE) (erule send_invocation_rel[OF _ s1 parked])
qed

lemma run_action_stage_rel:
  assumes "run_action_stage env rid st idx ko s = Inr s'" and "actions_frame env"
  shows "R s s'"
proof -
  obtain eid s1 where a: "add_stage rid (Some idx) KAction (as_action_id st) None None None 0 s = (eid, s1)"
    by fastforce
  have s1: "R s s1" using add_stage_rel[OF a] by simp
  obtain ctx where ctx: "build_action_context rid ko idx s1 = Inr ctx"
    using assms(1) a by (auto simp: run_action_stage_def res_simps)
  note h = assms(1)[unfolded run_action_stage_def a prod.case ctx ebind_simps]
  show ?thesis
  proof (cases "execute_action env (as_action_id st) ctx s1")
    case (Inl e)
    with h show ?thesis by (cases e) (auto intro!: rel_chain rel_stage s1)
  next
    case (Inr x)
    obtain res s2 where x: "x = (res, s2)" by fastforce
    with Inr assms(2) have "R s s2"
      using rel_then_below[OF _ s1] by (auto simp: execute_action_def actions_frame_def split: option.splits)
    with h Inr x show ?thesis by (auto intro!: rel_chain rel_stage)
  qed
qed

lemma start_stage_rel:
  assumes "start_stage env rid idx s = Inr s'" and "actions_frame env"
  shows "R s s'"
proof -
  have rev: "R s (upd_run rid (\<lambda>q. q\<lparr>r_kickoff := k\<rparr>) s)" for k by (rule rel_note) simp_all
  show ?thesis
    using assms(1) run_action_stage_rel[OF _ assms(2)] dispatch_provision_stage_rel
      dispatch_skill_stage_rel dispatch_review_only_stage_rel
      rel_trans[OF rev dispatch_skill_stage_rel] rel_trans[OF rev dispatch_review_only_stage_rel]
    by (auto simp: start_stage_def Let_def res_simps split: option.splits if_splits executable_stage.splits)
qed

section \<open>Returns and boundaries\<close>

lemma send_back_to_stage_rel:
  assumes "send_back_to_stage env rid eid ti ts gap ko s = Inr s'" and "actions_frame env"
  shows "R s s'"
proof (cases "1 \<le> count_of (r_sendback_counts (run_of s rid)) (sk_name ts)")
  case True
  from assms(1)[unfolded send_back_to_stage_def Let_def if_P[OF True]] show ?thesis by (rule enter_pause_rel)
next
  case False
  note h = start_stage_rel[OF assms(1)[unfolded send_back_to_stage_def Let_def if_not_P[OF False]] assms(2)]
  show ?thesis by (rule rel_trans[OF _ h], intro rel_chain rel_stage rel_note rel_refl) simp_all
qed

lemma validate_rel:
  assumes "validate_skill_return_and_artifact env rid st eid idx ko outs s = Inr (x, s')" and "actions_frame env"
  shows "R s s'"
proof -
  have sb: "R s t" if "send_back_to_stage env rid eid ti ts gap ko
      (upd_stage eid (\<lambda>e. e\<lparr>se_status := SCompleted, se_completed_at := Some (now s)\<rparr>) s) = Inr t" for ti ts gap t
    using rel_trans[OF rel_stage[OF rel_refl] send_back_to_stage_rel[OF that assms(2)]] .
  have art: "R s (mark_final i t)" if "store_artifact org tk r e n b it s = (i, t)" for org tk r e n b it i t
    using rel_below[OF below_trans[OF store_artifact_below[OF that] mark_final_below]] .
  show ?thesis
    using assms(1) fail_stage_rel[OF rel_refl] sb art
    by (auto simp: validate_skill_return_and_artifact_def Let_def res_simps
        split: sum.splits if_splits option.splits prod.splits)
qed

lemma settle_stage_boundary_rel:
  assumes "settle_stage_boundary env rid cs bc eid ko paths idx s = Inr s'" and "actions_frame env"
  shows "R s s'"
proof -
  let ?s1 = "upd_stage eid (\<lambda>e. e\<lparr>se_status := SCompleted, se_completed_at := Some (now s)\<rparr>) s"
  have s1: "R s ?s1" by (intro rel_stage rel_refl)
  show ?thesis
  proof (cases "resolve_residual_send_back (r_definition_snapshot (run_of s rid)) cs idx (open_residuals eid s)")
    case (Some x)
    obtain ti ts gap where "x = (ti, ts, gap)" by (cases x) auto
    with assms(1) Some have "send_back_to_stage env rid eid ti ts gap ko ?s1 = Inr s'"
      by (simp add: settle_stage_boundary_def Let_def)
    from rel_trans[OF s1 send_back_to_stage_rel[OF this assms(2)]] show ?thesis .
  next
    case None
    with assms(1) obtain d where "enter_pause rid eid d ko ?s1 = Inr s' \<or>
        s' = enqueue_route rid (Some idx) ''success'' None (publish_stage_state rid
               (upd_stage eid (\<lambda>e. e\<lparr>se_boundary_outcome := Some Proceeded\<rparr>) ?s1))"
      by (auto simp: settle_stage_boundary_def Let_def res_simps split: if_splits)
    then show ?thesis
      using rel_trans[OF s1 enter_pause_rel] by (auto intro!: rel_chain rel_stage)
  qed
qed

lemma record_pass_rel: "R s t \<Longrightarrow> R s (record_pass ph rid eid a ret t)"
  unfolding record_pass_def by (intro rel_chain rel_stage)

lemma handle_main_return_rel:
  assumes h: "handle_main_return env rid st eid idx ko outs s = Inr s'" and "actions_frame env"
  shows "R s s'"
proof -
  from h obtain x s1 where v: "validate_skill_return_and_artifact env rid st eid idx ko outs s = Inr (x, s1)"
    by (auto simp: handle_main_return_def res_simps)
  note v' = validate_rel[OF v assms(2)]
  show ?thesis
  proof (cases x)
    case None
    with h v v' show ?thesis by (simp add: handle_main_return_def)
  next
    case (Some y)
    obtain ret a body where y: "y = (ret, a, body)" by (cases y) auto
    show ?thesis
      by (rule rel_trans[OF record_pass_rel[OF v']])
         (use h v Some y settle_stage_boundary_rel[OF _ assms(2)] dispatch_review_invocation_rel in
           \<open>auto simp: handle_main_return_def Let_def split: if_splits\<close>)
  qed
qed

lemma handle_fix_return_rel:
  assumes h: "handle_fix_return env rid st eid idx ko outs s = Inr s'" and "actions_frame env"
  shows "R s s'"
proof -
  from h obtain x s1 where v: "validate_skill_return_and_artifact env rid st eid idx ko outs s = Inr (x, s1)"
    by (auto simp: handle_fix_return_def res_simps)
  note v' = validate_rel[OF v assms(2)]
  show ?thesis
  proof (cases x)
    case None
    with h v v' show ?thesis by (simp add: handle_fix_return_def)
  next
    case (Some y)
    obtain ret a body where y: "y = (ret, a, body)" by (cases y) auto
    with h v Some have d: "dispatch_review_invocation env rid st eid body (record_pass PFix rid eid a ret s1) = Inr s'"
      by (simp add: handle_fix_return_def)
    from rel_trans[OF record_pass_rel[OF v'] dispatch_review_invocation_rel[OF d]] show ?thesis .
  qed
qed

lemma handle_review_return_rel:
  assumes h: "handle_review_return env rid st eid idx ko outs s = Inr s'" and "actions_frame env"
  shows "R s s'"
proof -
  from h obtain rc where rc: "sk_review st = Some rc" by (auto simp: handle_review_return_def res_simps)
  show ?thesis
  proof (cases "parse_review_return env (case get_str outs ''output'' of Some x \<Rightarrow> x | None \<Rightarrow> [])")
    case (Inl err)
    with h rc fail_stage_rel[OF rel_refl] show ?thesis by (auto simp: handle_review_return_def)
  next
    case (Inr ret)
    let ?it = "se_iteration (stage_of s eid)"
    note h' = h[unfolded handle_review_return_def rc require_simps ebind_simps Inr sum.case Let_def]
    then obtain ids s1 where ra: "record_and_apply_review rid eid ret ?it s = Inr (ids, s1)"
      by (auto simp: res_simps)
    define s3 where "s3 = publish_stage_state rid (upd_stage eid (\<lambda>e. e\<lparr>se_loop_state := se_loop_state e @
                    [review_entry ?it ret ids (open_residuals eid s1)]\<rparr>) s1)"
    note h'' = h'[unfolded ra ebind_simps prod.case, folded s3_def]
    have "R s s3" unfolding s3_def
      by (intro rel_chain rel_stage rel_below[OF record_and_apply_review_below[OF ra]])
    also have "R s3 s'"
    proof (cases "open_residuals eid s1 \<noteq> [] \<and> ?it < max_iterations rc")
      case True
      with h'' obtain body where
        "dispatch_fix_invocation env rid st eid idx ko body (open_residuals eid s1) s3 = Inr s'"
        by (auto simp: res_simps)
      then show ?thesis by (rule dispatch_fix_invocation_rel)
    next
      case False
      from h''[unfolded if_not_P[OF False]] show ?thesis by (rule settle_stage_boundary_rel[OF _ assms(2)])
    qed
    finally show ?thesis .
  qed
qed

lemma handle_review_stage_event_rel:
  assumes h: "handle_review_stage_event env rid eid label outs s = Inr s'" and "actions_frame env"
  shows "R s s'"
proof (cases "label = ''success''")
  case False
  with h fail_stage_rel[OF rel_refl] show ?thesis by (auto simp: handle_review_stage_event_def Let_def)
next
  case True
  then have neg: "\<not> label \<noteq> ''success''" by simp
  note h1 = h[unfolded handle_review_stage_event_def Let_def if_not_P[OF neg]]
  then obtain st where st: "nth_stage (r_definition_snapshot (run_of s rid)) (se_stage_index (stage_of s eid)) = Inr st"
    by (auto simp: res_simps)
  note h2 = h1[unfolded st ebind_simps]
  from h2 obtain rv where rv: "st = ReviewSkillStage rv" by (cases st) auto
  note h3 = h2[unfolded rv executable_stage.case]
  show ?thesis
  proof (cases "parse_review_return env (case get_str outs ''output'' of Some x \<Rightarrow> x | None \<Rightarrow> [])")
    case (Inl err)
    with h3 fail_stage_rel[OF rel_refl] show ?thesis by auto
  next
    case (Inr ret)
    note h4 = h3[unfolded Inr sum.case]
    then obtain ids s1 where ra: "record_and_apply_review rid eid ret 1 s = Inr (ids, s1)"
      by (auto simp: res_simps)
    show ?thesis
      by (rule rel_trans[OF rel_stage[OF rel_below[OF record_and_apply_review_below[OF ra]]]
            settle_stage_boundary_rel[OF h4[unfolded ra ebind_simps prod.case] assms(2)]])
  qed
qed

section \<open>Agent events\<close>

lemma dispatch_refresh_auth_rel:
  assumes "dispatch_refresh_auth env rid s = Inr s'"
  shows "R s s'"
proof -
  obtain eid s1 where a: "add_stage rid None KSystem SYSTEM_STAGE_REFRESH_AUTH None None None 0 s = (eid, s1)"
    by fastforce
  with assms obtain w org pl c s2 where
    c: "dispatch_auth_refresh env w (system_command_context rid eid s1) org pl s1 = Inr (c, s2)"
    and s': "s' = park rid c s2"
    by (auto simp: dispatch_refresh_auth_def Let_def res_simps split: option.splits)
  have "R s s2" using rel_then_below[OF dispatch_auth_refresh_below[OF c]] add_stage_rel[OF a] by blast
  moreover have "next_id s \<le> c" using dispatched_ids(2)[OF c] add_stage_rel[OF a] by simp
  ultimately show ?thesis unfolding s' by (intro rel_park)
qed

lemma handle_skill_stage_event_rel:
  assumes h: "handle_skill_stage_event env rid eid label outs s = Inr s'" and "actions_frame env"
  shows "R s s'"
proof (cases "label = ''success''")
  case False
  let ?reason = "or_else (get_str outs ''error_message'') label"
  let ?s2 = "publish_stage_state rid (upd_stage eid (\<lambda>e. e\<lparr>se_status := SFailed,
      se_failure_reason := Some ?reason, se_completed_at := Some (now s)\<rparr>)
      (upd_run rid (\<lambda>r'. r'\<lparr>r_sendback_counts := AList.update (auth_retry_key (se_stage_name (stage_of s eid))) 1
         (r_sendback_counts (run_of s rid))\<rparr>) s))"
  from h False have "dispatch_refresh_auth env rid ?s2 = Inr s' \<or> (\<exists>i m. s' = fail_stage rid eid i m s)"
    by (auto simp: handle_skill_stage_event_def Let_def split: if_splits)
  moreover have "R s ?s2" by (intro rel_chain rel_stage rel_note) simp_all
  ultimately show ?thesis
    using dispatch_refresh_auth_rel rel_trans fail_stage_rel[OF rel_refl] by blast
next
  case True
  then have neg: "\<not> label \<noteq> ''success''" by simp
  note h1 = h[unfolded handle_skill_stage_event_def Let_def if_not_P[OF neg]]
  then obtain st where st: "nth_stage (r_definition_snapshot (run_of s rid)) (se_stage_index (stage_of s eid)) = Inr st"
    by (auto simp: res_simps)
  show ?thesis
    using h1[unfolded st ebind_simps] handle_review_return_rel[OF _ assms(2)] handle_fix_return_rel[OF _ assms(2)]
      handle_main_return_rel[OF _ assms(2)]
    by (cases st) (auto split: if_splits)
qed

lemma finalize_after_cleanup_rel: "finalize_after_cleanup env rid s = Inr s' \<Longrightarrow> R s s'"
  unfolding finalize_after_cleanup_def Let_def by (rule enter_terminal_rel)

lemma handle_system_stage_event_rel:
  assumes h: "handle_system_stage_event env rid eid label outs s = Inr s'"
  shows "R s s'"
proof -
  have st: "R s (upd_stage eid f (upd_stage eid g s))" for f g by (intro rel_stage rel_refl)
  have sk: "R t s'" if "(case st of
        SkillStage sk \<Rightarrow> dispatch_skill_stage env rid sk i ko None t
      | _ \<Rightarrow> finish_or_cleanup env rid RFailed m t) = Inr s'" for st i ko m t
    using that dispatch_skill_stage_rel finish_or_cleanup_rel by (cases st) auto
  show ?thesis
    using h unfolding handle_system_stage_event_def Let_def
    by (auto simp: ebind_eq_Inr split: if_splits
        intro: rel_trans[OF st finalize_after_cleanup_rel] rel_trans[OF st finish_or_cleanup_rel]
          rel_trans[OF st sk] rel_chain(1)[OF rel_note[OF _ st]] st)
qed

text \<open>The event handler as a whole: it first unparks its run.\<close>

lemma handle_agent_event_from:
  assumes h: "handle_agent_event env (Some rid) c label outs s = Inr s'" and "actions_frame env"
    and "runs s rid = Some r" and "r_state r = Running" and "r_pending_agent_command_id r = Some c"
  shows "s' = s \<and> running_stage rid s = None \<or>
    R (upd_run rid (\<lambda>r. r\<lparr>r_pending_agent_command_id := None\<rparr>) s) s'"
proof (cases "running_stage rid s")
  case None
  with h assms(3-) show ?thesis by (simp add: handle_agent_event_def)
next
  case (Some e)
  with h assms(3-) show ?thesis
    using handle_system_stage_event_rel handle_review_stage_event_rel[OF _ assms(2)]
      handle_skill_stage_event_rel[OF _ assms(2)]
    by (auto simp: handle_agent_event_def Let_def split: stage_kind.splits)
qed

lemma handle_agent_event_rel:
  assumes h: "handle_agent_event env run_id c label outs s = Inr s'" and "actions_frame env"
  shows "R s s'"
proof (cases "\<exists>rid r. run_id = Some rid \<and> runs s rid = Some r \<and> r_state r = Running \<and>
    r_pending_agent_command_id r = Some c")
  case True
  then obtain rid r where rid: "run_id = Some rid"
    and r: "runs s rid = Some r" "r_state r = Running" "r_pending_agent_command_id r = Some c" by blast
  from handle_agent_event_from[OF h[unfolded rid] assms(2) r] show ?thesis
    using rel_trans[OF rel_unpark] by auto
next
  case False
  with h have "s' = s" by (auto simp: handle_agent_event_def split: option.splits if_splits)
  then show ?thesis by simp
qed

section \<open>Tasks, service calls and sweeps\<close>

lemma route_run_rel: "route_run env rid idx label reason s = Inr s' \<Longrightarrow> R s s'"
  using finish_or_cleanup_rel dispatch_stage_rel
  by (auto simp: route_run_def split: option.splits if_splits)

lemma resume_from_pause_rel:
  assumes "resume_from_pause pause rid s = Inr s'"
  shows "R s s'"
  using assms unfolding resume_from_pause_def Let_def
  by (auto simp: res_simps intro!: rel_chain rel_state)

lemma resume_with_instruction_rel:
  assumes "resume_with_instruction env pause rid ins s = Inr s'" and "actions_frame env"
  shows "R s s'"
  using assms(1) unfolding resume_with_instruction_def Let_def
  by (auto simp: res_simps dest!: start_stage_rel[OF _ assms(2)] elim!: rel_trans[rotated]
      intro!: rel_chain rel_state)

lemma resume_with_send_back_rel:
  assumes "resume_with_send_back env rid eid ti ts s = Inr s'" and "actions_frame env"
  shows "R s s'"
  using assms(1) unfolding resume_with_send_back_def Let_def
  by (auto dest!: send_back_to_stage_rel[OF _ assms(2)] elim!: rel_trans[rotated] intro!: rel_chain rel_state)

lemma kill_run_rel: "kill_run env rid s = Inr s' \<Longrightarrow> R s s'"
  unfolding kill_run_def by (drule finish_or_cleanup_rel, erule rel_trans[rotated], rule rel_state) auto

lemma cancel_paused_rel: "cancel_paused env rid pid s = Inr s' \<Longrightarrow> R s s'"
  unfolding cancel_paused_def
  by (drule finish_or_cleanup_rel, erule rel_trans[rotated], rule rel_state, simp, rule tables[OF rel_refl]) simp_all

lemma request_cancel_rel:
  assumes "request_cancel env org rid act s = Inr s'"
  shows "R s s'"
proof -
  from assms obtain r where r: "run_in_org rid org s = Some r" by (auto simp: request_cancel_def res_simps)
  then have row: "runs s rid = Some r" by (auto simp: run_in_org_def split: option.splits if_splits)
  have flag: "R s (upd_run rid (\<lambda>r. r\<lparr>r_cancel_requested := True\<rparr>) s)" by (rule rel_note) simp_all
  from assms show ?thesis unfolding request_cancel_def r require_simps ebind_simps
    using cancel_queued_rel[OF row] flag cancel_paused_rel
    by (auto simp: ebind_eq_Inr split: if_splits)
qed

lemma resolve_pause_rel:
  assumes "resolve_pause env org pid body act s = Inr s'" and "actions_frame env"
  shows "R s s'"
proof -
  from resolve_pause_shape[OF assms(1)] obtain pause g t where
    t: "below (upd_pause pid g s) t" and cont: "resume_from_pause pause (p_run_id pause) t = Inr s' \<or>
      (\<exists>ins. resume_with_instruction env pause (p_run_id pause) ins t = Inr s') \<or>
      (\<exists>ti ts. resume_with_send_back env (p_run_id pause) (p_stage_execution_id pause) ti ts t = Inr s') \<or>
      kill_run env (p_run_id pause) t = Inr s'" by blast
  have "R s t" by (rule rel_then_below[OF t], rule tables[OF rel_refl]) simp_all
  moreover from cont have "R t s'"
    using resume_from_pause_rel resume_with_instruction_rel[OF _ assms(2)] resume_with_send_back_rel[OF _ assms(2)]
      kill_run_rel by blast
  ultimately show ?thesis by (rule rel_trans)
qed

lemma start_run_rel: "start_run org t pid ko u s = Inr (rid, s') \<Longrightarrow> R s s'"
  by (auto simp: start_run_def Let_def res_simps intro: insert_run_rel)

lemma start_rerun_rel: "start_rerun org rid0 act u s = Inr (rid, s') \<Longrightarrow> R s s'"
  by (auto simp: start_rerun_def res_simps intro: start_run_rel)

lemma start_rerun_from_stage_rel:
  "start_rerun_from_stage org t st ins act u s = Inr (rid, s') \<Longrightarrow> R s s'"
  by (auto simp: start_rerun_from_stage_def Let_def res_simps intro: insert_run_rel)

lemma fold_rel:
  assumes "\<And>x t. R t (f x t)"
  shows "R s (fold f xs s)"
  by (rule fold_invariant[where I = "R s"]) (use assms rel_trans in blast)+

lemma resume_stalled_runs_rel: "R s (resume_stalled_runs n s)"
proof -
  have stale: "R t (reconcile_one_stale r t)" for r t
    by (auto simp: reconcile_one_stale_def split: option.split stage_status.split intro!: rel_below below_infra)
  have lost: "R t (reconcile_one_lost r t)" for r t
    by (auto simp: reconcile_one_lost_def split: option.split intro!: rel_below below_infra)
  have orphan: "R t (reconcile_one_orphan r t)" for r t
    by (auto simp: reconcile_one_orphan_def promote_oldest_queued_rel)
  show ?thesis
    unfolding resume_stalled_runs_def Let_def reconcile_orphaned_queued_def reconcile_lost_resume_def
      reconcile_stale_running_def
    by (rule rel_trans[OF rel_trans[OF fold_rel[OF stale] fold_rel[OF lost]] fold_rel[OF orphan]])
qed

lemma audited_rel: "runs u = runs s \<Longrightarrow> next_id u = next_id s \<Longrightarrow> R s (audit ek ei k p a org u)"
  by (rule rel_then_below[OF below_infra(2)], rule tables[OF rel_refl]) simp_all

lemma sys_step_rel:
  assumes "sys_step env s s'" and "actions_frame env"
  shows "R s s'"
  using assms
proof (induction rule: sys_step.induct)
  case (s_create org d act s i s')
  then show ?case
    by (auto simp: create_pipeline_def Let_def res_simps audit_for_pipeline_def
        intro!: audited_rel)
next
  case (s_update org pid d act s s')
  then show ?case
    by (auto simp: update_pipeline_def Let_def res_simps audit_for_pipeline_def
        intro!: audited_rel)
next
  case (s_delete org pid act s s')
  then show ?case
    by (auto simp: delete_pipeline_def res_simps audit_for_pipeline_def split: if_splits
        intro!: audited_rel)
next
  case (s_tick s t)
  show ?case by (rule tables[OF rel_refl]) simp_all
qed (auto intro: route_run_rel start_stage_rel handle_agent_event_rel start_run_rel start_rerun_rel
    start_rerun_from_stage_rel request_cancel_rel resolve_pause_rel resume_stalled_runs_rel rel_below)

lemma sys_steps_rel: "(sys_step env)\<^sup>*\<^sup>* s s' \<Longrightarrow> actions_frame env \<Longrightarrow> R s s'"
  by (induction rule: rtranclp_induct) (auto intro: rel_trans sys_step_rel)

end

section \<open>Instance: parking on fresh commands\<close>

lemma attempt_promotion_shape:
  "snd (attempt_promotion rid s) = s \<or>
   below (upd_run rid (\<lambda>r. r\<lparr>r_state := Running\<rparr>) s) (snd (attempt_promotion rid s)) \<and>
     r_state (run_of s rid) = Queued \<and> \<not> slot_taken (r_ticket_id (run_of s rid)) s"
  unfolding attempt_promotion_def Let_def by (auto intro!: below_chain)

definition parks_afresh :: "pipelines_db \<Rightarrow> pipelines_db \<Rightarrow> bool" where
  "parks_afresh s s' \<longleftrightarrow> next_id s \<le> next_id s' \<and>
     (\<forall>i r' c. runs s' i = Some r' \<and> r_pending_agent_command_id r' = Some c \<longrightarrow>
        next_id s \<le> c \<or> (\<exists>r. runs s i = Some r \<and> r_pending_agent_command_id r = Some c))"

lemma parks_trans: "parks_afresh s t \<Longrightarrow> parks_afresh t u \<Longrightarrow> parks_afresh s u"
  unfolding parks_afresh_def by (meson le_trans)

lemma parks_tables:
  "parks_afresh s t \<Longrightarrow> runs u = runs t \<Longrightarrow> next_id t \<le> next_id u \<Longrightarrow> parks_afresh s u"
  by (auto simp: parks_afresh_def)

lemma parks_update:
  assumes "parks_afresh s t"
    and "\<And>r. r_pending_agent_command_id (f r) = r_pending_agent_command_id r \<or>
       r_pending_agent_command_id (f r) = None \<or> (\<exists>c \<ge> next_id s. r_pending_agent_command_id (f r) = Some c)"
  shows "parks_afresh s (upd_run rid f t)"
  unfolding parks_afresh_def
proof (intro conjI allI impI)
  show "next_id s \<le> next_id (upd_run rid f t)" using assms(1) by (simp add: parks_afresh_def)
  fix i r' c assume r': "runs (upd_run rid f t) i = Some r' \<and> r_pending_agent_command_id r' = Some c"
  then obtain r where r: "runs t i = Some r" "r' = (if i = rid then touch (now t) f r else r)"
    by (auto split: if_splits)
  have "r_pending_agent_command_id r = Some c \<or> next_id s \<le> c"
    using r' r(2) assms(2)[of r] by (auto simp: touch_def split: if_splits)
  with r(1) assms(1) show "next_id s \<le> c \<or> (\<exists>r. runs s i = Some r \<and> r_pending_agent_command_id r = Some c)"
    unfolding parks_afresh_def by blast
qed

lemma parks_below: "below t u \<Longrightarrow> parks_afresh s t \<Longrightarrow> parks_afresh s u"
  by (rule parks_tables) (auto simp: below_def)

lemma parks_refl: "parks_afresh s s"
  by (auto simp: parks_afresh_def)

lemma parks_promotion: "parks_afresh s t \<Longrightarrow> parks_afresh s (snd (attempt_promotion rid t))"
  using attempt_promotion_shape[of rid t]
  by (auto intro: parks_below[OF _ parks_update])

interpretation parks: engine_relation parks_afresh
proof
  fix env rid st reason s s' assume "enter_terminal env rid st reason s = Inr s'"
  from enter_terminal_shape[OF this] obtain t where
    t: "below (upd_run rid (\<lambda>r. r\<lparr>r_state := st, r_failure_reason := reason, r_completed_at := Some (now s)\<rparr>) s) t"
    and s': "s' = promote_oldest_queued (r_ticket_id (run_of s rid)) t" by blast
  have "parks_afresh s t" by (rule parks_below[OF t], rule parks_update[OF parks_refl]) simp
  then show "parks_afresh s s'"
    unfolding s' promote_oldest_queued_def by (auto intro: parks_promotion split: option.split)
next
  fix org tk p n sn i ko usr s rid s1 assume "insert_run org tk p n sn i ko usr s = Inr (rid, s1)"
  then have "parks_afresh s s1"
    by (auto simp: insert_run_def fresh_def new_run_def parks_afresh_def split: if_splits)
  then show "parks_afresh s (snd (attempt_promotion rid s1))" by (rule parks_promotion)
next
  fix s :: pipelines_db and rid r act assume "runs s rid = Some r"
  show "parks_afresh s (cancel_queued rid act s)"
    unfolding cancel_queued_def Let_def
    by (rule parks_below[OF below_infra(2)], rule parks_below[OF publish_state_below(1)],
        rule parks_update[OF parks_refl]) simp
next
  fix s t :: pipelines_db and f :: "run_row \<Rightarrow> run_row" and rid
  assume st: "parks_afresh s t" and f: "\<And>r. r_id (f r) = r_id r \<and> r_ticket_id (f r) = r_ticket_id r \<and>
         (r_state (f r) = r_state r \<or> r_state (f r) = Running \<or> r_state (f r) = Paused) \<and>
         (r_pending_agent_command_id (f r) = r_pending_agent_command_id r \<or>
          r_pending_agent_command_id (f r) = None \<or>
          (\<exists>c \<ge> next_id s. r_pending_agent_command_id (f r) = Some c))"
  show "parks_afresh s (upd_run rid f t)" by (rule parks_update[OF st]) (use f in blast)
qed (fact parks_refl parks_trans parks_tables)+

text \<open>An event that had an effect leaves its run parked elsewhere, and no later step parks it there again.\<close>

lemma handle_agent_event_moves_on:
  assumes h: "handle_agent_event env (Some rid) c label outs s = Inr s'" and act: "actions_frame env"
    and c: "c < next_id s" and effect: "s' \<noteq> s" and q: "runs s' rid = Some q"
  shows "r_pending_agent_command_id q \<noteq> Some c"
proof
  assume pc: "r_pending_agent_command_id q = Some c"
  obtain r where r: "runs s rid = Some r" "r_state r = Running" "r_pending_agent_command_id r = Some c"
    using h effect by (auto simp: handle_agent_event_def split: option.splits if_splits)
  let ?s1 = "upd_run rid (\<lambda>r. r\<lparr>r_pending_agent_command_id := None\<rparr>) s"
  have "parks_afresh ?s1 s'" using parks.handle_agent_event_from[OF h act r] effect by blast
  with q pc have "next_id ?s1 \<le> c \<or> (\<exists>r. runs ?s1 rid = Some r \<and> r_pending_agent_command_id r = Some c)"
    unfolding parks_afresh_def by blast
  with c r(1) show False by auto
qed

lemma steps_never_park_again:
  assumes "(sys_step env)\<^sup>*\<^sup>* s s'" and "actions_frame env" and "c < next_id s"
    and "\<And>r. runs s rid = Some r \<Longrightarrow> r_pending_agent_command_id r \<noteq> Some c" and "runs s' rid = Some q"
  shows "r_pending_agent_command_id q \<noteq> Some c"
  using parks.sys_steps_rel[OF assms(1,2)] assms(3-) unfolding parks_afresh_def by (metis leD)

section \<open>Instance: queued runs are served\<close>

text \<open>A run only waits in the queue while its ticket's slot is taken.\<close>

definition served :: "pipelines_db \<Rightarrow> bool" where
  "served s \<longleftrightarrow> (\<forall>i r. runs s i = Some r \<and> r_state r = Queued \<longrightarrow>
     (\<exists>j q. runs s j = Some q \<and> in_flight q \<and> r_ticket_id q = r_ticket_id r))"

definition runs_keyed :: "pipelines_db \<Rightarrow> bool" where
  "runs_keyed s \<longleftrightarrow> keyed_rows r_id (next_id s) (runs s)"

definition keeps_served :: "pipelines_db \<Rightarrow> pipelines_db \<Rightarrow> bool" where
  "keeps_served s s' \<longleftrightarrow> (runs_keyed s \<longrightarrow> runs_keyed s' \<and> (served s \<longrightarrow> served s'))"

lemma slot_taken_iff:
  assumes "runs_keyed s"
  shows "slot_taken t s \<longleftrightarrow> (\<exists>j q. runs s j = Some q \<and> in_flight q \<and> r_ticket_id q = t)"
  using assms unfolding slot_taken_def select_eq_Nil runs_keyed_def keyed_rows_def by blast

text \<open>A row update that ends no run: nothing new is queued and no slot is given up.\<close>

lemma served_update:
  assumes "runs_keyed t"
    and f: "\<And>r. r_id (f r) = r_id r \<and> r_ticket_id (f r) = r_ticket_id r \<and>
         (r_state (f r) = r_state r \<or> r_state (f r) = Running \<or> r_state (f r) = Paused)"
  shows "runs_keyed (upd_run rid f t)" "served t \<Longrightarrow> served (upd_run rid f t)"
proof -
  have tf: "r_id (touch n f r) = r_id r \<and> r_ticket_id (touch n f r) = r_ticket_id r \<and>
     r_state (touch n f r) = r_state (f r)" for n r using f[of r] by (simp add: touch_def)
  show "runs_keyed (upd_run rid f t)"
    using assms(1) tf by (auto simp: runs_keyed_def keyed_rows_def)
  assume s: "served t"
  show "served (upd_run rid f t)"
    unfolding served_def
  proof (intro allI impI, elim conjE)
    fix i r' assume r': "runs (upd_run rid f t) i = Some r'" "r_state r' = Queued"
    then obtain r where r: "runs t i = Some r" "r' = (if i = rid then touch (now t) f r else r)" by (auto split: if_splits)
    have "r_state r = Queued" "r_ticket_id r' = r_ticket_id r" using r' r(2) f[of r] tf[of "now t" r] by (auto split: if_splits)
    with s r(1) obtain j q where q: "runs t j = Some q" "in_flight q" "r_ticket_id q = r_ticket_id r'"
      unfolding served_def by metis
    let ?q = "if j = rid then touch (now t) f q else q"
    have "runs (upd_run rid f t) j = Some ?q" using q(1) by (cases "j = rid") auto
    moreover have "in_flight ?q" "r_ticket_id ?q = r_ticket_id r'"
      using q(2,3) f[of q] tf[of "now t" q] by (auto simp: in_flight_def)
    ultimately show "\<exists>j q. runs (upd_run rid f t) j = Some q \<and> in_flight q \<and> r_ticket_id q = r_ticket_id r'" by blast
  qed
qed

lemma served_tables:
  assumes "runs_keyed t" and "runs u = runs t" and "next_id t \<le> next_id u"
  shows "runs_keyed u" "served u = served t"
  using assms keyed_rows_mono by (auto simp: runs_keyed_def served_def)

lemma served_below:
  assumes "runs_keyed t" and "below t u"
  shows "runs_keyed u" "served u = served t"
  using served_tables[OF assms(1), of u] assms(2) unfolding below_def by blast+

lemma served_promotion:
  assumes "runs_keyed t"
  shows "runs_keyed (snd (attempt_promotion rid t))" "served t \<Longrightarrow> served (snd (attempt_promotion rid t))"
proof -
  let ?f = "\<lambda>r::run_row. r\<lparr>r_state := Running\<rparr>"
  have u: "runs_keyed (upd_run rid ?f t)" "served t \<Longrightarrow> served (upd_run rid ?f t)"
    using served_update[OF assms, of ?f rid] by auto
  have "runs_keyed (snd (attempt_promotion rid t)) \<and> (served t \<longrightarrow> served (snd (attempt_promotion rid t)))"
    using attempt_promotion_shape[of rid t]
  proof
    assume "snd (attempt_promotion rid t) = t"
    with assms show ?thesis by simp
  next
    assume "below (upd_run rid ?f t) (snd (attempt_promotion rid t)) \<and>
      r_state (run_of t rid) = Queued \<and> \<not> slot_taken (r_ticket_id (run_of t rid)) t"
    then have b: "below (upd_run rid ?f t) (snd (attempt_promotion rid t))" by blast
    show ?thesis using served_below[OF u(1) b] u(2) by blast
  qed
  then show "runs_keyed (snd (attempt_promotion rid t))" "served t \<Longrightarrow> served (snd (attempt_promotion rid t))"
    by auto
qed

text \<open>
  All tickets but one are served, and promotion is tried for the oldest queued run of that one: then
  all are.
\<close>

definition served_but :: "uuid \<Rightarrow> pipelines_db \<Rightarrow> bool" where
  "served_but tk s \<longleftrightarrow> (\<forall>i r. runs s i = Some r \<and> r_state r = Queued \<and> r_ticket_id r \<noteq> tk \<longrightarrow>
     (\<exists>j q. runs s j = Some q \<and> in_flight q \<and> r_ticket_id q = r_ticket_id r))"

lemma promote_serves:
  assumes k: "runs_keyed t" and q: "runs t i = Some r" "r_state r = Queued" "r_ticket_id r = tk" and but: "served_but tk t"
  shows "served (snd (attempt_promotion i t))"
proof (cases "slot_taken tk t")
  case True
  then have "snd (attempt_promotion i t) = t" using q by (simp add: attempt_promotion_def run_of_def)
  moreover have "served t"
    using True but unfolding slot_taken_iff[OF k] served_def served_but_def by metis
  ultimately show ?thesis by simp
next
  case False
  let ?u = "upd_run i (\<lambda>r. r\<lparr>r_state := Running\<rparr>) t"
  have b: "below ?u (snd (attempt_promotion i t))"
    using False q unfolding attempt_promotion_def Let_def run_of_def by (auto intro!: below_chain)
  have k': "runs_keyed ?u" using served_update(1)[OF k, of "\<lambda>r. r\<lparr>r_state := Running\<rparr>" i] by simp
  obtain r1 where r1: "runs ?u i = Some r1" "in_flight r1" "r_ticket_id r1 = tk"
    using q by (auto simp: in_flight_def)
  have "served ?u"
    unfolding served_def
  proof (intro allI impI, elim conjE)
    fix j x assume x: "runs ?u j = Some x" "r_state x = Queued"
    show "\<exists>j q. runs ?u j = Some q \<and> in_flight q \<and> r_ticket_id q = r_ticket_id x"
    proof (cases "r_ticket_id x = tk")
      case True
      with r1 show ?thesis by metis
    next
      case False
      have "j \<noteq> i" using x r1(1,2) by (auto simp: in_flight_def)
      then have "runs t j = Some x" using x(1) by simp
      with but x(2) False obtain l y where y: "runs t l = Some y" "in_flight y" "r_ticket_id y = r_ticket_id x"
        unfolding served_but_def by blast
      moreover have "l \<noteq> i" using y q by (auto simp: in_flight_def)
      ultimately have "runs ?u l = Some y" by simp
      with y show ?thesis by blast
    qed
  qed
  with served_below(2)[OF k' b] show ?thesis by simp
qed

text \<open>A run that leaves the slot, with the oldest waiting run of its ticket promoted.\<close>

lemma promote_oldest_serves:
  assumes k: "runs_keyed t" and but: "served_but tk t"
  shows "runs_keyed (promote_oldest_queued tk t)" "served (promote_oldest_queued tk t)"
proof -
  let ?P = "\<lambda>r. r_ticket_id r = tk \<and> r_state r = Queued"
  have "runs_keyed (promote_oldest_queued tk t) \<and> served (promote_oldest_queued tk t)"
  proof (cases "first_row (select (runs t) (next_id t) ?P)")
    case None
    then have no: "\<not> ?P r" if "runs t i = Some r" for i r
      using that k by (auto simp: select_eq_Nil runs_keyed_def keyed_rows_def)
    have "served t" using but no unfolding served_def served_but_def by blast
    with None k show ?thesis by (simp add: promote_oldest_queued_def)
  next
    case (Some r)
    have r: "runs t (r_id r) = Some r" "?P r" using keyed_first_row[OF k[unfolded runs_keyed_def] Some] by auto
    have "served (snd (attempt_promotion (r_id r) t))" by (rule promote_serves[OF k r(1) _ _ but]) (use r(2) in auto)
    with served_promotion(1)[OF k] Some show ?thesis by (simp add: promote_oldest_queued_def)
  qed
  then show "runs_keyed (promote_oldest_queued tk t)" "served (promote_oldest_queued tk t)" by auto
qed

lemma ending_serves_others:
  assumes k: "runs_keyed s" and s: "served s" and f: "\<And>r. r_id (f r) = r_id r \<and> r_ticket_id (f r) = r_ticket_id r"
    and q: "\<And>r. r_state (f r) \<noteq> Queued"
  shows "served_but (r_ticket_id (run_of s rid)) (upd_run rid f s)"
  unfolding served_but_def
proof (intro allI impI, elim conjE)
  fix i r' assume r': "runs (upd_run rid f s) i = Some r'" "r_state r' = Queued" "r_ticket_id r' \<noteq> r_ticket_id (run_of s rid)"
  have "i \<noteq> rid" using r'(1,2) q by auto
  with r'(1) have "runs s i = Some r'" by simp
  with s r'(2) obtain j x where x: "runs s j = Some x" "in_flight x" "r_ticket_id x = r_ticket_id r'"
    unfolding served_def by metis
  have "j \<noteq> rid" using x(1,3) r'(3) by (auto simp: run_of_def)
  with x(1) have "runs (upd_run rid f s) j = Some x" by simp
  with x show "\<exists>j q. runs (upd_run rid f s) j = Some q \<and> in_flight q \<and> r_ticket_id q = r_ticket_id r'" by blast
qed

lemma runs_keyed_update:
  assumes "runs_keyed s" and "\<And>r. r_id (f r) = r_id r"
  shows "runs_keyed (upd_run rid f s)"
  using assms by (auto simp: runs_keyed_def keyed_rows_def touch_def)

lemma served_but_below: "served_but tk t \<Longrightarrow> below t u \<Longrightarrow> served_but tk u"
  by (simp add: served_but_def below_def)

lemma enter_terminal_keeps_served:
  assumes "enter_terminal env rid st reason s = Inr s'" and k: "runs_keyed s"
  shows "runs_keyed s'" "served s \<Longrightarrow> served s'"
proof -
  let ?f = "\<lambda>r. r\<lparr>r_state := st, r_failure_reason := reason, r_completed_at := Some (now s)\<rparr> :: run_row"
  from enter_terminal_shape[OF assms(1)] obtain t where b: "below (upd_run rid ?f s) t"
    and s': "s' = promote_oldest_queued (r_ticket_id (run_of s rid)) t" and st: "run_terminal st" by blast
  have ku: "runs_keyed (upd_run rid ?f s)" by (rule runs_keyed_update[OF k]) simp
  note kt = served_below(1)[OF ku b]
  show "runs_keyed s'"
    unfolding s' promote_oldest_queued_def using kt served_promotion(1)[OF kt] by (auto split: option.split)
  assume "served s"
  then have "served_but (r_ticket_id (run_of s rid)) (upd_run rid ?f s)"
    using k st by (intro ending_serves_others) (auto simp: run_terminal_def)
  from promote_oldest_serves(2)[OF kt served_but_below[OF this b]] show "served s'" by (simp add: s')
qed

lemma insert_run_keeps_served:
  assumes ins: "insert_run org tk p n sn i ko usr s = Inr (rid, s1)" and k: "runs_keyed s"
  shows "runs_keyed (snd (attempt_promotion rid s1))" "served s \<Longrightarrow> served (snd (attempt_promotion rid s1))"
proof -
  let ?r = "new_run (next_id s) org tk p n sn i ko usr (now s)"
  have s1: "rid = next_id s" "runs s1 = (runs s)(next_id s \<mapsto> ?r)" "next_id s1 = Suc (next_id s)"
    using ins by (auto simp: insert_run_def fresh_def split: if_splits)
  have r: "r_id ?r = next_id s" "r_ticket_id ?r = tk" "r_state ?r = Queued" by (simp_all add: new_run_def)
  have old: "runs s (next_id s) = None" using k unfolding runs_keyed_def keyed_rows_def by (metis less_irrefl option.exhaust)
  have k1: "runs_keyed s1" using k r(1) unfolding runs_keyed_def keyed_rows_def s1 by (auto simp: less_Suc_eq)
  then show "runs_keyed (snd (attempt_promotion rid s1))" by (rule served_promotion(1))
  assume sv: "served s"
  have "served_but tk s1"
    unfolding served_but_def s1
  proof (intro allI impI, elim conjE)
    fix i x assume x: "((runs s)(next_id s \<mapsto> ?r)) i = Some x" "r_state x = Queued" "r_ticket_id x \<noteq> tk"
    then have "runs s i = Some x" using r(2) by (auto split: if_splits)
    with sv x(2) obtain j q where q: "runs s j = Some q" "in_flight q" "r_ticket_id q = r_ticket_id x"
      unfolding served_def by metis
    have "j \<noteq> next_id s" using q(1) old by auto
    with q show "\<exists>j q. ((runs s)(next_id s \<mapsto> ?r)) j = Some q \<and> in_flight q \<and> r_ticket_id q = r_ticket_id x"
      by (intro exI[of _ j] exI[of _ q]) simp
  qed
  then show "served (snd (attempt_promotion rid s1))"
    using r s1 by (intro promote_serves[OF k1, of _ ?r]) auto
qed

lemma cancel_queued_keeps_served:
  fixes s :: pipelines_db
  assumes q: "runs s rid = Some r" "r_state r = Queued" and k: "runs_keyed s"
  shows "runs_keyed (cancel_queued rid act s)" "served s \<Longrightarrow> served (cancel_queued rid act s)"
proof -
  let ?f = "\<lambda>r. r\<lparr>r_state := RCancelled, r_completed_at := Some (now s)\<rparr> :: run_row"
  have b: "below (upd_run rid ?f s) (cancel_queued rid act s)"
    unfolding cancel_queued_def Let_def by (auto intro!: below_chain)
  have ku: "runs_keyed (upd_run rid ?f s)" by (rule runs_keyed_update[OF k]) simp
  show "runs_keyed (cancel_queued rid act s)" by (rule served_below(1)[OF ku b])
  assume sv: "served s"
  have "served (upd_run rid ?f s)"
    unfolding served_def
  proof (intro allI impI, elim conjE)
    fix i x assume x: "runs (upd_run rid ?f s) i = Some x" "r_state x = Queued"
    then have "i \<noteq> rid" by auto
    with x sv obtain j y where y: "runs s j = Some y" "in_flight y" "r_ticket_id y = r_ticket_id x"
      unfolding served_def by (metis runs_upd_run)
    have "j \<noteq> rid" using y(1,2) q by (auto simp: in_flight_def)
    with y show "\<exists>j q. runs (upd_run rid ?f s) j = Some q \<and> in_flight q \<and> r_ticket_id q = r_ticket_id x"
      by (intro exI[of _ j] exI[of _ y]) simp
  qed
  with served_below(2)[OF ku b] show "served (cancel_queued rid act s)" by simp
qed

interpretation served: engine_relation keeps_served
proof
  fix env rid st reason s s' assume "enter_terminal env rid st reason s = Inr s'"
  from enter_terminal_keeps_served[OF this] show "keeps_served s s'" by (simp add: keeps_served_def)
next
  fix org tk p n sn i ko usr s rid s1 assume "insert_run org tk p n sn i ko usr s = Inr (rid, s1)"
  from insert_run_keeps_served[OF this] show "keeps_served s (snd (attempt_promotion rid s1))"
    by (simp add: keeps_served_def)
next
  fix s :: pipelines_db and rid r act assume "runs s rid = Some r" "r_state r = Queued"
  from cancel_queued_keeps_served[OF this] show "keeps_served s (cancel_queued rid act s)"
    by (simp add: keeps_served_def)
next
  fix s t :: pipelines_db and f :: "run_row \<Rightarrow> run_row" and rid
  assume st: "keeps_served s t" and f: "\<And>r. r_id (f r) = r_id r \<and> r_ticket_id (f r) = r_ticket_id r \<and>
         (r_state (f r) = r_state r \<or> r_state (f r) = Running \<or> r_state (f r) = Paused) \<and>
         (r_pending_agent_command_id (f r) = r_pending_agent_command_id r \<or>
          r_pending_agent_command_id (f r) = None \<or>
          (\<exists>c \<ge> next_id s. r_pending_agent_command_id (f r) = Some c))"
  have f': "r_id (f r) = r_id r \<and> r_ticket_id (f r) = r_ticket_id r \<and>
         (r_state (f r) = r_state r \<or> r_state (f r) = Running \<or> r_state (f r) = Paused)" for r
    using f[of r] by blast
  show "keeps_served s (upd_run rid f t)"
    using st served_update[of t f rid, OF _ f'] unfolding keeps_served_def by blast
next
  fix s t u :: pipelines_db assume "keeps_served s t" "runs u = runs t" "next_id t \<le> next_id u"
  then show "keeps_served s u" using served_tables[of t u] unfolding keeps_served_def by blast
qed (auto simp: keeps_served_def)

text \<open>From the empty database on, every reachable state serves its queue.\<close>

lemma steps_serve:
  assumes "(sys_step env)\<^sup>*\<^sup>* s s'" and "actions_frame env" and "runs_keyed s" and "served s"
  shows "served s'"
  using served.sys_steps_rel[OF assms(1,2)] assms(3,4) by (simp add: keeps_served_def)

end
