(* ===== verification/Samples.thy ===== *)
theory Samples
  imports EngineRelation
begin

text \<open>
  A concrete instance: an environment whose plug-ins answer trivially, a database with one
  organisation, one ticket and an empty pipeline table, and a short history on it. The properties
  are applied to its states.
\<close>

definition sample_plugin :: coding_plugin where
  "sample_plugin = \<lparr>pl_plugin_id = ''claude_code'', pl_command_kind = INVOKE_CLAUDE_CODE,
     pl_compile_invocation = (\<lambda>iv. Inr \<lparr>ic_argv = [''claude''], ic_stdin = None, ic_env = []\<rparr>),
     pl_skill_path = (\<lambda>k. k),
     pl_build_command = (\<lambda>c iv ctx. Inr \<lparr>ac_kind = INVOKE_CLAUDE_CODE, ac_command_id = cb_command_id ctx,
        ac_workspace_id = Some (cb_workspace_id ctx), ac_traceparent = cb_traceparent ctx,
        ac_fields = [(''invocation'', cb_invocation_body ctx)]\<rparr>),
     pl_parse_result = (\<lambda>p. \<lparr>rr_output = (case get_str p ''stdout'' of Some x \<Rightarrow> x | None \<Rightarrow> []),
        rr_error_message = None, rr_tokens_in = None, rr_tokens_out = None, rr_duration_ms = None,
        rr_exit_code = None, rr_activity = JArr []\<rparr>)\<rparr>"

definition sample_env :: engine_env where
  "sample_env = \<lparr>sha256 = (\<lambda>x. CHR ''h'' # x), token_urlsafe = (\<lambda>n. replicate n (CHR ''t'')),
     hydrator = (\<lambda>_. None), providers = [''remote_agent''], provider_destroy = (\<lambda>_ _. None),
     get_install_credentials = (\<lambda>_ _ _. Inr (''url'', ''token'')),
     get_installation_token = (\<lambda>_ _. Inr ''token''),
     plugins = (\<lambda>p. if p = ''claude_code'' then Some sample_plugin else None),
     parse_skill_return = (\<lambda>_. Inr \<lparr>sr_outcome = Completed, sr_outcome_reason = None,
        sr_send_back_to_stage = None, sr_confidence = 95, sr_paths_affected = [], sr_summary = []\<rparr>),
     parse_review_return = (\<lambda>_. Inr \<lparr>sv_new_findings = [], sv_prior_finding_verdicts = [],
        sv_confidence = 95, sv_summary = []\<rparr>),
     skill_return_schema = JNull, review_return_schema = JNull, match_file = (\<lambda>_ _. False),
     actions = (\<lambda>_. None), comment_finding_ids = None, run_terminal_hooks = [],
     uuid_str = (\<lambda>_. ''id'')\<rparr>"

definition sample_boundary :: "boundary_mode \<Rightarrow> boundary_control" where
  "sample_boundary m = \<lparr>mode = m, on_blocker_residuals = True, on_should_fix_residuals = False,
     on_nit_residuals = False, on_protected_code = False, on_confidence_below = None\<rparr>"

definition sample_stage :: "string \<Rightarrow> review_config option \<Rightarrow> boundary_mode \<Rightarrow> skill_stage" where
  "sample_stage n rc m = \<lparr>sk_id = 7, sk_name = n, sk_description = [], sk_skill_name = n,
     sk_plugin_id = ''claude_code'', sk_model = ''m'', sk_effort = ''high'',
     sk_review = rc, sk_context_stages = None,
     sk_wallclock_seconds = 600, sk_boundary = sample_boundary m\<rparr>"

definition sample_definition :: pipeline_definition where
  "sample_definition = \<lparr>pd_id = 6, pd_name = ''build'', pd_description = [],
     pd_stages = [Exec (SkillStage (sample_stage ''plan'' None AlwaysHitl)),
                  Exec (SkillStage (sample_stage ''code''
                    (Some \<lparr>rc_skill_name = ''review'', max_iterations = 2\<rparr>) AlwaysProceed))]\<rparr>"

definition sample_ticket :: ticket_row where
  "sample_ticket = \<lparr>tk_id = 2, tk_org_id = 1, tk_source = ''github_pr'', tk_source_external_id = ''1'',
     tk_title = ''Title'', tk_description = None, tk_status = TPending, tk_plugin_id = ''github'',
     tk_repo_external_id = ''r'', tk_pr_id = None, tk_type = ''github_pr'', tk_idempotency_key = None,
     tk_payload = [], tk_current_run_id = None, tk_branch_name = ''yaaos/title'', tk_findings_count = 0,
     tk_max_severity = None, tk_created_at = 0\<rparr>"

definition sample_workspace :: workspace_row where
  "sample_workspace = \<lparr>ws_id = 10, ws_org_id = 1, ws_owning_agent_id = Some 5,
     ws_provider_id = ''remote_agent'', ws_sha = None, ws_status = WActive,
     ws_current_command_id = None, ws_max_idle_seconds = 600, ws_activated_at = Some 0,
     ws_expires_at = 600, ws_destroyed_at = None, ws_destroy_attempts = 0,
     ws_last_destroy_attempt_at = None, ws_last_destroy_error = None\<rparr>"

definition sample_init :: pipelines_db where
  "sample_init = \<lparr>now = 0, next_id = 8, outbox = [], audits = [], sse_pending = [], notifications = [],
     memberships = [\<lparr>mb_user_id = 4, mb_org_id = 1, mb_role = OWNER, mb_handle = ''ana''\<rparr>], oauth_identities = [], orgs = Map.empty,
     current_traceparent = None, commands = Map.empty, agents = Map.empty, bearers = Map.empty,
     workspaces = Map.empty,
     ca_runs = Map.empty, ca_activity = [],
     tickets = [2 \<mapsto> sample_ticket], pull_requests = Map.empty, artifacts = Map.empty,
     findings = Map.empty, repo_settings_rows = [], bindings = Map.empty, pipelines = [],
     runs = Map.empty, stage_execs = Map.empty, pauses = Map.empty\<rparr>"

definition sample_kickoff :: kickoff where
  "sample_kickoff = \<lparr>ko_intake_point_id = ''pr'', ko_actor = UserActor 4 None, ko_input_text = Some ''x'',
     ko_pr_base_sha = None, ko_pr_head_sha = None, ko_notify_user_ids = [], ko_revision = None\<rparr>"

text \<open>The state after a successful call, for calls that return a value besides it.\<close>

definition after :: "pipelines_db \<Rightarrow> ('a \<times> pipelines_db) res \<Rightarrow> pipelines_db" where
  "after s m = (case m of Inl _ \<Rightarrow> s | Inr (_, s') \<Rightarrow> s')"

definition after_res :: "pipelines_db \<Rightarrow> pipelines_db res \<Rightarrow> pipelines_db" where
  "after_res s m = (case m of Inl _ \<Rightarrow> s | Inr s' \<Rightarrow> s')"

definition sample1 :: pipelines_db where
  "sample1 = after sample_init (create_pipeline 1 sample_definition SystemActor sample_init)"

definition sample2 :: pipelines_db where
  "sample2 = after sample1 (start_run 1 2 6 sample_kickoff (Some 4) sample1)"

definition sample3 :: pipelines_db where
  "sample3 = after sample2 (start_run 1 2 6 sample_kickoff (Some 4) sample2)"

definition sample4 :: pipelines_db where
  "sample4 = after_res sample2 (start_stage sample_env 8 (Some 0) sample2)"

text \<open>The provision stage of \<open>sample4\<close> reserved workspace 10; the agent materialises it.\<close>

definition sample5 :: pipelines_db where
  "sample5 = sample4\<lparr>workspaces := (workspaces sample4)(10 \<mapsto> sample_workspace)\<rparr>"

definition sample6 :: pipelines_db where
  "sample6 = after_res sample5 (start_stage sample_env 8 (Some 0) sample5)"

section \<open>Reachability of the history\<close>

lemma sample_actions [simp]: "actions_frame sample_env"
  by (simp add: actions_frame_def sample_env_def)

lemma reachable_step: "reachable env s \<Longrightarrow> sys_step env s s' \<Longrightarrow> reachable env s'"
  unfolding reachable_def by (meson rtranclp.rtrancl_into_rtrancl)

lemma reachable_after:
  "reachable env s \<Longrightarrow> (\<And>x s'. m = Inr (x, s') \<Longrightarrow> sys_step env s s') \<Longrightarrow> reachable env (after s m)"
  by (auto simp: after_def split: sum.split intro: reachable_step)

lemma reachable_after_res:
  "reachable env s \<Longrightarrow> (\<And>s'. m = Inr s' \<Longrightarrow> sys_step env s s') \<Longrightarrow> reachable env (after_res s m)"
  by (auto simp: after_res_def split: sum.split intro: reachable_step)

lemma sample_definition_ok: "definition_ok sample_definition"
  by (simp add: definition_ok_def sample_definition_def sample_stage_def stage_name_ok_def name_char_def
      review_config_ok_def)

lemma sample_reachable [simp]:
  "reachable sample_env sample_init" "reachable sample_env sample1" "reachable sample_env sample2"
  "reachable sample_env sample3" "reachable sample_env sample4" "reachable sample_env sample5"
  "reachable sample_env sample6"
proof -
  have "sys_init sample_init" by (simp add: sys_init_def sample_init_def)
  then show 0: "reachable sample_env sample_init" by (auto simp: reachable_def)
  show 1: "reachable sample_env sample1"
    unfolding sample1_def by (rule reachable_after[OF 0]) (rule s_create, assumption, rule sample_definition_ok)
  show 2: "reachable sample_env sample2"
    unfolding sample2_def by (rule reachable_after[OF 1]) (rule s_start_run)
  show 3: "reachable sample_env sample3"
    unfolding sample3_def by (rule reachable_after[OF 2]) (rule s_start_run)
  show 4: "reachable sample_env sample4"
    unfolding sample4_def by (rule reachable_after_res[OF 2]) (rule s_start_stage)
  show 5: "reachable sample_env sample5"
    unfolding sample5_def by (rule reachable_step[OF 4]) (rule s_other, simp add: below_def)
  show 6: "reachable sample_env sample6"
    unfolding sample6_def by (rule reachable_after_res[OF 5]) (rule s_start_stage)
qed

section \<open>Evaluated facts\<close>

declare ebind_def [code_unfold]

lemma sample3_states:
  "map_option r_state (runs sample3 8) = Some Running"
  "map_option r_state (runs sample3 9) = Some Queued"
  "map_option r_ticket_id (runs sample3 8) = Some 2"
  by code_simp+

lemma sample6_stage:
  "map_option (\<lambda>e. (se_kind e, se_status e, se_run_id e)) (stage_execs sample6 12) = Some (KSkill, SRunning, 8)"
  by code_simp

lemma sample3_queued: "map_option r_ticket_id (runs sample3 9) = Some 2"
  "map_option r_pending_agent_command_id (runs sample3 8) = Some None"
  by code_simp+
lemma sample2_run: "map_option r_state (runs sample2 8) = Some Running"
  by code_simp

lemma sample1_ticket: "tickets sample1 2 \<noteq> None"
  by code_simp

lemma sample1_row: "map_option (\<lambda>_. ()) (get_row 6 1 sample1) = Some ()"
  by code_simp

section \<open>A run waiting for its agent, and a paused run\<close>

definition waiting_run :: run_row where
  "waiting_run = (new_run 8 1 2 None ''b'' [SkillStage (sample_stage ''p'' None AlwaysHitl)] (Some 0)
      sample_kickoff (Some 4) 0)\<lparr>r_state := Running, r_workspace_id := Some 10, r_pending_agent_command_id := Some 13\<rparr>"

definition waiting_stage :: stage_exec where
  "waiting_stage = new_stage 12 1 8 (Some 0) KSkill ''p'' (Some ''p'') (Some PMain) None 0 0"

definition waiting_db :: pipelines_db where
  "waiting_db = sample_init\<lparr>next_id := 15, runs := [8 \<mapsto> waiting_run], stage_execs := [12 \<mapsto> waiting_stage]\<rparr>"

definition open_pause_row :: pause_row where
  "open_pause_row = \<lparr>p_id = 14, p_org_id = 1, p_run_id = 8, p_stage_execution_id = 12, p_tripped = [],
     p_escalation_user_ids = [4], p_resolution = None, p_instruction = None, p_send_back_to_stage = None,
     p_resolved_by = None, p_resolved_at = None\<rparr>"

definition paused_db :: pipelines_db where
  "paused_db = waiting_db\<lparr>runs := [8 \<mapsto> waiting_run\<lparr>r_state := Paused, r_pending_agent_command_id := None\<rparr>],
     stage_execs := [12 \<mapsto> waiting_stage\<lparr>se_status := SCompleted\<rparr>], pauses := [14 \<mapsto> open_pause_row]\<rparr>"

definition approval :: pause_resolution_body where
  "approval = \<lparr>pb_action = Approve, pb_instruction = None, pb_send_back_to_stage = None\<rparr>"

definition returns :: "'a res \<Rightarrow> bool" where
  "returns m = (case m of Inl _ \<Rightarrow> False | Inr _ \<Rightarrow> True)"

lemma returns_after_res: "returns m \<Longrightarrow> m = Inr (after_res s m)"
  by (auto simp: returns_def after_res_def split: sum.splits)

lemma waiting_rows_ok:
  "loop_ok waiting_run waiting_stage" "snapshot_ok (r_definition_snapshot waiting_run)"
  by (auto simp: loop_ok_def skill_at_def phase_ok_def waiting_stage_def new_stage_def waiting_run_def new_run_def
        iteration_cap_def sample_stage_def snapshot_ok_def stage_name_ok_def name_char_def)

lemma empty_defs_ok: "pipelines s = [] \<Longrightarrow> defs_ok s"
  using sys_init_ok[of sample_init] defs_ok_cong[of s sample_init]
  by (simp add: sys_init_def sys_ok_def sample_init_def)

lemma waiting_ok [simp]: "sys_ok waiting_db"
proof -
  have "r_id waiting_run = 8" "r_state waiting_run = Running" "r_sendback_counts waiting_run = []"
    "se_run_id waiting_stage = 8" "se_id waiting_stage = 12"
    by (simp_all add: waiting_run_def new_run_def waiting_stage_def new_stage_def)
  then have "engine_ok waiting_db"
    using waiting_rows_ok unfolding engine_ok_def engine_ok_defs waiting_db_def
    by (auto simp: sample_init_def keyed_rows_def count_of_def split: if_splits)
  moreover have "defs_ok waiting_db" by (rule empty_defs_ok) (simp add: waiting_db_def sample_init_def)
  ultimately show ?thesis by (simp add: sys_ok_def)
qed

lemma paused_ok [simp]: "sys_ok paused_db"
proof -
  let ?r = "waiting_run\<lparr>r_state := Paused, r_pending_agent_command_id := None\<rparr>"
  let ?e = "waiting_stage\<lparr>se_status := SCompleted\<rparr>"
  have "r_id ?r = 8" "r_state ?r = Paused" "r_sendback_counts ?r = []"
    "se_run_id ?e = 8" "se_id ?e = 12" "p_id open_pause_row = 14" "p_run_id open_pause_row = 8" "open_pause open_pause_row"
    by (simp_all add: waiting_run_def new_run_def waiting_stage_def new_stage_def open_pause_row_def open_pause_def)
  moreover have "loop_ok ?r ?e" "snapshot_ok (r_definition_snapshot ?r)"
    using waiting_rows_ok by (auto simp: loop_ok_def skill_at_def phase_ok_def)
  ultimately have "engine_ok paused_db"
    unfolding engine_ok_def engine_ok_defs paused_db_def waiting_db_def
    by (auto simp: sample_init_def keyed_rows_def count_of_def split: if_splits)
  moreover have "defs_ok paused_db"
    by (rule empty_defs_ok) (simp add: paused_db_def waiting_db_def sample_init_def)
  ultimately show ?thesis by (simp add: sys_ok_def)
qed

lemma failure_returns: "returns (handle_agent_event sample_env (Some 8) 13 ''failure'' [] waiting_db)"
  by code_simp

lemma failure_effect:
  "outbox (after_res waiting_db (handle_agent_event sample_env (Some 8) 13 ''failure'' [] waiting_db)) \<noteq> outbox waiting_db"
  by code_simp

lemma approval_returns: "returns (resolve_pause sample_env 1 14 approval (UserActor 4 None) paused_db)"
  by code_simp

end
