(* ===== verification/Agents.thy ===== *)
theory Agents
  imports CodingAgent
begin

text \<open>
  Agent pods and their bearers: the token ledger of \<^verbatim>\<open>core/agent_gateway/bearers.py\<close>; the agent
  registry of \<^verbatim>\<open>core/agent_gateway/service.py\<close> (registration, heartbeats, liveness, the drain
  lifecycle, the ConfigUpdate fan-out); and the agent-loss failsafe of
  \<^verbatim>\<open>core/workspace/service.py\<close>, which the registry reaches through the report sink.

  Parameters: the settings the gateway reads (record \<open>gateway_settings\<close>) and, in \<open>gateway_env\<close>, the
  hash function and the token generator.
\<close>

section \<open>The bearer ledger\<close>

record bearer_context =
  bc_bearer_id :: uuid
  bc_agent_id :: uuid
  bc_org_id :: uuid

definition DEFAULT_BEARER_TTL_SECONDS :: int where "DEFAULT_BEARER_TTL_SECONDS = 60 * 60"

definition bearer_by_hash :: "string \<Rightarrow> 'a gateway_db_scheme \<Rightarrow> bearer_row option" where
  "bearer_by_hash h s = first_row (select (bearers s) (next_id s) (\<lambda>b. bt_token_hash b = h))"

definition issue ::
  "'e gateway_env_scheme \<Rightarrow> uuid \<Rightarrow> uuid \<Rightarrow> string option \<Rightarrow> int \<Rightarrow> string option \<Rightarrow>
   'a gateway_db_scheme \<Rightarrow> ((string \<times> bearer_row) \<times> 'a gateway_db_scheme) res" where
  "issue env agent_id org_id source_ip ttl_seconds issued_iam_arn s =
     (case fresh s of (nonce, s1) \<Rightarrow>
      case fresh s1 of (bid, s2) \<Rightarrow>
        let plaintext = token_urlsafe env nonce;
            row = \<lparr>bt_id = bid, bt_org_id = org_id, bt_agent_id = agent_id,
                   bt_token_hash = sha256 env plaintext, bt_issued_at = now s,
                   bt_expires_at = now s + ttl_seconds, bt_revoked_at = None,
                   bt_revoked_reason = None, bt_last_seen_at = None, bt_source_ip = source_ip,
                   bt_issued_iam_arn = issued_iam_arn\<rparr>
        in if bearer_by_hash (sha256 env plaintext) s \<noteq> None then Inl IntegrityError
           else Inr ((plaintext, row), s2\<lparr>bearers := (bearers s2)(bid \<mapsto> row)\<rparr>))"

definition verify ::
  "'e gateway_env_scheme \<Rightarrow> string \<Rightarrow> 'a gateway_db_scheme \<Rightarrow>
   bearer_context option \<times> 'a gateway_db_scheme" where
  "verify env token s =
     (if token = [] then (None, s)
      else case bearer_by_hash (sha256 env token) s of
        None \<Rightarrow> (None, s)
      | Some b \<Rightarrow>
          if bt_revoked_at b \<noteq> None then (None, s)
          else if bt_expires_at b \<le> now s then (None, s)
          else (Some \<lparr>bc_bearer_id = bt_id b, bc_agent_id = bt_agent_id b, bc_org_id = bt_org_id b\<rparr>,
                s\<lparr>bearers := modify (bt_id b) (\<lambda>b. b\<lparr>bt_last_seen_at := Some (now s)\<rparr>) (bearers s)\<rparr>))"

text \<open>The four revocations are one guarded UPDATE with different WHERE clauses.\<close>

definition revoke_where ::
  "(bearer_row \<Rightarrow> bool) \<Rightarrow> string \<Rightarrow> 'a gateway_db_scheme \<Rightarrow> nat \<times> 'a gateway_db_scheme" where
  "revoke_where P reason s =
     (let Q = (\<lambda>b. P b \<and> bt_revoked_at b = None)
      in (length (select (bearers s) (next_id s) Q),
          s\<lparr>bearers := update_where Q
               (\<lambda>b. b\<lparr>bt_revoked_at := Some (now s), bt_revoked_reason := Some reason\<rparr>) (bearers s)\<rparr>))"

definition revoke :: "uuid \<Rightarrow> string \<Rightarrow> 'a gateway_db_scheme \<Rightarrow> 'a gateway_db_scheme" where
  "revoke bearer_id reason s = snd (revoke_where (\<lambda>b. bt_id b = bearer_id) reason s)"

definition revoke_all_for_agent ::
  "uuid \<Rightarrow> string \<Rightarrow> 'a gateway_db_scheme \<Rightarrow> nat \<times> 'a gateway_db_scheme" where
  "revoke_all_for_agent agent_id = revoke_where (\<lambda>b. bt_agent_id b = agent_id)"

definition revoke_all_for_org ::
  "uuid \<Rightarrow> string \<Rightarrow> 'a gateway_db_scheme \<Rightarrow> nat \<times> 'a gateway_db_scheme" where
  "revoke_all_for_org org_id = revoke_where (\<lambda>b. bt_org_id b = org_id)"

definition revoke_all_for_arn ::
  "string \<Rightarrow> string \<Rightarrow> 'a gateway_db_scheme \<Rightarrow> nat \<times> 'a gateway_db_scheme" where
  "revoke_all_for_arn arn = revoke_where (\<lambda>b. bt_issued_iam_arn b = Some arn)"

definition list_bearers_for_org :: "uuid \<Rightarrow> int \<Rightarrow> 'a gateway_db_scheme \<Rightarrow> bearer_row list" where
  "list_bearers_for_org org_id limit s =
     take (nat (max 1 (min limit 500)))
       (rev (sort_key bt_issued_at (select (bearers s) (next_id s) (\<lambda>b. bt_org_id b = org_id))))"

section \<open>Runtime configuration\<close>

record gateway_settings =
  gs_dash0_endpoint :: "string option"
  gs_dash0_token :: "string option"
  gs_dash0_dataset :: "string option"
  gs_environment :: string
  gs_public_hostname :: string
  gs_sts_host_override :: "string option"

definition build_agent_config :: "gateway_settings \<Rightarrow> uuid \<Rightarrow> 'a infra_scheme \<Rightarrow> json res" where
  "build_agent_config cfg org_id s =
     ebind (require (orgs s org_id) (LookupError ''org not found'')) (\<lambda>org.
     ebind (guard (1 \<le> og_workspace_max_count org) (ValueError ''max_workspaces'')) (\<lambda>_.
     Inr (JObj [(''max_workspaces'', JNum (og_workspace_max_count org)),
                (''otlp_endpoint'', jopt JStr (gs_dash0_endpoint cfg)),
                (''otlp_token'', jopt JStr (gs_dash0_token cfg)),
                (''otlp_dataset'', jopt JStr (gs_dash0_dataset cfg)),
                (''environment'', JStr (gs_environment cfg)),
                (''api_keys'', JObj [])])))"

text \<open>
  The three agent-scoped commands are enqueued alike: a fresh id, the row, then the agent's id and
  the hash of a throw-away token stamped on it.
\<close>

definition enqueue_for_agent ::
  "'e gateway_env_scheme \<Rightarrow> agent_command_kind \<Rightarrow> payload \<Rightarrow> uuid \<Rightarrow> uuid \<Rightarrow>
   'a gateway_db_scheme \<Rightarrow> 'a gateway_db_scheme res" where
  "enqueue_for_agent env kind kind_fields org_id agent_id s =
     (case fresh s of (cid, s1) \<Rightarrow>
        ebind (enqueue_command org_id
                 \<lparr>ac_kind = kind, ac_command_id = cid, ac_workspace_id = None, ac_traceparent = [],
                  ac_fields = kind_fields\<rparr> None s1) (\<lambda>s2.
        case fresh s2 of (nonce, s3) \<Rightarrow>
          Inr (upd_command cid
                 (\<lambda>r. r\<lparr>cr_agent_id := Some agent_id,
                        cr_completion_token_hash := Some (sha256 env (token_urlsafe env nonce))\<rparr>) s3)))"

definition enqueue_config_update_with_config ::
  "'e gateway_env_scheme \<Rightarrow> uuid \<Rightarrow> uuid \<Rightarrow> json \<Rightarrow> 'a gateway_db_scheme \<Rightarrow> 'a gateway_db_scheme res" where
  "enqueue_config_update_with_config env agent_id org_id config =
     enqueue_for_agent env CONFIG_UPDATE [(''config'', config)] org_id agent_id"

definition enqueue_config_update_for_agent ::
  "'e gateway_env_scheme \<Rightarrow> gateway_settings \<Rightarrow> uuid \<Rightarrow> uuid \<Rightarrow>
   'a gateway_db_scheme \<Rightarrow> 'a gateway_db_scheme res" where
  "enqueue_config_update_for_agent env cfg agent_id org_id s =
     ebind (build_agent_config cfg org_id s) (\<lambda>config.
     enqueue_config_update_with_config env agent_id org_id config s)"

definition enqueue_config_update_for_all_org_agents ::
  "'e gateway_env_scheme \<Rightarrow> gateway_settings \<Rightarrow> uuid \<Rightarrow> 'a gateway_db_scheme \<Rightarrow> 'a gateway_db_scheme res" where
  "enqueue_config_update_for_all_org_agents env cfg org_id s =
     (case map ag_id (select (agents s) (next_id s) (\<lambda>a. ag_org_id a = org_id)) of
        [] \<Rightarrow> Inr s
      | ids \<Rightarrow>
          ebind (build_agent_config cfg org_id s) (\<lambda>config.
          efold (\<lambda>a. enqueue_config_update_with_config env a org_id config) ids s))"

section \<open>Registration\<close>

abbreviation agent_changed :: "uuid \<Rightarrow> uuid \<Rightarrow> 'a infra_scheme \<Rightarrow> 'a infra_scheme" where
  "agent_changed org_id agent_id \<equiv>
     publish_general_after_commit org_id AGENT_CHANGED (JObj [(''agent_id'', JId agent_id)])"

definition coalesce :: "'x option \<Rightarrow> 'x option \<Rightarrow> 'x option" where
  "coalesce x y = (case x of None \<Rightarrow> y | Some _ \<Rightarrow> x)"

definition agent_by_instance :: "uuid \<Rightarrow> string \<Rightarrow> 'a gateway_db_scheme \<Rightarrow> agent_row option" where
  "agent_by_instance org_id instance_id s =
     first_row (select (agents s) (next_id s) (\<lambda>a. ag_org_id a = org_id \<and> ag_instance_id a = instance_id))"

definition ensure_agent_row ::
  "uuid \<Rightarrow> string \<Rightarrow> string \<Rightarrow> string option \<Rightarrow> string option \<Rightarrow> int option \<Rightarrow> int option \<Rightarrow>
   'a gateway_db_scheme \<Rightarrow> uuid \<times> 'a gateway_db_scheme" where
  "ensure_agent_row org_id instance_id iam_arn version os cpu_count memory_bytes s =
     (case agent_by_instance org_id instance_id s of
        None \<Rightarrow>
          (case fresh s of (i, s1) \<Rightarrow>
             (i, agent_changed org_id i (s1\<lparr>agents := (agents s1)(i \<mapsto>
                \<lparr>ag_id = i, ag_org_id = org_id, ag_instance_id = instance_id, ag_iam_arn = iam_arn,
                 ag_version = version, ag_os = os, ag_cpu_count = cpu_count,
                 ag_memory_bytes = memory_bytes, ag_last_heartbeat_at = Some (now s),
                 ag_last_shutdown_at = None, ag_claimed_workspace_count = 0, ag_state = Reachable,
                 ag_lifecycle = Unconfigured\<rparr>)\<rparr>)))
      | Some a \<Rightarrow>
          (ag_id a, agent_changed (ag_org_id a) (ag_id a) (upd_agent (ag_id a)
             (\<lambda>a. a\<lparr>ag_iam_arn := iam_arn, ag_version := version,
                    ag_os := coalesce os (ag_os a), ag_cpu_count := coalesce cpu_count (ag_cpu_count a),
                    ag_memory_bytes := coalesce memory_bytes (ag_memory_bytes a),
                    ag_last_heartbeat_at := Some (now s), ag_state := Reachable,
                    ag_lifecycle := (if ag_lifecycle a = ShutdownDone then Unconfigured
                                     else ag_lifecycle a)\<rparr>) s)))"

section \<open>Heartbeats\<close>

text \<open>The ids of reported workspaces whose ProvisionWorkspace command is still in flight.\<close>

definition provisioning_ids :: "uuid list \<Rightarrow> 'a gateway_db_scheme \<Rightarrow> uuid list" where
  "provisioning_ids reported s =
     List.map_filter cr_workspace_id (select (commands s) (next_id s)
       (\<lambda>r. (case cr_workspace_id r of None \<Rightarrow> False | Some w \<Rightarrow> w \<in> set reported) \<and>
            cr_kind r = PROVISION_WORKSPACE \<and> cr_status r \<in> {Pending, Claimed, Delivered}))"

definition record_heartbeat ::
  "uuid \<Rightarrow> uuid list \<Rightarrow> 'a workspace_db_scheme \<Rightarrow> uuid list \<times> 'a workspace_db_scheme" where
  "record_heartbeat agent_id workspaces_reported s =
     (let s1 = (case agents s agent_id of
                  None \<Rightarrow> s
                | Some a \<Rightarrow>
                    let s0 = upd_agent agent_id
                          (\<lambda>a. a\<lparr>ag_last_heartbeat_at := Some (now s), ag_state := Reachable,
                                 ag_claimed_workspace_count := length workspaces_reported\<rparr>) s
                    in if ag_state a \<noteq> Reachable \<or>
                          ag_claimed_workspace_count a \<noteq> length workspaces_reported
                       then agent_changed (ag_org_id a) agent_id s0 else s0);
          reported = remdups workspaces_reported;
          busy = provisioning_ids reported s1
      in (if reported = [] then []
          else reconcile_heartbeat (filter (\<lambda>w. w \<notin> set busy) reported) s1, s1))"

section \<open>Going away\<close>

definition mark_agent_offline :: "uuid \<Rightarrow> 'a gateway_db_scheme \<Rightarrow> 'a gateway_db_scheme" where
  "mark_agent_offline agent_id s =
     upd_agent agent_id (\<lambda>a. a\<lparr>ag_state := Offline, ag_last_shutdown_at := Some (now s)\<rparr>) s"

definition mark_agent_shutdown_complete :: "uuid \<Rightarrow> 'a gateway_db_scheme \<Rightarrow> bool \<times> 'a gateway_db_scheme" where
  "mark_agent_shutdown_complete agent_id s =
     (case agents s agent_id of
        None \<Rightarrow> (False, s)
      | Some a \<Rightarrow>
          if ag_lifecycle a = Draining then
            let s1 = upd_agent agent_id
                  (\<lambda>a. a\<lparr>ag_lifecycle := ShutdownDone, ag_state := Offline,
                         ag_last_shutdown_at := Some (now s)\<rparr>) s;
                s2 = snd (revoke_all_for_agent agent_id ''shutdown_complete'' s1);
                s3 = audit ''workspace_agent'' agent_id ''workspace_agent.shutdown_complete'' (JObj [])
                       SystemActor (ag_org_id a) s2
            in (True, agent_changed (ag_org_id a) agent_id s3)
          else (False, s))"

text \<open>Failsafe 6. A workspace of a lost agent expires; the run waiting on its command is told so.\<close>

definition expire_lost :: "workspace_row \<Rightarrow> 'a workspace_db_scheme \<Rightarrow> 'a workspace_db_scheme" where
  "expire_lost w s =
     (let s1 = audit_transition (ws_id w) (ws_org_id w) (ws_status w) WExpired ''agent_loss'' None
                 (upd_workspace (ws_id w) (\<lambda>w. w\<lparr>ws_status := WExpired\<rparr>) s)
      in case ws_current_command_id w of
           None \<Rightarrow> s1
         | Some c \<Rightarrow>
             (case get_command_run_id c s1 of
                None \<Rightarrow> s1
              | Some rid \<Rightarrow> enqueue_agent_event rid c ''failure'' [] s1))"

definition failsafe_agent_loss :: "uuid list \<Rightarrow> 'a workspace_db_scheme \<Rightarrow> 'a workspace_db_scheme" where
  "failsafe_agent_loss offline_agent_ids s =
     (let candidates = select (workspaces s) (next_id s)
            (\<lambda>w. (case ws_owning_agent_id w of None \<Rightarrow> False | Some a \<Rightarrow> a \<in> set offline_agent_ids) \<and>
                 ws_status w = WActive);
          revoke_each = fold (\<lambda>a s. snd (revoke_all_for_agent a ''agent_loss'' s)) offline_agent_ids
      in if candidates = [] then revoke_each s
         else revoke_each (fold expire_lost candidates s))"

definition lifecycle_str :: "lifecycle \<Rightarrow> string" where
  "lifecycle_str l = (case l of Unconfigured \<Rightarrow> ''unconfigured'' | Active \<Rightarrow> ''active''
                      | Draining \<Rightarrow> ''draining'' | ShutdownDone \<Rightarrow> ''shutdown'')"

definition mark_agent_disconnected ::
  "uuid \<Rightarrow> uuid \<Rightarrow> uuid \<Rightarrow> lifecycle \<Rightarrow> 'a workspace_db_scheme \<Rightarrow> 'a workspace_db_scheme" where
  "mark_agent_disconnected agent_id org_id bearer_id lc s =
     (let s1 = mark_agent_offline agent_id s;
          s2 = revoke bearer_id ''graceful_shutdown'' s1;
          s3 = failsafe_agent_loss [agent_id] s2;
          s4 = audit ''workspace_agent'' agent_id ''workspace_agent.disconnected''
                 (JObj [(''lifecycle'', JStr (lifecycle_str lc))]) (WorkspaceActor agent_id) org_id s3
      in agent_changed org_id agent_id s4)"

section \<open>Draining on request\<close>

datatype drain_outcome = Drained | AlreadyDraining | AlreadyShutdown | Resumed | NotDraining | NotFound

definition shutdown_one ::
  "'e gateway_env_scheme \<Rightarrow> uuid \<Rightarrow> actor \<Rightarrow> uuid \<Rightarrow> (uuid \<times> drain_outcome) list \<times> 'a gateway_db_scheme \<Rightarrow>
   ((uuid \<times> drain_outcome) list \<times> 'a gateway_db_scheme) res" where
  "shutdown_one env org_id act aid acc =
     (case acc of (results, s) \<Rightarrow>
      case agents s aid of
        None \<Rightarrow> Inr (results @ [(aid, NotFound)], s)
      | Some a \<Rightarrow>
          if ag_org_id a \<noteq> org_id then Inr (results @ [(aid, NotFound)], s)
          else if ag_lifecycle a = ShutdownDone then Inr (results @ [(aid, AlreadyShutdown)], s)
          else if ag_lifecycle a = Draining then Inr (results @ [(aid, AlreadyDraining)], s)
          else
            let s1 = upd_agent aid (\<lambda>a. a\<lparr>ag_lifecycle := Draining\<rparr>) s in
            ebind (enqueue_for_agent env SHUTDOWN [] org_id aid s1) (\<lambda>s2.
            let s3 = audit ''workspace_agent'' aid ''workspace_agent.shutdown_requested''
                       (JObj [(''previous_lifecycle'', JStr (lifecycle_str (ag_lifecycle a)))])
                       act org_id s2
            in Inr (results @ [(aid, Drained)], agent_changed org_id aid s3)))"

definition shutdown_agents ::
  "'e gateway_env_scheme \<Rightarrow> uuid \<Rightarrow> uuid list \<Rightarrow> actor \<Rightarrow> 'a gateway_db_scheme \<Rightarrow>
   ((uuid \<times> drain_outcome) list \<times> 'a gateway_db_scheme) res" where
  "shutdown_agents env org_id agent_ids act s =
     efold (shutdown_one env org_id act) agent_ids ([], s)"

definition cancel_shutdown_one ::
  "'e gateway_env_scheme \<Rightarrow> uuid \<Rightarrow> actor \<Rightarrow> uuid \<Rightarrow> (uuid \<times> drain_outcome) list \<times> 'a gateway_db_scheme \<Rightarrow>
   ((uuid \<times> drain_outcome) list \<times> 'a gateway_db_scheme) res" where
  "cancel_shutdown_one env org_id act aid acc =
     (case acc of (results, s) \<Rightarrow>
      case agents s aid of
        None \<Rightarrow> Inr (results @ [(aid, NotFound)], s)
      | Some a \<Rightarrow>
          if ag_org_id a \<noteq> org_id then Inr (results @ [(aid, NotFound)], s)
          else if ag_lifecycle a = ShutdownDone then Inr (results @ [(aid, AlreadyShutdown)], s)
          else if ag_lifecycle a \<noteq> Draining then Inr (results @ [(aid, NotDraining)], s)
          else
            let s1 = upd_agent aid (\<lambda>a. a\<lparr>ag_lifecycle := Active\<rparr>) s in
            ebind (enqueue_for_agent env CANCEL_SHUTDOWN [] org_id aid s1) (\<lambda>s2.
            let s3 = audit ''workspace_agent'' aid ''workspace_agent.cancel_shutdown_requested''
                       (JObj [(''previous_lifecycle'', JStr (lifecycle_str (ag_lifecycle a)))])
                       act org_id s2
            in Inr (results @ [(aid, Resumed)], agent_changed org_id aid s3)))"

definition cancel_shutdown_agents ::
  "'e gateway_env_scheme \<Rightarrow> uuid \<Rightarrow> uuid list \<Rightarrow> actor \<Rightarrow> 'a gateway_db_scheme \<Rightarrow>
   ((uuid \<times> drain_outcome) list \<times> 'a gateway_db_scheme) res" where
  "cancel_shutdown_agents env org_id agent_ids act s =
     efold (cancel_shutdown_one env org_id act) agent_ids ([], s)"

section \<open>Liveness\<close>

definition STALE_THRESHOLD_SECONDS :: int where "STALE_THRESHOLD_SECONDS = 60"
definition OFFLINE_THRESHOLD_SECONDS :: int where "OFFLINE_THRESHOLD_SECONDS = 5 * 60"
definition UI_RETENTION_SECONDS :: int where "UI_RETENTION_SECONDS = 60 * 60"

definition liveness_of_age :: "int \<Rightarrow> liveness" where
  "liveness_of_age age =
     (if OFFLINE_THRESHOLD_SECONDS < age then Offline
      else if STALE_THRESHOLD_SECONDS < age then Stale else Reachable)"

definition liveness_step ::
  "timestamp \<Rightarrow> agent_row \<Rightarrow> uuid list \<times> 'a gateway_db_scheme \<Rightarrow> uuid list \<times> 'a gateway_db_scheme" where
  "liveness_step at_time a acc =
     (case acc of (newly_offline, s) \<Rightarrow>
      case ag_last_heartbeat_at a of
        None \<Rightarrow> (newly_offline, s)
      | Some beat \<Rightarrow>
          let target = liveness_of_age (at_time - beat) in
          if ag_state a = target then (newly_offline, s)
          else
            let s1 = upd_agent (ag_id a) (\<lambda>a. a\<lparr>ag_state := target\<rparr>) s;
                s2 = (if target = Offline then snd (mark_agent_shutdown_complete (ag_id a) s1) else s1)
            in (if target = Offline then newly_offline @ [ag_id a] else newly_offline,
                agent_changed (ag_org_id a) (ag_id a) s2))"

definition compute_agent_liveness_transitions ::
  "timestamp \<Rightarrow> 'a gateway_db_scheme \<Rightarrow> uuid list \<times> 'a gateway_db_scheme" where
  "compute_agent_liveness_transitions at_time s =
     fold (liveness_step at_time)
       (select (agents s) (next_id s)
          (\<lambda>a. ag_last_heartbeat_at a \<noteq> None \<and> ag_lifecycle a \<noteq> ShutdownDone)) ([], s)"

section \<open>Reads\<close>

definition beat_since :: "timestamp \<Rightarrow> agent_row \<Rightarrow> bool" where
  "beat_since cutoff a = (case ag_last_heartbeat_at a of None \<Rightarrow> False | Some b \<Rightarrow> cutoff \<le> b)"

definition has_any_reachable_agent :: "'a gateway_db_scheme \<Rightarrow> bool" where
  "has_any_reachable_agent s \<longleftrightarrow>
     select (agents s) (next_id s)
       (\<lambda>a. ag_state a = Reachable \<and> ag_lifecycle a \<noteq> ShutdownDone \<and> beat_since (now s - 90) a) \<noteq> []"

datatype connection_state = NotConfigured | Connected | Lost

definition connection_status_for_org ::
  "uuid \<Rightarrow> 'a gateway_db_scheme \<Rightarrow> connection_state \<times> nat \<times> timestamp option" where
  "connection_status_for_org org_id s =
     (let rows = select (agents s) (next_id s) (\<lambda>a. ag_org_id a = org_id) in
      if rows = [] then (NotConfigured, 0, None)
      else
        let beats = List.map_filter ag_last_heartbeat_at rows;
            latest = (case beats of [] \<Rightarrow> None | b # bs \<Rightarrow> Some (fold max bs b));
            connected = (case latest of None \<Rightarrow> False | Some b \<Rightarrow> now s - 90 \<le> b)
        in (if connected then Connected else Lost, length rows, latest))"

definition stale_agent_ids :: "uuid list \<Rightarrow> timestamp \<Rightarrow> 'a gateway_db_scheme \<Rightarrow> uuid list" where
  "stale_agent_ids agent_ids cutoff s =
     (let healthy = map ag_id (select (agents s) (next_id s)
                          (\<lambda>a. ag_id a \<in> set agent_ids \<and> beat_since cutoff a))
      in filter (\<lambda>i. i \<notin> set healthy) agent_ids)"

definition list_agents_for_org :: "uuid \<Rightarrow> timestamp \<Rightarrow> 'a gateway_db_scheme \<Rightarrow> agent_row list" where
  "list_agents_for_org org_id at_time s =
     select (agents s) (next_id s)
       (\<lambda>a. ag_org_id a = org_id \<and> beat_since (at_time - UI_RETENTION_SECONDS) a)"

end
