(* ===== verification/Identity.thy ===== *)
theory Identity
  imports Agents
begin

text \<open>
  How an agent proves who it is and what its bearer then lets it do: the STS replay verifier
  (\<^verbatim>\<open>core/agent_gateway/sts_verifier.py\<close>), the rate limit and nonce windows kept in Redis
  (\<^verbatim>\<open>rate_limit.py\<close>, \<^verbatim>\<open>core/redis\<close>), and the HTTP handlers of \<^verbatim>\<open>core/agent_gateway/web.py\<close>.

  Parameters (record \<open>sts_env\<close>): the JSON decoder, the host and port of a URL, and the POST to AWS
  STS. Redis state is the record \<open>redis\<close>: keys with an expiry, and windows of hit times. It is not
  rolled back with a transaction. Regular expressions of the source are written out as functions.
\<close>

section \<open>Redis\<close>

text \<open>A sorted set of Redis: members, each with its score. A member of a window is the time and the count it was added at.\<close>

type_synonym zset = "((timestamp \<times> nat) \<times> timestamp) list"

record redis =
  rd_keys :: "(string \<times> timestamp) list"
  rd_windows :: "(string \<times> zset) list"

definition set_if_absent :: "timestamp \<Rightarrow> string \<Rightarrow> int \<Rightarrow> redis \<Rightarrow> bool \<times> redis" where
  "set_if_absent t key ttl_seconds rd =
     (case map_of (rd_keys rd) key of
        Some expiry \<Rightarrow>
          if t < expiry then (False, rd)
          else (True, rd\<lparr>rd_keys := AList.update key (t + ttl_seconds) (rd_keys rd)\<rparr>)
      | None \<Rightarrow> (True, rd\<lparr>rd_keys := AList.update key (t + ttl_seconds) (rd_keys rd)\<rparr>))"

definition window_of :: "string \<Rightarrow> redis \<Rightarrow> zset" where
  "window_of key rd = (case map_of (rd_windows rd) key of None \<Rightarrow> [] | Some z \<Rightarrow> z)"

definition set_window :: "string \<Rightarrow> zset \<Rightarrow> redis \<Rightarrow> redis" where
  "set_window key z rd = rd\<lparr>rd_windows := AList.update key z (rd_windows rd)\<rparr>"

text \<open>
  A hit is two steps, between which other processes may run: the stale entries are removed and the rest counted,
  and, if there is room, the entry is added later. The time-to-live that the code also sets is the length of the
  window, so it only drops a set whose entries are all stale.
\<close>

definition window_begin :: "timestamp \<Rightarrow> string \<Rightarrow> nat \<Rightarrow> int \<Rightarrow> redis \<Rightarrow> nat option \<times> redis" where
  "window_begin t key limit window_seconds rd =
     (let z = filter (\<lambda>(m, score). \<not> score \<le> t - window_seconds) (window_of key rd); count = length z in
      (if limit \<le> count then None else Some count, set_window key z rd))"

definition window_add :: "timestamp \<Rightarrow> nat \<Rightarrow> string \<Rightarrow> redis \<Rightarrow> redis" where
  "window_add t count key rd = set_window key (AList.update (t, count) t (window_of key rd)) rd"

definition sliding_window_hit :: "timestamp \<Rightarrow> string \<Rightarrow> nat \<Rightarrow> int \<Rightarrow> redis \<Rightarrow> bool \<times> redis" where
  "sliding_window_hit t key limit window_seconds rd =
     (case window_begin t key limit window_seconds rd of
        (None, rd1) \<Rightarrow> (False, rd1)
      | (Some count, rd1) \<Rightarrow> (True, window_add t count key rd1))"

definition PER_IP_LIMIT :: nat where "PER_IP_LIMIT = 10"
definition PER_IP_WINDOW_SECONDS :: int where "PER_IP_WINDOW_SECONDS = 60"

definition ip_key :: "string \<Rightarrow> string" where "ip_key ip = ''rl:identity_exchange:ip:'' @ ip"

definition check_identity_exchange :: "timestamp \<Rightarrow> string option \<Rightarrow> redis \<Rightarrow> bool \<times> redis" where
  "check_identity_exchange t source_ip rd =
     (if or_else source_ip [] = [] then (True, rd)
      else sliding_window_hit t (ip_key (or_else source_ip [])) PER_IP_LIMIT PER_IP_WINDOW_SECONDS rd)"

section \<open>ARNs\<close>

text \<open>
  \<open>assumed_role\<close> splits \<^verbatim>\<open>arn:aws:sts::ACCOUNT:assumed-role/ROLE/REST\<close> into account, role and what
  follows the slash; the two patterns of the source differ only in what they accept there. Python's
  \<^verbatim>\<open>$\<close> also matches before a final newline.
\<close>

definition newline :: char where "newline = CHR 0x0A"

definition chomp :: "string \<Rightarrow> string" where
  "chomp s = (if s \<noteq> [] \<and> last s = newline then butlast s else s)"

definition assumed_role :: "string \<Rightarrow> (string \<times> string \<times> string) option" where
  "assumed_role arn =
     (if \<not> starts_with ''arn:aws:sts::'' arn then None
      else
        let r1 = drop (length ''arn:aws:sts::'') arn; account = take 12 r1; r2 = drop 12 r1 in
        if length account \<noteq> 12 \<or> \<not> list_all is_digit account \<or> \<not> starts_with '':assumed-role/'' r2
        then None
        else
          let r3 = drop (length '':assumed-role/'') r2;
              role = takeWhile (\<lambda>c. c \<noteq> CHR ''/'') r3; r4 = dropWhile (\<lambda>c. c \<noteq> CHR ''/'') r3 in
          if role = [] \<or> r4 = [] then None else Some (account, role, tl r4))"

definition canonicalize_arn :: "string \<Rightarrow> string" where
  "canonicalize_arn arn =
     (case assumed_role arn of
        Some (account, role, rest) \<Rightarrow>
          if chomp rest \<noteq> [] \<and> newline \<notin> set (chomp rest)
          then lower (''arn:aws:iam::'' @ account @ '':role/'' @ role) else lower arn
      | None \<Rightarrow> lower arn)"

definition extract_instance_id :: "string \<Rightarrow> string" where
  "extract_instance_id raw_arn =
     (case assumed_role raw_arn of
        Some (account, role, rest) \<Rightarrow>
          if rest \<noteq> [] \<and> CHR ''/'' \<notin> set rest then rest else lower raw_arn
      | None \<Rightarrow> lower raw_arn)"

section \<open>The signed request\<close>

datatype failure_category =
    PARSE_ERROR | ENDPOINT_DISALLOWED | BODY_MISMATCH | REPLAY_DETECTED | AWS_REJECTED | CLOCK_SKEW

record signed_request =
  sr_url :: string
  sr_headers :: "(string \<times> string) list"
  sr_body :: string
  sr_region :: string

record verified_identity =
  vi_canonical_arn :: string
  vi_raw_arn :: string
  vi_region :: string

record sts_env =
  json_loads :: "string \<Rightarrow> json option"
  url_host :: "string \<Rightarrow> (string \<times> string option) option"
  sts_post :: "string \<Rightarrow> (string \<times> string) list \<Rightarrow> string \<Rightarrow> (nat \<times> string) option"

definition REQUIRED_BODY :: string where
  "REQUIRED_BODY = ''Action=GetCallerIdentity&Version=2011-06-15''"
definition GLOBAL_STS_REGION :: string where "GLOBAL_STS_REGION = ''us-east-1''"
definition NONCE_TTL_SECONDS :: int where "NONCE_TTL_SECONDS = 10 * 60"

definition region_char :: "char \<Rightarrow> bool" where
  "region_char c \<longleftrightarrow> c \<in> set ''abcdefghijklmnopqrstuvwxyz0123456789-''"

text \<open>The host pattern: the region of a regional endpoint, the default one of the global endpoint.\<close>

definition sts_region :: "string \<Rightarrow> string option" where
  "sts_region host =
     (let h = chomp host in
      if h = ''sts.amazonaws.com'' then Some GLOBAL_STS_REGION
      else if \<not> starts_with ''sts.'' h then None
      else
        let region = takeWhile region_char (drop 4 h); rest = dropWhile region_char (drop 4 h) in
        if region \<noteq> [] \<and> rest = ''.amazonaws.com'' then Some region else None)"

definition override_match :: "string \<Rightarrow> string \<Rightarrow> bool" where
  "override_match override host \<longleftrightarrow>
     starts_with override host \<and>
     (let r = chomp (drop (length override) host) in
      r = [] \<or> (hd r = CHR '':'' \<and> tl r \<noteq> [] \<and> list_all is_digit (tl r)))"

definition norm_headers :: "payload \<Rightarrow> (string \<times> string) list" where
  "norm_headers hs =
     fold (\<lambda>(k, v) acc. case v of JStr x \<Rightarrow> AList.update (lower k) x acc | _ \<Rightarrow> acc) hs []"

definition header :: "string \<Rightarrow> (string \<times> string) list \<Rightarrow> string" where
  "header k hs = (case map_of hs k of None \<Rightarrow> [] | Some v \<Rightarrow> v)"

definition parse_signed_request ::
  "sts_env \<Rightarrow> gateway_settings \<Rightarrow> string \<Rightarrow> failure_category + signed_request" where
  "parse_signed_request sts cfg raw =
     (case json_loads sts raw of
        Some (JObj decoded) \<Rightarrow>
          (case (map_of decoded ''url'', map_of decoded ''headers'', map_of decoded ''body'') of
             (Some (JStr url), Some (JObj headers), Some (JStr body)) \<Rightarrow>
               if url = [] \<or> headers = [] then Inl PARSE_ERROR
               else (case url_host sts url of
                       None \<Rightarrow> Inl PARSE_ERROR
                     | Some (host, port) \<Rightarrow>
                         let host_with_port = (case port of None \<Rightarrow> host | Some p \<Rightarrow> host @ '':'' @ p);
                             overridden = (case gs_sts_host_override cfg of
                                 None \<Rightarrow> False
                               | Some ov \<Rightarrow> ov \<noteq> [] \<and> (override_match ov host \<or> override_match ov host_with_port));
                             region = (if overridden then Some GLOBAL_STS_REGION else sts_region host)
                         in (case region of
                               None \<Rightarrow> Inl ENDPOINT_DISALLOWED
                             | Some reg \<Rightarrow>
                                 if body \<noteq> REQUIRED_BODY then Inl BODY_MISMATCH
                                 else if map_of (norm_headers headers) ''authorization'' = None
                                 then Inl PARSE_ERROR
                                 else Inr \<lparr>sr_url = url, sr_headers = norm_headers headers,
                                           sr_body = body, sr_region = reg\<rparr>))
           | _ \<Rightarrow> Inl PARSE_ERROR)
      | _ \<Rightarrow> Inl PARSE_ERROR)"

text \<open>\<^verbatim>\<open>re.search\<close> for \<^verbatim>\<open><Tag>([^<]+)</Tag>\<close>: the first position where the pattern matches.\<close>

fun find_tag :: "string \<Rightarrow> string \<Rightarrow> string option" where
  "find_tag tag [] = None"
| "find_tag tag (c # cs) =
     (let open_tag = ''<'' @ tag @ ''>''; close_tag = ''</'' @ tag @ ''>'';
          rest = drop (length open_tag) (c # cs); inner = takeWhile (\<lambda>d. d \<noteq> CHR ''<'') rest in
      if starts_with open_tag (c # cs) \<and> inner \<noteq> [] \<and>
         starts_with close_tag (dropWhile (\<lambda>d. d \<noteq> CHR ''<'') rest)
      then Some inner else find_tag tag cs)"

definition replay_caller_identity :: "sts_env \<Rightarrow> signed_request \<Rightarrow> failure_category + string" where
  "replay_caller_identity sts signed =
     (case sts_post sts (sr_url signed) (sr_headers signed) (sr_body signed) of
        None \<Rightarrow> Inl AWS_REJECTED
      | Some (status, txt) \<Rightarrow>
          if status \<noteq> 200
          then Inl (if find_tag ''Code'' txt = Some ''RequestExpired'' then CLOCK_SKEW else AWS_REJECTED)
          else (case find_tag ''Arn'' txt of
                  None \<Rightarrow> Inl AWS_REJECTED
                | Some a \<Rightarrow> if starts_with ''arn:aws:'' (strip a) then Inr (strip a) else Inl AWS_REJECTED))"

definition nonce_key :: "'e gateway_env_scheme \<Rightarrow> signed_request \<Rightarrow> string" where
  "nonce_key env signed =
     ''sts_nonce:'' @ sha256 env (header ''authorization'' (sr_headers signed) @ ''|'' @
                                 header ''x-amz-date'' (sr_headers signed))"

definition verify_identity ::
  "'e gateway_env_scheme \<Rightarrow> sts_env \<Rightarrow> gateway_settings \<Rightarrow> timestamp \<Rightarrow> string \<Rightarrow> redis \<Rightarrow>
   (failure_category + verified_identity) \<times> redis" where
  "verify_identity env sts cfg t raw rd =
     (case parse_signed_request sts cfg raw of
        Inl c \<Rightarrow> (Inl c, rd)
      | Inr signed \<Rightarrow>
          (case set_if_absent t (nonce_key env signed) NONCE_TTL_SECONDS rd of
             (False, rd1) \<Rightarrow> (Inl REPLAY_DETECTED, rd1)
           | (True, rd1) \<Rightarrow>
               (case replay_caller_identity sts signed of
                  Inl c \<Rightarrow> (Inl c, rd1)
                | Inr raw_arn \<Rightarrow>
                    (Inr \<lparr>vi_canonical_arn = canonicalize_arn raw_arn, vi_raw_arn = raw_arn,
                          vi_region = sr_region signed\<rparr>, rd1))))"

section \<open>The identity exchange\<close>

record identity_request =
  iq_kind :: string
  iq_agent_version :: "string option"
  iq_os :: "string option"
  iq_cpu_count :: "int option"
  iq_memory_bytes :: "int option"
  iq_payload :: string

record identity_response =
  ir_bearer :: string
  ir_expires_at :: timestamp
  ir_renewal_after :: timestamp
  ir_agent_id :: uuid
  ir_instance_id :: string
  ir_org_id :: uuid

definition audience_in_payload :: "sts_env \<Rightarrow> string \<Rightarrow> string" where
  "audience_in_payload sts raw =
     (case json_loads sts raw of
        Some (JObj d) \<Rightarrow>
          (case map_of d ''headers'' of
             Some (JObj hs) \<Rightarrow>
               (case map_of (rev (map (\<lambda>(k, v). (lower k, v)) hs)) ''x-yaaos-audience'' of
                  Some (JStr a) \<Rightarrow> a | _ \<Rightarrow> [])
           | _ \<Rightarrow> [])
      | _ \<Rightarrow> [])"

definition lookup_org_by_arn :: "string \<Rightarrow> 'a infra_scheme \<Rightarrow> org_row option" where
  "lookup_org_by_arn canonical_arn s =
     first_row (select (orgs s) (next_id s)
       (\<lambda>g. og_registered_iam_arn g = Some canonical_arn \<and> og_archived_at g = None))"

text \<open>The transaction that registers the pod, queues its configuration and issues its bearer.\<close>

definition register_agent ::
  "'e gateway_env_scheme \<Rightarrow> gateway_settings \<Rightarrow> uuid \<Rightarrow> verified_identity \<Rightarrow> identity_request \<Rightarrow>
   string option \<Rightarrow> 'a gateway_db_scheme \<Rightarrow> (identity_response \<times> 'a gateway_db_scheme) res" where
  "register_agent env cfg org_id v req source_ip s =
     (let instance_id = extract_instance_id (vi_raw_arn v) in
      case ensure_agent_row org_id instance_id (vi_canonical_arn v)
             (Some (or_else (iq_agent_version req) ''0.0.1'')) (iq_os req) (iq_cpu_count req)
             (iq_memory_bytes req) s of (agent_id, s1) \<Rightarrow>
      ebind (enqueue_config_update_for_agent env cfg agent_id org_id s1) (\<lambda>s2.
      ebind (issue env agent_id org_id source_ip DEFAULT_BEARER_TTL_SECONDS
               (Some (vi_canonical_arn v)) s2) (\<lambda>((plaintext, row), s3).
      Inr (\<lparr>ir_bearer = plaintext, ir_expires_at = bt_expires_at row,
            ir_renewal_after = bt_expires_at row - 5 * 60, ir_agent_id = agent_id,
            ir_instance_id = instance_id, ir_org_id = org_id\<rparr>, s3))))"

definition exchange_identity ::
  "'e gateway_env_scheme \<Rightarrow> sts_env \<Rightarrow> gateway_settings \<Rightarrow> identity_request \<Rightarrow> string option \<Rightarrow>
   redis \<Rightarrow> 'a gateway_db_scheme \<Rightarrow> (exn + identity_response) \<times> redis \<times> 'a gateway_db_scheme" where
  "exchange_identity env sts cfg req source_ip rd s =
     (if iq_payload req = [] then (Inl (HTTPException 401 ''unauthorized''), rd, s)
      else if iq_kind req \<noteq> ''aws-sts'' then (Inl (HTTPException 401 ''unauthorized''), rd, s)
      else case check_identity_exchange (now s) source_ip rd of
        (False, rd1) \<Rightarrow> (Inl (HTTPException 429 ''rate_limited''), rd1, s)
      | (True, rd1) \<Rightarrow>
          let audience = audience_in_payload sts (iq_payload req) in
          if audience = [] \<or> audience \<noteq> gs_public_hostname cfg
          then (Inl (HTTPException 401 ''audience_mismatch''), rd1, s)
          else (case verify_identity env sts cfg (now s) (iq_payload req) rd1 of
            (Inl c, rd2) \<Rightarrow> (Inl (HTTPException 401 ''sts_verification_failed''), rd2, s)
          | (Inr v, rd2) \<Rightarrow>
              (case lookup_org_by_arn (vi_canonical_arn v) s of
                 None \<Rightarrow> (Inl (HTTPException 403 ''forbidden_unregistered_arn''), rd2, s)
               | Some org \<Rightarrow>
                   if or_else (og_aws_region org) [] \<noteq> [] \<and> or_else (og_aws_region org) [] \<noteq> vi_region v
                   then (Inl (HTTPException 401 ''sts_verification_failed''), rd2,
                         audit ''org'' (og_id org) ''identity_exchange_failed''
                           (JObj [(''category'', JStr ''region_mismatch''),
                                  (''attempted_arn'', JStr (vi_canonical_arn v)),
                                  (''source_ip'', jopt JStr source_ip)])
                           SystemActor (og_id org) s)
                   else (case register_agent env cfg (og_id org) v req source_ip s of
                           Inl e \<Rightarrow> (Inl e, rd2, s)
                         | Inr (resp, s1) \<Rightarrow> (Inr resp, rd2, s1)))))"

section \<open>Bearer-authenticated handlers\<close>

definition verify_bearer ::
  "'e gateway_env_scheme \<Rightarrow> string option \<Rightarrow> 'a gateway_db_scheme \<Rightarrow>
   bearer_context option \<times> 'a gateway_db_scheme" where
  "verify_bearer env authorization s =
     (case authorization of
        None \<Rightarrow> (None, s)
      | Some h \<Rightarrow>
          if \<not> starts_with ''bearer '' (lower h) then (None, s)
          else verify env (strip (drop 7 h)) s)"

text \<open>
  A handler answers with a status code and the state it commits; an exception that is not turned
  into a response leaves its transaction rolled back (\<open>Inl\<close>).
\<close>

type_synonym ('x, 's) reply = "(nat \<times> 'x option \<times> 's) res"

definition with_bearer ::
  "'e gateway_env_scheme \<Rightarrow> string option \<Rightarrow> (bearer_context \<Rightarrow> 'a gateway_db_scheme \<Rightarrow>
   ('x, 'a gateway_db_scheme) reply) \<Rightarrow> 'a gateway_db_scheme \<Rightarrow> ('x, 'a gateway_db_scheme) reply" where
  "with_bearer env authorization handler s =
     (case verify_bearer env authorization s of
        (None, s1) \<Rightarrow> Inr (401, None, s1)
      | (Some ctx, s1) \<Rightarrow> handler ctx s1)"

definition deregister_identity ::
  "'e gateway_env_scheme \<Rightarrow> string option \<Rightarrow> 'a workspace_db_scheme \<Rightarrow>
   (unit, 'a workspace_db_scheme) reply" where
  "deregister_identity env authorization = with_bearer env authorization (\<lambda>ctx s.
     let agent_id = bc_agent_id ctx;
         lc = (case agents s agent_id of None \<Rightarrow> Active | Some a \<Rightarrow> ag_lifecycle a)
     in if lc = ShutdownDone then Inr (204, None, s)
        else if lc = Draining
        then Inr (204, None, failsafe_agent_loss [agent_id] (snd (mark_agent_shutdown_complete agent_id s)))
        else Inr (204, None,
               mark_agent_disconnected agent_id (bc_org_id ctx) (bc_bearer_id ctx) lc s))"

definition heartbeat ::
  "'e gateway_env_scheme \<Rightarrow> string option \<Rightarrow> uuid list \<Rightarrow> 'a workspace_db_scheme \<Rightarrow>
   (uuid list, 'a workspace_db_scheme) reply" where
  "heartbeat env authorization reported = with_bearer env authorization (\<lambda>ctx s.
     case record_heartbeat (bc_agent_id ctx) reported s of
       (forgotten, s1) \<Rightarrow> Inr (200, Some forgotten, s1))"

definition claim_command ::
  "'e gateway_env_scheme \<Rightarrow> string option \<Rightarrow> lifecycle \<Rightarrow> int \<Rightarrow> uuid list \<Rightarrow>
   'a gateway_db_scheme \<Rightarrow> (claimed_command, 'a gateway_db_scheme) reply" where
  "claim_command env authorization lc new_workspaces workspace_ids =
     with_bearer env authorization (\<lambda>ctx s.
     ebind (claim_next (gateway_env.truncate env) (bc_agent_id ctx) lc new_workspaces workspace_ids s)
       (\<lambda>(c, s1). case c of None \<Rightarrow> Inr (204, None, s1) | Some cmd \<Rightarrow> Inr (200, Some cmd, s1)))"

definition owning_agent_for_workspace :: "uuid \<Rightarrow> 'a workspace_db_scheme \<Rightarrow> uuid option" where
  "owning_agent_for_workspace workspace_id s = Option.bind (workspaces s workspace_id) ws_owning_agent_id"

definition owning_agent_for_command :: "uuid \<Rightarrow> 'a workspace_db_scheme \<Rightarrow> uuid option res" where
  "owning_agent_for_command command_id s =
     ebind (one_or_none (select (workspaces s) (next_id s) (\<lambda>w. ws_current_command_id w = Some command_id)))
       (\<lambda>w. Inr (Option.bind w ws_owning_agent_id))"

definition owner_allows :: "bearer_context \<Rightarrow> uuid option \<Rightarrow> bool" where
  "owner_allows ctx owning_agent_id \<longleftrightarrow>
     owning_agent_id = None \<or> owning_agent_id = Some (bc_agent_id ctx)"

text \<open>\<^verbatim>\<open>except StaleClaimError\<close>: the transaction is rolled back and the answer is 410.\<close>

definition or_stale :: "'s \<Rightarrow> ('x, 's) reply \<Rightarrow> ('x, 's) reply" where
  "or_stale s r = (case r of Inl (StaleClaimError _) \<Rightarrow> Inr (410, None, s) | _ \<Rightarrow> r)"

definition post_workspace_event ::
  "'e workspace_env_scheme \<Rightarrow> string option \<Rightarrow> uuid \<Rightarrow> uuid \<Rightarrow> uuid \<Rightarrow> workspace_event_kind \<Rightarrow>
   'a workspace_db_scheme \<Rightarrow> (unit, 'a workspace_db_scheme) reply" where
  "post_workspace_event env authorization path_id event_workspace_id command_id kind =
     with_bearer env authorization (\<lambda>ctx s.
     if event_workspace_id \<noteq> path_id then Inr (400, None, s)
     else if \<not> owner_allows ctx (owning_agent_for_workspace path_id s) then Inr (403, None, s)
     else or_stale s
       (ebind (record_workspace_event env event_workspace_id command_id kind (Some (bc_agent_id ctx)) s)
          (\<lambda>s1. Inr (200, None, s1))))"

definition post_command_event ::
  "'e coding_env_scheme \<Rightarrow> string option \<Rightarrow> uuid \<Rightarrow> agent_event \<Rightarrow> 'a coding_db_scheme \<Rightarrow>
   (unit, 'a coding_db_scheme) reply" where
  "post_command_event env authorization path_id ev =
     with_bearer env authorization (\<lambda>ctx s.
     if ev_command_id ev \<noteq> path_id then Inr (400, None, s)
     else ebind (owning_agent_for_command path_id s) (\<lambda>owner.
       if \<not> owner_allows ctx owner then Inr (403, None, s)
       else or_stale s
         (ebind (record_agent_event env ev (Some (bc_agent_id ctx)) s) (\<lambda>s1. Inr (200, None, s1)))))"

end
