(* ===== verification/Reaper.thy ===== *)
theory Reaper
  imports Agents
begin

text \<open>
  The per-minute workspace reaper of \<^verbatim>\<open>core/workspace/service.py\<close>: the TTL and idle sweeps, the
  liveness sweep with the agent-loss failsafe, the command-lease requeue and the bounded destruction
  of expired workspaces, together with the claim projections of the same file.

  A provider's \<^verbatim>\<open>destroy()\<close> is a parameter: \<open>provider_destroy env p w\<close> is the text of the exception it
  raises, or \<open>None\<close>.
\<close>

section \<open>Expiring\<close>

definition expire :: "string \<Rightarrow> workspace_row \<Rightarrow> 'a workspace_db_scheme \<Rightarrow> 'a workspace_db_scheme" where
  "expire reason w s =
     audit_transition (ws_id w) (ws_org_id w) WActive WExpired reason None
       (upd_workspace (ws_id w) (\<lambda>w. w\<lparr>ws_status := WExpired\<rparr>) s)"

definition over_budget :: "timestamp \<Rightarrow> workspace_row \<Rightarrow> bool" where
  "over_budget t w \<longleftrightarrow> ws_status w = WActive \<and> ws_expires_at w < t"

definition idle :: "timestamp \<Rightarrow> workspace_row \<Rightarrow> bool" where
  "idle t w \<longleftrightarrow> ws_status w = WActive \<and> ws_current_command_id w = None \<and>
     (case ws_activated_at w of None \<Rightarrow> False | Some a \<Rightarrow> ws_max_idle_seconds w < t - a)"

definition sweep_where ::
  "(workspace_row \<Rightarrow> bool) \<Rightarrow> string \<Rightarrow> 'a workspace_db_scheme \<Rightarrow> 'a workspace_db_scheme" where
  "sweep_where P reason s = fold (expire reason) (select (workspaces s) (next_id s) P) s"

text \<open>The transaction of one pass; it returns the expired rows to destroy.\<close>

definition sweep_transaction ::
  "'a workspace_db_scheme \<Rightarrow> workspace_row list \<times> 'a workspace_db_scheme" where
  "sweep_transaction s =
     (let s1 = sweep_where (over_budget (now s)) ''ttl_expired'' s;
          s2 = sweep_where (idle (now s)) ''idle_timeout'' s1
      in case compute_agent_liveness_transitions (now s) s2 of (newly_offline, s3) \<Rightarrow>
        let s4 = (if newly_offline \<noteq> [] then failsafe_agent_loss newly_offline s3 else s3);
            s5 = snd (requeue_stale_claimed s4)
        in (take 50 (select (workspaces s5) (next_id s5)
              (\<lambda>w. ws_status w = WExpired \<and> ws_destroy_attempts w < 3)), s5))"

section \<open>Destroying\<close>

text \<open>The guarded UPDATE that lets one reaper cycle own the destruction of a row.\<close>

definition begin_destroy ::
  "workspace_row \<Rightarrow> 'a workspace_db_scheme \<Rightarrow> nat option \<times> 'a workspace_db_scheme" where
  "begin_destroy row s =
     (case workspaces s (ws_id row) of
        None \<Rightarrow> (None, s)
      | Some w \<Rightarrow>
          if ws_status w = WExpired
          then (Some (ws_destroy_attempts w + 1),
                audit_transition (ws_id row) (ws_org_id row) (ws_status row) WDestroying
                  ''destroy_attempt'' None
                  (upd_workspace (ws_id row)
                     (\<lambda>w. w\<lparr>ws_status := WDestroying, ws_destroy_attempts := ws_destroy_attempts w + 1,
                            ws_last_destroy_attempt_at := Some (now s)\<rparr>) s))
          else (None, s))"

definition attempt_destroy ::
  "'e workspace_env_scheme \<Rightarrow> workspace_row \<Rightarrow> 'a workspace_db_scheme \<Rightarrow> 'a workspace_db_scheme" where
  "attempt_destroy env row s =
     (if ws_provider_id row \<notin> set (providers env) then
        let err = ''provider '' @ ws_provider_id row @ '' not registered'' in
        audit_transition (ws_id row) (ws_org_id row) (ws_status row) WDestroyFailed
          ''provider_not_registered'' (Some err)
          (upd_workspace (ws_id row)
             (\<lambda>w. w\<lparr>ws_status := WDestroyFailed, ws_last_destroy_error := Some err\<rparr>) s)
      else case begin_destroy row s of
        (None, s1) \<Rightarrow> s1
      | (Some attempts, s1) \<Rightarrow>
          (case provider_destroy env (ws_provider_id row) (ws_id row) of
             Some err \<Rightarrow>
               let st = (if 3 \<le> attempts then WDestroyFailed else WExpired) in
               audit_transition (ws_id row) (ws_org_id row) WDestroying st ''destroy_failed'' (Some err)
                 (upd_workspace (ws_id row)
                    (\<lambda>w. w\<lparr>ws_status := st, ws_last_destroy_error := Some err\<rparr>) s1)
           | None \<Rightarrow>
               audit_transition (ws_id row) (ws_org_id row) WDestroying WDestroyed ''destroyed'' None
                 (upd_workspace (ws_id row)
                    (\<lambda>w. w\<lparr>ws_status := WDestroyed, ws_destroyed_at := Some (now s1),
                           ws_last_destroy_error := None\<rparr>) s1)))"

definition reaper_sweep_once ::
  "'e workspace_env_scheme \<Rightarrow> 'a workspace_db_scheme \<Rightarrow> 'a workspace_db_scheme" where
  "reaper_sweep_once env s =
     (case sweep_transaction s of (rows, s1) \<Rightarrow> fold (attempt_destroy env) rows s1)"

section \<open>Projections\<close>

definition get_workspace_claim_state ::
  "uuid \<Rightarrow> 'a workspace_db_scheme \<Rightarrow> (uuid \<times> workspace_status \<times> uuid option) option res" where
  "get_workspace_claim_state command_id s =
     ebind (one_or_none (select (workspaces s) (next_id s) (\<lambda>w. ws_current_command_id w = Some command_id)))
       (\<lambda>w. Inr (map_option (\<lambda>w. (ws_id w, ws_status w, ws_owning_agent_id w)) w))"

definition get_workspace_command_state ::
  "uuid \<Rightarrow> 'a workspace_db_scheme \<Rightarrow> (uuid \<times> uuid option \<times> workspace_status \<times> uuid option) option" where
  "get_workspace_command_state workspace_id s =
     map_option (\<lambda>w. (ws_id w, ws_current_command_id w, ws_status w, ws_owning_agent_id w))
       (workspaces s workspace_id)"

definition get_workspace_statuses ::
  "uuid list \<Rightarrow> 'a workspace_db_scheme \<Rightarrow> (uuid \<times> workspace_status) list" where
  "get_workspace_statuses workspace_ids s =
     List.map_filter (\<lambda>i. map_option (\<lambda>w. (i, ws_status w)) (workspaces s i)) workspace_ids"

end
