(* ===== verification/AgentMoves.thy ===== *)
theory AgentMoves
  imports Identity Reaper
begin

text \<open>
  The invariant of the agent registry (rows are keyed, a bearer belongs to a registered agent of its
  organisation, an agent that has been shut down holds no live bearer) and, operation by operation, what
  each function of \<open>Agents\<close> and \<open>Identity\<close> may do to the agents and to their drain lifecycle.
\<close>

section \<open>The registry\<close>

text \<open>
  What holds of agents and bearers in every reachable state: rows are keyed; a bearer belongs to a
  known agent and no two share a hash; an agent is one \<open>(org, instance)\<close>; and an agent that has
  been shut down is offline and holds no bearer that is not revoked.
\<close>

definition registry_ok :: "'a gateway_db_scheme \<Rightarrow> bool" where
  "registry_ok s \<longleftrightarrow>
     keyed_rows ag_id (next_id s) (agents s) \<and> keyed_rows bt_id (next_id s) (bearers s) \<and>
     (\<forall>j b. bearers s j = Some b \<longrightarrow> agents s (bt_agent_id b) \<noteq> None) \<and>
     (\<forall>i a. agents s i = Some a \<longrightarrow> ag_lifecycle a = ShutdownDone \<longrightarrow> ag_state a = Offline) \<and>
     (\<forall>i a j b. agents s i = Some a \<longrightarrow> ag_lifecycle a = ShutdownDone \<longrightarrow> bearers s j = Some b \<longrightarrow>
        bt_agent_id b = i \<longrightarrow> bt_revoked_at b \<noteq> None) \<and>
     (\<forall>i j b c. bearers s i = Some b \<longrightarrow> bearers s j = Some c \<longrightarrow> bt_token_hash b = bt_token_hash c \<longrightarrow> i = j) \<and>
     (\<forall>i j a c. agents s i = Some a \<longrightarrow> agents s j = Some c \<longrightarrow> ag_org_id a = ag_org_id c \<longrightarrow>
        ag_instance_id a = ag_instance_id c \<longrightarrow> i = j)"

lemma registry_okD:
  assumes "registry_ok s"
  shows "keyed_rows ag_id (next_id s) (agents s)" "keyed_rows bt_id (next_id s) (bearers s)"
    "\<And>j b. bearers s j = Some b \<Longrightarrow> agents s (bt_agent_id b) \<noteq> None"
    "\<And>i a. agents s i = Some a \<Longrightarrow> ag_lifecycle a = ShutdownDone \<Longrightarrow> ag_state a = Offline"
    "\<And>a j b. agents s (bt_agent_id b) = Some a \<Longrightarrow> ag_lifecycle a = ShutdownDone \<Longrightarrow> bearers s j = Some b \<Longrightarrow>
       bt_revoked_at b \<noteq> None"
    "\<And>i j b c. bearers s i = Some b \<Longrightarrow> bearers s j = Some c \<Longrightarrow> bt_token_hash b = bt_token_hash c \<Longrightarrow> i = j"
    "\<And>i j a c. agents s i = Some a \<Longrightarrow> agents s j = Some c \<Longrightarrow> ag_org_id a = ag_org_id c \<Longrightarrow>
        ag_instance_id a = ag_instance_id c \<Longrightarrow> i = j"
  using assms unfolding registry_ok_def by blast+

text \<open>The drain lifecycle: its edges, and what one step may do to the agents.\<close>

inductive lifecycle_edge :: "lifecycle \<Rightarrow> lifecycle \<Rightarrow> bool" where
  configured: "lifecycle_edge Unconfigured Active"
| drain_requested: "l \<in> {Unconfigured, Active} \<Longrightarrow> lifecycle_edge l Draining"
| drain_cancelled: "lifecycle_edge Draining Active"
| drained: "lifecycle_edge Draining ShutdownDone"
| reconnected: "lifecycle_edge ShutdownDone Unconfigured"

inductive_simps lifecycle_edge_simps [simp]:
  "lifecycle_edge Unconfigured l" "lifecycle_edge Active l" "lifecycle_edge Draining l" "lifecycle_edge ShutdownDone l"

definition agents_move ::
  "(lifecycle \<Rightarrow> lifecycle \<Rightarrow> bool) \<Rightarrow> 'a gateway_db_scheme \<Rightarrow> 'a gateway_db_scheme \<Rightarrow> bool" where
  "agents_move R s s' \<longleftrightarrow> (registry_ok s \<longrightarrow> registry_ok s' \<and>
     (\<forall>i a. agents s i = Some a \<longrightarrow> (\<exists>a'. agents s' i = Some a' \<and> ag_org_id a' = ag_org_id a \<and>
        ag_instance_id a' = ag_instance_id a \<and> R\<^sup>=\<^sup>= (ag_lifecycle a) (ag_lifecycle a'))))"

lemma agents_move_trans:
  assumes "agents_move R s t" and "agents_move Q t u" and "\<And>x y z. R x y \<Longrightarrow> Q y z \<Longrightarrow> T x z"
    and "\<And>x y. R x y \<Longrightarrow> T x y" and "\<And>x y. Q x y \<Longrightarrow> T x y"
  shows "agents_move T s u"
proof -
  {
    assume s: "registry_ok s"
    with assms(1) have t: "registry_ok t" by (simp add: agents_move_def)
    with assms(2) have u: "registry_ok u" by (simp add: agents_move_def)
    have "\<exists>a''. agents u i = Some a'' \<and> ag_org_id a'' = ag_org_id a \<and> ag_instance_id a'' = ag_instance_id a \<and>
        T\<^sup>=\<^sup>= (ag_lifecycle a) (ag_lifecycle a'')" if a: "agents s i = Some a" for i a
    proof -
      from assms(1) a s obtain b where b: "agents t i = Some b" "ag_org_id b = ag_org_id a"
        "ag_instance_id b = ag_instance_id a" "R\<^sup>=\<^sup>= (ag_lifecycle a) (ag_lifecycle b)"
        unfolding agents_move_def by blast
      from assms(2) b(1) t obtain c where c: "agents u i = Some c" "ag_org_id c = ag_org_id b"
        "ag_instance_id c = ag_instance_id b" "Q\<^sup>=\<^sup>= (ag_lifecycle b) (ag_lifecycle c)"
        unfolding agents_move_def by blast
      from b c assms(3-5) show ?thesis by auto
    qed
    with u have "registry_ok u \<and> (\<forall>i a. agents s i = Some a \<longrightarrow> (\<exists>a''. agents u i = Some a'' \<and>
        ag_org_id a'' = ag_org_id a \<and> ag_instance_id a'' = ag_instance_id a \<and>
        T\<^sup>=\<^sup>= (ag_lifecycle a) (ag_lifecycle a'')))" by blast
  }
  then show ?thesis unfolding agents_move_def by blast
qed

abbreviation no_edge :: "lifecycle \<Rightarrow> lifecycle \<Rightarrow> bool" where
  "no_edge \<equiv> \<lambda>_ _. False"

lemma agents_move_after: "agents_move no_edge s t \<Longrightarrow> agents_move R t u \<Longrightarrow> agents_move R s u"
  by (rule agents_move_trans[of no_edge s t R u]) auto

lemma agents_move_before: "agents_move R s t \<Longrightarrow> agents_move no_edge t u \<Longrightarrow> agents_move R s u"
  by (rule agents_move_trans[of R s t no_edge u]) auto

lemma agents_move_mono: "agents_move R s t \<Longrightarrow> (\<And>x y. R x y \<Longrightarrow> Q x y) \<Longrightarrow> agents_move Q s t"
  unfolding agents_move_def by blast

lemma agents_move_frame:
  assumes "agents s' = agents s" and "bearers s' = bearers s" and "next_id s \<le> next_id s'"
  shows "agents_move R s s'"
  using assms unfolding agents_move_def registry_ok_def by (auto intro: keyed_rows_mono)

lemma agents_move_refl [simp, intro]: "agents_move R s s"
  by (rule agents_move_frame) auto

lemma agents_move_bearers:
  assumes "agents s' = agents s" and "next_id s' = next_id s"
    and "bearers s' = update_where P f (bearers s)"
    and "\<And>b. bt_id (f b) = bt_id b \<and> bt_agent_id (f b) = bt_agent_id b \<and> bt_token_hash (f b) = bt_token_hash b \<and>
         (bt_revoked_at b \<noteq> None \<longrightarrow> bt_revoked_at (f b) \<noteq> None)"
  shows "agents_move R s s'"
proof -
  have old: "\<exists>b0. bearers s j = Some b0 \<and> bt_agent_id b0 = bt_agent_id b \<and> bt_token_hash b0 = bt_token_hash b \<and>
      (bt_revoked_at b0 \<noteq> None \<longrightarrow> bt_revoked_at b \<noteq> None)" if "bearers s' j = Some b" for j b
    using that assms(3,4) by (auto split: if_splits)
  have "registry_ok s'" if ok: "registry_ok s"
    unfolding registry_ok_def
  proof (intro conjI allI impI)
    show "keyed_rows ag_id (next_id s') (agents s')" using registry_okD(1)[OF ok] assms(1,2) by simp
    show "keyed_rows bt_id (next_id s') (bearers s')"
      using keyed_rows_update_where[OF registry_okD(2)[OF ok], of f P] assms by simp
  next
    fix j b assume "bearers s' j = Some b"
    from old[OF this] registry_okD(3)[OF ok] assms(1) show "agents s' (bt_agent_id b) \<noteq> None" by metis
  next
    fix i a assume "agents s' i = Some a" "ag_lifecycle a = ShutdownDone"
    then show "ag_state a = Offline" using registry_okD(4)[OF ok] assms(1) by simp
  next
    fix i a j b assume "agents s' i = Some a" "ag_lifecycle a = ShutdownDone" "bearers s' j = Some b" "bt_agent_id b = i"
    with old[of j b] registry_okD(5)[OF ok] assms(1) show "bt_revoked_at b \<noteq> None" by metis
  next
    fix i j b c assume "bearers s' i = Some b" "bearers s' j = Some c" "bt_token_hash b = bt_token_hash c"
    with old[of i b] old[of j c] registry_okD(6)[OF ok] show "i = j" by metis
  next
    fix i j a c assume "agents s' i = Some a" "agents s' j = Some c" "ag_org_id a = ag_org_id c"
      "ag_instance_id a = ag_instance_id c"
    with registry_okD(7)[OF ok] assms(1) show "i = j" by metis
  qed
  then show ?thesis unfolding agents_move_def using assms(1) by auto
qed

lemma agents_move_upd:
  assumes "agents s' = modify i f (agents s)" and "next_id s' = next_id s" and "bearers s' = bearers s"
    and "\<And>a. agents s i = Some a \<Longrightarrow> ag_id (f a) = ag_id a \<and> ag_org_id (f a) = ag_org_id a \<and>
          ag_instance_id (f a) = ag_instance_id a \<and> R\<^sup>=\<^sup>= (ag_lifecycle a) (ag_lifecycle (f a))"
    and "\<And>a. registry_ok s \<Longrightarrow> agents s i = Some a \<Longrightarrow> ag_lifecycle (f a) = ShutdownDone \<Longrightarrow>
          ag_state (f a) = Offline \<and>
          (\<forall>j b. bearers s j = Some b \<longrightarrow> bt_agent_id b = i \<longrightarrow> bt_revoked_at b \<noteq> None)"
  shows "agents_move R s s'"
proof (cases "agents s i")
  case None
  then have "agents s' = agents s" using assms(1) by (simp add: modify_None)
  then show ?thesis using assms(2,3) by (intro agents_move_frame) auto
next
  case (Some a)
  have t: "agents s' = (agents s)(i \<mapsto> f a)" using assms(1) Some by (simp add: modify_Some)
  note fa = assms(4)[OF Some] and sd = assms(5)[OF _ Some]
  have "registry_ok s'" if ok: "registry_ok s"
    unfolding registry_ok_def
  proof (intro conjI allI impI)
    show "keyed_rows ag_id (next_id s') (agents s')"
      unfolding t assms(2) using registry_okD(1)[OF ok] Some fa
      by (intro keyed_rows_insert) (auto dest: keyed_rowsD)
    show "keyed_rows bt_id (next_id s') (bearers s')" using registry_okD(2)[OF ok] assms(2,3) by simp
  next
    fix j b assume "bearers s' j = Some b"
    then show "agents s' (bt_agent_id b) \<noteq> None" using registry_okD(3)[OF ok] assms(3) t by simp
  next
    fix k c assume "agents s' k = Some c" "ag_lifecycle c = ShutdownDone"
    then show "ag_state c = Offline" using registry_okD(4)[OF ok] t sd[OF ok] by (auto split: if_splits)
  next
    fix k c j b assume "agents s' k = Some c" "ag_lifecycle c = ShutdownDone" "bearers s' j = Some b" "bt_agent_id b = k"
    then show "bt_revoked_at b \<noteq> None"
      using registry_okD(5)[OF ok] t sd[OF ok] assms(3) by (cases "k = i") auto
  next
    fix k j b c assume "bearers s' k = Some b" "bearers s' j = Some c" "bt_token_hash b = bt_token_hash c"
    then show "k = j" using registry_okD(6)[OF ok] assms(3) by metis
  next
    fix k j b c assume h: "agents s' k = Some b" "agents s' j = Some c" "ag_org_id b = ag_org_id c"
      "ag_instance_id b = ag_instance_id c"
    have old: "\<exists>b0. agents s m = Some b0 \<and> ag_org_id b0 = ag_org_id d \<and> ag_instance_id b0 = ag_instance_id d"
      if "agents s' m = Some d" for m d
      using that t fa Some by (cases "m = i") auto
    from old[OF h(1)] old[OF h(2)] h(3,4) registry_okD(7)[OF ok] show "k = j" by metis
  qed
  moreover have "\<exists>a'. agents s' k = Some a' \<and> ag_org_id a' = ag_org_id c \<and> ag_instance_id a' = ag_instance_id c \<and>
      R\<^sup>=\<^sup>= (ag_lifecycle c) (ag_lifecycle a')" if "agents s k = Some c" for k c
    using that fa Some t by (cases "k = i") auto
  ultimately show ?thesis unfolding agents_move_def by blast
qed

lemma efold_moves:
  assumes "efold g xs acc = Inr acc'" and "\<And>x acc acc'. g x acc = Inr acc' \<Longrightarrow> agents_move R (pr acc) (pr acc')"
    and "\<And>x y z. R x y \<Longrightarrow> R y z \<Longrightarrow> R x z"
  shows "agents_move R (pr acc) (pr acc')"
  using assms(1)
proof (induction xs arbitrary: acc)
  case (Cons x xs)
  then obtain m where m: "g x acc = Inr m" "efold g xs m = Inr acc'" by (auto simp: res_simps)
  show ?case using agents_move_trans[OF assms(2)[OF m(1)] Cons.IH[OF m(2)]] assms(3) by blast
qed auto

lemma fold_moves:
  assumes "\<And>x acc. x \<in> set xs \<Longrightarrow> agents_move R (pr acc) (pr (g x acc))"
    and "\<And>x y z. R x y \<Longrightarrow> R y z \<Longrightarrow> R x z"
  shows "agents_move R (pr acc) (pr (fold g xs acc))"
  using assms(1)
proof (induction xs arbitrary: acc)
  case (Cons x xs)
  have "agents_move R (pr acc) (pr (g x acc))" by (rule Cons.prems) simp
  moreover have "agents_move R (pr (g x acc)) (pr (fold g xs (g x acc)))" by (rule Cons.IH) (simp add: Cons.prems)
  ultimately show ?case using agents_move_trans assms(2) by (simp add: agents_move_trans[where T = R])
qed auto

section \<open>The operations\<close>

lemma revoke_where_moves: "agents_move R s (snd (revoke_where P reason s))"
  by (rule agents_move_bearers) (auto simp: revoke_where_def Let_def)

lemma revoke_moves:
  "agents_move R s (revoke b reason s)"
  "agents_move R s (snd (revoke_all_for_agent a reason s))"
  "agents_move R s (snd (revoke_all_for_org org reason s))"
  "agents_move R s (snd (revoke_all_for_arn arn reason s))"
  unfolding revoke_def revoke_all_for_agent_def revoke_all_for_org_def revoke_all_for_arn_def
  by (rule revoke_where_moves)+

lemma enqueue_command_frame:
  assumes "enqueue_command org c rid s = Inr s'"
  shows "agents s' = agents s" "bearers s' = bearers s" "next_id s' = next_id s" "now s' = now s"
  using assms by (auto simp: enqueue_command_def enqueue_command_payload_def Let_def split: if_splits)

lemma enqueue_for_agent_frame:
  assumes "enqueue_for_agent env k fs org a s = Inr s'"
  shows "agents s' = agents s" "bearers s' = bearers s" "next_id s \<le> next_id s'" "now s' = now s"
  using assms by (auto simp: enqueue_for_agent_def fresh_def res_simps upd_command_def dest: enqueue_command_frame)

lemma enqueue_for_agent_moves: "enqueue_for_agent env k fs org a s = Inr s' \<Longrightarrow> agents_move R s s'"
  by (rule agents_move_frame) (auto dest: enqueue_for_agent_frame)

lemma config_update_moves:
  assumes "enqueue_config_update_for_agent env cfg a org s = Inr s'"
  shows "agents_move R s s'" "now s' = now s"
  using assms by (auto simp: enqueue_config_update_for_agent_def enqueue_config_update_with_config_def res_simps
      dest: enqueue_for_agent_moves enqueue_for_agent_frame)

lemma config_fanout_moves:
  assumes "enqueue_config_update_for_all_org_agents env cfg org s = Inr s'"
  shows "agents_move no_edge s s'"
proof (cases "map ag_id (select (agents s) (next_id s) (\<lambda>a. ag_org_id a = org))")
  case Nil
  with assms show ?thesis by (simp add: enqueue_config_update_for_all_org_agents_def)
next
  case (Cons i ids)
  with assms obtain config where
    "efold (\<lambda>a. enqueue_for_agent env CONFIG_UPDATE [(''config'', config)] org a) (i # ids) s = Inr s'"
    by (auto simp: enqueue_config_update_for_all_org_agents_def enqueue_config_update_with_config_def res_simps
        simp del: efold.simps map_eq_Cons_conv)
  then show ?thesis
    by (rule efold_moves[where pr = "\<lambda>s. s" and R = no_edge, simplified]) (rule enqueue_for_agent_moves)
qed

lemma agent_changed_moves: "agents_move R s (agent_changed org a s)"
  by (rule agents_move_frame) (auto simp: publish_general_after_commit_def)

lemma audit_moves: "agents_move R s (audit k i w p act org s)"
  by (rule agents_move_frame) (auto simp: audit_def)

lemma shutdown_complete_frame:
  assumes "agents s a = Some r" "ag_lifecycle r = Draining"
  shows "next_id (snd (mark_agent_shutdown_complete a s)) = next_id s"
    "agents (snd (mark_agent_shutdown_complete a s)) =
       modify a (\<lambda>q. q\<lparr>ag_lifecycle := ShutdownDone, ag_state := Offline, ag_last_shutdown_at := Some (now s)\<rparr>) (agents s)"
    "bearers (snd (mark_agent_shutdown_complete a s)) = bearers (snd (revoke_all_for_agent a ''shutdown_complete'' s))"
  using assms by (simp_all add: mark_agent_shutdown_complete_def revoke_all_for_agent_def revoke_where_def Let_def
      upd_agent_def audit_def publish_general_after_commit_def)

lemma shutdown_complete_moves:
  "agents_move (\<lambda>x y. x = Draining \<and> y = ShutdownDone) s (snd (mark_agent_shutdown_complete a s))"
proof (cases "\<exists>r. agents s a = Some r \<and> ag_lifecycle r = Draining")
  case False
  then have "snd (mark_agent_shutdown_complete a s) = s"
    by (auto simp: mark_agent_shutdown_complete_def split: option.splits)
  then show ?thesis by simp
next
  case True
  then obtain r where r: "agents s a = Some r" "ag_lifecycle r = Draining" by blast
  let ?f = "\<lambda>q. q\<lparr>ag_lifecycle := ShutdownDone, ag_state := Offline, ag_last_shutdown_at := Some (now s)\<rparr>"
  let ?s' = "snd (mark_agent_shutdown_complete a s)"
  let ?s0 = "snd (revoke_all_for_agent a ''shutdown_complete'' s)"
  have same: "agents ?s0 = agents s" by (simp add: revoke_all_for_agent_def revoke_where_def Let_def)
  have revoked: "bt_revoked_at b \<noteq> None" if "bearers ?s0 j = Some b" "bt_agent_id b = a" for j b
  proof -
    from that(1) obtain b0 where "bearers s j = Some b0" and
      b: "b = (if bt_agent_id b0 = a \<and> bt_revoked_at b0 = None
        then b0\<lparr>bt_revoked_at := Some (now s), bt_revoked_reason := Some ''shutdown_complete''\<rparr> else b0)"
      by (auto simp: revoke_all_for_agent_def revoke_where_def Let_def)
    with that(2) show ?thesis by (cases "bt_agent_id b0 = a \<and> bt_revoked_at b0 = None") auto
  qed
  note frame = shutdown_complete_frame[OF r]
  have s': "agents ?s' = modify a ?f (agents ?s0)" "next_id ?s' = next_id ?s0" "bearers ?s' = bearers ?s0"
    unfolding frame same by (simp_all add: revoke_all_for_agent_def revoke_where_def Let_def)
  have "agents_move (\<lambda>x y. x = Draining \<and> y = ShutdownDone) ?s0 ?s'"
    by (rule agents_move_upd[OF s']) (use r same revoked in auto)
  with revoke_moves(2) show ?thesis by (rule agents_move_after)
qed

lemma ensure_agent_moves:
  "agents_move (\<lambda>x y. x = ShutdownDone \<and> y = Unconfigured) s (snd (ensure_agent_row org inst arn v os cpu mem s))"
proof (cases "agent_by_instance org inst s")
  case (Some a)
  show ?thesis
    using Some
    by (intro agents_move_upd[where i = "ag_id a" and f = "\<lambda>a. a\<lparr>ag_iam_arn := arn, ag_version := v,
        ag_os := coalesce os (ag_os a), ag_cpu_count := coalesce cpu (ag_cpu_count a),
        ag_memory_bytes := coalesce mem (ag_memory_bytes a), ag_last_heartbeat_at := Some (now s),
        ag_state := Reachable, ag_lifecycle := (if ag_lifecycle a = ShutdownDone then Unconfigured
          else ag_lifecycle a)\<rparr>"])
      (auto simp: ensure_agent_row_def upd_agent_def publish_general_after_commit_def split: if_splits)
next
  case None
  let ?n = "next_id s"
  let ?s' = "snd (ensure_agent_row org inst arn v os cpu mem s)"
  obtain row where row: "agents ?s' = (agents s)(?n \<mapsto> row)" "ag_id row = ?n" "ag_org_id row = org"
    "ag_instance_id row = inst" "ag_lifecycle row = Unconfigured" "next_id ?s' = Suc ?n" "bearers ?s' = bearers s"
    using None by (simp add: ensure_agent_row_def publish_general_after_commit_def fresh_def)
  have "registry_ok ?s'" if ok: "registry_ok s"
  proof -
    have new: "agents s ?n = None"
      using registry_okD(1)[OF ok] by (metis keyed_rowsD less_irrefl not_Some_eq)
    have nobody: "\<not> (ag_org_id a = org \<and> ag_instance_id a = inst)" if "agents s i = Some a" for i a
      using None keyed_first_row_None[OF registry_okD(1)[OF ok]] that registry_okD(1)[OF ok]
      unfolding agent_by_instance_def by (metis (mono_tags, lifting) keyed_rowsD)
    show ?thesis
      unfolding registry_ok_def row
    proof (intro conjI allI impI)
      show "keyed_rows ag_id (Suc ?n) ((agents s)(?n \<mapsto> row))"
        using registry_okD(1)[OF ok] row(2) by (intro keyed_rows_insert) (auto intro: keyed_rows_mono)
      show "keyed_rows bt_id (Suc ?n) (bearers s)" using registry_okD(2)[OF ok] by (auto intro: keyed_rows_mono)
    next
      fix j b assume "bearers s j = Some b"
      then show "((agents s)(?n \<mapsto> row)) (bt_agent_id b) \<noteq> None" using registry_okD(3)[OF ok] by simp
    next
      fix i a assume "((agents s)(?n \<mapsto> row)) i = Some a" "ag_lifecycle a = ShutdownDone"
      then show "ag_state a = Offline" using registry_okD(4)[OF ok] row(5) by (auto split: if_splits)
    next
      fix i a j b assume "((agents s)(?n \<mapsto> row)) i = Some a" "ag_lifecycle a = ShutdownDone" "bearers s j = Some b"
        "bt_agent_id b = i"
      then show "bt_revoked_at b \<noteq> None" using registry_okD(5)[OF ok] row(5) by (auto split: if_splits)
    next
      fix i j b c assume "bearers s i = Some b" "bearers s j = Some c" "bt_token_hash b = bt_token_hash c"
      then show "i = j" using registry_okD(6)[OF ok] by blast
    next
      fix i j a c assume h: "((agents s)(?n \<mapsto> row)) i = Some a" "((agents s)(?n \<mapsto> row)) j = Some c"
        "ag_org_id a = ag_org_id c" "ag_instance_id a = ag_instance_id c"
      show "i = j"
      proof (cases "i = ?n")
        case True
        with h row nobody show ?thesis by (cases "j = ?n") auto
      next
        case False
        with h row nobody registry_okD(7)[OF ok] show ?thesis by (cases "j = ?n") auto
      qed
    qed
  qed
  moreover have "\<exists>a'. agents ?s' i = Some a' \<and> ag_org_id a' = ag_org_id a \<and> ag_instance_id a' = ag_instance_id a \<and>
      R\<^sup>=\<^sup>= (ag_lifecycle a) (ag_lifecycle a')" if "agents s i = Some a" "registry_ok s" for i a R
    using that row(1) keyed_rowsD[OF registry_okD(1)[OF that(2)] that(1)] by auto
  ultimately show ?thesis unfolding agents_move_def by blast
qed

lemma agents_moveI: "(registry_ok s \<Longrightarrow> agents_move R s s') \<Longrightarrow> agents_move R s s'"
  unfolding agents_move_def by blast

lemma agents_move_ok: "agents_move R s s' \<Longrightarrow> registry_ok s \<Longrightarrow> registry_ok s'"
  by (simp add: agents_move_def)

lemma ensured_agent:
  assumes "ensure_agent_row org inst arn v os cpu mem s = (i, s')" and "registry_ok s"
  shows "\<exists>a. agents s' i = Some a \<and> ag_id a = i \<and> ag_lifecycle a \<noteq> ShutdownDone \<and> ag_org_id a = org \<and>
      ag_instance_id a = inst" "now s' = now s"
proof -
  have "\<exists>a. agents s' i = Some a \<and> ag_id a = i \<and> ag_lifecycle a \<noteq> ShutdownDone \<and> ag_org_id a = org \<and>
      ag_instance_id a = inst \<and> now s' = now s"
  proof (cases "agent_by_instance org inst s")
    case None
    with assms(1) show ?thesis
      by (auto simp: ensure_agent_row_def fresh_def publish_general_after_commit_def)
  next
    case (Some a)
    from keyed_first_row[OF registry_okD(1)[OF assms(2)] Some[unfolded agent_by_instance_def]]
    have "agents s (ag_id a) = Some a" "ag_org_id a = org \<and> ag_instance_id a = inst" by blast+
    with assms(1) Some show ?thesis
      by (auto simp: ensure_agent_row_def upd_agent_def publish_general_after_commit_def)
  qed
  then show "\<exists>a. agents s' i = Some a \<and> ag_id a = i \<and> ag_lifecycle a \<noteq> ShutdownDone \<and> ag_org_id a = org \<and>
      ag_instance_id a = inst" "now s' = now s" by auto
qed

lemma issued_bearer:
  assumes "issue env aid org ip ttl arn s = Inr ((tok, row), s')"
  shows "agents s' = agents s" "bearers s' = (bearers s)(bt_id row \<mapsto> row)" "bt_id row = Suc (next_id s)"
    "next_id s' = Suc (Suc (next_id s))" "bt_agent_id row = aid" "bt_org_id row = org" "now s' = now s"
    "bt_token_hash row = sha256 env tok" "bt_revoked_at row = None" "bt_expires_at row = now s + ttl"
    "bearer_by_hash (sha256 env tok) s = None" "bt_issued_iam_arn row = arn"
  using assms by (auto simp: issue_def fresh_def Let_def split: if_splits)

lemma issue_moves:
  assumes "issue env aid org ip ttl arn s = Inr ((tok, row), s')" and "agents s aid = Some a"
    and "ag_lifecycle a \<noteq> ShutdownDone"
  shows "agents_move R s s'"
proof -
  note f = issued_bearer[OF assms(1)]
  have "registry_ok s'" if ok: "registry_ok s"
  proof -
    have new: "bt_token_hash b \<noteq> bt_token_hash row" if "bearers s j = Some b" for j b
    proof -
      from keyed_rowsD[OF registry_okD(2)[OF ok] that] have "bearers s (bt_id b) = Some b" using that by simp
      from keyed_first_row_None[OF registry_okD(2)[OF ok] f(11)[unfolded bearer_by_hash_def] this] f(8)
      show ?thesis by simp
    qed
    show ?thesis
      unfolding registry_ok_def f(1,2,4)
    proof (intro conjI allI impI)
      show "keyed_rows ag_id (Suc (Suc (next_id s))) (agents s)"
        using registry_okD(1)[OF ok] by (rule keyed_rows_mono) simp
      show "keyed_rows bt_id (Suc (Suc (next_id s))) ((bearers s)(bt_id row \<mapsto> row))"
        using keyed_rows_mono[OF registry_okD(2)[OF ok], of "Suc (Suc (next_id s))"] f(3)
        by (intro keyed_rows_insert) auto
    next
      fix j b assume "((bearers s)(bt_id row \<mapsto> row)) j = Some b"
      then show "agents s (bt_agent_id b) \<noteq> None"
        using registry_okD(3)[OF ok] assms(2) f(5) by (auto split: if_splits)
    next
      fix i c assume "agents s i = Some c" "ag_lifecycle c = ShutdownDone"
      then show "ag_state c = Offline" using registry_okD(4)[OF ok] by blast
    next
      fix i c j b assume "agents s i = Some c" "ag_lifecycle c = ShutdownDone"
        "((bearers s)(bt_id row \<mapsto> row)) j = Some b" "bt_agent_id b = i"
      then show "bt_revoked_at b \<noteq> None"
        using registry_okD(5)[OF ok] assms(2,3) f(5) by (auto split: if_splits)
    next
      fix i j b c assume "((bearers s)(bt_id row \<mapsto> row)) i = Some b" "((bearers s)(bt_id row \<mapsto> row)) j = Some c"
        "bt_token_hash b = bt_token_hash c"
      then show "i = j" using registry_okD(6)[OF ok] new by (metis fun_upd_apply option.inject)
    next
      fix i j b c assume "agents s i = Some b" "agents s j = Some c" "ag_org_id b = ag_org_id c"
        "ag_instance_id b = ag_instance_id c"
      then show "i = j" using registry_okD(7)[OF ok] by blast
    qed
  qed
  then show ?thesis unfolding agents_move_def f(1) by auto
qed

abbreviation reconnect_edge :: "lifecycle \<Rightarrow> lifecycle \<Rightarrow> bool" where
  "reconnect_edge \<equiv> \<lambda>x y. x = ShutdownDone \<and> y = Unconfigured"

abbreviation drained_edge :: "lifecycle \<Rightarrow> lifecycle \<Rightarrow> bool" where
  "drained_edge \<equiv> \<lambda>x y. x = Draining \<and> y = ShutdownDone"

lemma register_moves:
  assumes "register_agent env cfg org v req ip s = Inr (resp, s')"
  shows "agents_move reconnect_edge s s'"
proof (rule agents_moveI)
  assume ok: "registry_ok s"
  let ?inst = "extract_instance_id (vi_raw_arn v)"
  obtain i s1 where e: "ensure_agent_row org ?inst (vi_canonical_arn v) (Some (or_else (iq_agent_version req) ''0.0.1''))
      (iq_os req) (iq_cpu_count req) (iq_memory_bytes req) s = (i, s1)" by fastforce
  from assms e obtain s2 tok row where
    c: "enqueue_config_update_for_agent env cfg i org s1 = Inr s2" and
    b: "issue env i org ip DEFAULT_BEARER_TTL_SECONDS (Some (vi_canonical_arn v)) s2 = Inr ((tok, row), s')"
    by (auto simp: register_agent_def Let_def res_simps)
  have m1: "agents_move reconnect_edge s s1" using ensure_agent_moves e by (metis snd_conv)
  have m2: "agents_move no_edge s1 s2" using config_update_moves(1)[OF c] .
  obtain a where "agents s1 i = Some a" "ag_lifecycle a \<noteq> ShutdownDone" using ensured_agent(1)[OF e ok] by blast
  moreover have "agents s2 = agents s1"
    using c by (auto simp: enqueue_config_update_for_agent_def enqueue_config_update_with_config_def res_simps
        dest: enqueue_for_agent_frame)
  ultimately have "agents_move no_edge s2 s'" using issue_moves[OF b] by simp
  with m1 m2 show "agents_move reconnect_edge s s'" using agents_move_before by blast
qed

text \<open>An exchange that is refused leaves the agents alone; one that succeeds touches the row of its pod.\<close>

lemma exchange_shape:
  assumes "exchange_identity env sts cfg req ip rd s = (r, rd', s')"
  obtains "s' = s" | g p where "s' = audit ''org'' g ''identity_exchange_failed'' p SystemActor g s"
    | g v resp where "r = Inr resp" "register_agent env cfg g v req ip s = Inr (resp, s')"
proof -
  obtain allowed rd1 where limit: "check_identity_exchange (now s) ip rd = (allowed, rd1)" by force
  obtain w rd2 where sts: "verify_identity env sts cfg (now s) (iq_payload req) rd1 = (w, rd2)" by force
  note simps = exchange_identity_def limit sts Let_def
  show thesis
  proof (cases w)
    case (Inl c)
    with assms that(1) show ?thesis by (simp add: simps split: if_splits bool.splits)
  next
    case (Inr v)
    show ?thesis
    proof (cases "lookup_org_by_arn (vi_canonical_arn v) s")
      case None
      with Inr assms that(1) show ?thesis by (simp add: simps split: if_splits bool.splits)
    next
      case (Some g)
      let ?reject = "or_else (og_aws_region g) [] \<noteq> [] \<and> or_else (og_aws_region g) [] \<noteq> vi_region v"
      show ?thesis
      proof (cases ?reject)
        case True
        with Some Inr assms have "s' = s \<or> (\<exists>p. s' = audit ''org'' (og_id g) ''identity_exchange_failed'' p
            SystemActor (og_id g) s)"
          by (auto simp: simps split: if_splits bool.splits)
        with that(1,2) show ?thesis by blast
      next
        case False
        show ?thesis
        proof (cases "register_agent env cfg (og_id g) v req ip s")
          case (Inl e)
          with False Some \<open>w = Inr v\<close> assms that(1) show ?thesis by (simp add: simps split: if_splits bool.splits)
        next
          case (Inr q)
          then obtain resp t where "register_agent env cfg (og_id g) v req ip s = Inr (resp, t)" by (cases q) auto
          with False Some \<open>w = Inr v\<close> assms that(1) that(3)[of resp "og_id g" v] show ?thesis
            by (simp add: simps split: if_splits bool.splits)
        qed
      qed
    qed
  qed
qed

lemma exchange_moves:
  assumes "exchange_identity env sts cfg req ip rd s = (r, rd', s')"
  shows "agents_move reconnect_edge s s'"
  using assms by (rule exchange_shape) (auto intro: audit_moves register_moves)

lemma ensure_agent_others:
  assumes "ensure_agent_row org inst arn version os cpu mem s = (i, s1)" and "j \<noteq> i"
  shows "agents s1 j = agents s j"
  using assms
  by (auto simp: ensure_agent_row_def fresh_def publish_general_after_commit_def upd_agent_def
      split: option.splits)

lemma register_others:
  assumes "register_agent env cfg org v req ip s = Inr (resp, s')" and "j \<noteq> ir_agent_id resp"
  shows "agents s' j = agents s j"
proof -
  let ?inst = "extract_instance_id (vi_raw_arn v)"
  obtain i s1 where e: "ensure_agent_row org ?inst (vi_canonical_arn v) (Some (or_else (iq_agent_version req) ''0.0.1''))
      (iq_os req) (iq_cpu_count req) (iq_memory_bytes req) s = (i, s1)" by fastforce
  from assms e obtain s2 tok row where
    c: "enqueue_config_update_for_agent env cfg i org s1 = Inr s2" and
    b: "issue env i org ip DEFAULT_BEARER_TTL_SECONDS (Some (vi_canonical_arn v)) s2 = Inr ((tok, row), s')" and
    i: "ir_agent_id resp = i"
    by (auto simp: register_agent_def Let_def res_simps)
  have "agents s2 = agents s1"
    using c by (auto simp: enqueue_config_update_for_agent_def enqueue_config_update_with_config_def res_simps
        dest: enqueue_for_agent_frame)
  moreover have "agents s' = agents s2" using issued_bearer(1)[OF b] .
  ultimately show ?thesis using ensure_agent_others[OF e] assms(2) i by simp
qed

lemma exchange_others:
  assumes "exchange_identity env sts cfg req ip rd s = (r, rd', s')" and "agents s' j \<noteq> agents s j"
  shows "\<exists>resp. r = Inr resp \<and> ir_agent_id resp = j"
  using assms(1)
proof (rule exchange_shape)
  fix g v resp assume "r = Inr resp" "register_agent env cfg g v req ip s = Inr (resp, s')"
  moreover from register_others[OF this(2), of j] have "ir_agent_id resp = j" using assms(2) by metis
  ultimately show ?thesis by blast
qed (use assms(2) in \<open>simp_all add: audit_def\<close>)


section \<open>Bearers at the door\<close>

lemma verified:
  assumes "verify env tok s = (Some ctx, s')" and "registry_ok s"
  shows "\<exists>b. bearers s (bc_bearer_id ctx) = Some b \<and> bt_agent_id b = bc_agent_id ctx \<and> bt_org_id b = bc_org_id ctx \<and>
      bt_revoked_at b = None \<and> now s < bt_expires_at b \<and> bt_token_hash b = sha256 env tok" (is ?live)
    "\<exists>a. agents s (bc_agent_id ctx) = Some a \<and> ag_lifecycle a \<noteq> ShutdownDone" (is ?agent)
    "agents s' = agents s"
proof -
  from assms(1) obtain b where b: "bearer_by_hash (sha256 env tok) s = Some b" "bt_revoked_at b = None"
    "\<not> bt_expires_at b \<le> now s" "bc_bearer_id ctx = bt_id b" "bc_agent_id ctx = bt_agent_id b" "bc_org_id ctx = bt_org_id b"
    by (auto simp: verify_def split: if_splits option.splits)
  from keyed_first_row[OF registry_okD(2)[OF assms(2)] b(1)[unfolded bearer_by_hash_def]]
  have row: "bearers s (bt_id b) = Some b" "bt_token_hash b = sha256 env tok" by blast+
  show ?live using row b by auto
  from registry_okD(3)[OF assms(2) row(1)] obtain a where "agents s (bt_agent_id b) = Some a" by blast
  with registry_okD(5)[OF assms(2) _ _ row(1)] b show ?agent by fastforce
  show "agents s' = agents s" using assms(1) by (auto simp: verify_def split: if_splits option.splits)
qed

lemma verify_cases:
  obtains "snd (verify env tok s) = s"
  | b where "bearer_by_hash (sha256 env tok) s = Some b"
      "snd (verify env tok s) = s\<lparr>bearers := modify (bt_id b) (\<lambda>b. b\<lparr>bt_last_seen_at := Some (now s)\<rparr>) (bearers s)\<rparr>"
proof (cases "bearer_by_hash (sha256 env tok) s")
  case None
  with that(1) show ?thesis by (simp add: verify_def)
next
  case (Some b)
  show ?thesis
  proof (cases "tok = [] \<or> bt_revoked_at b \<noteq> None \<or> bt_expires_at b \<le> now s")
    case True
    then have "snd (verify env tok s) = s" by (elim disjE) (simp_all add: verify_def Some)
    then show ?thesis by (rule that(1))
  next
    case False
    then show ?thesis using Some by (intro that(2)) (simp_all add: verify_def)
  qed
qed

lemma verify_moves: "agents_move R s (snd (verify env tok s))"
proof (rule agents_moveI)
  assume ok: "registry_ok s"
  show "agents_move R s (snd (verify env tok s))"
  proof (rule verify_cases[of env tok s])
    assume "snd (verify env tok s) = s"
    then show ?thesis by simp
  next
    fix b
    let ?f = "\<lambda>b. b\<lparr>bt_last_seen_at := Some (now s)\<rparr>"
    assume s': "snd (verify env tok s) = s\<lparr>bearers := modify (bt_id b) ?f (bearers s)\<rparr>"
    have "modify (bt_id b) ?f (bearers s) = update_where (\<lambda>c. bt_id c = bt_id b) ?f (bearers s)"
    proof (rule ext)
      fix x show "modify (bt_id b) ?f (bearers s) x = update_where (\<lambda>c. bt_id c = bt_id b) ?f (bearers s) x"
        using registry_okD(2)[OF ok] by (cases "bearers s x") (auto dest: keyed_rowsD)
    qed
    then have b': "bearers (snd (verify env tok s)) = update_where (\<lambda>c. bt_id c = bt_id b) ?f (bearers s)"
      by (simp add: s')
    show ?thesis by (rule agents_move_bearers[OF _ _ b']) (simp_all add: s')
  qed
qed

lemma with_bearer_moves:
  assumes "with_bearer env auth h s = Inr (code, x, s')"
    and "\<And>ctx t. h ctx t = Inr (code, x, s') \<Longrightarrow> registry_ok t \<Longrightarrow>
          \<exists>a. agents t (bc_agent_id ctx) = Some a \<and> ag_lifecycle a \<noteq> ShutdownDone \<Longrightarrow> agents_move R t s'"
  shows "agents_move R s s'"
proof (rule agents_moveI)
  assume ok: "registry_ok s"
  consider "s' = s" | tok where "verify env tok s = (None, s')"
    | tok ctx t where "verify env tok s = (Some ctx, t)" "h ctx t = Inr (code, x, s')"
    using assms(1) by (auto simp: with_bearer_def verify_bearer_def split: option.splits if_splits prod.splits)
  then show "agents_move R s s'"
  proof cases
    case (2 tok)
    then show ?thesis using verify_moves[of R s env tok] by simp
  next
    case (3 tok ctx t)
    have m: "agents_move no_edge s t" using verify_moves[of no_edge s env tok] 3(1) by simp
    have "agents_move R t s'"
      using assms(2)[OF 3(2) agents_move_ok[OF m ok]] verified(2,3)[OF 3(1) ok] by simp
    with m show ?thesis by (rule agents_move_after)
  qed simp
qed

section \<open>Heartbeats, losses, disconnects\<close>

lemma record_heartbeat_moves:
  assumes "agents s i = Some a" and "ag_lifecycle a \<noteq> ShutdownDone"
  shows "agents_move R s (snd (record_heartbeat i ws s))"
  by (rule agents_move_upd[where i = i and f = "\<lambda>a. a\<lparr>ag_last_heartbeat_at := Some (now s), ag_state := Reachable,
      ag_claimed_workspace_count := length ws\<rparr>"])
    (use assms in \<open>auto simp: record_heartbeat_def Let_def upd_agent_def publish_general_after_commit_def\<close>)

lemma expire_lost_frame:
  "agents (expire_lost w s) = agents s" "bearers (expire_lost w s) = bearers s" "next_id (expire_lost w s) = next_id s"
  by (auto simp: expire_lost_def Let_def audit_transition_def audit_def upd_workspace_def enqueue_agent_event_def
      enqueue_def split: option.splits)

lemma failsafe_moves:
  fixes s :: "'a workspace_db_scheme"
  shows "agents_move R s (failsafe_agent_loss ids s)"
proof -
  let ?revoke = "fold (\<lambda>a s. snd (revoke_all_for_agent a ''agent_loss'' s)) ids"
  have expire: "agents_move no_edge s (fold expire_lost ws s)" for ws
    by (rule fold_moves[where pr = "\<lambda>s. s", simplified]) (auto intro: agents_move_frame simp: expire_lost_frame)
  have revoke: "agents_move no_edge t (?revoke t)" for t :: "'a workspace_db_scheme"
    by (rule fold_moves[where pr = "\<lambda>s. s", simplified]) (rule revoke_moves)
  have "agents_move no_edge s (failsafe_agent_loss ids s)"
    unfolding failsafe_agent_loss_def Let_def using revoke agents_move_after[OF expire revoke] by simp
  then show ?thesis by (rule agents_move_mono) simp
qed

lemma disconnected_moves:
  assumes "agents s i = Some a" and "ag_lifecycle a \<noteq> ShutdownDone"
  shows "agents_move R s (mark_agent_disconnected i org b lc s)"
proof -
  have off: "agents_move no_edge s (mark_agent_offline i s)"
    by (rule agents_move_upd[where i = i and f = "\<lambda>a. a\<lparr>ag_state := Offline, ag_last_shutdown_at := Some (now s)\<rparr>"])
      (use assms in \<open>auto simp: mark_agent_offline_def upd_agent_def\<close>)
  have "agents_move no_edge s (mark_agent_disconnected i org b lc s)"
    unfolding mark_agent_disconnected_def Let_def
    by (rule agents_move_after[OF off agents_move_after[OF revoke_moves(1) agents_move_after[OF failsafe_moves
        agents_move_after[OF audit_moves agent_changed_moves]]]])
  then show ?thesis by (rule agents_move_mono) simp
qed

section \<open>Draining, liveness\<close>

abbreviation drain_edge :: "lifecycle \<Rightarrow> lifecycle \<Rightarrow> bool" where
  "drain_edge \<equiv> \<lambda>x y. x \<in> {Unconfigured, Active} \<and> y = Draining"

abbreviation resume_edge :: "lifecycle \<Rightarrow> lifecycle \<Rightarrow> bool" where
  "resume_edge \<equiv> \<lambda>x y. x = Draining \<and> y = Active"

lemma shutdown_one_moves:
  assumes "shutdown_one env org act i acc = Inr acc'"
  shows "agents_move drain_edge (snd acc) (snd acc')"
proof -
  obtain res s where acc: "acc = (res, s)" by force
  consider "snd acc' = s" | a s2 where "agents s i = Some a" "ag_lifecycle a \<notin> {ShutdownDone, Draining}"
      "enqueue_for_agent env SHUTDOWN [] org i (upd_agent i (\<lambda>a. a\<lparr>ag_lifecycle := Draining\<rparr>) s) = Inr s2"
      "agents (snd acc') = agents s2" "bearers (snd acc') = bearers s2" "next_id (snd acc') = next_id s2"
    using assms by (auto simp: shutdown_one_def acc Let_def res_simps audit_def publish_general_after_commit_def
        split: option.splits if_splits)
  then show ?thesis
  proof cases
    case (2 a s2)
    have from_live: "ag_lifecycle a \<in> {Unconfigured, Active}" using 2(2) by (cases "ag_lifecycle a") auto
    have "agents_move drain_edge s (upd_agent i (\<lambda>a. a\<lparr>ag_lifecycle := Draining\<rparr>) s)"
      by (rule agents_move_upd[where i = i and f = "\<lambda>a. a\<lparr>ag_lifecycle := Draining\<rparr>"])
        (use 2(1) from_live in \<open>auto simp: upd_agent_def\<close>)
    moreover have "agents_move no_edge (upd_agent i (\<lambda>a. a\<lparr>ag_lifecycle := Draining\<rparr>) s) s2"
      using 2(3) by (rule enqueue_for_agent_moves)
    moreover have "agents_move no_edge s2 (snd acc')" using 2(4-6) by (intro agents_move_frame) auto
    ultimately show ?thesis using acc agents_move_before by (metis snd_conv)
  qed (simp add: acc)
qed

lemma cancel_shutdown_one_moves:
  assumes "cancel_shutdown_one env org act i acc = Inr acc'"
  shows "agents_move resume_edge (snd acc) (snd acc')"
proof -
  obtain res s where acc: "acc = (res, s)" by force
  consider "snd acc' = s" | a s2 where "agents s i = Some a" "ag_lifecycle a = Draining"
      "enqueue_for_agent env CANCEL_SHUTDOWN [] org i (upd_agent i (\<lambda>a. a\<lparr>ag_lifecycle := Active\<rparr>) s) = Inr s2"
      "agents (snd acc') = agents s2" "bearers (snd acc') = bearers s2" "next_id (snd acc') = next_id s2"
    using assms by (auto simp: cancel_shutdown_one_def acc Let_def res_simps audit_def publish_general_after_commit_def
        split: option.splits if_splits)
  then show ?thesis
  proof cases
    case (2 a s2)
    have "agents_move resume_edge s (upd_agent i (\<lambda>a. a\<lparr>ag_lifecycle := Active\<rparr>) s)"
      by (rule agents_move_upd[where i = i and f = "\<lambda>a. a\<lparr>ag_lifecycle := Active\<rparr>"])
        (use 2(1,2) in \<open>auto simp: upd_agent_def\<close>)
    moreover have "agents_move no_edge (upd_agent i (\<lambda>a. a\<lparr>ag_lifecycle := Active\<rparr>) s) s2"
      using 2(3) by (rule enqueue_for_agent_moves)
    moreover have "agents_move no_edge s2 (snd acc')" using 2(4-6) by (intro agents_move_frame) auto
    ultimately show ?thesis using acc agents_move_before by (metis snd_conv)
  qed (simp add: acc)
qed

lemma drain_requests_move:
  "shutdown_agents env org ids act s = Inr (rs, s') \<Longrightarrow> agents_move drain_edge s s'"
  "cancel_shutdown_agents env org ids act s = Inr (rs, s') \<Longrightarrow> agents_move resume_edge s s'"
  unfolding shutdown_agents_def cancel_shutdown_agents_def
  by (drule efold_moves[where pr = snd and R = drain_edge, OF _ shutdown_one_moves]; simp)
    (drule efold_moves[where pr = snd and R = resume_edge, OF _ cancel_shutdown_one_moves]; simp)

lemma liveness_step_moves:
  assumes "agents (snd acc) (ag_id a) = Some q" and "ag_lifecycle q \<noteq> ShutdownDone"
  shows "agents_move drained_edge (snd acc) (snd (liveness_step t a acc))"
proof -
  obtain ids s where acc: "acc = (ids, s)" by force
  let ?up = "\<lambda>l. upd_agent (ag_id a) (\<lambda>a. a\<lparr>ag_state := l\<rparr>) s"
  have up: "agents_move no_edge s (?up l)" for l
    by (rule agents_move_upd[where i = "ag_id a" and f = "\<lambda>a. a\<lparr>ag_state := l\<rparr>"])
      (use assms in \<open>auto simp: upd_agent_def acc\<close>)
  consider "snd (liveness_step t a acc) = s"
    | l where "snd (liveness_step t a acc) = agent_changed (ag_org_id a) (ag_id a) (?up l)"
    | l where "snd (liveness_step t a acc) = agent_changed (ag_org_id a) (ag_id a)
        (snd (mark_agent_shutdown_complete (ag_id a) (?up l)))"
  proof (cases "ag_last_heartbeat_at a")
    case None
    with that(1) show ?thesis by (simp add: liveness_step_def acc)
  next
    case (Some b)
    let ?l = "liveness_of_age (t - b)"
    show ?thesis
      using that(1) that(2)[of ?l] that(3)[of ?l] Some
      by (cases "ag_state a = ?l"; cases "?l = Offline") (simp_all add: liveness_step_def acc Let_def)
  qed
  then show ?thesis
  proof cases
    case (2 l)
    have "agents_move no_edge s (snd (liveness_step t a acc))"
      unfolding 2 using up agent_changed_moves agents_move_after by blast
    then show ?thesis unfolding acc by (auto intro: agents_move_mono simp: acc)
  next
    case (3 l)
    show ?thesis
      unfolding 3 using agents_move_after[OF up agents_move_before[OF shutdown_complete_moves agent_changed_moves]]
      by (simp add: acc)
  qed (simp add: acc)
qed

lemma liveness_step_others:
  fixes acc :: "uuid list \<times> 'a gateway_db_scheme"
  assumes "i \<noteq> ag_id a"
  shows "agents (snd (liveness_step t a acc)) i = agents (snd acc) i"
proof -
  have "agents (snd (mark_agent_shutdown_complete (ag_id a) s)) i = agents s i" for s :: "'a gateway_db_scheme"
    using assms by (simp add: mark_agent_shutdown_complete_def revoke_all_for_agent_def revoke_where_def upd_agent_def
        audit_def publish_general_after_commit_def Let_def split: option.splits)
  then show ?thesis
    using assms by (cases acc) (simp add: liveness_step_def Let_def upd_agent_def publish_general_after_commit_def
        split: option.splits)
qed

lemma liveness_fold_moves:
  assumes "distinct (map ag_id rows)"
    and "\<And>a. a \<in> set rows \<Longrightarrow> \<exists>q. agents (snd acc) (ag_id a) = Some q \<and> ag_lifecycle q \<noteq> ShutdownDone"
  shows "agents_move drained_edge (snd acc) (snd (fold (liveness_step t) rows acc))"
  using assms
proof (induction rows arbitrary: acc)
  case (Cons a rows)
  obtain q where "agents (snd acc) (ag_id a) = Some q" "ag_lifecycle q \<noteq> ShutdownDone" using Cons.prems(2) by auto
  then have "agents_move drained_edge (snd acc) (snd (liveness_step t a acc))" by (rule liveness_step_moves)
  moreover have "agents_move drained_edge (snd (liveness_step t a acc)) (snd (fold (liveness_step t) rows (liveness_step t a acc)))"
  proof (rule Cons.IH)
    show "distinct (map ag_id rows)" using Cons.prems(1) by simp
    fix b assume b: "b \<in> set rows"
    then have "ag_id b \<in> set (map ag_id rows)" by simp
    with Cons.prems(1) have "ag_id b \<noteq> ag_id a" by auto
    with b Cons.prems(2) show "\<exists>q. agents (snd (liveness_step t a acc)) (ag_id b) = Some q \<and> ag_lifecycle q \<noteq> ShutdownDone"
      by (simp add: liveness_step_others)
  qed
  ultimately show ?case using agents_move_trans[where T = drained_edge] by (simp add: agents_move_trans)
qed simp

lemma distinct_select:
  assumes "keyed_rows key n t"
  shows "distinct (map key (select t m P))"
proof (induction m)
  case (Suc m)
  show ?case
  proof (cases "t m")
    case (Some r)
    have "key r \<notin> set (map key (select t m P))"
      using Some keyed_rowsD[OF assms] by (auto simp: set_select)
    with Suc show ?thesis using Some by simp
  qed (use Suc in simp)
qed simp

lemma liveness_moves: "agents_move drained_edge s (snd (compute_agent_liveness_transitions t s))"
proof (rule agents_moveI)
  assume ok: "registry_ok s"
  let ?rows = "select (agents s) (next_id s) (\<lambda>a. ag_last_heartbeat_at a \<noteq> None \<and> ag_lifecycle a \<noteq> ShutdownDone)"
  have "agents_move drained_edge (snd ([] :: uuid list, s)) (snd (fold (liveness_step t) ?rows ([], s)))"
  proof (rule liveness_fold_moves[of ?rows "([], s)" t])
    show "distinct (map ag_id ?rows)" using registry_okD(1)[OF ok] by (rule distinct_select)
    show "\<exists>q. agents (snd ([] :: uuid list, s)) (ag_id a) = Some q \<and> ag_lifecycle q \<noteq> ShutdownDone" if "a \<in> set ?rows" for a
      using that keyed_select_mem[OF registry_okD(1)[OF ok]] by auto
  qed
  then show "agents_move drained_edge s (snd (compute_agent_liveness_transitions t s))"
    by (simp add: compute_agent_liveness_transitions_def)
qed

end
