(* ===== verification/AgentSteps.thy ===== *)
theory AgentSteps
  imports AgentMoves
begin

text \<open>
  The step relation of the agent side: every HTTP handler, admin request and reaper pass that touches
  the registry is one step, and every step keeps the registry's invariant and moves each agent along the
  edges of the drain lifecycle.
\<close>

section \<open>Commands and events\<close>

lemma hydration_loop_moves:
  assumes "hydration_loop env a lc nw ws row n s = Inr (res, s')"
  shows "agents_move no_edge s s'"
  using assms
proof (induction env a lc nw ws row n s rule: hydration_loop.induct)
  case (1 env a lc nw ws row n s)
  obtain raw s1 where st: "stamp_claim env a (cr_id row) s = (raw, s1)" by fastforce
  have m1: "agents_move no_edge s s1"
    using st by (intro agents_move_frame) (auto simp: stamp_claim_def fresh_def Let_def upd_command_def)
  have m2: "agents_move no_edge s1 (retire_unhydrated row msg s1)" for msg
    by (rule agents_move_frame) (auto simp: retire_unhydrated_def retire_command_def upd_command_def Let_def
        enqueue_agent_event_def enqueue_def split: option.splits)
  from "1.prems"(1) st show ?case
  proof (cases rule: hydration_loop_cases)
    case reverted
    have "agents_move no_edge s1 (revert_claim (cr_id row) s1)"
      by (rule agents_move_frame) (auto simp: revert_claim_def upd_command_def)
    with m1 reverted show ?thesis using agents_move_after by blast
  next
    case (retry h msg row')
    have "agents_move no_edge (retire_unhydrated row msg s1) s'"
      using "1.IH"[OF st[symmetric] retry(1-4) refl retry(5,6)] .
    then show ?thesis using m1 m2 agents_move_after by blast
  qed (use m1 m2 agents_move_after in blast)+
qed

lemma claim_next_moves:
  assumes "claim_next env a lc nw ws s = Inr (c, s')"
  shows "agents_move no_edge s s'"
  using assms by (auto simp: claim_next_def split: option.splits dest: hydration_loop_moves)

abbreviation configured_edge :: "lifecycle \<Rightarrow> lifecycle \<Rightarrow> bool" where
  "configured_edge \<equiv> \<lambda>x y. x = Unconfigured \<and> y = Active"

lemma mark_configured_moves: "agents_move configured_edge s (mark_agent_configured a s)"
proof (cases "\<exists>r. agents s a = Some r \<and> ag_lifecycle r = Unconfigured")
  case False
  then have "mark_agent_configured a s = s" by (auto simp: mark_agent_configured_def split: option.splits)
  then show ?thesis by simp
next
  case True
  then obtain r where r: "agents s a = Some r" "ag_lifecycle r = Unconfigured" by blast
  show ?thesis
    by (rule agents_move_upd[where i = a and f = "\<lambda>a. a\<lparr>ag_lifecycle := Active\<rparr>"])
      (use r in \<open>simp_all add: mark_agent_configured_def upd_agent_def publish_general_after_commit_def\<close>)
qed

lemma workspace_event_moves:
  assumes "record_workspace_event env w c k a s = Inr s'"
  shows "agents_move R s s'"
proof -
  have "agents s' = agents s \<and> bearers s' = bearers s \<and> next_id s' = next_id s"
    using assms
    by (auto simp: record_workspace_event_def apply_workspace_event_def create_lean_workspace_row_def
        insert_lean_workspace_row_def upd_workspace_def res_simps split: option.splits if_splits)
  then show ?thesis by (intro agents_move_frame) auto
qed

lemma release_command_claim_moves: "release_command_claim c s = Inr s' \<Longrightarrow> agents_move R s s'"
  by (rule agents_move_frame) (auto simp: release_command_claim_def release_claim_def upd_workspace_def
      split: list.splits option.splits)

lemma finalize_run_agents:
  "agents (finalize_run i r st s) = agents s" "bearers (finalize_run i r st s) = bearers s"
  "next_id (finalize_run i r st s) = next_id s"
  by (simp_all add: finalize_run_def upd_ca_run_def Let_def split: option.splits)

lemma handle_terminal_event_moves:
  assumes "handle_terminal_event env c k ek outs s = Inr (x, s')"
  shows "agents_move R s s'"
proof (cases "k \<in> set RUN_BEARING_KINDS")
  case False
  with assms show ?thesis by (simp add: handle_terminal_event_def)
next
  case True
  from assms obtain ref where ref: "get_run_ref_for_command c s = Inr ref"
    using True by (auto simp: handle_terminal_event_def res_simps)
  show ?thesis
  proof (cases "Option.bind ref (\<lambda>r. plugins env (ca_plugin_id r))")
    case None
    with assms True ref show ?thesis
      by (cases ref) (simp_all add: handle_terminal_event_def split: option.splits)
  next
    case (Some plugin)
    then obtain r where r: "ref = Some r" "plugins env (ca_plugin_id r) = Some plugin" by (cases ref) auto
    with assms True ref obtain st res where "s' = finalize_run (ca_id r) res st s"
      by (auto simp: handle_terminal_event_def Let_def)
    then show ?thesis by (intro agents_move_frame) (simp_all add: finalize_run_agents)
  qed
qed

lemma materialise_moves:
  assumes "materialise_provision_success env c a s = Inr s'"
  shows "agents_move R s s'"
  using assms
  by (intro agents_move_frame) (auto simp: materialise_provision_success_def insert_lean_workspace_row_def
      split: option.splits if_splits)

lemma agent_event_moves:
  fixes s :: "'a coding_db_scheme"
  assumes "record_agent_event env ev by s = Inr s'"
  shows "agents_move configured_edge s s'"
proof (cases "ev_kind ev = RECEIVED \<or> \<not> is_terminal (ev_kind ev)")
  case True
  with assms show ?thesis
    by (intro agents_move_frame)
      (auto simp: record_agent_event_def Let_def res_simps acknowledge_command_received_def upd_command_def
         split: option.splits if_splits)
next
  case False
  let ?c = "ev_command_id ev"
  from assms obtain row where row: "commands s ?c = Some row" "token_accepted env row ev"
    by (auto simp: record_agent_event_def Let_def res_simps split: option.splits)
  let ?s1 = "case cr_agent_id row of
      Some a \<Rightarrow> if ev_kind ev = COMPLETED_SUCCESS \<and> cr_kind row = CONFIG_UPDATE then mark_agent_configured a s else s
    | None \<Rightarrow> s"
  let ?s5 = "\<lambda>s4. case by of
      Some a \<Rightarrow> if cr_kind row = PROVISION_WORKSPACE \<and> cr_workspace_id row \<noteq> None \<and> ev_kind ev = COMPLETED_SUCCESS
                then materialise_provision_success env ?c a s4 else Inr s4
    | None \<Rightarrow> Inr s4"
  let ?label = "or_else (ev_outcome_label ev) (if ev_kind ev = COMPLETED_FAILURE then ''failure'' else ''success'')"
  let ?out = "\<lambda>extras s5. case cr_run_id row of None \<Rightarrow> (Inr s5 :: 'a coding_db_scheme res)
      | Some rid \<Rightarrow> Inr (enqueue_agent_event rid ?c ?label (forwarded_outputs ev extras) s5)"
  have "ebind (release_command_claim ?c ?s1) (\<lambda>s2. ebind (handle_terminal_event env ?c (cr_kind row) (ev_kind ev)
      (ev_outputs ev) (retire_command ?c s2)) (\<lambda>(extras, s4). ebind (?s5 s4) (?out extras))) = Inr s'"
    using assms(1) False row by (simp add: record_agent_event_def Let_def ebind_eq_Inr)
  then obtain s2 extras s4 s5 where
    s2: "release_command_claim ?c ?s1 = Inr s2"
    and s4: "handle_terminal_event env ?c (cr_kind row) (ev_kind ev) (ev_outputs ev) (retire_command ?c s2) = Inr (extras, s4)"
    and m: "?s5 s4 = Inr s5" and out: "?out extras s5 = Inr s'"
    unfolding ebind_eq_Inr split_paired_Ex prod.case by blast
  have m1: "agents_move configured_edge s ?s1"
    using mark_configured_moves by (auto split: option.splits)
  have m3: "agents_move no_edge s2 (retire_command ?c s2)"
    by (rule agents_move_frame) (simp_all add: retire_command_def upd_command_def)
  have m5: "agents_move no_edge s4 s5"
    using m materialise_moves by (auto split: option.splits if_splits)
  have m6: "agents_move no_edge s5 s'"
    using out by (intro agents_move_frame) (auto simp: enqueue_agent_event_def enqueue_def split: option.splits)
  show ?thesis
    using agents_move_before[OF m1 agents_move_after[OF release_command_claim_moves[OF s2] agents_move_after[OF m3
          agents_move_after[OF handle_terminal_event_moves[OF s4] agents_move_after[OF m5 m6]]]]] .
qed

section \<open>The reaper\<close>

lemma audit_transition_moves: "agents_move R s (audit_transition w org f t reason err s)"
  by (rule agents_move_frame) (auto simp: audit_transition_def audit_def)

lemma upd_workspace_moves: "agents_move R s (upd_workspace w f s)"
  by (rule agents_move_frame) (auto simp: upd_workspace_def)

lemma sweep_where_moves: "agents_move no_edge s (sweep_where P reason s)"
  unfolding sweep_where_def
  by (rule fold_moves[where pr = "\<lambda>s. s", simplified])
    (auto simp: expire_def intro: agents_move_after[OF upd_workspace_moves audit_transition_moves])

lemma requeue_moves:
  fixes s :: "'a gateway_db_scheme"
  shows "agents_move R s (snd (requeue_stale_claimed s))"
proof -
  have frame: "agents (fold (\<lambda>r. upd_command (cr_id r) f) rows t) = agents t \<and>
     bearers (fold (\<lambda>r. upd_command (cr_id r) f) rows t) = bearers t \<and>
     next_id (fold (\<lambda>r. upd_command (cr_id r) f) rows t) = next_id t" for f rows and t :: "'a gateway_db_scheme"
    by (induction rows arbitrary: t) (auto simp: upd_command_def)
  show ?thesis by (rule agents_move_frame) (simp_all add: requeue_stale_claimed_def Let_def frame)
qed

lemma attempt_destroy_moves: "agents_move no_edge s (attempt_destroy env w s)"
proof -
  have b: "agents_move no_edge s (snd (begin_destroy w s))"
    by (auto simp: begin_destroy_def split: option.splits
        intro: agents_move_after[OF upd_workspace_moves audit_transition_moves])
  note step = agents_move_after[OF upd_workspace_moves audit_transition_moves]
  show ?thesis
    using b agents_move_after[OF b step]
    by (auto simp: attempt_destroy_def Let_def intro: step split: prod.splits option.splits)
qed

lemma reaper_moves:
  fixes s :: "'a workspace_db_scheme"
  shows "agents_move drained_edge s (reaper_sweep_once env s)"
proof -
  obtain rows s1 where t: "sweep_transaction s = (rows, s1)" by fastforce
  let ?s2 = "sweep_where (idle (now s)) ''idle_timeout'' (sweep_where (over_budget (now s)) ''ttl_expired'' s)"
  obtain off s3 where l: "compute_agent_liveness_transitions (now s) ?s2 = (off, s3)" by fastforce
  let ?s4 = "if off \<noteq> [] then failsafe_agent_loss off s3 else s3"
  have s1: "s1 = snd (requeue_stale_claimed ?s4)" using t l by (simp add: sweep_transaction_def Let_def)
  have m2: "agents_move no_edge s ?s2" using sweep_where_moves agents_move_after by blast
  have m3: "agents_move drained_edge ?s2 s3" using liveness_moves[of ?s2 "now s"] l by simp
  have m4: "agents_move no_edge s3 ?s4" by (auto intro: failsafe_moves)
  have m5: "agents_move no_edge ?s4 s1" unfolding s1 by (rule requeue_moves)
  have m6: "agents_move no_edge s1 (fold (attempt_destroy env) rows s1)"
    by (rule fold_moves[where pr = "\<lambda>s. s", simplified]) (rule attempt_destroy_moves)
  have "reaper_sweep_once env s = fold (attempt_destroy env) rows s1" by (simp add: reaper_sweep_once_def t)
  with agents_move_after[OF m2 agents_move_before[OF m3 agents_move_after[OF m4 agents_move_after[OF m5 m6]]]]
  show ?thesis by simp
qed

section \<open>Steps\<close>

text \<open>Everything that touches the registry: the HTTP handlers, the admin requests and the reaper.\<close>

inductive agent_step ::
  "'e coding_env_scheme \<Rightarrow> sts_env \<Rightarrow> gateway_settings \<Rightarrow> 'a coding_db_scheme \<Rightarrow> 'a coding_db_scheme \<Rightarrow> bool"
  for env sts cfg where
  a_exchange: "exchange_identity env sts cfg req ip rd s = (r, rd', s') \<Longrightarrow> agent_step env sts cfg s s'"
| a_deregister: "deregister_identity env auth s = Inr (code, x, s') \<Longrightarrow> agent_step env sts cfg s s'"
| a_heartbeat: "heartbeat env auth ids s = Inr (code, forgotten, s') \<Longrightarrow> agent_step env sts cfg s s'"
| a_claim: "claim_command env auth lc nw ws s = Inr (code, c, s') \<Longrightarrow> agent_step env sts cfg s s'"
| a_workspace_event: "post_workspace_event env auth p w c k s = Inr (code, x, s') \<Longrightarrow> agent_step env sts cfg s s'"
| a_command_event: "post_command_event env auth p ev s = Inr (code, x, s') \<Longrightarrow> agent_step env sts cfg s s'"
| a_shutdown: "shutdown_agents env org ids act s = Inr (rs, s') \<Longrightarrow> agent_step env sts cfg s s'"
| a_resume: "cancel_shutdown_agents env org ids act s = Inr (rs, s') \<Longrightarrow> agent_step env sts cfg s s'"
| a_config: "enqueue_config_update_for_all_org_agents env cfg org s = Inr s' \<Longrightarrow> agent_step env sts cfg s s'"
| a_revoke: "agent_step env sts cfg s (snd (revoke_where P reason s))"
| a_reaper: "agent_step env sts cfg s (reaper_sweep_once env s)"
| a_tick: "now s \<le> t \<Longrightarrow> agent_step env sts cfg s (s\<lparr>now := t\<rparr>)"

lemma deregister_moves:
  fixes s :: "'a workspace_db_scheme"
  assumes "deregister_identity env auth s = Inr (code, x, s')"
  shows "agents_move drained_edge s s'"
  using assms unfolding deregister_identity_def
proof (rule with_bearer_moves)
  fix ctx and t :: "'a workspace_db_scheme"
  assume h: "(let agent_id = bc_agent_id ctx; lc = case agents t agent_id of None \<Rightarrow> Active | Some a \<Rightarrow> ag_lifecycle a
     in if lc = ShutdownDone then Inr (204, None, t)
        else if lc = Draining
        then Inr (204, None, failsafe_agent_loss [agent_id] (snd (mark_agent_shutdown_complete agent_id t)))
        else Inr (204, None, mark_agent_disconnected agent_id (bc_org_id ctx) (bc_bearer_id ctx) lc t)) = Inr (code, x, s')"
  assume "\<exists>a. agents t (bc_agent_id ctx) = Some a \<and> ag_lifecycle a \<noteq> ShutdownDone"
  then obtain a where a: "agents t (bc_agent_id ctx) = Some a" "ag_lifecycle a \<noteq> ShutdownDone" by blast
  show "agents_move drained_edge t s'"
  proof (cases "ag_lifecycle a = Draining")
    case True
    with h a have "s' = failsafe_agent_loss [bc_agent_id ctx] (snd (mark_agent_shutdown_complete (bc_agent_id ctx) t))"
      by (simp add: Let_def)
    then show ?thesis using agents_move_before[OF shutdown_complete_moves failsafe_moves] by simp
  next
    case False
    with h a have "s' = mark_agent_disconnected (bc_agent_id ctx) (bc_org_id ctx) (bc_bearer_id ctx) (ag_lifecycle a) t"
      by (simp add: Let_def)
    then show ?thesis using disconnected_moves[OF a] by simp
  qed
qed

lemma or_stale_cases: "or_stale s r = Inr (code, x, s') \<Longrightarrow> s' = s \<or> r = Inr (code, x, s')"
  by (auto simp: or_stale_def split: sum.splits exn.splits)

text \<open>Every edge but the last one; a pod leaves the shutdown state only through an identity exchange.\<close>

definition work_edge :: "lifecycle \<Rightarrow> lifecycle \<Rightarrow> bool" where
  "work_edge x y \<longleftrightarrow> lifecycle_edge x y \<and> x \<noteq> ShutdownDone"

lemma work_edges [simp]:
  "work_edge Unconfigured Active" "l \<in> {Unconfigured, Active} \<Longrightarrow> work_edge l Draining" "work_edge Draining Active"
  "work_edge Draining ShutdownDone"
  by (auto simp: work_edge_def)

lemma agent_step_works:
  fixes s :: "'a coding_db_scheme"
  assumes "agent_step env sts cfg s s'"
  shows "agents_move work_edge s s' \<or> (\<exists>req ip rd r rd'. exchange_identity env sts cfg req ip rd s = (r, rd', s'))"
  using assms
proof cases
  case (a_exchange req ip rd r rd')
  then show ?thesis by blast
next
  case (a_deregister auth code x)
  from deregister_moves[OF this] show ?thesis by (rule disjI1[OF agents_move_mono]) (auto simp: work_edge_def)
next
  case (a_heartbeat auth ids code forgotten)
  from this[unfolded heartbeat_def] have "agents_move work_edge s s'"
  proof (rule with_bearer_moves)
    fix ctx and t :: "'a coding_db_scheme"
    assume "(case record_heartbeat (bc_agent_id ctx) ids t of (f, s1) \<Rightarrow> Inr (200, Some f, s1)) = Inr (code, forgotten, s')"
    then have "s' = snd (record_heartbeat (bc_agent_id ctx) ids t)" by (auto split: prod.splits)
    moreover assume "\<exists>a. agents t (bc_agent_id ctx) = Some a \<and> ag_lifecycle a \<noteq> ShutdownDone"
    ultimately show "agents_move work_edge t s'" using record_heartbeat_moves by blast
  qed
  then show ?thesis ..
next
  case (a_claim auth lc nw ws code c)
  from this[unfolded claim_command_def] have "agents_move no_edge s s'"
    by (rule with_bearer_moves) (auto simp: res_simps split: option.splits dest: claim_next_moves)
  then show ?thesis by (rule disjI1[OF agents_move_mono]) simp
next
  case (a_workspace_event auth p w c k code x)
  from this[unfolded post_workspace_event_def] have "agents_move no_edge s s'"
    by (rule with_bearer_moves)
      (auto simp: res_simps split: if_splits dest!: or_stale_cases dest: workspace_event_moves)
  then show ?thesis by (rule disjI1[OF agents_move_mono]) simp
next
  case (a_command_event auth p ev code x)
  from this[unfolded post_command_event_def] have "agents_move configured_edge s s'"
    by (rule with_bearer_moves)
      (auto simp: res_simps split: if_splits dest!: or_stale_cases dest: agent_event_moves)
  then show ?thesis by (rule disjI1[OF agents_move_mono]) (auto simp: work_edge_def)
next
  case (a_shutdown org ids act rs)
  from drain_requests_move(1)[OF this] show ?thesis
    by (rule disjI1[OF agents_move_mono]) (auto simp: work_edge_def)
next
  case (a_resume org ids act rs)
  from drain_requests_move(2)[OF this] show ?thesis
    by (rule disjI1[OF agents_move_mono]) (auto simp: work_edge_def)
next
  case (a_config org)
  from config_fanout_moves[OF this] show ?thesis by (rule disjI1[OF agents_move_mono]) simp
next
  case (a_revoke P reason)
  then show ?thesis using revoke_where_moves by blast
next
  case a_reaper
  have "agents_move drained_edge s s'" unfolding a_reaper by (rule reaper_moves)
  then show ?thesis by (rule disjI1[OF agents_move_mono]) (auto simp: work_edge_def)
next
  case (a_tick t)
  then show ?thesis by (intro disjI1 agents_move_frame) auto
qed

lemma agent_step_moves:
  fixes s :: "'a coding_db_scheme"
  assumes "agent_step env sts cfg s s'"
  shows "agents_move lifecycle_edge s s'"
proof -
  have "agents_move lifecycle_edge s s'" if "agents_move reconnect_edge s s'"
    using that by (rule agents_move_mono) auto
  moreover have "agents_move lifecycle_edge s s'" if "agents_move work_edge s s'"
    using that by (rule agents_move_mono) (simp add: work_edge_def)
  ultimately show ?thesis using agent_step_works[OF assms] exchange_moves by blast
qed

lemma agent_steps_ok: "(agent_step env sts cfg)\<^sup>*\<^sup>* s s' \<Longrightarrow> registry_ok s \<Longrightarrow> registry_ok s'"
  by (induction rule: rtranclp_induct) (auto dest: agent_step_moves agents_move_ok)

end
