(* ===== verification/AgentRegistry.thy ===== *)
theory AgentRegistry
  imports AgentSteps
begin

text \<open>
  The properties of the agent registry: lifecycle and lock-out, the identity exchange, the ownership
  check of the reporting endpoints, replays and bursts, ARNs, and the liveness sweep, with a registered
  pod as the sample they are instantiated on.
\<close>

section \<open>Lifecycle and lock-out\<close>

definition agents_reachable ::
  "'e coding_env_scheme \<Rightarrow> sts_env \<Rightarrow> gateway_settings \<Rightarrow> 'a coding_db_scheme \<Rightarrow> bool" where
  "agents_reachable env sts cfg s \<longleftrightarrow>
     (\<exists>s0. agents s0 = Map.empty \<and> bearers s0 = Map.empty \<and> (agent_step env sts cfg)\<^sup>*\<^sup>* s0 s)"

lemma agents_reachable_ok: "agents_reachable env sts cfg s \<Longrightarrow> registry_ok s"
proof -
  assume "agents_reachable env sts cfg s"
  then obtain s0 where s0: "agents s0 = Map.empty" "bearers s0 = Map.empty" "(agent_step env sts cfg)\<^sup>*\<^sup>* s0 s"
    by (auto simp: agents_reachable_def)
  have "registry_ok s0" using s0(1,2) by (simp add: registry_ok_def keyed_rows_def)
  with agent_steps_ok[OF s0(3)] show "registry_ok s" .
qed

text \<open>C21. The drain lifecycle of an agent pod. In every reachable registry one handler call, admin request
  or reaper pass keeps the agent's row, organisation and instance, and moves its lifecycle along at most
  one edge: configured (unconfigured to active), drain requested (unconfigured or active to draining),
  drain cancelled (back to active), drained (draining to shutdown), reconnected (shutdown to
  unconfigured). No agent is shut down without draining. None leaves the shutdown state but by a successful identity
  exchange of its own, which leaves it unconfigured.\<close>

theorem agent_lifecycle:
  assumes "agents_reachable env sts cfg s" and "agent_step env sts cfg s s'" and "agents s i = Some a"
  shows "\<exists>a'. agents s' i = Some a' \<and> ag_org_id a' = ag_org_id a \<and> ag_instance_id a' = ag_instance_id a \<and>
    (ag_lifecycle a' = ag_lifecycle a \<or> lifecycle_edge (ag_lifecycle a) (ag_lifecycle a')) \<and>
    (ag_lifecycle a = ShutdownDone \<and> ag_lifecycle a' \<noteq> ShutdownDone \<longrightarrow> ag_lifecycle a' = Unconfigured \<and>
       (\<exists>req ip rd resp rd'. exchange_identity env sts cfg req ip rd s = (Inr resp, rd', s') \<and> ir_agent_id resp = i))"
proof -
  note ok = agents_reachable_ok[OF assms(1)]
  obtain a' where a': "agents s' i = Some a'" "ag_org_id a' = ag_org_id a" "ag_instance_id a' = ag_instance_id a"
    "ag_lifecycle a' = ag_lifecycle a \<or> lifecycle_edge (ag_lifecycle a) (ag_lifecycle a')"
    using agent_step_moves[OF assms(2)] ok assms(3) unfolding agents_move_def by fastforce
  have "\<exists>req ip rd resp rd'. exchange_identity env sts cfg req ip rd s = (Inr resp, rd', s') \<and> ir_agent_id resp = i"
    if away: "ag_lifecycle a = ShutdownDone" "ag_lifecycle a' \<noteq> ShutdownDone"
  proof -
    have "\<not> agents_move work_edge s s'"
      using ok assms(3) a'(1) away unfolding agents_move_def work_edge_def by fastforce
    with agent_step_works[OF assms(2)] obtain req ip rd r rd' where
      x: "exchange_identity env sts cfg req ip rd s = (r, rd', s')" by blast
    have "agents s' i \<noteq> agents s i" using assms(3) a'(1) away by auto
    from exchange_others[OF x this] x show ?thesis by blast
  qed
  with a' show ?thesis by auto
qed

text \<open>C22. A bearer is accepted only while it is live, and an agent that has been shut down is locked out. In every
  reachable registry an accepted token is the hash preimage of a bearer that is neither revoked nor expired,
  belongs to a registered agent of the same context, and that agent has not completed a shutdown. Every agent that
  has completed a shutdown is marked offline, and every token that hashes to a bearer of its is refused.\<close>

theorem accepted_bearer_is_live:
  assumes "agents_reachable env sts cfg s"
  shows "(\<forall>tok ctx s'. verify env tok s = (Some ctx, s') \<longrightarrow>
      (\<exists>b. bearers s (bc_bearer_id ctx) = Some b \<and> bt_token_hash b = sha256 env tok \<and>
        bt_agent_id b = bc_agent_id ctx \<and> bt_org_id b = bc_org_id ctx \<and> bt_revoked_at b = None \<and> now s < bt_expires_at b) \<and>
      (\<exists>a. agents s (bc_agent_id ctx) = Some a \<and> ag_lifecycle a \<noteq> ShutdownDone)) \<and>
    (\<forall>i a. agents s i = Some a \<and> ag_lifecycle a = ShutdownDone \<longrightarrow> ag_state a = Offline \<and>
      (\<forall>j b tok. bearers s j = Some b \<and> bt_agent_id b = i \<and> bt_token_hash b = sha256 env tok \<longrightarrow>
         fst (verify env tok s) = None))"
proof -
  note ok = agents_reachable_ok[OF assms]
  have refused: "fst (verify env tok s) = None"
    if "agents s i = Some a" "ag_lifecycle a = ShutdownDone" "bearers s j = Some b" "bt_agent_id b = i"
      "bt_token_hash b = sha256 env tok" for i a j b tok
  proof (rule ccontr)
    assume "fst (verify env tok s) \<noteq> None"
    then obtain ctx s' where v: "verify env tok s = (Some ctx, s')" by (cases "verify env tok s") auto
    from verified(1)[OF v ok] obtain c where c: "bearers s (bc_bearer_id ctx) = Some c"
      "bt_revoked_at c = None" "bt_token_hash c = sha256 env tok" by blast
    have "j = bc_bearer_id ctx" using registry_okD(6)[OF ok that(3) c(1)] that(5) c(3) by simp
    then show False using registry_okD(5)[OF ok _ that(2,3)] that(1,3,4) c(1,2) by auto
  qed
  have live: "(\<exists>b. bearers s (bc_bearer_id ctx) = Some b \<and> bt_token_hash b = sha256 env tok \<and>
        bt_agent_id b = bc_agent_id ctx \<and> bt_org_id b = bc_org_id ctx \<and> bt_revoked_at b = None \<and> now s < bt_expires_at b) \<and>
      (\<exists>a. agents s (bc_agent_id ctx) = Some a \<and> ag_lifecycle a \<noteq> ShutdownDone)"
    if "verify env tok s = (Some ctx, s')" for tok ctx s'
    using verified(1,2)[OF that ok] by blast
  show ?thesis
  proof (rule conjI, goal_cases)
    case 1
    show ?case by (intro allI impI) (rule live)
  next
    case 2
    show ?case using registry_okD(4)[OF ok] refused by blast
  qed
qed

section \<open>Identity exchange\<close>

lemma verify_issued:
  assumes "issue env aid org ip ttl arn s = Inr ((tok, row), s')" and "registry_ok s" and "registry_ok s'" and "tok \<noteq> []"
  shows "verify env tok (s'\<lparr>now := t\<rparr>) =
    (if t < now s + ttl
     then (Some \<lparr>bc_bearer_id = bt_id row, bc_agent_id = aid, bc_org_id = org\<rparr>,
           s'\<lparr>now := t, bearers := modify (bt_id row) (\<lambda>b. b\<lparr>bt_last_seen_at := Some t\<rparr>) (bearers s')\<rparr>)
     else (None, s'\<lparr>now := t\<rparr>))"
    "fst (verify env tok (snd (revoke_all_for_agent aid reason s'))) = None"
proof -
  note f = issued_bearer[OF assms(1)]
  have row: "bearers s' (bt_id row) = Some row" using f(2) by simp
  have found: "bearer_by_hash (sha256 env tok) s' = Some row"
  proof (cases "bearer_by_hash (sha256 env tok) s'")
    case None
    from keyed_first_row_None[OF registry_okD(2)[OF assms(3)] None[unfolded bearer_by_hash_def] row] f(8)
    show ?thesis by simp
  next
    case (Some b)
    from keyed_first_row[OF registry_okD(2)[OF assms(3)] Some[unfolded bearer_by_hash_def]]
    have b: "bearers s' (bt_id b) = Some b" "bt_token_hash b = sha256 env tok" by blast+
    with registry_okD(6)[OF assms(3) b(1) row] f(8) row show ?thesis using Some by simp
  qed
  then have "bearer_by_hash (sha256 env tok) (s'\<lparr>now := t\<rparr>) = Some row" by (simp add: bearer_by_hash_def)
  then show "verify env tok (s'\<lparr>now := t\<rparr>) =
    (if t < now s + ttl
     then (Some \<lparr>bc_bearer_id = bt_id row, bc_agent_id = aid, bc_org_id = org\<rparr>,
           s'\<lparr>now := t, bearers := modify (bt_id row) (\<lambda>b. b\<lparr>bt_last_seen_at := Some t\<rparr>) (bearers s')\<rparr>)
     else (None, s'\<lparr>now := t\<rparr>))"
    using f assms(4) by (simp add: verify_def)
  let ?r = "snd (revoke_all_for_agent aid reason s')"
  have okr: "registry_ok ?r" using agents_move_ok[OF revoke_moves(2) assms(3)] .
  show "fst (verify env tok ?r) = None"
  proof (cases "verify env tok ?r")
    case (Pair c t')
    show ?thesis
    proof (cases c)
      case (Some ctx)
      from verified(1)[OF Pair[unfolded Some] okr] obtain b where
        b: "bearers ?r (bc_bearer_id ctx) = Some b" "bt_revoked_at b = None" "bt_token_hash b = sha256 env tok" by blast
      from b(1) obtain b0 where b0: "bearers s' (bc_bearer_id ctx) = Some b0"
        "b = (if bt_agent_id b0 = aid \<and> bt_revoked_at b0 = None
              then b0\<lparr>bt_revoked_at := Some (now s'), bt_revoked_reason := Some reason\<rparr> else b0)"
        by (auto simp: revoke_all_for_agent_def revoke_where_def Let_def)
      have "bt_token_hash b0 = sha256 env tok" using b0(2) b(3) by (simp split: if_splits)
      with registry_okD(6)[OF assms(3) b0(1) row] f(8) b0(1) row have "b0 = row" by simp
      with b0(2) b(2) f(5) show ?thesis by (simp split: if_splits)
    qed (simp add: Pair)
  qed
qed

lemma exchanged:
  assumes "exchange_identity env sts cfg req ip rd s = (Inr resp, rd', s')"
  obtains v org rd1 where "verify_identity env sts cfg (now s) (iq_payload req) rd1 = (Inr v, rd')"
    "lookup_org_by_arn (vi_canonical_arn v) s = Some org"
    "register_agent env cfg (og_id org) v req ip s = Inr (resp, s')"
    "audience_in_payload sts (iq_payload req) = gs_public_hostname cfg"
    "or_else (og_aws_region org) [] \<in> {[], vi_region v}" "iq_kind req = ''aws-sts''"
    "check_identity_exchange (now s) ip rd = (True, rd1)"
proof -
  obtain allowed rd1 where limit: "check_identity_exchange (now s) ip rd = (allowed, rd1)" by force
  obtain w rd2 where sts: "verify_identity env sts cfg (now s) (iq_payload req) rd1 = (w, rd2)" by force
  note simps = exchange_identity_def limit sts Let_def
  show thesis
  proof (cases w)
    case (Inl c)
    with assms show ?thesis by (simp add: simps split: if_splits bool.splits)
  next
    case (Inr v)
    show ?thesis
    proof (cases "lookup_org_by_arn (vi_canonical_arn v) s")
      case None
      with Inr assms show ?thesis by (simp add: simps split: if_splits bool.splits)
    next
      case (Some g)
      note w = Inr
      show ?thesis
      proof (cases "register_agent env cfg (og_id g) v req ip s")
        case (Inl e)
        with Some w assms show ?thesis by (simp add: simps split: if_splits bool.splits)
      next
        case (Inr q)
        then obtain r t where r: "register_agent env cfg (og_id g) v req ip s = Inr (r, t)" by (cases q) auto
        from Some w assms r have "rd2 = rd' \<and> r = resp \<and> t = s' \<and> audience_in_payload sts (iq_payload req) = gs_public_hostname cfg \<and>
            or_else (og_aws_region g) [] \<in> {[], vi_region v} \<and> iq_kind req = ''aws-sts'' \<and> allowed"
          by (auto simp: simps split: if_splits bool.splits)
        with that[OF _ Some, of rd1] r sts w limit show ?thesis by simp
      qed
    qed
  qed
qed

lemma registered:
  assumes "register_agent env cfg org v req ip s = Inr (resp, s')" and "registry_ok s"
  obtains s2 row where "issue env (ir_agent_id resp) org ip DEFAULT_BEARER_TTL_SECONDS (Some (vi_canonical_arn v)) s2
      = Inr ((ir_bearer resp, row), s')" "registry_ok s2" "now s2 = now s" "ir_org_id resp = org"
    "ir_expires_at resp = now s + DEFAULT_BEARER_TTL_SECONDS"
    "ir_instance_id resp = extract_instance_id (vi_raw_arn v)"
    "\<exists>a. agents s' (ir_agent_id resp) = Some a \<and> ag_org_id a = org \<and> ag_instance_id a = ir_instance_id resp"
proof -
  let ?inst = "extract_instance_id (vi_raw_arn v)"
  obtain i s1 where e: "ensure_agent_row org ?inst (vi_canonical_arn v) (Some (or_else (iq_agent_version req) ''0.0.1''))
      (iq_os req) (iq_cpu_count req) (iq_memory_bytes req) s = (i, s1)" by fastforce
  from assms(1) e obtain s2 tok row where
    c: "enqueue_config_update_for_agent env cfg i org s1 = Inr s2" and
    b: "issue env i org ip DEFAULT_BEARER_TTL_SECONDS (Some (vi_canonical_arn v)) s2 = Inr ((tok, row), s')" and
    r: "resp = \<lparr>ir_bearer = tok, ir_expires_at = bt_expires_at row, ir_renewal_after = bt_expires_at row - 5 * 60,
      ir_agent_id = i, ir_instance_id = ?inst, ir_org_id = org\<rparr>"
    by (auto simp: register_agent_def Let_def res_simps)
  have "agents_move reconnect_edge s s1" using ensure_agent_moves e by (metis snd_conv)
  then have "registry_ok s1" using assms(2) by (rule agents_move_ok)
  then have ok2: "registry_ok s2" using agents_move_ok[OF config_update_moves(1)[OF c]] by simp
  have t: "now s2 = now s" using config_update_moves(2)[OF c] ensured_agent(2)[OF e assms(2)] by simp
  have "agents s2 = agents s1"
    using c by (auto simp: enqueue_config_update_for_agent_def enqueue_config_update_with_config_def res_simps
        dest: enqueue_for_agent_frame)
  with ensured_agent(1)[OF e assms(2)] issued_bearer(1)[OF b]
  have "\<exists>a. agents s' i = Some a \<and> ag_org_id a = org \<and> ag_instance_id a = ?inst" by auto
  with that[of s2 row] b ok2 t r issued_bearer(10)[OF b] show thesis by simp
qed

lemma verified_envelope:
  assumes "verify_identity env sts cfg t raw rd = (Inr v, rd')"
  shows "\<exists>signed raw_arn. parse_signed_request sts cfg raw = Inr signed \<and>
      set_if_absent t (nonce_key env signed) NONCE_TTL_SECONDS rd = (True, rd') \<and>
      replay_caller_identity sts signed = Inr raw_arn \<and>
      v = \<lparr>vi_canonical_arn = canonicalize_arn raw_arn, vi_raw_arn = raw_arn, vi_region = sr_region signed\<rparr>"
  using assms by (auto simp: verify_identity_def split: sum.splits prod.splits bool.splits)

text \<open>C23. The identity exchange round trip. A successful exchange was let through by the rate limit, was signed for this
  backend's hostname, and its envelope was verified: it parsed, it had not been seen, AWS answered the replayed
  request with an ARN, and the region it was signed for is the one the organisation pins, when it pins one. The answer
  names the organisation whose registered ARN is the canonical form of the ARN that AWS returned, and the pod whose
  instance id is the session of that ARN. The bearer it hands out identifies exactly that pod and organisation at
  every time before its expiry one hour on, is refused from then on, and is refused as soon as the pod's
  bearers are revoked.\<close>

theorem exchange_round_trip:
  assumes "agents_reachable env sts cfg s" and "exchange_identity env sts cfg req ip rd s = (Inr resp, rd', s')"
    and "ir_bearer resp \<noteq> []"
  shows "(\<exists>rd1 signed raw_arn org. check_identity_exchange (now s) ip rd = (True, rd1) \<and>
      audience_in_payload sts (iq_payload req) = gs_public_hostname cfg \<and>
      verify_identity env sts cfg (now s) (iq_payload req) rd1 =
        (Inr \<lparr>vi_canonical_arn = canonicalize_arn raw_arn, vi_raw_arn = raw_arn, vi_region = sr_region signed\<rparr>, rd') \<and>
      parse_signed_request sts cfg (iq_payload req) = Inr signed \<and>
      set_if_absent (now s) (nonce_key env signed) NONCE_TTL_SECONDS rd1 = (True, rd') \<and>
      replay_caller_identity sts signed = Inr raw_arn \<and>
      lookup_org_by_arn (canonicalize_arn raw_arn) s = Some org \<and> ir_org_id resp = og_id org \<and>
      or_else (og_aws_region org) [] \<in> {[], sr_region signed} \<and> ir_instance_id resp = extract_instance_id raw_arn) \<and>
    (\<exists>a. agents s' (ir_agent_id resp) = Some a \<and> ag_org_id a = ir_org_id resp \<and> ag_instance_id a = ir_instance_id resp) \<and>
    ir_expires_at resp = now s + 3600 \<and>
    (\<forall>t. fst (verify env (ir_bearer resp) (s'\<lparr>now := t\<rparr>)) =
       (if t < ir_expires_at resp
        then Some \<lparr>bc_bearer_id = next_id s' - 1, bc_agent_id = ir_agent_id resp, bc_org_id = ir_org_id resp\<rparr> else None)) \<and>
    (\<forall>reason. fst (verify env (ir_bearer resp) (snd (revoke_all_for_agent (ir_agent_id resp) reason s'))) = None)"
proof -
  note ok = agents_reachable_ok[OF assms(1)]
  from assms(2) obtain v org rd1 where x: "verify_identity env sts cfg (now s) (iq_payload req) rd1 = (Inr v, rd')"
    "lookup_org_by_arn (vi_canonical_arn v) s = Some org" "register_agent env cfg (og_id org) v req ip s = Inr (resp, s')"
    "audience_in_payload sts (iq_payload req) = gs_public_hostname cfg" "or_else (og_aws_region org) [] \<in> {[], vi_region v}" "check_identity_exchange (now s) ip rd = (True, rd1)"
    by (rule exchanged)
  from verified_envelope[OF x(1)] obtain signed raw_arn where e: "parse_signed_request sts cfg (iq_payload req) = Inr signed"
    "set_if_absent (now s) (nonce_key env signed) NONCE_TTL_SECONDS rd1 = (True, rd')"
    "replay_caller_identity sts signed = Inr raw_arn"
    "v = \<lparr>vi_canonical_arn = canonicalize_arn raw_arn, vi_raw_arn = raw_arn, vi_region = sr_region signed\<rparr>" by blast
  from x(3) ok obtain s2 row where r: "issue env (ir_agent_id resp) (og_id org) ip DEFAULT_BEARER_TTL_SECONDS
      (Some (vi_canonical_arn v)) s2 = Inr ((ir_bearer resp, row), s')" "registry_ok s2" "now s2 = now s"
    "ir_org_id resp = og_id org" "ir_expires_at resp = now s + DEFAULT_BEARER_TTL_SECONDS"
    "ir_instance_id resp = extract_instance_id (vi_raw_arn v)"
    "\<exists>a. agents s' (ir_agent_id resp) = Some a \<and> ag_org_id a = og_id org \<and> ag_instance_id a = ir_instance_id resp"
    by (rule registered)
  have ok': "registry_ok s'" using agents_move_ok[OF register_moves[OF x(3)] ok] .
  have i: "next_id s' - 1 = bt_id row" using issued_bearer(3,4)[OF r(1)] by simp
  note v = verify_issued[OF r(1,2) ok' assms(3)]
  show ?thesis
  proof (intro conjI allI)
    show "\<exists>rd1 signed raw_arn org. check_identity_exchange (now s) ip rd = (True, rd1) \<and>
      audience_in_payload sts (iq_payload req) = gs_public_hostname cfg \<and>
      verify_identity env sts cfg (now s) (iq_payload req) rd1 =
        (Inr \<lparr>vi_canonical_arn = canonicalize_arn raw_arn, vi_raw_arn = raw_arn, vi_region = sr_region signed\<rparr>, rd') \<and>
      parse_signed_request sts cfg (iq_payload req) = Inr signed \<and>
      set_if_absent (now s) (nonce_key env signed) NONCE_TTL_SECONDS rd1 = (True, rd') \<and>
      replay_caller_identity sts signed = Inr raw_arn \<and>
      lookup_org_by_arn (canonicalize_arn raw_arn) s = Some org \<and> ir_org_id resp = og_id org \<and>
      or_else (og_aws_region org) [] \<in> {[], sr_region signed} \<and> ir_instance_id resp = extract_instance_id raw_arn"
      using x(2,4,5,6) r(4,6) e x(1)[unfolded e(4)] unfolding e(4) verified_identity.simps by blast
    show "\<exists>a. agents s' (ir_agent_id resp) = Some a \<and> ag_org_id a = ir_org_id resp \<and> ag_instance_id a = ir_instance_id resp"
      using r(4,7) by simp
    show "ir_expires_at resp = now s + 3600" using r(5) by (simp add: DEFAULT_BEARER_TTL_SECONDS_def)
  next
    fix t show "fst (verify env (ir_bearer resp) (s'\<lparr>now := t\<rparr>)) = (if t < ir_expires_at resp
        then Some \<lparr>bc_bearer_id = next_id s' - 1, bc_agent_id = ir_agent_id resp, bc_org_id = ir_org_id resp\<rparr> else None)"
      unfolding v(1) r(3,4,5) i by simp
  next
    fix reason show "fst (verify env (ir_bearer resp) (snd (revoke_all_for_agent (ir_agent_id resp) reason s'))) = None"
      by (rule v(2))
  qed
qed

section \<open>Reports by the owner only\<close>

text \<open>C24. An agent reports only on its own workspaces. Without an accepted bearer both event endpoints answer 401;
  with one, a report on a workspace that another agent owns, and a report on a command whose workspace another agent
  owns, is each answered with 400 or 403, whatever the other endpoint would say; and in all cases nothing is
  committed beyond what checking the bearer wrote.\<close>

theorem foreign_reports_refused:
  assumes "verify_bearer env auth s = (ctx, s1)"
  shows "(ctx = None \<longrightarrow> post_workspace_event env auth w ew c k s = Inr (401, None, s1) \<and>
      post_command_event env auth cid ev s = Inr (401, None, s1)) \<and>
    (\<forall>b. ctx = Some b \<and> owning_agent_for_workspace w s1 \<notin> {None, Some (bc_agent_id b)} \<longrightarrow>
       (\<exists>code \<in> {400, 403}. post_workspace_event env auth w ew c k s = Inr (code, None, s1))) \<and>
    (\<forall>b a. ctx = Some b \<and> owning_agent_for_command cid s1 = Inr (Some a) \<and> a \<noteq> bc_agent_id b \<longrightarrow>
       (\<exists>code \<in> {400, 403}. post_command_event env auth cid ev s = Inr (code, None, s1)))"
  using assms
  by (cases ctx) (auto simp: post_workspace_event_def post_command_event_def with_bearer_def owner_allows_def)

section \<open>Replays\<close>

text \<open>What may reach Redis between two envelopes: other envelopes, whatever is in them, and rate-limit checks.\<close>

datatype redis_use = Envelope timestamp string | RateCheck timestamp "string option"

fun use_time :: "redis_use \<Rightarrow> timestamp" where
  "use_time (Envelope t _) = t" | "use_time (RateCheck t _) = t"

fun redis_after ::
  "'e gateway_env_scheme \<Rightarrow> sts_env \<Rightarrow> gateway_settings \<Rightarrow> redis_use \<Rightarrow> redis \<Rightarrow> redis" where
  "redis_after env sts cfg (Envelope t raw) rd = snd (verify_identity env sts cfg t raw rd)"
| "redis_after env sts cfg (RateCheck t ip) rd = snd (check_identity_exchange t ip rd)"

lemma rate_check_keys: "rd_keys (snd (check_identity_exchange t ip rd)) = rd_keys rd"
  by (simp add: check_identity_exchange_def sliding_window_hit_def window_begin_def window_add_def set_window_def Let_def)

lemma nonce_kept:
  assumes "map_of (rd_keys rd) k = Some e" and "use_time x < e"
  shows "map_of (rd_keys (redis_after env sts cfg x rd)) k = Some e"
proof (cases x)
  case (Envelope t raw)
  then show ?thesis
  proof (cases "parse_signed_request sts cfg raw")
    case (Inr signed)
    have "map_of (rd_keys (snd (set_if_absent t (nonce_key env signed) NONCE_TTL_SECONDS rd))) k = Some e"
      using assms Envelope by (auto simp: set_if_absent_def update_conv' split: option.splits)
    moreover have "snd (verify_identity env sts cfg t raw rd) = snd (set_if_absent t (nonce_key env signed) NONCE_TTL_SECONDS rd)"
      using Inr by (simp add: verify_identity_def split: prod.splits bool.splits sum.splits)
    ultimately show ?thesis using Envelope by simp
  qed (use assms(1) in \<open>simp add: verify_identity_def\<close>)
qed (simp add: rate_check_keys assms(1))

lemma nonce_kept_all:
  "map_of (rd_keys rd) k = Some e \<Longrightarrow> \<forall>x \<in> set xs. use_time x < e \<Longrightarrow>
     map_of (rd_keys (fold (redis_after env sts cfg) xs rd)) k = Some e"
  by (induction xs arbitrary: rd) (simp_all add: nonce_kept)

text \<open>C25. A signed envelope is good for one exchange. Once an envelope has passed the replay check, whatever AWS then
  answered, every request carrying the same authorization and date headers within the following ten minutes is
  rejected as a replay, after any number of other envelopes, valid or not, and rate-limit checks in between. It
  does not reach AWS: the answer is the same whatever AWS would answer, and the store is left as it was.\<close>

theorem replay_refused:
  assumes "verify_identity env sts cfg t raw rd = (r, rd1)" and "r \<noteq> Inl REPLAY_DETECTED"
    and "parse_signed_request sts cfg raw = Inr signed"
    and "parse_signed_request sts cfg raw' = Inr signed'" and "nonce_key env signed' = nonce_key env signed"
    and "\<forall>x \<in> set between. use_time x < t + 600" and "t' < t + 600"
    and "rd2 = fold (redis_after env sts cfg) between rd1"
  shows "verify_identity env (sts\<lparr>sts_post := aws\<rparr>) cfg t' raw' rd2 = (Inl REPLAY_DETECTED, rd2)"
proof -
  have "map_of (rd_keys rd1) (nonce_key env signed) = Some (t + 600)"
    using assms(1-3)
    by (auto simp: verify_identity_def set_if_absent_def NONCE_TTL_SECONDS_def update_conv'
        split: option.splits if_splits sum.splits)
  from nonce_kept_all[OF this assms(6)]
  have "map_of (rd_keys rd2) (nonce_key env signed) = Some (t + 600)" unfolding assms(8) .
  moreover have "parse_signed_request (sts\<lparr>sts_post := aws\<rparr>) cfg raw' = parse_signed_request sts cfg raw'"
  proof -
    have same: "json_loads (sts\<lparr>sts_post := aws\<rparr>) = json_loads sts" "url_host (sts\<lparr>sts_post := aws\<rparr>) = url_host sts"
      by simp_all
    show ?thesis unfolding parse_signed_request_def same ..
  qed
  ultimately show ?thesis using assms(4,5,7) by (simp add: verify_identity_def set_if_absent_def)
qed

section \<open>Bursts\<close>

definition in_window :: "timestamp \<Rightarrow> timestamp \<times> nat \<Rightarrow> bool" where
  "in_window T m \<longleftrightarrow> T - 60 < fst m \<and> fst m \<le> T"

text \<open>
  The calls for one address, interleaved step by step: \<open>window_race ip p u rd fl acc\<close> says that Redis is \<open>rd\<close> after calls
  that began up to time \<open>u\<close>, of which \<open>acc\<close> were let through, each with its time and the count it read, and \<open>fl\<close> of
  them have yet to record themselves; never more than \<open>p\<close> calls are under way at once.
\<close>

inductive window_race ::
  "string \<Rightarrow> nat \<Rightarrow> timestamp \<Rightarrow> redis \<Rightarrow> (timestamp \<times> nat) list \<Rightarrow> (timestamp \<times> nat) list \<Rightarrow> bool" for ip p where
  w_start: "window_of (ip_key ip) rd = [] \<Longrightarrow> window_race ip p u rd [] []"
| w_refused: "window_race ip p u rd fl acc \<Longrightarrow> u \<le> t \<Longrightarrow> length fl < p \<Longrightarrow>
    window_begin t (ip_key ip) PER_IP_LIMIT PER_IP_WINDOW_SECONDS rd = (None, rd') \<Longrightarrow> window_race ip p t rd' fl acc"
| w_admitted: "window_race ip p u rd fl acc \<Longrightarrow> u \<le> t \<Longrightarrow> length fl < p \<Longrightarrow>
    window_begin t (ip_key ip) PER_IP_LIMIT PER_IP_WINDOW_SECONDS rd = (Some c, rd') \<Longrightarrow>
    window_race ip p t rd' ((t, c) # fl) ((t, c) # acc)"
| w_recorded: "window_race ip p u rd fl acc \<Longrightarrow> (t, c) \<in> set fl \<Longrightarrow>
    window_race ip p u (window_add t c (ip_key ip) rd) (remove1 (t, c) fl) acc"
| w_elsewhere: "window_race ip p u rd fl acc \<Longrightarrow> window_of (ip_key ip) rd' = window_of (ip_key ip) rd \<Longrightarrow>
    window_race ip p u rd' fl acc"

lemma window_of_set [simp]: "window_of k (set_window k z rd) = z"
  by (simp add: window_of_def set_window_def update_conv')

lemma window_begin_simps:
  assumes "window_begin t k limit w rd = (x, rd')"
  shows "window_of k rd' = filter (\<lambda>(m, score). \<not> score \<le> t - w) (window_of k rd)"
    and "x = (if limit \<le> length (window_of k rd') then None else Some (length (window_of k rd')))"
  using assms by (auto simp: window_begin_def Let_def)

text \<open>
  What an admitted call may rely on: the live entries are recorded or under way. When calls do not overlap, the
  members of the set are moreover all different, because the count grows within one instant.
\<close>

definition alone_ok :: "timestamp \<Rightarrow> zset \<Rightarrow> (timestamp \<times> nat) list \<Rightarrow> (timestamp \<times> nat) list \<Rightarrow> bool" where
  "alone_ok u z fl acc \<longleftrightarrow> distinct acc \<and> (\<forall>(m, score) \<in> set z. u - 60 < score \<and> m \<in> set acc) \<and>
     (fl = [] \<and> (\<forall>m \<in> set acc. fst m = u \<longrightarrow> snd m < length z) \<or>
      fl = [(u, length z)] \<and> (u, length z) \<notin> fst ` set z \<and>
        (\<forall>m \<in> set acc. fst m = u \<longrightarrow> m = (u, length z) \<or> snd m < length z))"

definition race_ok ::
  "nat \<Rightarrow> timestamp \<Rightarrow> zset \<Rightarrow> (timestamp \<times> nat) list \<Rightarrow> (timestamp \<times> nat) list \<Rightarrow> bool" where
  "race_ok p u z fl acc \<longleftrightarrow> length fl \<le> p \<and> set fl \<subseteq> set acc \<and> (\<forall>(m, score) \<in> set z. score = fst m) \<and>
     (\<forall>m \<in> set acc. fst m \<le> u \<and> (u - 60 < fst m \<longrightarrow> m \<in> fst ` set z \<or> m \<in> set fl)) \<and>
     (p = 1 \<longrightarrow> alone_ok u z fl acc)"

abbreviation live_at :: "timestamp \<Rightarrow> zset \<Rightarrow> zset" where
  "live_at t z \<equiv> filter (\<lambda>(m, score). \<not> score \<le> t - 60) z"

lemma live_unchanged: "alone_ok u z fl acc \<Longrightarrow> live_at u z = z"
  unfolding alone_ok_def by (intro filter_True) auto

text \<open>A call that begins: the entries that are live at its time are still there.\<close>

lemma race_begin:
  assumes "race_ok p u z fl acc" and "u \<le> t" and "length fl < p"
  shows "race_ok p t (live_at t z) fl acc"
proof -
  have "m \<in> fst ` set (live_at t z) \<or> m \<in> set fl" if "m \<in> set acc" "t - 60 < fst m" for m
  proof -
    have "m \<in> fst ` set z \<or> m \<in> set fl" using assms(1,2) that by (auto simp: race_ok_def)
    moreover have "m \<in> fst ` set (live_at t z)" if m: "(m, score) \<in> set z" for score
    proof -
      have "score = fst m" using assms(1) m by (auto simp: race_ok_def)
      then show ?thesis using m \<open>t - 60 < fst m\<close> by (intro image_eqI[of _ _ "(m, score)"]) auto
    qed
    ultimately show ?thesis by force
  qed
  moreover have "alone_ok t (live_at t z) fl acc" if p: "p = 1"
  proof -
    have a: "alone_ok u z fl acc" and fl: "fl = []" using assms(1,3) p by (auto simp: race_ok_def)
    show ?thesis
    proof (cases "t = u")
      case True
      then show ?thesis using a live_unchanged[OF a] by simp
    next
      case False
      then have "\<forall>m \<in> set acc. fst m \<noteq> t" using assms(1,2) by (auto simp: race_ok_def)
      then show ?thesis using a fl by (auto simp: alone_ok_def)
    qed
  qed
  ultimately show ?thesis using assms by (auto simp: race_ok_def)
qed

lemma race_admit:
  assumes "race_ok p t z fl acc" and "length fl < p"
  shows "race_ok p t z ((t, length z) # fl) ((t, length z) # acc)"
proof -
  have "alone_ok t z [(t, length z)] ((t, length z) # acc)" if p: "p = 1"
  proof -
    have a: "alone_ok t z [] acc" using assms p by (auto simp: race_ok_def)
    then have new: "(t, length z) \<notin> set acc" by (auto simp: alone_ok_def)
    then have "(t, length z) \<notin> fst ` set z" using a by (auto simp: alone_ok_def)
    then show ?thesis using a new by (auto simp: alone_ok_def)
  qed
  then show ?thesis using assms by (cases fl) (auto simp: race_ok_def)
qed

lemma race_record:
  assumes "race_ok p u z fl acc" and "(t, c) \<in> set fl"
  shows "race_ok p u (AList.update (t, c) t z) (remove1 (t, c) fl) acc"
proof -
  have keys: "fst ` set (AList.update (t, c) t z) = insert (t, c) (fst ` set z)"
    using dom_update[of "(t, c)" t z] by (simp add: dom_map_of_conv_image_fst)
  have entries: "(m, score) \<in> set (AList.update (t, c) t z) \<Longrightarrow> (m, score) \<in> set z \<or> m = (t, c) \<and> score = t" for m score
    by (induction z) (auto split: if_splits)
  have "alone_ok u (AList.update (t, c) t z) [] acc" if p: "p = 1"
  proof -
    have a: "alone_ok u z fl acc" using assms p by (auto simp: race_ok_def)
    then have "fl = [] \<or> fl = [(u, length z)] \<and> (u, length z) \<notin> fst ` set z" unfolding alone_ok_def by blast
    then have f: "fl = [(u, length z)]" "(u, length z) \<notin> fst ` set z" using assms(2) by (elim disjE; simp)+
    then have tc: "(t, c) = (u, length z)" using assms(2) by simp
    note fl = f(1) tc f(2)[folded tc]
    have "length (AList.update (t, c) t z) = Suc (length z)"
      using fl(3) by (induction z) auto
    moreover have "(t, c) \<in> set acc" using assms by (auto simp: race_ok_def)
    moreover have "distinct acc" "\<forall>(m, score) \<in> set z. u - 60 < score \<and> m \<in> set acc"
      "\<forall>m \<in> set acc. fst m = u \<longrightarrow> m = (u, length z) \<or> snd m < length z"
      using a fl(1) unfolding alone_ok_def by simp_all
    moreover have "t = u" "c = length z" using tc by simp_all
    ultimately show ?thesis unfolding alone_ok_def using entries by (intro conjI disjI1) (auto, force+)
  qed
  moreover have "remove1 (t, c) fl = []" if "p = 1"
    using assms that by (auto simp: race_ok_def alone_ok_def)
  moreover have "m \<in> fst ` set (AList.update (t, c) t z) \<or> m \<in> set (remove1 (t, c) fl)"
    if "m \<in> set acc" "u - 60 < fst m" for m
  proof -
    have "m \<in> fst ` set z \<or> m \<in> set fl" using assms(1) that unfolding race_ok_def by blast
    then show ?thesis unfolding keys by (cases "m = (t, c)") auto
  qed
  moreover have "score = fst m" if "(m, score) \<in> set (AList.update (t, c) t z)" for m score
    using entries[OF that] assms(1) unfolding race_ok_def by auto
  moreover have "length (remove1 (t, c) fl) \<le> p" "set (remove1 (t, c) fl) \<subseteq> set acc" "\<forall>m \<in> set acc. fst m \<le> u"
    using assms(1) set_remove1_subset[of "(t, c)" fl] by (auto simp: race_ok_def length_remove1)
  ultimately show ?thesis unfolding race_ok_def by (intro conjI) auto
qed

lemma window_race_ok: "window_race ip p u rd fl acc \<Longrightarrow> race_ok p u (window_of (ip_key ip) rd) fl acc"
proof (induction rule: window_race.induct)
  case (w_start rd u)
  then show ?case by (simp add: race_ok_def alone_ok_def)
next
  case (w_refused u rd fl acc t rd')
  then show ?case using race_begin window_begin_simps(1)[OF w_refused.hyps(4)]
    by (simp add: PER_IP_WINDOW_SECONDS_def)
next
  case (w_admitted u rd fl acc t c rd')
  note b = window_begin_simps[OF w_admitted.hyps(4)]
  have "c = length (window_of (ip_key ip) rd')" using b(2) by (simp split: if_splits)
  moreover have "race_ok p t (window_of (ip_key ip) rd') fl acc"
    using race_begin[OF w_admitted.IH w_admitted.hyps(2,3)] b(1) by (simp add: PER_IP_WINDOW_SECONDS_def)
  ultimately show ?case using race_admit w_admitted.hyps(3) by simp
next
  case (w_recorded u rd fl acc t c)
  then show ?case using race_record by (simp add: window_add_def)
qed simp

lemma window_race_bounded:
  "window_race ip p u rd fl acc \<Longrightarrow> distinct acc \<Longrightarrow> length (filter (in_window T) acc) \<le> 9 + p"
proof (induction rule: window_race.induct)
  case (w_admitted u rd fl acc t c rd')
  note b = window_begin_simps[OF w_admitted.hyps(4)]
  let ?z = "window_of (ip_key ip) rd'"
  have c: "c = length ?z" "length ?z \<le> 9" using b(2) by (auto simp: PER_IP_LIMIT_def split: if_splits)
  have ok: "race_ok p t ?z ((t, c) # fl) ((t, c) # acc)"
    using window_race_ok[OF window_race.w_admitted[OF w_admitted.hyps]] .
  show ?case
  proof (cases "t \<le> T")
    case True
    let ?in = "filter (in_window T) ((t, c) # acc)"
    have live: "m \<in> fst ` set ?z \<or> m \<in> set ((t, c) # fl)" if "m \<in> set ((t, c) # acc)" "t - 60 < fst m" for m
      using ok that unfolding race_ok_def by blast
    have "set ?in \<subseteq> fst ` set ?z \<union> set ((t, c) # fl)"
    proof
      fix m assume "m \<in> set ?in"
      then have "m \<in> set ((t, c) # acc)" "t - 60 < fst m" using True by (auto simp: in_window_def split: if_splits)
      then show "m \<in> fst ` set ?z \<union> set ((t, c) # fl)" using live by blast
    qed
    then have "card (set ?in) \<le> card (fst ` set ?z \<union> set ((t, c) # fl))" by (intro card_mono) auto
    also have "\<dots> \<le> card (fst ` set ?z) + card (set ((t, c) # fl))" by (rule card_Un_le)
    also have "\<dots> \<le> length ?z + length ((t, c) # fl)"
      using card_length[of "map fst ?z"] card_length[of "(t, c) # fl"] by simp
    also have "\<dots> \<le> 9 + p" using c(2) w_admitted.hyps(3) by simp
    finally show ?thesis using distinct_card[OF distinct_filter[OF w_admitted.prems]] by simp
  next
    case False
    then show ?thesis using w_admitted.IH w_admitted.prems by (simp add: in_window_def)
  qed
qed simp_all

text \<open>C26. The identity-exchange rate limit, with the steps of the calls interleaved in any order. Over the whole life of
  the window of one address, if never more than \<open>p\<close> of its calls are under way at once, at most \<open>9 + p\<close> calls are let
  through in any sixty seconds: exactly the limit of ten when calls do not overlap, and one more for each further
  call that races past the boundary, as long as no two of them write the same member (same instant and same count).
  A call that overlaps with no other is the limiter's check as a whole.\<close>

theorem rate_limit_bound:
  assumes "window_race ip p u rd fl acc" and "p = 1 \<or> distinct acc"
  shows "length (filter (in_window T) acc) \<le> 9 + p \<and>
    (\<forall>t ok rd'. fl = [] \<and> u \<le> t \<and> 0 < p \<and> ip \<noteq> [] \<and> check_identity_exchange t (Some ip) rd = (ok, rd') \<longrightarrow>
       (\<exists>acc'. window_race ip p t rd' [] acc' \<and> map fst acc' = (if ok then t # map fst acc else map fst acc)))"
proof (intro conjI allI impI)
  have "distinct acc" using assms window_race_ok[OF assms(1)] by (auto simp: race_ok_def alone_ok_def)
  then show "length (filter (in_window T) acc) \<le> 9 + p" by (rule window_race_bounded[OF assms(1)])
next
  fix t ok rd'
  assume h: "fl = [] \<and> u \<le> t \<and> 0 < p \<and> ip \<noteq> [] \<and> check_identity_exchange t (Some ip) rd = (ok, rd')"
  let ?b = "window_begin t (ip_key ip) PER_IP_LIMIT PER_IP_WINDOW_SECONDS rd"
  obtain rd1 where b: "?b = (None, rd1) \<or> (\<exists>c. ?b = (Some c, rd1))" by (metis option.exhaust prod.collapse)
  show "\<exists>acc'. window_race ip p t rd' [] acc' \<and> map fst acc' = (if ok then t # map fst acc else map fst acc)"
  proof (cases "fst ?b")
    case None
    then have "?b = (None, rd1)" using b by auto
    then show ?thesis using h w_refused[OF assms(1)]
      by (intro exI[of _ acc]) (auto simp: check_identity_exchange_def sliding_window_hit_def)
  next
    case (Some c)
    then have c: "?b = (Some c, rd1)" using b by auto
    have "window_race ip p t rd1 [(t, c)] ((t, c) # acc)" using h w_admitted[OF assms(1) _ _ c] by auto
    from w_recorded[OF this, of t c] have "window_race ip p t (window_add t c (ip_key ip) rd1) [] ((t, c) # acc)" by simp
    then show ?thesis using h c
      by (intro exI[of _ "(t, c) # acc"]) (auto simp: check_identity_exchange_def sliding_window_hit_def)
  qed
qed

section \<open>ARNs\<close>

lemma assumed_role_of:
  assumes "length account = 12" and "list_all is_digit account" and "role \<noteq> []" and "CHR ''/'' \<notin> set role"
  shows "assumed_role (''arn:aws:sts::'' @ account @ '':assumed-role/'' @ role @ ''/'' @ rest) = Some (account, role, rest)"
proof -
  have "takeWhile (\<lambda>c. c \<noteq> CHR ''/'') (role @ CHR ''/'' # rest) = role"
    using assms(4) by (induction role) auto
  moreover have "dropWhile (\<lambda>c. c \<noteq> CHR ''/'') (role @ CHR ''/'' # rest) = CHR ''/'' # rest"
    using assms(4) by (induction role) auto
  moreover have "drop (length ''arn:aws:sts::'') (''arn:aws:sts::'' @ x) = x" for x by simp
  ultimately show ?thesis
    using assms(1-3) unfolding assumed_role_def by (simp add: Let_def starts_with_def)
qed

text \<open>Sessions of one role are one organisation and separate pods: the ARN that STS reports for a session of
  an assumed role is canonicalised to the lower-cased ARN of the role, whatever the session, which is
  what an organisation registers, and the instance id is the session itself.\<close>

theorem arn_canonical_form:
  assumes "length account = 12" and "list_all is_digit account" and "role \<noteq> []" and "CHR ''/'' \<notin> set role"
    and "session \<noteq> []" and "CHR ''/'' \<notin> set session" and "newline \<notin> set session"
  shows "canonicalize_arn (''arn:aws:sts::'' @ account @ '':assumed-role/'' @ role @ ''/'' @ session) =
      lower (''arn:aws:iam::'' @ account @ '':role/'' @ role)"
    "extract_instance_id (''arn:aws:sts::'' @ account @ '':assumed-role/'' @ role @ ''/'' @ session) = session"
proof -
  let ?arn = "''arn:aws:sts::'' @ account @ '':assumed-role/'' @ role @ ''/'' @ session"
  have c: "chomp session = session" using assms(5,7) by (metis chomp_def last_in_set)
  have a: "assumed_role ?arn = Some (account, role, session)" by (rule assumed_role_of[OF assms(1-4)])
  show "canonicalize_arn ?arn = lower (''arn:aws:iam::'' @ account @ '':role/'' @ role)"
    unfolding canonicalize_arn_def a using c assms(5,7) by simp
  show "extract_instance_id ?arn = session"
    unfolding extract_instance_id_def a using assms(5,6) by simp
qed

section \<open>What the liveness sweep does\<close>

definition swept_state :: "timestamp \<Rightarrow> agent_row \<Rightarrow> liveness" where
  "swept_state t a =
     (case ag_last_heartbeat_at a of
        None \<Rightarrow> ag_state a
      | Some b \<Rightarrow> if ag_lifecycle a = ShutdownDone then ag_state a else liveness_of_age (t - b))"

definition goes_offline :: "timestamp \<Rightarrow> agent_row \<Rightarrow> bool" where
  "goes_offline t a \<longleftrightarrow> ag_state a \<noteq> Offline \<and> swept_state t a = Offline"

lemma liveness_step_self:
  fixes acc :: "uuid list \<times> 'a gateway_db_scheme"
  assumes "agents (snd acc) (ag_id a) = Some a" and "ag_last_heartbeat_at a \<noteq> None" and "ag_lifecycle a \<noteq> ShutdownDone"
  shows "\<exists>a'. agents (snd (liveness_step t a acc)) (ag_id a) = Some a' \<and> ag_state a' = swept_state t a \<and>
      ag_lifecycle a' = (if goes_offline t a \<and> ag_lifecycle a = Draining then ShutdownDone else ag_lifecycle a)"
    "fst (liveness_step t a acc) = fst acc @ (if goes_offline t a then [ag_id a] else [])"
proof -
  obtain ids s where acc: "acc = (ids, s)" by force
  obtain b where b: "ag_last_heartbeat_at a = Some b" using assms(2) by blast
  let ?l = "liveness_of_age (t - b)"
  let ?s1 = "upd_agent (ag_id a) (\<lambda>a. a\<lparr>ag_state := ?l\<rparr>) s"
  have st: "swept_state t a = ?l" using b assms(3) by (simp add: swept_state_def)
  have up: "agents ?s1 (ag_id a) = Some (a\<lparr>ag_state := ?l\<rparr>)" using assms(1) by (simp add: acc upd_agent_def)
  have sd: "\<exists>a'. agents (snd (mark_agent_shutdown_complete (ag_id a) ?s1)) (ag_id a) = Some a' \<and>
      (?l = Offline \<longrightarrow> ag_state a' = Offline) \<and>
      ag_lifecycle a' = (if ag_lifecycle a = Draining then ShutdownDone else ag_lifecycle a)"
  proof (cases "ag_lifecycle a = Draining")
    case True
    then show ?thesis using shutdown_complete_frame(2)[OF up] up by simp
  next
    case False
    then show ?thesis using up by (simp add: mark_agent_shutdown_complete_def)
  qed
  show "\<exists>a'. agents (snd (liveness_step t a acc)) (ag_id a) = Some a' \<and> ag_state a' = swept_state t a \<and>
      ag_lifecycle a' = (if goes_offline t a \<and> ag_lifecycle a = Draining then ShutdownDone else ag_lifecycle a)"
  proof (cases "ag_state a = ?l")
    case True
    then show ?thesis using assms(1) st b by (simp add: liveness_step_def acc goes_offline_def)
  next
    case False
    then show ?thesis
      using sd up st b
      by (cases "?l = Offline") (auto simp: liveness_step_def acc goes_offline_def Let_def publish_general_after_commit_def)
  qed
  show "fst (liveness_step t a acc) = fst acc @ (if goes_offline t a then [ag_id a] else [])"
    using b st by (auto simp: liveness_step_def acc goes_offline_def Let_def)
qed

lemma liveness_fold_others:
  "i \<notin> set (map ag_id rows) \<Longrightarrow> agents (snd (fold (liveness_step t) rows acc)) i = agents (snd acc) i"
  by (induction rows arbitrary: acc) (auto simp: liveness_step_others)

lemma liveness_fold_spec:
  fixes acc :: "uuid list \<times> 'a gateway_db_scheme"
  assumes "distinct (map ag_id rows)"
    and "\<And>a. a \<in> set rows \<Longrightarrow> agents (snd acc) (ag_id a) = Some a \<and> ag_last_heartbeat_at a \<noteq> None \<and>
      ag_lifecycle a \<noteq> ShutdownDone"
  shows "(a \<in> set rows \<longrightarrow> (\<exists>a'. agents (snd (fold (liveness_step t) rows acc)) (ag_id a) = Some a' \<and>
      ag_state a' = swept_state t a \<and>
      ag_lifecycle a' = (if goes_offline t a \<and> ag_lifecycle a = Draining then ShutdownDone else ag_lifecycle a))) \<and>
    fst (fold (liveness_step t) rows acc) = fst acc @ map ag_id (filter (goes_offline t) rows)"
  using assms
proof (induction rows arbitrary: acc)
  case (Cons b rows)
  let ?acc = "liveness_step t b acc"
  have b: "agents (snd acc) (ag_id b) = Some b" "ag_last_heartbeat_at b \<noteq> None" "ag_lifecycle b \<noteq> ShutdownDone"
    using Cons.prems by auto
  note self = liveness_step_self[OF b, of t]
  have fresh: "ag_id b \<notin> set (map ag_id rows)" and dist: "distinct (map ag_id rows)"
    using Cons.prems by auto
  have rest: "agents (snd ?acc) (ag_id c) = Some c \<and> ag_last_heartbeat_at c \<noteq> None \<and> ag_lifecycle c \<noteq> ShutdownDone"
    if "c \<in> set rows" for c
  proof -
    have "ag_id c \<in> set (map ag_id rows)" using that by simp
    then have "ag_id c \<noteq> ag_id b" using fresh by metis
    then show ?thesis using that Cons.prems by (simp add: liveness_step_others)
  qed
  note IH = Cons.IH[of ?acc, OF dist rest]
  show ?case
  proof (cases "a = b")
    case True
    have "agents (snd (fold (liveness_step t) (b # rows) acc)) (ag_id b) = agents (snd ?acc) (ag_id b)"
      using liveness_fold_others[OF fresh, of t ?acc] by simp
    moreover have "fst (fold (liveness_step t) (b # rows) acc) = fst acc @ map ag_id (filter (goes_offline t) (b # rows))"
      using IH self(2) by simp
    ultimately show ?thesis using self(1) unfolding True by (simp only:) simp
  next
    case False
    then show ?thesis using IH self(2) by simp
  qed
qed simp

lemma liveness_sweep_spec:
  assumes "registry_ok s" and "compute_agent_liveness_transitions t s = (gone, s')"
    and "agents s i = Some a"
  shows "(\<exists>a'. agents s' i = Some a' \<and> ag_state a' = swept_state t a \<and>
      ag_lifecycle a' = (if i \<in> set gone \<and> ag_lifecycle a = Draining then ShutdownDone else ag_lifecycle a)) \<and>
    (i \<in> set gone \<longleftrightarrow> goes_offline t a)"
proof -
  let ?P = "\<lambda>a. ag_last_heartbeat_at a \<noteq> None \<and> ag_lifecycle a \<noteq> ShutdownDone"
  let ?rows = "select (agents s) (next_id s) ?P"
  have mem: "c \<in> set ?rows \<longleftrightarrow> agents s (ag_id c) = Some c \<and> ?P c" for c
    by (rule keyed_select_mem[OF registry_okD(1)[OF assms(1)]])
  have d: "distinct (map ag_id ?rows)" by (rule distinct_select[OF registry_okD(1)[OF assms(1)]])
  have run: "fold (liveness_step t) ?rows ([], s) = (gone, s')"
    using assms(2) by (simp add: compute_agent_liveness_transitions_def)
  have row: "agents (snd ([] :: uuid list, s)) (ag_id c) = Some c \<and> ag_last_heartbeat_at c \<noteq> None \<and> ag_lifecycle c \<noteq> ShutdownDone"
    if "c \<in> set ?rows" for c using that mem by simp
  have spec: "(c \<in> set ?rows \<longrightarrow> (\<exists>c'. agents s' (ag_id c) = Some c' \<and> ag_state c' = swept_state t c \<and>
      ag_lifecycle c' = (if goes_offline t c \<and> ag_lifecycle c = Draining then ShutdownDone else ag_lifecycle c))) \<and>
    gone = map ag_id (filter (goes_offline t) ?rows)" for c
    using liveness_fold_spec[OF d row, of c t] run by simp
  have id: "ag_id a = i" using keyed_rowsD[OF registry_okD(1)[OF assms(1)] assms(3)] by simp
  have gone: "gone = map ag_id (filter (goes_offline t) ?rows)" using spec[of a] by simp
  show ?thesis
  proof (cases "?P a")
    case True
    then have a: "a \<in> set ?rows" using mem assms(3) id by simp
    have "i \<in> set gone \<longleftrightarrow> goes_offline t a"
    proof
      assume "i \<in> set gone"
      then obtain c where c: "c \<in> set ?rows" "goes_offline t c" "ag_id c = i" unfolding gone by auto
      with mem have "c = a" using assms(3) by auto
      with c show "goes_offline t a" by simp
    next
      assume "goes_offline t a"
      with a show "i \<in> set gone" unfolding gone using id by force
    qed
    with spec[of a] a id show ?thesis by (auto simp: goes_offline_def)
  next
    case False
    have out: "i \<notin> set (map ag_id ?rows)"
    proof
      assume "i \<in> set (map ag_id ?rows)"
      then obtain c where "c \<in> set ?rows" "ag_id c = i" by auto
      with mem assms(3) have "?P a" by auto
      with False show False by simp
    qed
    have "agents s' i = Some a" using liveness_fold_others[OF out, of t "([], s)"] run assms(3) by simp
    moreover have "swept_state t a = ag_state a"
      using False by (auto simp: swept_state_def split: option.splits)
    moreover have "i \<notin> set gone" unfolding gone using out by auto
    ultimately show ?thesis using assms(3) by (auto simp: goes_offline_def)
  qed
qed


lemma liveness_sweep_known:
  fixes s :: "'a gateway_db_scheme"
  assumes "registry_ok s" and "compute_agent_liveness_transitions t s = (gone, s')" and "i \<in> set gone"
  shows "agents s i \<noteq> None"
proof
  assume none: "agents s i = None"
  let ?rows = "select (agents s) (next_id s) (\<lambda>a. ag_last_heartbeat_at a \<noteq> None \<and> ag_lifecycle a \<noteq> ShutdownDone)"
  have step: "set (fst (liveness_step t b acc)) \<subseteq> insert (ag_id b) (set (fst acc))"
    for b and acc :: "uuid list \<times> 'a gateway_db_scheme"
    by (cases acc) (simp add: liveness_step_def Let_def subset_insertI split: option.split)
  have "set (fst (fold (liveness_step t) rows acc)) \<subseteq> set (fst acc) \<union> ag_id ` set rows"
    for rows and acc :: "uuid list \<times> 'a gateway_db_scheme"
  proof (induction rows arbitrary: acc)
    case (Cons b rows)
    show ?case using Cons.IH[of "liveness_step t b acc"] step[of b acc] by auto
  qed simp
  from this[of ?rows "([], s)"] have "set gone \<subseteq> ag_id ` set ?rows"
    using assms(2) by (simp add: compute_agent_liveness_transitions_def)
  with assms(3) obtain a where a: "a \<in> set ?rows" "i = ag_id a" by blast
  from a(1) have "agents s (ag_id a) = Some a" using keyed_select_mem[OF registry_okD(1)[OF assms(1)]] by blast
  with none a(2) show False by simp
qed

text \<open>The liveness sweep, exactly. After a pass at time \<open>t\<close> every agent that has ever sent a heartbeat and has
  not been shut down is reachable, stale or offline by the age of its last heartbeat (up to sixty
  seconds, up to five minutes, beyond); nobody else's state moves; the pass reports exactly the agents it
  turned offline; and exactly those of them that were draining are settled as shut down.\<close>

theorem liveness_sweep_exact:
  assumes "agents_reachable env sts cfg s" and "compute_agent_liveness_transitions t s = (gone, s')"
    and "agents s i = Some a"
  shows "(\<exists>a'. agents s' i = Some a' \<and> ag_state a' = swept_state t a \<and>
      ag_lifecycle a' = (if i \<in> set gone \<and> ag_lifecycle a = Draining then ShutdownDone else ag_lifecycle a)) \<and>
    (i \<in> set gone \<longleftrightarrow> ag_state a \<noteq> Offline \<and> swept_state t a = Offline)"
  using liveness_sweep_spec[OF agents_reachable_ok[OF assms(1)] assms(2,3)] unfolding goes_offline_def .

text \<open>
  The sweep looks at the last heartbeat only: an agent that has just deregistered with a recent
  heartbeat is marked reachable again by the next pass.
\<close>

lemma disconnected_agent_revived:
  assumes "agents s i = Some a" and "ag_lifecycle a = Active" and "ag_last_heartbeat_at a = Some b" and "t - b \<le> 60"
  shows "\<exists>a'. agents (mark_agent_disconnected i org bid Active s) i = Some a' \<and> ag_state a' = Offline \<and>
    swept_state t a' = Reachable"
proof -
  have "agents (failsafe_agent_loss ids u) = agents u" for ids and u :: "'a workspace_db_scheme"
  proof -
    have "agents (fold expire_lost ws v) = agents v" for ws and v :: "'a workspace_db_scheme"
      by (rule fold_unchanged) (simp add: expire_lost_frame)
    moreover have "agents (fold (\<lambda>a s. snd (revoke_all_for_agent a ''agent_loss'' s)) ids v) = agents v"
      for v :: "'a workspace_db_scheme"
      by (rule fold_unchanged) (simp add: revoke_all_for_agent_def revoke_where_def Let_def)
    ultimately show ?thesis by (simp add: failsafe_agent_loss_def Let_def)
  qed
  then show ?thesis
    using assms by (simp add: mark_agent_disconnected_def mark_agent_offline_def upd_agent_def revoke_def revoke_where_def
        audit_def publish_general_after_commit_def Let_def swept_state_def liveness_of_age_def
        OFFLINE_THRESHOLD_SECONDS_def STALE_THRESHOLD_SECONDS_def)
qed

section \<open>A registered pod\<close>

definition sample_sts :: sts_env where
  "sample_sts = \<lparr>json_loads = (\<lambda>raw. Some (JObj [(''url'', JStr ''https://sts.amazonaws.com/''),
       (''headers'', JObj [(''Authorization'', JStr raw), (''X-Yaaos-Audience'', JStr ''yaaos'')]),
       (''body'', JStr REQUIRED_BODY)])),
     url_host = (\<lambda>_. Some (''sts.amazonaws.com'', None)),
     sts_post = (\<lambda>_ _ _. Some (200, ''<Arn>arn:aws:sts::012345678901:assumed-role/Agent/pod-1</Arn>''))\<rparr>"

definition sample_settings :: gateway_settings where
  "sample_settings = \<lparr>gs_dash0_endpoint = None, gs_dash0_token = None, gs_dash0_dataset = None,
     gs_environment = ''test'', gs_public_hostname = ''yaaos'', gs_sts_host_override = None\<rparr>"

definition sample_org_row :: org_row where
  "sample_org_row = \<lparr>og_id = 1, og_slug = ''acme'', og_display_name = ''Acme'', og_archived_at = None,
     og_session_timeout_override = None, og_vcs_plugin_id = None, og_vcs_settings = None,
     og_registered_iam_arn = Some ''arn:aws:iam::012345678901:role/agent'', og_aws_region = Some ''us-east-1'',
     og_workspace_max_count = 4, og_sso_enabled = False, og_sso_exempt_owner_user_id = None\<rparr>"

definition empty_registry :: coding_db where
  "empty_registry = sample_coding\<lparr>orgs := [1 \<mapsto> sample_org_row], commands := Map.empty, agents := Map.empty,
     bearers := Map.empty\<rparr>"

definition sample_request :: identity_request where
  "sample_request = \<lparr>iq_kind = ''aws-sts'', iq_agent_version = None, iq_os = None, iq_cpu_count = None,
     iq_memory_bytes = None, iq_payload = ''signed''\<rparr>"

definition sample_redis :: redis where "sample_redis = \<lparr>rd_keys = [], rd_windows = []\<rparr>"

definition sample_exchange :: "(exn + identity_response) \<times> redis \<times> coding_db" where
  "sample_exchange = exchange_identity sample_coding_env sample_sts sample_settings sample_request (Some ''10.0.0.1'')
     sample_redis empty_registry"

definition registered_pod :: coding_db where "registered_pod = snd (snd sample_exchange)"

lemma sample_exchange_reply:
  "fst sample_exchange = Inr \<lparr>ir_bearer = ''tttttt'', ir_expires_at = 3600, ir_renewal_after = 3300, ir_agent_id = 3,
     ir_instance_id = ''pod-1'', ir_org_id = 1\<rparr>"
  by code_simp

lemma sample_exchange_run:
  obtains rd where "exchange_identity sample_coding_env sample_sts sample_settings sample_request (Some ''10.0.0.1'')
     sample_redis empty_registry = (Inr \<lparr>ir_bearer = ''tttttt'', ir_expires_at = 3600, ir_renewal_after = 3300,
       ir_agent_id = 3, ir_instance_id = ''pod-1'', ir_org_id = 1\<rparr>, rd, registered_pod)"
  using sample_exchange_reply unfolding registered_pod_def sample_exchange_def by (metis prod.collapse)

lemma empty_registry_reachable: "agents_reachable sample_coding_env sample_sts sample_settings empty_registry"
  by (auto simp: agents_reachable_def empty_registry_def intro!: exI[of _ empty_registry])

lemma registered_pod_reachable: "agents_reachable sample_coding_env sample_sts sample_settings registered_pod"
proof (rule sample_exchange_run)
  fix rd
  assume "exchange_identity sample_coding_env sample_sts sample_settings sample_request (Some ''10.0.0.1'') sample_redis
    empty_registry = (Inr \<lparr>ir_bearer = ''tttttt'', ir_expires_at = 3600, ir_renewal_after = 3300,
       ir_agent_id = 3, ir_instance_id = ''pod-1'', ir_org_id = 1\<rparr>, rd, registered_pod)"
  then have "agent_step sample_coding_env sample_sts sample_settings empty_registry registered_pod" by (rule a_exchange)
  with empty_registry_reachable show ?thesis by (auto simp: agents_reachable_def intro: rtranclp.rtrancl_into_rtrancl)
qed

theorem exchange_round_trip_witness:
  "fst (verify sample_coding_env ''tttttt'' (registered_pod\<lparr>now := 3599\<rparr>)) \<noteq> None \<and>
   fst (verify sample_coding_env ''tttttt'' (registered_pod\<lparr>now := 3600\<rparr>)) = None"
proof (rule sample_exchange_run)
  fix rd
  assume run: "exchange_identity sample_coding_env sample_sts sample_settings sample_request (Some ''10.0.0.1'') sample_redis
    empty_registry = (Inr \<lparr>ir_bearer = ''tttttt'', ir_expires_at = 3600, ir_renewal_after = 3300,
       ir_agent_id = 3, ir_instance_id = ''pod-1'', ir_org_id = 1\<rparr>, rd, registered_pod)"
  show ?thesis using exchange_round_trip[OF empty_registry_reachable run] by simp
qed

theorem liveness_sweep_exact_witness:
  "\<exists>gone s'. compute_agent_liveness_transitions 1000 registered_pod = (gone, s') \<and> 3 \<in> set gone \<and>
     (\<exists>a. agents s' 3 = Some a \<and> ag_state a = Offline)"
proof -
  obtain gone s' where run: "compute_agent_liveness_transitions 1000 registered_pod = (gone, s')" by force
  have "map_option (\<lambda>a. (ag_state a, swept_state 1000 a)) (agents registered_pod 3) = Some (Reachable, Offline)"
    by code_simp
  then obtain a where a: "agents registered_pod 3 = Some a" "ag_state a = Reachable" "swept_state 1000 a = Offline" by auto
  from liveness_sweep_exact[OF registered_pod_reachable run a(1)] a run show ?thesis by auto
qed

definition draining_pod :: coding_db where
  "draining_pod = (case shutdown_agents sample_coding_env 1 [3] SystemActor registered_pod of
     Inr (_, s) \<Rightarrow> s | Inl _ \<Rightarrow> registered_pod)"

lemma draining_pod_step: "agent_step sample_coding_env sample_sts sample_settings registered_pod draining_pod"
proof -
  have "case shutdown_agents sample_coding_env 1 [3] SystemActor registered_pod of Inr _ \<Rightarrow> True | Inl _ \<Rightarrow> False"
    by code_simp
  then obtain rs s where "shutdown_agents sample_coding_env 1 [3] SystemActor registered_pod = Inr (rs, s)"
    by (auto split: sum.splits)
  then show ?thesis unfolding draining_pod_def by (auto intro: a_shutdown)
qed

theorem agent_lifecycle_witness:
  "\<exists>a a'. agents registered_pod 3 = Some a \<and> ag_lifecycle a = Unconfigured \<and> agents draining_pod 3 = Some a' \<and>
     ag_lifecycle a' = Draining \<and> ag_instance_id a' = ag_instance_id a"
proof -
  have a: "map_option ag_lifecycle (agents registered_pod 3) = Some Unconfigured" by code_simp
  then obtain a where a: "agents registered_pod 3 = Some a" "ag_lifecycle a = Unconfigured" by auto
  have "map_option ag_lifecycle (agents draining_pod 3) = Some Draining" by code_simp
  with agent_lifecycle[OF registered_pod_reachable draining_pod_step a(1)] a show ?thesis by auto
qed

theorem accepted_bearer_is_live_witness:
  "\<exists>ctx s b. verify sample_coding_env ''tttttt'' registered_pod = (Some ctx, s) \<and> bc_agent_id ctx = 3 \<and>
     bearers registered_pod (bc_bearer_id ctx) = Some b \<and> bt_revoked_at b = None"
proof -
  have "map_option bc_agent_id (fst (verify sample_coding_env ''tttttt'' registered_pod)) = Some 3" by code_simp
  then obtain ctx s where v: "verify sample_coding_env ''tttttt'' registered_pod = (Some ctx, s)" "bc_agent_id ctx = 3"
    by (cases "verify sample_coding_env ''tttttt'' registered_pod") auto
  with accepted_bearer_is_live[OF registered_pod_reachable] show ?thesis by blast
qed

definition foreign_event :: agent_event where "foreign_event = sample_event (Some ''x'')"

theorem foreign_reports_refused_witness:
  "\<exists>s1. post_workspace_event sample_coding_env (Some ''Bearer tttttt'') 2 2 1 WFailed registered_pod = Inr (403, None, s1) \<and>
     post_command_event sample_coding_env (Some ''Bearer tttttt'') 1 foreign_event registered_pod = Inr (403, None, s1)"
proof -
  obtain ctx s1 where v: "verify_bearer sample_coding_env (Some ''Bearer tttttt'') registered_pod = (ctx, s1)" by force
  have c: "map_option bc_agent_id (fst (verify_bearer sample_coding_env (Some ''Bearer tttttt'') registered_pod)) = Some 3"
    by code_simp
  have w: "owning_agent_for_workspace 2 (snd (verify_bearer sample_coding_env (Some ''Bearer tttttt'') registered_pod)) = Some 7"
    by code_simp
  have ow: "owning_agent_for_command 1 (snd (verify_bearer sample_coding_env (Some ''Bearer tttttt'') registered_pod)) = Inr (Some 7)"
    by code_simp
  from foreign_reports_refused[OF v, of 2 2 1 WFailed 1 foreign_event] c w ow v
  have "\<exists>code. post_workspace_event sample_coding_env (Some ''Bearer tttttt'') 2 2 1 WFailed registered_pod = Inr (code, None, s1)"
    "\<exists>code. post_command_event sample_coding_env (Some ''Bearer tttttt'') 1 foreign_event registered_pod = Inr (code, None, s1)"
    by auto
  moreover have "(case post_workspace_event sample_coding_env (Some ''Bearer tttttt'') 2 2 1 WFailed registered_pod of
      Inr (code, _) \<Rightarrow> code | Inl _ \<Rightarrow> 500) = 403"
    "(case post_command_event sample_coding_env (Some ''Bearer tttttt'') 1 foreign_event registered_pod of
      Inr (code, _) \<Rightarrow> code | Inl _ \<Rightarrow> 500) = 403"
    by code_simp+
  ultimately show ?thesis by auto
qed

theorem replay_refused_witness:
  "\<exists>rd. verify_identity sample_coding_env (sample_sts\<lparr>sts_post := (\<lambda>_ _ _. None)\<rparr>) sample_settings 500 ''signed'' rd =
     (Inl REPLAY_DETECTED, rd)"
proof -
  let ?v = "verify_identity sample_coding_env sample_sts sample_settings"
  obtain r rd1 where r: "?v 0 ''signed'' sample_redis = (r, rd1)" by force
  have "fst (?v 0 ''signed'' sample_redis) \<noteq> Inl REPLAY_DETECTED" by code_simp
  then have "r \<noteq> Inl REPLAY_DETECTED" using r by simp
  have "case parse_signed_request sample_sts sample_settings ''signed'' of Inr _ \<Rightarrow> True | _ \<Rightarrow> False"
    by code_simp
  then obtain x where "parse_signed_request sample_sts sample_settings ''signed'' = Inr x"
    by (auto split: sum.splits)
  from replay_refused[OF r \<open>r \<noteq> Inl REPLAY_DETECTED\<close> this this refl, of
      "[Envelope 10 ''other'', RateCheck 20 (Some ''10.0.0.1''), Envelope 30 ''garbage'']" 500 _ "\<lambda>_ _ _. None"]
  show ?thesis by auto
qed

theorem rate_limit_bound_witness:
  "\<exists>acc. window_race ''10.0.0.1'' 1 5 (snd (check_identity_exchange 5 (Some ''10.0.0.1'') sample_redis)) [] acc \<and>
     map fst acc = [5] \<and> length (filter (in_window 9) acc) \<le> 10"
proof -
  have start: "window_race ''10.0.0.1'' 1 0 sample_redis [] []"
    by (rule w_start) (simp add: sample_redis_def window_of_def)
  obtain ok rd where c: "check_identity_exchange 5 (Some ''10.0.0.1'') sample_redis = (ok, rd)" by force
  have "fst (check_identity_exchange 5 (Some ''10.0.0.1'') sample_redis)" by code_simp
  then have "ok" using c by simp
  then obtain acc where a: "window_race ''10.0.0.1'' 1 5 rd [] acc" "map fst acc = [5]"
    using conjunct2[OF rate_limit_bound[OF start disjI1[OF refl]], rule_format, of 5 ok rd] c by auto
  from rate_limit_bound[OF a(1), of 9] a c show ?thesis by auto
qed

end
