(* ===== verification/ReaperProps.thy ===== *)
theory ReaperProps
  imports AgentRegistry
begin

text \<open>
  The properties of the workspace reaper: which workspaces a pass expires, and that every expired
  workspace is destroyed, or given up on, within three passes.
\<close>

section \<open>Row by row\<close>

text \<open>A fold whose steps rewrite the row they are run for, and no other.\<close>

lemma fold_rows:
  assumes "distinct (map key rows)" and "I s"
    and step: "\<And>r u. I u \<Longrightarrow> I (g r u) \<and> tab (g r u) = (tab u)(key r := map_option (f r) (tab u (key r)))"
  shows "I (fold g rows s) \<and> (i \<notin> key ` set rows \<longrightarrow> tab (fold g rows s) i = tab s i) \<and>
    (r \<in> set rows \<longrightarrow> tab (fold g rows s) (key r) = map_option (f r) (tab s (key r)))"
  using assms(1,2)
proof (induction rows arbitrary: s i r)
  case (Cons q rows)
  have fresh: "key q \<notin> key ` set rows" "distinct (map key rows)" using Cons.prems(1) by auto
  note q = step[OF Cons.prems(2), of q]
  note here = Cons.IH[OF fresh(2), of "g q s"]
  have tl: "tab (fold g rows (g q s)) (key q) = map_option (f q) (tab s (key q))"
    using here[of "key q"] q fresh(1) by simp
  show ?case
  proof (cases "r = q")
    case True
    then show ?thesis using here[of i q] q tl by auto
  next
    case False
    have "key r \<noteq> key q" if "r \<in> set rows" using that fresh(1) by (metis image_eqI)
    then show ?thesis using here[of i r] q False by auto
  qed
qed simp


abbreviation keyed_ws :: "'a workspace_db_scheme \<Rightarrow> bool" where
  "keyed_ws s \<equiv> keyed_rows ws_id (next_id s) (workspaces s)"

lemma fold_selected:
  fixes s :: "'a workspace_db_scheme"
  assumes keyed: "keyed_ws s"
    and step: "\<And>r (u :: 'a workspace_db_scheme). next_id (g r u) = next_id u \<and> now (g r u) = now u \<and> agents (g r u) = agents u \<and>
      workspaces (g r u) = (workspaces u)(ws_id r := map_option f (workspaces u (ws_id r)))"
    and rows: "rows = select (workspaces s) (next_id s) P"
  shows "workspaces (fold g rows s) = (\<lambda>i. map_option (\<lambda>w. if P w then f w else w) (workspaces s i))"
    "next_id (fold g rows s) = next_id s" "now (fold g rows s) = now s" "agents (fold g rows s) = agents s"
proof -
  let ?I = "\<lambda>u :: 'a workspace_db_scheme. next_id u = next_id s \<and> now u = now s \<and> agents u = agents s"
  have d: "distinct (map ws_id rows)" unfolding rows using keyed by (rule distinct_select)
  have "?I (fold g rows s) \<and> (i \<notin> ws_id ` set rows \<longrightarrow> workspaces (fold g rows s) i = workspaces s i) \<and>
    (r \<in> set rows \<longrightarrow> workspaces (fold g rows s) (ws_id r) = map_option f (workspaces s (ws_id r)))" for i r
    by (rule fold_rows[OF d, where f = "\<lambda>_. f"]) (use step in auto)
  note spec = this
  show "next_id (fold g rows s) = next_id s" "now (fold g rows s) = now s" "agents (fold g rows s) = agents s"
    using spec by auto
  show "workspaces (fold g rows s) = (\<lambda>i. map_option (\<lambda>w. if P w then f w else w) (workspaces s i))"
  proof
    fix i
    show "workspaces (fold g rows s) i = map_option (\<lambda>w. if P w then f w else w) (workspaces s i)"
    proof (cases "\<exists>r \<in> set rows. ws_id r = i")
      case True
      then obtain r where r: "r \<in> set rows" "ws_id r = i" by blast
      then have "workspaces s i = Some r \<and> P r" using keyed_select_mem[OF keyed] unfolding rows by blast
      then show ?thesis using spec[of i r] r by simp
    next
      case False
      then have "i \<notin> ws_id ` set rows" by auto
      moreover have "\<not> P w" if "workspaces s i = Some w" for w
        using False that keyed_rowsD[OF keyed that] keyed_select_mem[OF keyed] unfolding rows by auto
      ultimately show ?thesis using spec[of i] by (cases "workspaces s i") auto
    qed
  qed
qed

section \<open>The sweep transaction\<close>

abbreviation expired :: "workspace_row \<Rightarrow> workspace_row" where
  "expired w \<equiv> w\<lparr>ws_status := WExpired\<rparr>"

lemma sweep_where_rows:
  fixes s :: "'a workspace_db_scheme"
  assumes "keyed_ws s"
  shows "workspaces (sweep_where P reason s) = (\<lambda>i. map_option (\<lambda>w. if P w then expired w else w) (workspaces s i))"
    "next_id (sweep_where P reason s) = next_id s" "now (sweep_where P reason s) = now s"
    "agents (sweep_where P reason s) = agents s"
  unfolding sweep_where_def
  by (rule fold_selected[OF assms _ refl, where f = expired], auto simp: expire_def audit_transition_def audit_def
      upd_workspace_def)+

abbreviation owned_by :: "uuid list \<Rightarrow> workspace_row \<Rightarrow> bool" where
  "owned_by ids w \<equiv> \<exists>a \<in> set ids. ws_owning_agent_id w = Some a"

lemma failsafe_rows:
  fixes s :: "'a workspace_db_scheme"
  assumes "keyed_ws s"
  shows "workspaces (failsafe_agent_loss ids s) =
      (\<lambda>i. map_option (\<lambda>w. if ws_status w = WActive \<and> owned_by ids w then expired w else w) (workspaces s i))"
    "next_id (failsafe_agent_loss ids s) = next_id s" "now (failsafe_agent_loss ids s) = now s"
proof -
  let ?P = "\<lambda>w. (case ws_owning_agent_id w of None \<Rightarrow> False | Some a \<Rightarrow> a \<in> set ids) \<and> ws_status w = WActive"
  have P: "?P w \<longleftrightarrow> ws_status w = WActive \<and> owned_by ids w" for w by (auto split: option.splits)
  let ?rows = "select (workspaces s) (next_id s) ?P"
  have r: "workspaces (fold (\<lambda>a s. snd (revoke_all_for_agent a ''agent_loss'' s)) xs u) = workspaces u"
    "next_id (fold (\<lambda>a s. snd (revoke_all_for_agent a ''agent_loss'' s)) xs u) = next_id u"
    "now (fold (\<lambda>a s. snd (revoke_all_for_agent a ''agent_loss'' s)) xs u) = now u"
    for xs and u :: "'a workspace_db_scheme"
    by (rule fold_unchanged, simp add: revoke_all_for_agent_def revoke_where_def Let_def)+
  have step: "next_id (expire_lost r u) = next_id u \<and> now (expire_lost r u) = now u \<and> agents (expire_lost r u) = agents u \<and>
      workspaces (expire_lost r u) = (workspaces u)(ws_id r := map_option expired (workspaces u (ws_id r)))"
    for r and u :: "'a workspace_db_scheme"
    by (auto simp: expire_lost_def Let_def audit_transition_def audit_def upd_workspace_def enqueue_agent_event_def
        enqueue_def split: option.splits)
  note spec = fold_selected[OF assms step refl, where P = ?P]
  have run: "failsafe_agent_loss ids s =
      fold (\<lambda>a s. snd (revoke_all_for_agent a ''agent_loss'' s)) ids (fold expire_lost ?rows s)"
    by (simp add: failsafe_agent_loss_def Let_def)
  show "workspaces (failsafe_agent_loss ids s) =
      (\<lambda>i. map_option (\<lambda>w. if ws_status w = WActive \<and> owned_by ids w then expired w else w) (workspaces s i))"
    unfolding run r(1) spec(1) by (simp only: P)
  show "next_id (failsafe_agent_loss ids s) = next_id s" "now (failsafe_agent_loss ids s) = now s"
    unfolding run by (simp_all only: r spec)
qed

lemma liveness_workspaces:
  fixes s :: "'a workspace_db_scheme"
  shows "workspaces (snd (compute_agent_liveness_transitions t s)) = workspaces s"
    "next_id (snd (compute_agent_liveness_transitions t s)) = next_id s"
    "now (snd (compute_agent_liveness_transitions t s)) = now s"
proof -
  have step: "workspaces (snd (liveness_step t a acc)) = workspaces (snd acc) \<and> next_id (snd (liveness_step t a acc)) =
      next_id (snd acc) \<and> now (snd (liveness_step t a acc)) = now (snd acc)" for a and acc :: "uuid list \<times> 'a workspace_db_scheme"
    by (auto simp: liveness_step_def Let_def upd_agent_def mark_agent_shutdown_complete_def revoke_all_for_agent_def
        revoke_where_def publish_general_after_commit_def audit_def split: prod.splits option.splits)
  show "workspaces (snd (compute_agent_liveness_transitions t s)) = workspaces s"
    "next_id (snd (compute_agent_liveness_transitions t s)) = next_id s"
    "now (snd (compute_agent_liveness_transitions t s)) = now s"
    unfolding compute_agent_liveness_transitions_def
    by (rule fold_unchanged[where g = "\<lambda>acc. workspaces (snd acc)", of _ _ "([], s)", simplified] 
        fold_unchanged[where g = "\<lambda>acc. next_id (snd acc)", of _ _ "([], s)", simplified]
        fold_unchanged[where g = "\<lambda>acc. now (snd acc)", of _ _ "([], s)", simplified], simp add: step)+
qed

lemma requeue_workspaces:
  fixes s :: "'a workspace_db_scheme"
  shows "workspaces (snd (requeue_stale_claimed s)) = workspaces s" "next_id (snd (requeue_stale_claimed s)) = next_id s"
    "now (snd (requeue_stale_claimed s)) = now s"
proof -
  have frame: "workspaces (fold (\<lambda>r. upd_command (cr_id r) f) rows t) = workspaces t \<and>
     next_id (fold (\<lambda>r. upd_command (cr_id r) f) rows t) = next_id t \<and>
     now (fold (\<lambda>r. upd_command (cr_id r) f) rows t) = now t" for f rows and t :: "'a workspace_db_scheme"
    by (induction rows arbitrary: t) (auto simp: upd_command_def)
  show "workspaces (snd (requeue_stale_claimed s)) = workspaces s" "next_id (snd (requeue_stale_claimed s)) = next_id s"
    "now (snd (requeue_stale_claimed s)) = now s"
    by (simp_all add: requeue_stale_claimed_def Let_def frame)
qed

definition swept :: "timestamp \<Rightarrow> uuid list \<Rightarrow> workspace_row \<Rightarrow> workspace_row" where
  "swept t gone w = (if over_budget t w \<or> idle t w \<or> ws_status w = WActive \<and> owned_by gone w then expired w else w)"

definition due :: "workspace_row \<Rightarrow> bool" where
  "due w \<longleftrightarrow> ws_status w = WExpired \<and> ws_destroy_attempts w < 3"

lemma sweep_transaction_rows:
  fixes s :: "'a workspace_db_scheme"
  assumes keyed: "keyed_ws s" and run: "sweep_transaction s = (rows, s')"
  defines "gone \<equiv> fst (compute_agent_liveness_transitions (now s)
      (sweep_where (idle (now s)) ''idle_timeout'' (sweep_where (over_budget (now s)) ''ttl_expired'' s)))"
  shows "workspaces s' = (\<lambda>i. map_option (swept (now s) gone) (workspaces s i))"
    "next_id s' = next_id s" "now s' = now s" "keyed_ws s'"
    "rows = take 50 (select (workspaces s') (next_id s) due)"
proof -
  let ?s1 = "sweep_where (over_budget (now s)) ''ttl_expired'' s"
  let ?s2 = "sweep_where (idle (now s)) ''idle_timeout'' ?s1"
  let ?c = "compute_agent_liveness_transitions (now s) ?s2"
  let ?s3 = "snd ?c"
  let ?s4 = "if gone \<noteq> [] then failsafe_agent_loss gone ?s3 else ?s3"
  note r1 = sweep_where_rows[OF keyed, of "over_budget (now s)" "''ttl_expired''"]
  have k1: "keyed_ws ?s1" using keyed unfolding r1 by (auto simp: keyed_rows_def)
  note r2 = sweep_where_rows[OF k1, of "idle (now s)" "''idle_timeout''"]
  have k2: "keyed_ws ?s2" using k1 unfolding r2 by (auto simp: keyed_rows_def)
  note r3 = liveness_workspaces[of "now s" ?s2]
  have k3: "keyed_ws ?s3" using k2 unfolding r3 .
  note r4 = failsafe_rows[OF k3, of gone]
  have w4: "workspaces ?s4 = (\<lambda>i. map_option (\<lambda>w. if ws_status w = WActive \<and> owned_by gone w then expired w else w)
      (workspaces ?s3 i))" "next_id ?s4 = next_id ?s3" "now ?s4 = now ?s3"
    using r4 by (auto simp: option.map_ident cong: option.map_cong)
  have s': "s' = snd (requeue_stale_claimed ?s4)"
    and rows: "rows = take 50 (select (workspaces s') (next_id s') due)"
    using run by (auto simp: sweep_transaction_def Let_def gone_def due_def[abs_def] split: prod.splits)
  have after: "workspaces s' = workspaces ?s4" unfolding s' by (rule requeue_workspaces)
  show ws: "workspaces s' = (\<lambda>i. map_option (swept (now s) gone) (workspaces s i))"
    unfolding after w4 r3 r2 r1
  proof
    fix i
    show "map_option (\<lambda>w. if ws_status w = WActive \<and> owned_by gone w then expired w else w)
        (map_option (\<lambda>w. if idle (now s) w then expired w else w)
          (map_option (\<lambda>w. if over_budget (now s) w then expired w else w) (workspaces s i))) =
      map_option (swept (now s) gone) (workspaces s i)"
    proof (cases "workspaces s i")
      case (Some w)
      then show ?thesis by (cases "over_budget (now s) w"; cases "idle (now s) w") 
        (simp_all add: swept_def over_budget_def idle_def)
    qed simp
  qed
  show n: "next_id s' = next_id s" and "now s' = now s"
    unfolding s' requeue_workspaces w4 r3 r2 r1 by simp_all
  show "keyed_ws s'" using keyed unfolding ws n by (auto simp: keyed_rows_def swept_def)
  show "rows = take 50 (select (workspaces s') (next_id s) due)" using rows n by simp
qed

section \<open>Destroying\<close>





section \<open>Every expired workspace is settled\<close>








text \<open>C36. What a sweep expires. In one pass at time \<open>now s\<close> a workspace that is active expires exactly
  if its time to live has run out, or it sits idle without a command for longer than its idle limit, or the
  liveness sweep of the same pass turns its owning agent offline; nothing else of its row changes, no other
  status moves, and at most fifty rows are handed to the providers, each of them expired and with an
  attempt left.\<close>

theorem sweep_expires_exactly:
  fixes s :: "'a coding_db_scheme"
  assumes "agents_reachable env sts cfg s" and "keyed_ws s" and "sweep_transaction s = (rows, s')"
    and "workspaces s i = Some w"
  shows "workspaces s' i = Some (if ws_status w = WActive \<and> (ws_expires_at w < now s \<or>
      (ws_current_command_id w = None \<and> (\<exists>a. ws_activated_at w = Some a \<and> ws_max_idle_seconds w < now s - a)) \<or>
      (\<exists>a b. ws_owning_agent_id w = Some a \<and> agents s a = Some b \<and> goes_offline (now s) b))
    then w\<lparr>ws_status := WExpired\<rparr> else w) \<and>
    length rows \<le> 50 \<and> (\<forall>r \<in> set rows. workspaces s' (ws_id r) = Some r \<and> due r)"
proof -
  let ?s1 = "sweep_where (over_budget (now s)) ''ttl_expired'' s"
  let ?s2 = "sweep_where (idle (now s)) ''idle_timeout'' ?s1"
  obtain gone s3 where l: "compute_agent_liveness_transitions (now s) ?s2 = (gone, s3)" by force
  note t = sweep_transaction_rows[OF assms(2,3), unfolded l fst_conv]
  have k1: "keyed_ws ?s1" using assms(2) unfolding sweep_where_rows[OF assms(2)] by (auto simp: keyed_rows_def)
  have ag: "agents ?s2 = agents s" using sweep_where_rows[OF k1] sweep_where_rows[OF assms(2)] by simp
  have "agents_move no_edge s ?s2" using sweep_where_moves agents_move_after by blast
  with agents_reachable_ok[OF assms(1)] have ok: "registry_ok ?s2" by (simp add: agents_move_def)
  have gone: "a \<in> set gone \<longleftrightarrow> (\<exists>b. agents s a = Some b \<and> goes_offline (now s) b)" for a
    using liveness_sweep_spec[OF ok l, of a] liveness_sweep_known[OF ok l, of a] unfolding ag by blast
  have "workspaces s' i = Some (swept (now s) gone w)" using t(1) assms(4) by simp
  moreover have "over_budget (now s) w \<or> idle (now s) w \<or> ws_status w = WActive \<and> owned_by gone w \<longleftrightarrow>
      ws_status w = WActive \<and> (ws_expires_at w < now s \<or>
      (ws_current_command_id w = None \<and> (\<exists>a. ws_activated_at w = Some a \<and> ws_max_idle_seconds w < now s - a)) \<or>
      (\<exists>a b. ws_owning_agent_id w = Some a \<and> agents s a = Some b \<and> goes_offline (now s) b))"
  proof -
    have "owned_by gone w \<longleftrightarrow> (\<exists>a b. ws_owning_agent_id w = Some a \<and> agents s a = Some b \<and> goes_offline (now s) b)"
      using gone by blast
    then show ?thesis unfolding over_budget_def idle_def by (cases "ws_activated_at w") auto
  qed
  moreover have "workspaces s' (ws_id r) = Some r \<and> due r" if "r \<in> set rows" for r
  proof -
    have k: "keyed_rows ws_id (next_id s) (workspaces s')" using t(4) unfolding t(2) .
    have "r \<in> set (select (workspaces s') (next_id s) due)"
      using that set_take_subset[of 50 "select (workspaces s') (next_id s) due"] unfolding t(5) by (rule rev_subsetD)
    then show ?thesis using keyed_select_mem[OF k] by blast
  qed
  ultimately show ?thesis using t(5) unfolding swept_def by simp
qed

theorem sweep_expires_exactly_witness:
  "\<exists>rows s'. sweep_transaction (empty_registry\<lparr>now := 700\<rparr>) = (rows, s') \<and>
     workspaces s' 2 = Some (sample_workspace_row\<lparr>ws_status := WExpired\<rparr>)"
proof -
  let ?s = "empty_registry\<lparr>now := 700\<rparr>"
  obtain rows s' where run: "sweep_transaction ?s = (rows, s')" by force
  have reach: "agents_reachable sample_coding_env sample_sts sample_settings ?s"
    by (auto simp: agents_reachable_def empty_registry_def intro!: exI[of _ ?s])
  have k: "keyed_ws ?s"
    by (simp add: empty_registry_def sample_coding_def sample_workspace_row_def keyed_rows_def)
  have w: "workspaces ?s 2 = Some sample_workspace_row" by (simp add: empty_registry_def sample_coding_def)
  from sweep_expires_exactly[OF reach k run w] run show ?thesis by (simp add: sample_workspace_row_def)
qed




end
