(* ===== verification/Cron.thy ===== *)
theory Cron
  imports Prelude
begin

text \<open>
  The five-field cron matcher of \<^verbatim>\<open>core/tasks/cron.py\<close>, and the parts of Python it rests on:
  \<^verbatim>\<open>str.split\<close>, \<^verbatim>\<open>int(...)\<close> on strings, \<^verbatim>\<open>range\<close> with a step, and the UTC calendar of
  \<^verbatim>\<open>datetime\<close> (instants are seconds since 1970-01-01T00:00:00Z).
\<close>

section \<open>Strings and integers\<close>

fun split_on :: "char \<Rightarrow> string \<Rightarrow> string list" where
  "split_on sep [] = [[]]"
| "split_on sep (c # cs) =
     (if c = sep then [] # split_on sep cs
      else (case split_on sep cs of [] \<Rightarrow> [[c]] | w # ws \<Rightarrow> (c # w) # ws))"

text \<open>\<^verbatim>\<open>s.split()\<close>: the maximal runs of non-space characters.\<close>

function words :: "string \<Rightarrow> string list" where
  "words s =
     (case dropWhile is_space s of
        [] \<Rightarrow> []
      | c # cs \<Rightarrow> (c # takeWhile (\<lambda>d. \<not> is_space d) cs) # words (dropWhile (\<lambda>d. \<not> is_space d) cs))"
  by pat_completeness auto

termination
proof (relation "measure length")
  fix s :: string and c cs
  assume "dropWhile is_space s = c # cs"
  then have "length (c # cs) \<le> length s" by (metis length_dropWhile_le)
  then show "(dropWhile (\<lambda>d. \<not> is_space d) cs, s) \<in> measure length"
    using length_dropWhile_le[of "\<lambda>d. \<not> is_space d" cs] by simp
qed simp

declare words.simps [simp del]

definition digit_value :: "char \<Rightarrow> int" where
  "digit_value c =
     (case map_of (zip ''0123456789'' [0, 1, 2, 3, 4, 5, 6, 7, 8, 9]) c of Some d \<Rightarrow> d | None \<Rightarrow> 0)"

text \<open>\<^verbatim>\<open>int(s)\<close>: blanks around, an optional sign, digits that single underscores may separate.\<close>

fun int_digits :: "int \<Rightarrow> string \<Rightarrow> int option" where
  "int_digits acc [] = None"
| "int_digits acc (c # cs) =
     (if \<not> is_digit c then None
      else case cs of
        [] \<Rightarrow> Some (acc * 10 + digit_value c)
      | d # ds \<Rightarrow>
          if d = CHR ''_'' then int_digits (acc * 10 + digit_value c) ds
          else int_digits (acc * 10 + digit_value c) cs)"

definition py_int :: "string \<Rightarrow> int res" where
  "py_int s =
     (let t = strip s in
      require (case t of
                 [] \<Rightarrow> None
               | c # cs \<Rightarrow>
                   if c = CHR ''-'' then map_option uminus (int_digits 0 cs)
                   else if c = CHR ''+'' then int_digits 0 cs else int_digits 0 t)
        (ValueError ''invalid literal for int()''))"

text \<open>\<^verbatim>\<open>str(n)\<close> and \<^verbatim>\<open>f"{n:0k}"\<close>.\<close>

fun dec :: "nat \<Rightarrow> string" where
  "dec n = (if n < 10 then [''0123456789'' ! n] else dec (n div 10) @ [''0123456789'' ! (n mod 10)])"

declare dec.simps [simp del]

definition zero_pad :: "nat \<Rightarrow> nat \<Rightarrow> string" where
  "zero_pad k n = replicate (k - length (dec n)) (CHR ''0'') @ dec n"

text \<open>\<^verbatim>\<open>s.split(sep, 1)\<close> on a string that contains the separator.\<close>

definition split_once :: "char \<Rightarrow> string \<Rightarrow> string \<times> string" where
  "split_once sep s = (takeWhile (\<lambda>c. c \<noteq> sep) s, tl (dropWhile (\<lambda>c. c \<noteq> sep) s))"

definition int_range :: "int \<Rightarrow> int \<Rightarrow> int \<Rightarrow> int list" where
  "int_range start stop step = map (\<lambda>k. start + int k * step) [0..<nat ((stop - 1 - start) div step + 1)]"

section \<open>Expressions\<close>

definition parse_part :: "string \<Rightarrow> int \<Rightarrow> int \<Rightarrow> int list res" where
  "parse_part part lo hi =
     ebind (if CHR ''/'' \<in> set part
            then ebind (py_int (snd (split_once (CHR ''/'') part))) (\<lambda>step.
                 ebind (guard (0 < step) (ValueError ''cron step must be positive'')) (\<lambda>_.
                 Inr (fst (split_once (CHR ''/'') part), step)))
            else Inr (part, 1)) (\<lambda>(base, step).
     if base = ''*'' \<or> CHR ''-'' \<in> set base
     then ebind (if base = ''*'' then Inr (lo, hi)
                 else ebind (py_int (fst (split_once (CHR ''-'') base))) (\<lambda>start.
                      ebind (py_int (snd (split_once (CHR ''-'') base))) (\<lambda>end'.
                      Inr (start, end')))) (\<lambda>(start, end').
          if start < lo \<or> hi < end' \<or> end' < start
          then Inl (ValueError ''cron range out of bounds or inverted'')
          else Inr (int_range start (end' + 1) step))
     else ebind (py_int base) (\<lambda>v.
          if v < lo \<or> hi < v then Inl (ValueError ''cron value out of range'') else Inr [v]))"

fun parse_parts :: "string list \<Rightarrow> int \<Rightarrow> int \<Rightarrow> int list res" where
  "parse_parts [] lo hi = Inr []"
| "parse_parts (p # ps) lo hi =
     ebind (parse_part p lo hi) (\<lambda>vs. ebind (parse_parts ps lo hi) (\<lambda>ws. Inr (vs @ ws)))"

definition parse_field :: "string \<Rightarrow> int \<Rightarrow> int \<Rightarrow> int list res" where
  "parse_field field lo hi =
     ebind (guard (field \<noteq> []) (ValueError ''empty cron field'')) (\<lambda>_.
     parse_parts (split_on (CHR '','') field) lo hi)"

record cron_expr =
  cx_minute :: "int list"
  cx_hour :: "int list"
  cx_dom :: "int list"
  cx_month :: "int list"
  cx_dow :: "int list"

definition parse_cron :: "string \<Rightarrow> cron_expr res" where
  "parse_cron expr =
     (case words expr of
        [f0, f1, f2, f3, f4] \<Rightarrow>
          ebind (parse_field f0 0 59) (\<lambda>minute.
          ebind (parse_field f1 0 23) (\<lambda>hour.
          ebind (parse_field f2 1 31) (\<lambda>dom.
          ebind (parse_field f3 1 12) (\<lambda>month.
          ebind (parse_field f4 0 6) (\<lambda>dow.
          Inr \<lparr>cx_minute = minute, cx_hour = hour, cx_dom = dom, cx_month = month, cx_dow = dow\<rparr>)))))
      | _ \<Rightarrow> Inl (ValueError ''cron expression must have 5 fields''))"

section \<open>The calendar\<close>

record datetime =
  dt_year :: int
  dt_month :: int
  dt_day :: int
  dt_hour :: int
  dt_minute :: int
  dt_second :: int

text \<open>
  Days since the epoch to a Gregorian date, by 400-year eras of 146097 days that start on the first
  of March.
\<close>

definition date_of_days :: "int \<Rightarrow> int \<times> int \<times> int" where
  "date_of_days days =
     (let z = days + 719468; era = z div 146097; doe = z mod 146097;
          yoe = (doe - doe div 1460 + doe div 36524 - doe div 146096) div 365;
          doy = doe - (365 * yoe + yoe div 4 - yoe div 100);
          mp = (5 * doy + 2) div 153; day = doy - (153 * mp + 2) div 5 + 1;
          month = (if mp < 10 then mp + 3 else mp - 9);
          year = yoe + era * 400 + (if month \<le> 2 then 1 else 0)
      in (year, month, day))"

definition datetime_of :: "timestamp \<Rightarrow> datetime" where
  "datetime_of t =
     (let days = t div 86400; sod = t mod 86400 in
      case date_of_days days of (y, m, d) \<Rightarrow>
        \<lparr>dt_year = y, dt_month = m, dt_day = d, dt_hour = sod div 3600,
         dt_minute = sod mod 3600 div 60, dt_second = sod mod 60\<rparr>)"

text \<open>\<^verbatim>\<open>isoformat()\<close> of a UTC datetime without microseconds.\<close>

definition isoformat :: "timestamp \<Rightarrow> string" where
  "isoformat t =
     (let d = datetime_of t; p = (\<lambda>k n. zero_pad k (nat n)) in
      p 4 (dt_year d) @ ''-'' @ p 2 (dt_month d) @ ''-'' @ p 2 (dt_day d) @ ''T'' @
      p 2 (dt_hour d) @ '':'' @ p 2 (dt_minute d) @ '':'' @ p 2 (dt_second d) @ ''+00:00'')"

text \<open>\<^verbatim>\<open>datetime.weekday()\<close>: Monday is 0; the epoch fell on a Thursday.\<close>

definition weekday :: "timestamp \<Rightarrow> int" where
  "weekday t = (t div 86400 + 3) mod 7"

definition python_weekday_to_cron_dow :: "int \<Rightarrow> int" where
  "python_weekday_to_cron_dow py_weekday = (py_weekday + 1) mod 7"

definition floor_to_minute :: "timestamp \<Rightarrow> timestamp" where
  "floor_to_minute t = t - t mod 60"

definition next_minute :: "timestamp \<Rightarrow> timestamp" where
  "next_minute t = floor_to_minute t + 60"

definition matches :: "cron_expr \<Rightarrow> timestamp \<Rightarrow> bool" where
  "matches c t \<longleftrightarrow>
     (let dt = datetime_of t in
      dt_minute dt \<in> set (cx_minute c) \<and> dt_hour dt \<in> set (cx_hour c) \<and> dt_day dt \<in> set (cx_dom c) \<and>
      dt_month dt \<in> set (cx_month c) \<and> python_weekday_to_cron_dow (weekday t) \<in> set (cx_dow c))"

end
