(* ===== verification/Repos.thy ===== *)
theory Repos
  imports PipelineService Cron "HOL-Library.List_Lexorder" "HOL-Library.Char_ord"
begin

text \<open>
  Repository configuration and scheduled pipelines: the settings and trigger bindings of
  \<^verbatim>\<open>domain/repos/service.py\<close> and the minute tick of \<^verbatim>\<open>domain/pipelines/scheduler_jobs.py\<close> that fires
  due schedule bindings.

  Parameters (\<open>repos_env\<close>): the registered intake points with their kinds, the registered VCS plugins
  and their accessibility check, \<^verbatim>\<open>pathspec\<close>'s verdict on a glob, pydantic's verdict on the auto-approve
  conditions, and the hexadecimal form of an id.
\<close>

record repos_env = engine_env +
  intake_points :: "(string \<times> string) list"
  vcs_plugin_ids :: "string list"
  is_repo_accessible :: "string \<Rightarrow> uuid \<Rightarrow> string \<Rightarrow> bool res"
  glob_compiles :: "string \<Rightarrow> bool"
  conditions_valid :: "payload \<Rightarrow> bool"
  uuid_hex :: "uuid \<Rightarrow> string"

section \<open>Settings\<close>

fun validate_path_sets :: "(string \<Rightarrow> bool) \<Rightarrow> protected_path_set list \<Rightarrow> unit res" where
  "validate_path_sets ok [] = Inr ()"
| "validate_path_sets ok (ps # rest) =
     (case find (\<lambda>g. \<not> ok g) (ps_globs ps) of
        Some g \<Rightarrow> Inl (InvalidProtectedGlobError g)
      | None \<Rightarrow> validate_path_sets ok rest)"

definition mode_str :: "protected_mode \<Rightarrow> string" where
  "mode_str m = (case m of Allow \<Rightarrow> ''allow'' | Deny \<Rightarrow> ''deny'')"

definition put_settings ::
  "'e repos_env_scheme \<Rightarrow> uuid \<Rightarrow> string \<Rightarrow> repo_settings \<Rightarrow> actor \<Rightarrow> pipelines_db \<Rightarrow> pipelines_db res" where
  "put_settings env org_id repo_external_id settings act s =
     ebind (validate_path_sets (glob_compiles env) (rs_protected_path_sets settings)) (\<lambda>_.
     ebind (guard (conditions_valid env (rs_auto_approve_conditions settings))
              (ValueError ''auto_approve_conditions'')) (\<lambda>_.
     let row = repo_settings.extend settings (repo_settings_row.fields (actor_user_id act));
         s1 = s\<lparr>repo_settings_rows := AList.update (org_id, repo_external_id) row (repo_settings_rows s)\<rparr>
     in Inr (audit ''repo_settings'' org_id ''repo.settings_updated''
               (JObj [(''repo_external_id'', JStr repo_external_id),
                      (''protected_mode'', JStr (mode_str (rs_protected_mode settings))),
                      (''protected_path_set_count'', JNum (int (length (rs_protected_path_sets settings)))),
                      (''auto_approve_enabled'', JBool (rs_auto_approve_enabled settings))])
               act org_id s1)))"

record repo_config_summary =
  rc_repo_external_id :: string
  rc_configured :: bool
  rc_trigger_count :: nat
  rc_has_protected_code :: bool
  rc_auto_approve_enabled :: bool

definition bindings_of_org :: "uuid \<Rightarrow> pipelines_db \<Rightarrow> binding_row list" where
  "bindings_of_org org_id s = select (bindings s) (next_id s) (\<lambda>b. bg_org_id b = org_id)"

definition repo_config :: "uuid \<Rightarrow> pipelines_db \<Rightarrow> string \<Rightarrow> repo_config_summary" where
  "repo_config org_id s repo =
     (let row = map_of (repo_settings_rows s) (org_id, repo) in
      \<lparr>rc_repo_external_id = repo, rc_configured = (row \<noteq> None),
       rc_trigger_count = length (filter (\<lambda>b. bg_repo_external_id b = repo) (bindings_of_org org_id s)),
       rc_has_protected_code =
         (case row of None \<Rightarrow> False
          | Some r \<Rightarrow> rs_protected_mode r = Allow \<or> rs_protected_path_sets r \<noteq> []),
       rc_auto_approve_enabled = (case row of None \<Rightarrow> False | Some r \<Rightarrow> rs_auto_approve_enabled r)\<rparr>)"

definition list_repo_configs :: "uuid \<Rightarrow> pipelines_db \<Rightarrow> repo_config_summary list" where
  "list_repo_configs org_id s =
     (let configured = map (\<lambda>((o', repo), _). repo) (filter (\<lambda>((o', repo), _). o' = org_id) (repo_settings_rows s));
          bound = map bg_repo_external_id (bindings_of_org org_id s)
      in map (repo_config org_id s) (sort (remdups (bound @ configured))))"

section \<open>Trigger bindings\<close>

definition validate_schedule :: "string \<Rightarrow> schedule option \<Rightarrow> uuid list \<Rightarrow> unit res" where
  "validate_schedule point_kind schedule member_ids =
     (if point_kind = ''schedule'' then
        (case schedule of
           None \<Rightarrow> Inl (InvalidScheduleError ''schedule is required for a schedule-kind intake point'')
         | Some sc \<Rightarrow>
             if sc_notify_user_ids sc = []
             then Inl (InvalidScheduleError ''schedule requires at least one notify_user_id'')
             else if filter (\<lambda>u. u \<notin> set member_ids) (sc_notify_user_ids sc) \<noteq> []
             then Inl (InvalidScheduleError ''notify_user_ids not in org membership'')
             else (case parse_cron (sc_cron sc) of
                     Inl _ \<Rightarrow> Inl (InvalidCronError (sc_cron sc))
                   | Inr _ \<Rightarrow> Inr ()))
      else if schedule \<noteq> None
      then Inl (InvalidScheduleError ''schedule is only valid for a schedule-kind intake point'')
      else Inr ())"

definition lookup_pipeline_ref :: "uuid \<Rightarrow> pipelines_db \<Rightarrow> (uuid \<times> string) option" where
  "lookup_pipeline_ref pipeline_id s =
     map_option (\<lambda>row. (pi_org_id row, pd_name (pi_definition row))) (map_of (pipelines s) pipeline_id)"

record trigger_binding_spec =
  bs_intake_point_id :: string
  bs_pipeline_id :: uuid
  bs_schedule :: "schedule option"

definition insert_binding ::
  "uuid \<Rightarrow> string \<Rightarrow> trigger_binding_spec \<Rightarrow> actor \<Rightarrow> uuid option \<Rightarrow> pipelines_db \<Rightarrow> uuid \<times> pipelines_db" where
  "insert_binding org_id repo spec act created_by s =
     (case fresh s of (i, s1) \<Rightarrow>
        (i, audit ''repo_trigger_binding'' i ''repo.trigger_added''
              (JObj [(''repo_external_id'', JStr repo), (''intake_point_id'', JStr (bs_intake_point_id spec)),
                     (''pipeline_id'', JId (bs_pipeline_id spec))]) act org_id
              (s1\<lparr>bindings := (bindings s1)(i \<mapsto>
                 \<lparr>bg_id = i, bg_org_id = org_id, bg_repo_external_id = repo,
                  bg_intake_point_id = bs_intake_point_id spec, bg_pipeline_id = bs_pipeline_id spec,
                  bg_schedule = bs_schedule spec, bg_created_by = created_by\<rparr>)\<rparr>)))"

definition add_binding ::
  "'e repos_env_scheme \<Rightarrow> uuid \<Rightarrow> string \<Rightarrow> trigger_binding_spec \<Rightarrow> actor \<Rightarrow> uuid option \<Rightarrow> pipelines_db \<Rightarrow>
   (uuid \<times> pipelines_db) res" where
  "add_binding env org_id repo spec act created_by s =
     ebind (require (map_of (intake_points env) (bs_intake_point_id spec))
              (UnknownIntakePointError (bs_intake_point_id spec))) (\<lambda>kind.
     ebind (validate_schedule kind (bs_schedule spec)
              (if kind = ''schedule'' then list_active_member_ids org_id s else [])) (\<lambda>_.
     ebind (guard (case lookup_pipeline_ref (bs_pipeline_id spec) s of
                     None \<Rightarrow> False | Some (o', _) \<Rightarrow> o' = org_id)
              (UnknownPipelineError (bs_pipeline_id spec))) (\<lambda>_.
     ebind (if kind = ''schedule'' then Inr None
            else one_or_none (select (bindings s) (next_id s)
                   (\<lambda>b. bg_org_id b = org_id \<and> bg_repo_external_id b = repo \<and>
                        bg_intake_point_id b = bs_intake_point_id spec \<and> bg_schedule b = None))) (\<lambda>existing.
     ebind (guard (existing = None) (DuplicateBindingError (bs_intake_point_id spec))) (\<lambda>_.
     Inr (insert_binding org_id repo spec act created_by s))))))"

text \<open>The organisation comes from the request context.\<close>

definition remove_binding :: "uuid \<Rightarrow> uuid \<Rightarrow> actor \<Rightarrow> pipelines_db \<Rightarrow> pipelines_db res" where
  "remove_binding org_id binding_id act s =
     (case bindings s binding_id of
        None \<Rightarrow> Inl (BindingNotFoundError binding_id)
      | Some row \<Rightarrow>
          if bg_org_id row \<noteq> org_id then Inl (BindingNotFoundError binding_id)
          else Inr (audit ''repo_trigger_binding'' binding_id ''repo.trigger_removed''
                 (JObj [(''repo_external_id'', JStr (bg_repo_external_id row)),
                        (''intake_point_id'', JStr (bg_intake_point_id row))]) act org_id
                 (s\<lparr>bindings := (bindings s)(binding_id := None)\<rparr>)))"

record trigger_binding =
  tb_id :: uuid
  tb_repo_external_id :: string
  tb_intake_point_id :: string
  tb_pipeline_id :: uuid
  tb_pipeline_name :: string
  tb_schedule :: "schedule option"
  tb_created_by :: "uuid option"

definition to_trigger_binding :: "pipelines_db \<Rightarrow> binding_row \<Rightarrow> trigger_binding" where
  "to_trigger_binding s row =
     \<lparr>tb_id = bg_id row, tb_repo_external_id = bg_repo_external_id row, tb_intake_point_id = bg_intake_point_id row,
      tb_pipeline_id = bg_pipeline_id row,
      tb_pipeline_name = (case lookup_pipeline_ref (bg_pipeline_id row) s of Some (_, name) \<Rightarrow> name | None \<Rightarrow> []),
      tb_schedule = bg_schedule row, tb_created_by = bg_created_by row\<rparr>"

definition find_bindings :: "uuid \<Rightarrow> string \<Rightarrow> string \<Rightarrow> pipelines_db \<Rightarrow> trigger_binding list" where
  "find_bindings org_id repo intake_point_id s =
     map (to_trigger_binding s)
       (select (bindings s) (next_id s)
          (\<lambda>b. bg_org_id b = org_id \<and> bg_repo_external_id b = repo \<and> bg_intake_point_id b = intake_point_id))"

section \<open>The schedule tick\<close>

record due_fire =
  df_org_id :: uuid
  df_binding :: trigger_binding
  df_fire_time :: timestamp

definition due_at :: "timestamp \<Rightarrow> binding_row \<Rightarrow> bool" where
  "due_at slot row \<longleftrightarrow>
     (case bg_schedule row of None \<Rightarrow> False
      | Some sc \<Rightarrow> (case parse_cron (sc_cron sc) of Inl _ \<Rightarrow> False | Inr cron \<Rightarrow> matches cron slot))"

definition list_due_schedule_bindings :: "timestamp \<Rightarrow> pipelines_db \<Rightarrow> due_fire list" where
  "list_due_schedule_bindings t s =
     (let slot = floor_to_minute t in
      map (\<lambda>row. \<lparr>df_org_id = bg_org_id row, df_binding = to_trigger_binding s row, df_fire_time = slot\<rparr>)
        (select (bindings s) (next_id s) (due_at slot)))"

text \<open>The first registered plugin that can reach the repository; with one plugin nobody is asked.\<close>

fun first_accessible :: "(string \<Rightarrow> bool res) \<Rightarrow> string list \<Rightarrow> string option res" where
  "first_accessible accessible [] = Inr None"
| "first_accessible accessible (p # ps) =
     ebind (accessible p) (\<lambda>ok. if ok then Inr (Some p) else first_accessible accessible ps)"

definition resolve_plugin_id :: "'e repos_env_scheme \<Rightarrow> uuid \<Rightarrow> string \<Rightarrow> string res" where
  "resolve_plugin_id env org_id repo =
     (if length (vcs_plugin_ids env) = 1 then Inr (hd (vcs_plugin_ids env))
      else ebind (first_accessible (\<lambda>p. is_repo_accessible env p org_id repo) (vcs_plugin_ids env)) (\<lambda>found.
        case found of Some p \<Rightarrow> Inr p | None \<Rightarrow> require (first_row (vcs_plugin_ids env)) IndexError))"

definition source_key :: "'e repos_env_scheme \<Rightarrow> due_fire \<Rightarrow> string" where
  "source_key env fire = uuid_str env (tb_id (df_binding fire)) @ '':'' @ isoformat (df_fire_time fire)"

text \<open>One firing, one transaction: the ticket and its run, or nothing.\<close>

definition fire_one :: "'e repos_env_scheme \<Rightarrow> due_fire \<Rightarrow> pipelines_db \<Rightarrow> pipelines_db res" where
  "fire_one env fire s =
     (let b = df_binding fire in
      ebind (require (tb_schedule b) AssertionError) (\<lambda>sc.
      ebind (resolve_plugin_id env (df_org_id fire) (tb_repo_external_id b)) (\<lambda>plugin_id.
      ebind (create_from_schedule (uuid_hex env) (df_org_id fire) (source_key env fire) (sc_name sc)
               (tb_repo_external_id b) plugin_id s) (\<lambda>((ticket_id, created), s1).
      if \<not> created then Inr s1
      else ebind (start_run (df_org_id fire) ticket_id (tb_pipeline_id b)
                    \<lparr>ko_intake_point_id = ''schedule'', ko_actor = SystemActor, ko_input_text = sc_kickoff_input sc,
                     ko_pr_base_sha = None, ko_pr_head_sha = None, ko_notify_user_ids = sc_notify_user_ids sc,
                     ko_revision = None\<rparr>
                    (tb_created_by b) s1) (\<lambda>(_, s2). Inr s2)))))"

text \<open>The tick: a firing that raises is logged, its transaction rolled back, and the others go on.\<close>

definition tick_one ::
  "'e repos_env_scheme \<Rightarrow> due_fire \<Rightarrow> uuid list \<times> pipelines_db \<Rightarrow> uuid list \<times> pipelines_db" where
  "tick_one env fire acc =
     (case fire_one env fire (snd acc) of
        Inr s \<Rightarrow> (fst acc, s)
      | Inl _ \<Rightarrow> (fst acc @ [tb_id (df_binding fire)], snd acc))"

definition pipeline_schedule_tick ::
  "'e repos_env_scheme \<Rightarrow> timestamp \<Rightarrow> pipelines_db \<Rightarrow> uuid list \<times> pipelines_db" where
  "pipeline_schedule_tick env t s = fold (tick_one env) (list_due_schedule_bindings t s) ([], s)"

end
