(* ===== verification/ReposProps.thy ===== *)
theory ReposProps
  imports Repos Samples
begin

text \<open>
  The properties of repository configuration and of the schedule tick: trigger bindings stay usable, a
  due binding fires, and each of its slots fires once.
\<close>

section \<open>What starting a run leaves alone\<close>

definition keeps :: "pipelines_db \<Rightarrow> pipelines_db \<Rightarrow> bool" where
  "keeps s s' \<longleftrightarrow> bindings s' = bindings s \<and> pipelines s' = pipelines s \<and>
     memberships s' = memberships s \<and> next_id s \<le> next_id s' \<and> (tickets_ok s \<longrightarrow> tickets_move s s')"

lemma keeps_refl [simp]: "keeps s s"
  by (simp add: keeps_def tickets_move_refl)

lemma keeps_trans: "keeps s t \<Longrightarrow> keeps t u \<Longrightarrow> keeps s u"
  unfolding keeps_def using tickets_move_trans[of s t u] by (auto simp: tickets_move_def[of s t])

lemma keeps_frame:
  assumes "bindings s' = bindings s" "pipelines s' = pipelines s"
    "memberships s' = memberships s" "next_id s \<le> next_id s'" "tickets s' = tickets s"
  shows "keeps s s'"
proof -
  have "tickets_ok s'" if "tickets_ok s"
    using that assms(4,5) keyed_rows_mono[of tk_id "next_id s" "tickets s" "next_id s'"] by (simp add: tickets_ok_def)
  with assms show ?thesis by (auto simp: keeps_def tickets_move_def)
qed

lemma keeps_ticket_step:
  assumes "ticket_step s s'" "bindings s' = bindings s"
    "pipelines s' = pipelines s" "memberships s' = memberships s" "next_id s \<le> next_id s'"
  shows "keeps s s'"
  using assms ticket_step_moves[OF assms(1)] by (simp add: keeps_def)

lemma writers_keep:
  "bindings (notify_ticket_status_change i org st prev s) = bindings s"
  "pipelines (notify_ticket_status_change i org st prev s) = pipelines s"
  "memberships (notify_ticket_status_change i org st prev s) = memberships s"
  "bindings (audit ek ei k p a org s) = bindings s"
  "pipelines (audit ek ei k p a org s) = pipelines s" "tickets (audit ek ei k p a org s) = tickets s"
  "bindings (upd_ticket i f s) = bindings s"
  "pipelines (upd_ticket i f s) = pipelines s" "memberships (upd_ticket i f s) = memberships s"
  by (simp_all add: notify_ticket_status_change_def publish_general_after_commit_def enqueue_def audit_def
      upd_ticket_def Let_def)

lemma apply_transition_keep:
  "bindings (apply_transition row st reason org s) = bindings s"
  "pipelines (apply_transition row st reason org s) = pipelines s"
  "memberships (apply_transition row st reason org s) = memberships s"
  by (simp_all add: apply_transition_def audit_for_ticket_def audit_def Let_def writers_keep)

lemma promotion_keeps: "keeps s (snd (attempt_promotion rid s))"
proof (cases "r_state (run_of s rid) = Queued \<and> \<not> slot_taken (r_ticket_id (run_of s rid)) s")
  case True
  let ?r = "run_of s rid"
  let ?s1 = "upd_run rid (\<lambda>r. r\<lparr>r_state := Running\<rparr>) s"
  let ?s2 = "set_current_run (r_ticket_id ?r) rid ?s1"
  let ?s3 = "snd (transition_ticket_on_run_start (r_ticket_id ?r) (r_org_id ?r) rid ?s2)"
  have k1: "keeps s ?s1" by (rule keeps_frame) (simp_all add: upd_run_def)
  have k2: "keeps ?s1 ?s2" by (rule keeps_ticket_step[OF t_current]) (simp_all add: set_current_run_def upd_ticket_def)
  have k3: "keeps ?s2 ?s3"
    by (rule keeps_ticket_step[OF t_start])
      (simp_all add: transition_ticket_on_run_start_def apply_transition_keep split: option.splits)
  have k4: "keeps ?s3 (snd (attempt_promotion rid s))"
    by (rule keeps_frame) (use True in \<open>simp_all add: attempt_promotion_def Let_def publish_run_state_def
      publish_general_after_commit_def enqueue_def audit_def\<close>)
  show ?thesis using keeps_trans[OF k1 keeps_trans[OF k2 keeps_trans[OF k3 k4]]] .
qed (auto simp: attempt_promotion_def Let_def)

lemma start_run_keeps:
  assumes "start_run org t pid ko u s = Inr (rid, s')"
  shows "keeps s s'"
  using assms unfolding start_run_def Let_def ebind_eq_Inr require_eq
proof (elim exE conjE, goal_cases)
  case (1 d xs p)
  then obtain rid0 s1 where ins: "insert_run org t (Some pid) (pd_name d) xs None ko u s = Inr (rid0, s1)"
    and s': "s' = snd (attempt_promotion rid0 s1)" by (cases p) auto
  have "keeps s s1" using ins by (intro keeps_frame) (auto simp: insert_run_def fresh_def split: if_splits)
  with promotion_keeps keeps_trans show ?case unfolding s' by blast
qed

lemma announce_keep:
  "bindings (announce_created hex nt i s) = bindings s"
  "pipelines (announce_created hex nt i s) = pipelines s"
  "memberships (announce_created hex nt i s) = memberships s"
  "next_id (announce_created hex nt i s) = next_id s"
  by (simp_all add: announce_created_def Let_def audit_for_ticket_def audit_def writers_keep)

lemma create_from_schedule_keeps:
  assumes "create_from_schedule hex org ext title repo plugin s = Inr (res, s')"
  shows "keeps s s'"
proof (rule keeps_ticket_step[OF t_create_schedule[OF assms]])
  show "bindings s' = bindings s" "pipelines s' = pipelines s"
    "memberships s' = memberships s" "next_id s \<le> next_id s'"
    using assms
    by (auto simp: create_from_schedule_def insert_ticket_atomic_def announce_keep Let_def res_simps
        fresh_def split: option.splits if_splits)
qed

lemma fire_one_cases:
  assumes "fire_one env fire s = Inr s'"
  obtains (old) tid where "create_from_schedule (uuid_hex env) (df_org_id fire) (source_key env fire)
      (case tb_schedule (df_binding fire) of Some sc \<Rightarrow> sc_name sc | None \<Rightarrow> [])
      (tb_repo_external_id (df_binding fire))
      (case resolve_plugin_id env (df_org_id fire) (tb_repo_external_id (df_binding fire)) of Inr p \<Rightarrow> p | Inl _ \<Rightarrow> []) s
      = Inr ((tid, False), s')"
  | (new) tid rid ko s1 where "create_from_schedule (uuid_hex env) (df_org_id fire) (source_key env fire)
      (case tb_schedule (df_binding fire) of Some sc \<Rightarrow> sc_name sc | None \<Rightarrow> [])
      (tb_repo_external_id (df_binding fire))
      (case resolve_plugin_id env (df_org_id fire) (tb_repo_external_id (df_binding fire)) of Inr p \<Rightarrow> p | Inl _ \<Rightarrow> []) s
      = Inr ((tid, True), s1)"
    "start_run (df_org_id fire) tid (tb_pipeline_id (df_binding fire)) ko (tb_created_by (df_binding fire)) s1 = Inr (rid, s')"
  using assms unfolding fire_one_def Let_def
  by (auto simp: res_simps split: if_splits)

lemma fire_one_keeps: "fire_one env fire s = Inr s' \<Longrightarrow> keeps s s'"
  by (erule fire_one_cases) (auto intro: create_from_schedule_keeps keeps_trans[OF create_from_schedule_keeps start_run_keeps])

section \<open>Trigger bindings stay usable\<close>

definition binding_ok :: "'e repos_env_scheme \<Rightarrow> pipelines_db \<Rightarrow> binding_row \<Rightarrow> bool" where
  "binding_ok env s b \<longleftrightarrow>
     get_row (bg_pipeline_id b) (bg_org_id b) s \<noteq> None \<and>
     (\<exists>kind. map_of (intake_points env) (bg_intake_point_id b) = Some kind \<and> (bg_schedule b \<noteq> None \<longleftrightarrow> kind = ''schedule'')) \<and>
     (\<forall>sc. bg_schedule b = Some sc \<longrightarrow> sc_notify_user_ids sc \<noteq> [] \<and> (\<exists>c. parse_cron (sc_cron sc) = Inr c))"

definition same_point :: "binding_row \<Rightarrow> binding_row \<Rightarrow> bool" where
  "same_point b c \<longleftrightarrow> bg_org_id b = bg_org_id c \<and> bg_repo_external_id b = bg_repo_external_id c \<and>
     bg_intake_point_id b = bg_intake_point_id c \<and> bg_schedule b = None \<and> bg_schedule c = None"

definition bindings_ok :: "'e repos_env_scheme \<Rightarrow> pipelines_db \<Rightarrow> bool" where
  "bindings_ok env s \<longleftrightarrow> keyed_rows bg_id (next_id s) (bindings s) \<and>
     (\<forall>i b. bindings s i = Some b \<longrightarrow> binding_ok env s b) \<and>
     (\<forall>i j b c. bindings s i = Some b \<longrightarrow> bindings s j = Some c \<longrightarrow> same_point b c \<longrightarrow> i = j)"

lemma bindings_okD:
  assumes "bindings_ok env s" and "bindings s i = Some b"
  shows "bg_id b = i" and "binding_ok env s b"
    and "\<And>j c. bindings s j = Some c \<Longrightarrow> same_point b c \<Longrightarrow> j = i"
proof -
  from assms(1) have h: "keyed_rows bg_id (next_id s) (bindings s)"
    "\<And>i b. bindings s i = Some b \<Longrightarrow> binding_ok env s b"
    "\<And>i j b c. bindings s i = Some b \<Longrightarrow> bindings s j = Some c \<Longrightarrow> same_point b c \<Longrightarrow> i = j"
    by (simp_all only: bindings_ok_def)
  show "bg_id b = i" using keyed_rowsD[OF h(1) assms(2)] by simp
  show "binding_ok env s b" by (rule h(2)[OF assms(2)])
  show "\<And>j c. bindings s j = Some c \<Longrightarrow> same_point b c \<Longrightarrow> j = i" using h(3)[OF assms(2)] by simp
qed

lemma bindings_ok_mono:
  assumes "bindings_ok env s" and "bindings s' = bindings s" and "next_id s \<le> next_id s'"
    and "\<And>pid org. get_row pid org s \<noteq> None \<Longrightarrow> (\<exists>i b. bindings s i = Some b \<and> bg_pipeline_id b = pid) \<Longrightarrow>
      get_row pid org s' \<noteq> None"
  shows "bindings_ok env s'"
  using assms(1) assms(4) keyed_rows_mono[OF _ assms(3)] unfolding bindings_ok_def binding_ok_def assms(2) by blast

lemma get_row_cong: "pipelines s' = pipelines s \<Longrightarrow> get_row pid org s' = get_row pid org s"
  by (simp add: get_row_def)

lemma keeps_bindings_ok: "keeps s s' \<Longrightarrow> bindings_ok env s \<Longrightarrow> bindings_ok env s'"
  using bindings_ok_mono[of env s s'] get_row_cong[of s' s] unfolding keeps_def by simp

lemma validate_schedule_ok:
  assumes "validate_schedule kind sc members = Inr ()"
  shows "(sc \<noteq> None) = (kind = ''schedule'')"
    "\<And>x. sc = Some x \<Longrightarrow> sc_notify_user_ids x \<noteq> [] \<and> (\<exists>c. parse_cron (sc_cron x) = Inr c)"
  using assms by (auto simp: validate_schedule_def split: if_splits option.splits sum.splits)

lemma add_binding_inserts:
  assumes "add_binding env org repo spec act by s = Inr (i, s')"
  obtains kind where "map_of (intake_points env) (bs_intake_point_id spec) = Some kind"
    "(bs_schedule spec \<noteq> None) = (kind = ''schedule'')"
    "\<And>x. bs_schedule spec = Some x \<Longrightarrow> sc_notify_user_ids x \<noteq> [] \<and> (\<exists>c. parse_cron (sc_cron x) = Inr c)"
    "get_row (bs_pipeline_id spec) org s \<noteq> None"
    "kind = ''schedule'' \<or> select (bindings s) (next_id s)
       (\<lambda>b. bg_org_id b = org \<and> bg_repo_external_id b = repo \<and> bg_intake_point_id b = bs_intake_point_id spec \<and>
            bg_schedule b = None) = []"
    "insert_binding org repo spec act by s = (i, s')"
proof -
  from assms obtain kind ex where h: "map_of (intake_points env) (bs_intake_point_id spec) = Some kind"
    "validate_schedule kind (bs_schedule spec) (if kind = ''schedule'' then list_active_member_ids org s else []) = Inr ()"
    "case lookup_pipeline_ref (bs_pipeline_id spec) s of None \<Rightarrow> False | Some (o', _) \<Rightarrow> o' = org"
    "(if kind = ''schedule'' then Inr None
      else one_or_none (select (bindings s) (next_id s) (\<lambda>b. bg_org_id b = org \<and> bg_repo_external_id b = repo \<and>
          bg_intake_point_id b = bs_intake_point_id spec \<and> bg_schedule b = None))) = Inr ex" "ex = None"
    "insert_binding org repo spec act by s = (i, s')"
    unfolding add_binding_def by (auto simp: res_simps)
  show ?thesis
  proof (rule that[OF h(1) validate_schedule_ok(1)[OF h(2)] validate_schedule_ok(2)[OF h(2)] _ _ h(6)])
    show "get_row (bs_pipeline_id spec) org s \<noteq> None"
      using h(3) by (auto simp: lookup_pipeline_ref_def get_row_def split: option.splits)
    show "kind = ''schedule'' \<or> select (bindings s) (next_id s)
       (\<lambda>b. bg_org_id b = org \<and> bg_repo_external_id b = repo \<and> bg_intake_point_id b = bs_intake_point_id spec \<and>
            bg_schedule b = None) = []"
      using h(4,5) by (cases "kind = ''schedule''") (auto simp: one_or_none_def split: list.splits if_splits)
  qed
qed

lemma add_binding_ok:
  assumes "add_binding env org repo spec act by s = Inr (i, s')" and ok: "bindings_ok env s"
  shows "bindings_ok env s'"
  using assms(1)
proof (rule add_binding_inserts)
  fix kind
  let ?b = "\<lparr>bg_id = i, bg_org_id = org, bg_repo_external_id = repo, bg_intake_point_id = bs_intake_point_id spec,
     bg_pipeline_id = bs_pipeline_id spec, bg_schedule = bs_schedule spec, bg_created_by = by\<rparr>"
  assume kind: "map_of (intake_points env) (bs_intake_point_id spec) = Some kind"
      "(bs_schedule spec \<noteq> None) = (kind = ''schedule'')"
    and sched: "\<And>x. bs_schedule spec = Some x \<Longrightarrow> sc_notify_user_ids x \<noteq> [] \<and> (\<exists>c. parse_cron (sc_cron x) = Inr c)"
    and pipeline: "get_row (bs_pipeline_id spec) org s \<noteq> None"
    and none: "kind = ''schedule'' \<or> select (bindings s) (next_id s)
       (\<lambda>b. bg_org_id b = org \<and> bg_repo_external_id b = repo \<and> bg_intake_point_id b = bs_intake_point_id spec \<and>
            bg_schedule b = None) = []"
    and ins: "insert_binding org repo spec act by s = (i, s')"
  have s': "bindings s' = (bindings s)(i \<mapsto> ?b)" "next_id s' = Suc (next_id s)" "i = next_id s" "pipelines s' = pipelines s"
    using ins by (auto simp: insert_binding_def fresh_def audit_def)
  have keyed: "keyed_rows bg_id (next_id s) (bindings s)" using ok by (simp add: bindings_ok_def)
  have row: "binding_ok env s' b = binding_ok env s b" for b by (simp add: binding_ok_def get_row_cong[OF s'(4)])
  have new: "binding_ok env s ?b" using kind sched pipeline by (auto simp: binding_ok_def)
  have alone: "\<not> same_point ?b c" if c: "bindings s j = Some c" for c j
  proof
    assume sp: "same_point ?b c"
    then have "kind \<noteq> ''schedule''" using kind(2) by (simp add: same_point_def)
    with none have "select (bindings s) (next_id s)
       (\<lambda>b. bg_org_id b = org \<and> bg_repo_external_id b = repo \<and> bg_intake_point_id b = bs_intake_point_id spec \<and>
            bg_schedule b = None) = []" by blast
    then show False using c keyed_rowsD[OF keyed c] sp by (auto simp: select_eq_Nil same_point_def)
  qed
  then have alone': "\<not> same_point c ?b" if "bindings s j = Some c" for c j using that by (auto simp: same_point_def)
  have "keyed_rows bg_id (next_id s') (bindings s')"
    unfolding s'(1,2) using keyed s'(3) by (intro keyed_rows_insert keyed_rows_mono[OF keyed]) auto
  then show "bindings_ok env s'"
    using ok new alone alone' unfolding bindings_ok_def row s'(1) by (auto split: if_splits)
qed

lemma remove_binding_ok:
  assumes "remove_binding org i act s = Inr s'" and ok: "bindings_ok env s"
  shows "bindings_ok env s'"
proof -
  have s': "bindings s' = (bindings s)(i := None)" "next_id s' = next_id s" "pipelines s' = pipelines s"
    using assms(1) by (auto simp: remove_binding_def audit_def split: option.splits if_splits)
  have row: "binding_ok env s' b = binding_ok env s b" for b by (simp add: binding_ok_def get_row_cong[OF s'(3)])
  show ?thesis
    using ok unfolding bindings_ok_def row s' by (auto simp: keyed_rows_def split: if_splits)
qed

lemma put_settings_keeps: "put_settings env org repo st act s = Inr s' \<Longrightarrow> keeps s s'"
  by (rule keeps_frame) (auto simp: put_settings_def Let_def audit_def res_simps)

lemma get_row_append: "get_row pid org s \<noteq> None \<Longrightarrow> pipelines s' = pipelines s @ xs \<Longrightarrow> get_row pid org s' \<noteq> None"
  by (auto simp: get_row_def map_add_def split: option.splits if_splits)

lemma create_pipeline_bindings_ok:
  assumes "create_pipeline org d act s = Inr (i, s')" and "bindings_ok env s"
  shows "bindings_ok env s'"
proof (rule bindings_ok_mono[OF assms(2)])
  from assms(1) obtain row where s': "pipelines s' = pipelines s @ [row]" "bindings s' = bindings s" "next_id s' = next_id s"
    by (auto simp: create_pipeline_def res_simps Let_def audit_for_pipeline_def audit_def)
  show "bindings s' = bindings s" "next_id s \<le> next_id s'" using s' by simp_all
  show "get_row pid org s' \<noteq> None" if "get_row pid org s \<noteq> None" for pid org
    using get_row_append[OF that s'(1)] .
qed

lemma update_pipeline_bindings_ok:
  assumes "update_pipeline org pid d act s = Inr s'" and "bindings_ok env s"
  shows "bindings_ok env s'"
proof (rule bindings_ok_mono[OF assms(2)])
  from assms(1) obtain row where row: "get_row pid org s = Some row"
    and s': "pipelines s' = AList.update pid \<lparr>pi_org_id = org, pi_definition = d\<lparr>pd_id := pid\<rparr>, pi_updated_by = actor_user_id act\<rparr> (pipelines s)"
      "bindings s' = bindings s" "next_id s' = next_id s"
    by (auto simp: update_pipeline_def res_simps Let_def audit_for_pipeline_def audit_def)
  show "bindings s' = bindings s" "next_id s \<le> next_id s'" using s' by simp_all
  show "get_row q o' s' \<noteq> None" if "get_row q o' s \<noteq> None" for q o'
    using that row s'(1) by (cases "q = pid") (auto simp: get_row_def update_conv' split: option.splits if_splits)
qed

text \<open>A pipeline that a binding names is not deleted.\<close>

lemma delete_pipeline_bindings_ok:
  assumes "delete_pipeline org pid act s = Inr s'" and ok: "bindings_ok env s"
  shows "bindings_ok env s'"
proof (rule bindings_ok_mono[OF ok])
  from assms(1) have ref: "\<not> pipeline_referenced_by_binding pid s"
    and s': "pipelines s' = AList.delete pid (pipelines s)" "bindings s' = bindings s" "next_id s' = next_id s"
    by (auto simp: delete_pipeline_def res_simps audit_for_pipeline_def audit_def split: if_splits)
  show "bindings s' = bindings s" "next_id s \<le> next_id s'" using s' by simp_all
  show "get_row q o' s' \<noteq> None" if "get_row q o' s \<noteq> None" "\<exists>i b. bindings s i = Some b \<and> bg_pipeline_id b = q" for q o'
  proof -
    from that(2) obtain i b where b: "bindings s i = Some b" "bg_pipeline_id b = q" by blast
    have "keyed_rows bg_id (next_id s) (bindings s)" using ok by (simp add: bindings_ok_def)
    from keyed_rowsD[OF this b(1)] have "i < next_id s" ..
    have "q \<noteq> pid"
    proof
      assume "q = pid"
      with b \<open>i < next_id s\<close> have "pipeline_referenced_by_binding pid s"
        unfolding pipeline_referenced_by_binding_def select_eq_Nil by blast
      with ref show False ..
    qed
    then have "get_row q o' s' = get_row q o' s" by (simp add: get_row_def s'(1) delete_conv')
    with that(1) show ?thesis by simp
  qed
qed

text \<open>The operations that touch repository configuration or the pipelines it names, and the engine's steps.\<close>

inductive repos_step :: "'e repos_env_scheme \<Rightarrow> pipelines_db \<Rightarrow> pipelines_db \<Rightarrow> bool" for env where
  rp_add: "add_binding env org repo spec act by s = Inr (i, s') \<Longrightarrow> repos_step env s s'"
| rp_remove: "remove_binding org i act s = Inr s' \<Longrightarrow> repos_step env s s'"
| rp_settings: "put_settings env org repo settings act s = Inr s' \<Longrightarrow> repos_step env s s'"
| rp_create: "create_pipeline org d act s = Inr (i, s') \<Longrightarrow> definition_ok d \<Longrightarrow> repos_step env s s'"
| rp_update: "update_pipeline org pid d act s = Inr s' \<Longrightarrow> definition_ok d \<Longrightarrow> repos_step env s s'"
| rp_delete: "delete_pipeline org pid act s = Inr s' \<Longrightarrow> repos_step env s s'"
| rp_tick: "repos_step env s (snd (pipeline_schedule_tick env t s))"
| rp_engine: "estep s s' \<Longrightarrow> bindings s' = bindings s \<Longrightarrow> repos_step env s s'"
| rp_clock: "now s \<le> t \<Longrightarrow> repos_step env s (s\<lparr>now := t\<rparr>)"

definition repos_reachable :: "'e repos_env_scheme \<Rightarrow> pipelines_db \<Rightarrow> bool" where
  "repos_reachable env s \<longleftrightarrow> (\<exists>s0. sys_init s0 \<and> bindings s0 = Map.empty \<and> (repos_step env)\<^sup>*\<^sup>* s0 s)"

lemma estep_next_id: "estep s s' \<Longrightarrow> next_id s \<le> next_id s'"
  by (induction rule: estep.induct) (auto simp: below_def upd_run_def upd_stage_def upd_pause_def)

lemma tick_one_keeps: "keeps (snd acc) (snd (tick_one env fire acc))"
  by (auto simp: tick_one_def dest: fire_one_keeps split: sum.splits)

lemma tick_keeps: "keeps s (snd (pipeline_schedule_tick env t s))"
proof -
  have "keeps (snd acc) (snd (fold (tick_one env) fires acc))" for fires acc
  proof (induction fires arbitrary: acc)
    case (Cons f fires)
    show ?case using keeps_trans[OF tick_one_keeps[of acc env f] Cons.IH[of "tick_one env f acc"]] by simp
  qed simp
  from this[of "([], s)"] show ?thesis by (simp add: pipeline_schedule_tick_def)
qed

lemma repos_step_bindings_ok:
  assumes "repos_step env s s'" and "bindings_ok env s"
  shows "bindings_ok env s'"
  using assms(1)
proof cases
  case (rp_engine)
  have "pipelines s' = pipelines s" using rp_engine(1) esteps_pipelines[of s s'] by blast
  then show ?thesis using bindings_ok_mono[OF assms(2) rp_engine(2) estep_next_id[OF rp_engine(1)]] get_row_cong by metis
next
  case (rp_clock t)
  then show ?thesis using bindings_ok_mono[OF assms(2), of s'] get_row_cong[of s' s] by simp
qed (use assms(2) in \<open>auto intro: add_binding_ok remove_binding_ok create_pipeline_bindings_ok update_pipeline_bindings_ok
  delete_pipeline_bindings_ok keeps_bindings_ok[OF put_settings_keeps] keeps_bindings_ok[OF tick_keeps]\<close>)

lemma repos_reachable_ok: "repos_reachable env s \<Longrightarrow> bindings_ok env s"
proof -
  assume "repos_reachable env s"
  then obtain s0 where s0: "bindings s0 = Map.empty" "(repos_step env)\<^sup>*\<^sup>* s0 s" by (auto simp: repos_reachable_def)
  have "bindings_ok env s0" using s0(1) by (simp add: bindings_ok_def keyed_rows_def)
  with s0(2) show ?thesis by (induction rule: rtranclp_induct) (auto intro: repos_step_bindings_ok)
qed

section \<open>Due bindings fire\<close>

lemma create_from_schedule_below:
  assumes "create_from_schedule hex org ext title repo plugin s = Inr (res, s')"
  shows "below s s'"
  using assms
  by (auto simp: create_from_schedule_def insert_ticket_atomic_def announce_created_def notify_ticket_status_change_def
      audit_for_ticket_def audit_def publish_general_after_commit_def enqueue_def upd_ticket_def Let_def res_simps
      fresh_def below_def split: option.splits if_splits)

lemma fire_one_evolves:
  assumes "fire_one env fire s = Inr s'" and "defs_ok s"
  shows "evolves s s'"
  using assms(1)
proof (rule fire_one_cases)
  fix tid rid ko s1
  assume c: "create_from_schedule (uuid_hex env) (df_org_id fire) (source_key env fire)
      (case tb_schedule (df_binding fire) of Some sc \<Rightarrow> sc_name sc | None \<Rightarrow> [])
      (tb_repo_external_id (df_binding fire))
      (case resolve_plugin_id env (df_org_id fire) (tb_repo_external_id (df_binding fire)) of Inr p \<Rightarrow> p | Inl _ \<Rightarrow> []) s
      = Inr ((tid, True), s1)"
    and r: "start_run (df_org_id fire) tid (tb_pipeline_id (df_binding fire)) ko (tb_created_by (df_binding fire)) s1 = Inr (rid, s')"
  note b = create_from_schedule_below[OF c]
  have "defs_ok s1" using assms(2) defs_ok_cong[of s1 s] b by (simp add: below_def)
  with start_run_evolves[OF r] evolves_trans[OF evolves_below[OF b]] show ?thesis by blast
qed (auto intro: evolves_below dest: create_from_schedule_below)

lemma tick_sys_ok:
  assumes "sys_ok s"
  shows "sys_ok (snd (pipeline_schedule_tick env t s))"
proof -
  have one: "sys_ok (snd (tick_one env f acc))" if "sys_ok (snd acc)" for f acc
    using that evolves_sys_ok[OF fire_one_evolves] by (auto simp: tick_one_def sys_ok_def split: sum.splits)
  have "sys_ok (snd (fold (tick_one env) fires acc))" if "sys_ok (snd acc)" for fires acc
    using that by (induction fires arbitrary: acc) (simp_all add: one)
  from this[of "([], s)"] assms show ?thesis by (simp add: pipeline_schedule_tick_def)
qed

lemma repos_step_sys_ok:
  assumes "repos_step env s s'" and "sys_ok s"
  shows "sys_ok s'"
  using assms(1)
proof cases
  case (rp_add org repo spec act u i)
  then have "below s s'"
    by (auto elim!: add_binding_inserts simp: insert_binding_def fresh_def audit_def below_def)
  with assms(2) show ?thesis by (blast intro: evolves_sys_ok evolves_below)
next
  case (rp_remove org i act)
  then have "below s s'" by (auto simp: remove_binding_def audit_def below_def split: option.splits if_splits)
  with assms(2) show ?thesis by (blast intro: evolves_sys_ok evolves_below)
next
  case (rp_settings org repo settings act)
  then have "below s s'" by (auto simp: put_settings_def Let_def audit_def res_simps below_def)
  with assms(2) show ?thesis by (blast intro: evolves_sys_ok evolves_below)
next
  case (rp_create org d act i)
  then show ?thesis using assms(2) crud_engine_ok(1) create_pipeline_defs_ok by (auto simp: sys_ok_def)
next
  case (rp_update org pid d act)
  then show ?thesis using assms(2) crud_engine_ok(2) update_pipeline_defs_ok by (auto simp: sys_ok_def)
next
  case (rp_delete org pid act)
  then show ?thesis using assms(2) crud_engine_ok(3) delete_pipeline_defs_ok by (auto simp: sys_ok_def)
next
  case (rp_tick t)
  then show ?thesis using tick_sys_ok[OF assms(2)] by simp
next
  case rp_engine
  then have "evolves s s'" by (auto simp: evolves_def)
  with assms(2) show ?thesis by (rule evolves_sys_ok[rotated])
next
  case (rp_clock t)
  then show ?thesis using assms(2) engine_ok_cong[of s' s] defs_ok_cong[of s' s] by (simp add: sys_ok_def)
qed

lemma repos_reachable_sys_ok:
  assumes "repos_reachable env s"
  shows "sys_ok s"
proof -
  from assms obtain s0 where s0: "sys_init s0" "(repos_step env)\<^sup>*\<^sup>* s0 s" by (auto simp: repos_reachable_def)
  from s0(2) sys_init_ok[OF s0(1)] show ?thesis by (induction rule: rtranclp_induct) (auto intro: repos_step_sys_ok)
qed

text \<open>C37. Trigger bindings stay usable. Whatever is configured, edited, fired and run, every trigger binding
  names an existing pipeline of its own organisation, carries a schedule exactly if its intake point is of
  the schedule kind, and then one with a cron expression that parses and somebody to notify; and no two
  unscheduled bindings of a repository share an intake point.\<close>

theorem trigger_bindings_usable:
  assumes "repos_reachable env s" and "bindings s i = Some b"
  shows "bg_id b = i \<and> get_row (bg_pipeline_id b) (bg_org_id b) s \<noteq> None \<and>
    (\<exists>kind. map_of (intake_points env) (bg_intake_point_id b) = Some kind \<and> (bg_schedule b \<noteq> None \<longleftrightarrow> kind = ''schedule'')) \<and>
    (\<forall>sc. bg_schedule b = Some sc \<longrightarrow> sc_notify_user_ids sc \<noteq> [] \<and> (\<exists>c. parse_cron (sc_cron sc) = Inr c)) \<and>
    (\<forall>j c. bindings s j = Some c \<and> same_point b c \<longrightarrow> j = i)"
proof -
  note ok = repos_reachable_ok[OF assms(1)]
  have "bg_id b = i" by (rule bindings_okD(1)[OF ok assms(2)])
  moreover have "\<forall>j c. bindings s j = Some c \<and> same_point b c \<longrightarrow> j = i" using bindings_okD(3)[OF ok assms(2)] by simp
  ultimately show ?thesis using bindings_okD(2)[OF ok assms(2)] by (simp only: binding_ok_def) simp
qed

lemma firing_starts_run:
  assumes "repos_reachable env s" and "tickets_ok s" and "bindings s i = Some b" and "due_at (floor_to_minute t) b"
    and "resolve_plugin_id env (bg_org_id b) (bg_repo_external_id b) = Inr p"
    and "\<And>j u. tickets s j = Some u \<Longrightarrow>
      tk_idempotency_key u \<noteq> Some (uuid_str env i @ '':'' @ isoformat (floor_to_minute t)) \<and>
      tk_source_external_id u \<noteq> uuid_str env i @ '':'' @ isoformat (floor_to_minute t)"
  defines "fire \<equiv> \<lparr>df_org_id = bg_org_id b, df_binding = to_trigger_binding s b, df_fire_time = floor_to_minute t\<rparr>"
  shows "\<exists>s' tid rid u r. fire_one env fire s = Inr s' \<and> tickets s tid = None \<and> tickets s' tid = Some u \<and>
       tk_source_external_id u = uuid_str env i @ '':'' @ isoformat (floor_to_minute t) \<and>
       runs s rid = None \<and> runs s' rid = Some r \<and> r_ticket_id r = tid \<and> r_pipeline_id r = Some (bg_pipeline_id b)"
proof -
  note ok = repos_reachable_ok[OF assms(1)]
  have sys: "defs_ok s" "engine_ok s" using repos_reachable_sys_ok[OF assms(1)] by (simp_all add: sys_ok_def)
  have keyed: "keyed_rows bg_id (next_id s) (bindings s)" using ok by (simp add: bindings_ok_def)
  have id: "bg_id b = i" using keyed_rowsD[OF keyed assms(3)] by simp
  obtain row where row: "get_row (bg_pipeline_id b) (bg_org_id b) s = Some row"
    using bindings_okD(2)[OF ok assms(3)] unfolding binding_ok_def by fast
  obtain sc where sc: "bg_schedule b = Some sc" using assms(4) by (auto simp: due_at_def split: option.splits)
  let ?slot = "floor_to_minute t"
  let ?fire = "\<lparr>df_org_id = bg_org_id b, df_binding = to_trigger_binding s b, df_fire_time = ?slot\<rparr>"
  let ?key = "uuid_str env i @ '':'' @ isoformat ?slot"
  have none: "select (tickets s) (next_id s) (\<lambda>t. tk_org_id t = bg_org_id b \<and> tk_source t = ''schedule'' \<and>
      tk_source_external_id t = ?key) = []" "select (tickets s) (next_id s) (\<lambda>t. tk_idempotency_key t = Some ?key) = []"
    using assms(6) by (auto simp: select_eq_Nil)
  obtain s1 where c: "create_from_schedule (uuid_hex env) (bg_org_id b) ?key (sc_name sc) (bg_repo_external_id b) p s =
      Inr ((next_id s, True), s1)"
    using none by (simp add: create_from_schedule_def insert_ticket_atomic_def Let_def fresh_def)
  then obtain u where u: "tickets s1 (next_id s) = Some u" "tk_source_external_id u = ?key"
    using none by (auto simp: create_from_schedule_def insert_ticket_atomic_def Let_def fresh_def announce_created_def)
  note b1 = create_from_schedule_below[OF c]
  have ok1: "defs_ok s1" "engine_ok s1" "tickets_ok s1" and row1: "get_row (bg_pipeline_id b) (bg_org_id b) s1 = Some row"
    using sys b1 defs_ok_cong[of s1 s] evolves_ok[OF evolves_below[OF b1]] create_from_schedule_keeps[OF c] assms(2) row
      get_row_cong[of s1 s]
    by (simp_all add: below_def keeps_def tickets_move_def)
  let ?ko = "\<lparr>ko_intake_point_id = ''schedule'', ko_actor = SystemActor, ko_input_text = sc_kickoff_input sc,
     ko_pr_base_sha = None, ko_pr_head_sha = None, ko_notify_user_ids = sc_notify_user_ids sc, ko_revision = None\<rparr>"
  obtain rid s' r where r: "start_run (bg_org_id b) (next_id s) (bg_pipeline_id b) ?ko (bg_created_by b) s1 = Inr (rid, s')"
    "runs s1 rid = None" "runs s' rid = Some r" "r_ticket_id r = next_id s" "r_pipeline_id r = Some (bg_pipeline_id b)"
    using start_run_total[OF ok1(1,2) row1] u(1) by blast
  have "fire_one env ?fire s = Inr s'"
    using c r(1) assms(5) sc id by (simp add: fire_one_def Let_def to_trigger_binding_def source_key_def)
  moreover have "runs s rid = None" using r(2) b1 by (simp add: below_def)
  moreover have "tickets s (next_id s) = None"
    using assms(2) by (cases "tickets s (next_id s)") (auto simp: tickets_ok_def keyed_rows_def)
  moreover obtain u' where "tickets s' (next_id s) = Some u'" "tk_source_external_id u' = ?key"
  proof -
    have "tickets_move s1 s'" using start_run_keeps[OF r(1)] ok1(3) by (simp add: keeps_def)
    then obtain w where "tickets s' (next_id s) = Some w" "ticket_moves u w" using u(1) unfolding tickets_move_def by blast
    with u(2) that show ?thesis by (simp add: ticket_moves_def same_source_def)
  qed
  ultimately show ?thesis using r(3-5) unfolding fire_def
    by (intro exI[of _ s'] exI[of _ "next_id s"] exI[of _ rid] exI[of _ u'] exI[of _ r] conjI)
qed

text \<open>C38. A due binding fires. In every reachable state a binding is listed as due for a minute exactly if it
  has a schedule whose cron expression parses and matches the start of that minute; and if the VCS plugin of
  its repository resolves and its slot has not been used as a key before, firing a listed binding succeeds: it
  creates a ticket for the slot and starts a run of the pipeline the binding names on that ticket.\<close>

theorem due_binding_fires:
  assumes "repos_reachable env s" and "tickets_ok s" and "bindings s i = Some b"
  shows "((\<exists>fire \<in> set (list_due_schedule_bindings t s). tb_id (df_binding fire) = i) \<longleftrightarrow>
      (\<exists>sc c. bg_schedule b = Some sc \<and> parse_cron (sc_cron sc) = Inr c \<and> matches c (floor_to_minute t))) \<and>
    (\<forall>fire p. fire \<in> set (list_due_schedule_bindings t s) \<longrightarrow> tb_id (df_binding fire) = i \<longrightarrow>
      resolve_plugin_id env (bg_org_id b) (bg_repo_external_id b) = Inr p \<longrightarrow>
      (\<forall>j u. tickets s j = Some u \<longrightarrow>
        tk_idempotency_key u \<noteq> Some (uuid_str env i @ '':'' @ isoformat (floor_to_minute t)) \<and>
        tk_source_external_id u \<noteq> uuid_str env i @ '':'' @ isoformat (floor_to_minute t)) \<longrightarrow>
      (\<exists>s' tid rid u r. fire_one env fire s = Inr s' \<and> tickets s tid = None \<and> tickets s' tid = Some u \<and>
         tk_source_external_id u = uuid_str env i @ '':'' @ isoformat (floor_to_minute t) \<and>
         runs s rid = None \<and> runs s' rid = Some r \<and> r_ticket_id r = tid \<and>
         r_pipeline_id r = Some (bg_pipeline_id b)))"
proof (intro conjI allI impI)
  note ok = repos_reachable_ok[OF assms(1)]
  have keyed: "keyed_rows bg_id (next_id s) (bindings s)" using ok by (simp add: bindings_ok_def)
  have entry: "fire \<in> set (list_due_schedule_bindings t s) \<and> tb_id (df_binding fire) = i \<longleftrightarrow> due_at (floor_to_minute t) b \<and>
      fire = \<lparr>df_org_id = bg_org_id b, df_binding = to_trigger_binding s b, df_fire_time = floor_to_minute t\<rparr>" for fire
  proof -
    let ?e = "\<lambda>b. \<lparr>df_org_id = bg_org_id b, df_binding = to_trigger_binding s b, df_fire_time = floor_to_minute t\<rparr>"
    have id: "tb_id (to_trigger_binding s c) = bg_id c" for c by (simp add: to_trigger_binding_def)
    have listed: "fire \<in> set (list_due_schedule_bindings t s) \<longleftrightarrow>
        (\<exists>c. bindings s (bg_id c) = Some c \<and> due_at (floor_to_minute t) c \<and> fire = ?e c)"
      using keyed_select_mem[OF keyed] by (simp add: list_due_schedule_bindings_def Let_def image_iff) blast
    have b: "bg_id b = i" using keyed_rowsD[OF keyed assms(3)] by simp
    show ?thesis
    proof (intro iffI)
      assume "fire \<in> set (list_due_schedule_bindings t s) \<and> tb_id (df_binding fire) = i"
      then obtain c where c: "bindings s (bg_id c) = Some c" "due_at (floor_to_minute t) c" "fire = ?e c"
        "tb_id (df_binding fire) = i" unfolding listed by blast
      then have "bg_id c = i" by (simp add: id)
      with c(1) assms(3) have "c = b" by simp
      with c show "due_at (floor_to_minute t) b \<and> fire = ?e b" by simp
    next
      assume due: "due_at (floor_to_minute t) b \<and> fire = ?e b"
      with assms(3) b have "fire \<in> set (list_due_schedule_bindings t s)" unfolding listed by (intro exI[of _ b]) simp
      with due b show "fire \<in> set (list_due_schedule_bindings t s) \<and> tb_id (df_binding fire) = i" by (simp add: id)
    qed
  qed
  have "(\<exists>fire \<in> set (list_due_schedule_bindings t s). tb_id (df_binding fire) = i) \<longleftrightarrow> due_at (floor_to_minute t) b"
    using entry by blast
  also have "\<dots> \<longleftrightarrow> (\<exists>sc c. bg_schedule b = Some sc \<and> parse_cron (sc_cron sc) = Inr c \<and> matches c (floor_to_minute t))"
    by (auto simp: due_at_def split: option.splits sum.splits)
  finally show "(\<exists>fire \<in> set (list_due_schedule_bindings t s). tb_id (df_binding fire) = i) \<longleftrightarrow>
      (\<exists>sc c. bg_schedule b = Some sc \<and> parse_cron (sc_cron sc) = Inr c \<and> matches c (floor_to_minute t))" .
  fix fire p
  assume "fire \<in> set (list_due_schedule_bindings t s)" "tb_id (df_binding fire) = i"
  with entry have due: "due_at (floor_to_minute t) b" and fire: "fire =
      \<lparr>df_org_id = bg_org_id b, df_binding = to_trigger_binding s b, df_fire_time = floor_to_minute t\<rparr>" by blast+
  assume "resolve_plugin_id env (bg_org_id b) (bg_repo_external_id b) = Inr p" and
    "\<forall>j u. tickets s j = Some u \<longrightarrow>
        tk_idempotency_key u \<noteq> Some (uuid_str env i @ '':'' @ isoformat (floor_to_minute t)) \<and>
        tk_source_external_id u \<noteq> uuid_str env i @ '':'' @ isoformat (floor_to_minute t)"
  then show "\<exists>s' tid rid u r. fire_one env fire s = Inr s' \<and> tickets s tid = None \<and> tickets s' tid = Some u \<and>
         tk_source_external_id u = uuid_str env i @ '':'' @ isoformat (floor_to_minute t) \<and>
         runs s rid = None \<and> runs s' rid = Some r \<and> r_ticket_id r = tid \<and>
         r_pipeline_id r = Some (bg_pipeline_id b)"
    unfolding fire by (intro firing_starts_run[OF assms due]) blast+
qed

section \<open>Each slot fires once\<close>

definition fired :: "'e repos_env_scheme \<Rightarrow> due_fire \<Rightarrow> pipelines_db \<Rightarrow> bool" where
  "fired env fire s \<longleftrightarrow> tb_schedule (df_binding fire) \<noteq> None \<and>
     (\<exists>p. resolve_plugin_id env (df_org_id fire) (tb_repo_external_id (df_binding fire)) = Inr p) \<and>
     (\<exists>i u. tickets s i = Some u \<and> i < next_id s \<and> tk_org_id u = df_org_id fire \<and> tk_source u = ''schedule'' \<and>
        tk_source_external_id u = source_key env fire)"

lemma fired_is_skipped:
  assumes "fired env fire s"
  shows "fire_one env fire s = Inr s"
proof -
  let ?P = "\<lambda>t. tk_org_id t = df_org_id fire \<and> tk_source t = ''schedule'' \<and> tk_source_external_id t = source_key env fire"
  have "select (tickets s) (next_id s) ?P \<noteq> []" using assms unfolding fired_def select_eq_Nil by blast
  then obtain u where "first_row (select (tickets s) (next_id s) ?P) = Some u" by (cases "select (tickets s) (next_id s) ?P") auto
  then show ?thesis using assms
    by (auto simp: fire_one_def fired_def create_from_schedule_def insert_ticket_atomic_def Let_def)
qed

lemma fire_one_fired:
  assumes "fire_one env fire s = Inr s'" and "tickets_ok s"
  shows "fired env fire s'"
proof -
  let ?b = "df_binding fire"
  let ?P = "\<lambda>t. tk_org_id t = df_org_id fire \<and> tk_source t = ''schedule'' \<and> tk_source_external_id t = source_key env fire"
  from assms(1) obtain sc p where sc: "tb_schedule ?b = Some sc"
    "resolve_plugin_id env (df_org_id fire) (tb_repo_external_id ?b) = Inr p"
    by (auto simp: fire_one_def Let_def res_simps)
  have made: "\<exists>u. tickets s1 tid = Some u \<and> ?P u"
    if "create_from_schedule (uuid_hex env) (df_org_id fire) (source_key env fire) nm repo q s = Inr ((tid, new), s1)"
    for tid new s1 nm repo q
  proof (cases "first_row (select (tickets s) (next_id s) ?P)")
    case None
    then show ?thesis using that
      by (auto simp: create_from_schedule_def insert_ticket_atomic_def Let_def fresh_def announce_created_def
          split: if_splits)
  next
    case (Some u)
    have k: "keyed_rows tk_id (next_id s) (tickets s)" using assms(2) by (simp add: tickets_ok_def)
    from keyed_first_row(1,2)[OF k Some] Some that show ?thesis
      by (auto simp: create_from_schedule_def insert_ticket_atomic_def Let_def)
  qed
  have ok': "tickets_ok s'" using fire_one_keeps[OF assms(1)] assms(2) by (simp add: keeps_def tickets_move_def)
  from assms(1) obtain tid u where u: "tickets s' tid = Some u" "?P u"
  proof (cases rule: fire_one_cases)
    case (old tid)
    then show ?thesis using made[OF old] that by blast
  next
    case (new tid rid ko s1)
    from made[OF new(1)] obtain u where u: "tickets s1 tid = Some u" "?P u" by blast
    have "tickets_ok s1" using create_from_schedule_keeps[OF new(1)] assms(2) by (simp add: keeps_def tickets_move_def)
    then have "tickets_move s1 s'" using start_run_keeps[OF new(2)] by (simp add: keeps_def)
    with u(1) obtain u' where "tickets s' tid = Some u'" "ticket_moves u u'" by (auto simp: tickets_move_def)
    with u(2) that show ?thesis by (auto simp: ticket_moves_def same_source_def)
  qed
  have "tid < next_id s'" using ok' u(1) by (auto simp: tickets_ok_def keyed_rows_def)
  with u sc show ?thesis unfolding fired_def by blast
qed

lemma keeps_fired:
  assumes "keeps s s'" and "tickets_ok s" and "fired env fire s"
  shows "fired env fire s'"
proof -
  from assms(3) obtain i u where u: "tickets s i = Some u" "i < next_id s" "tk_org_id u = df_org_id fire"
    "tk_source u = ''schedule''" "tk_source_external_id u = source_key env fire" unfolding fired_def by blast
  from assms(1,2) u(1) obtain u' where "tickets s' i = Some u'" "ticket_moves u u'" by (auto simp: keeps_def tickets_move_def)
  with u have "tickets s' i = Some u' \<and> i < next_id s' \<and> tk_org_id u' = df_org_id fire \<and> tk_source u' = ''schedule'' \<and>
      tk_source_external_id u' = source_key env fire"
    using assms(1) by (auto simp: keeps_def ticket_moves_def same_source_def)
  then show ?thesis using assms(3) unfolding fired_def by blast
qed

lemma select_bound_mono:
  assumes "keyed_rows key n t" and "n \<le> m"
  shows "select t m P = select t n P"
  using assms(2)
proof (induction m)
  case (Suc m)
  show ?case
  proof (cases "n = Suc m")
    case False
    with Suc.prems have "n \<le> m" by simp
    moreover have "t m = None" using keyed_rowsD[OF assms(1), of m] \<open>n \<le> m\<close> by (cases "t m") auto
    ultimately show ?thesis using Suc.IH by simp
  qed simp
qed simp

lemma tick_fold_failed: "set (fst acc) \<subseteq> set (fst (fold (tick_one env) fires acc))"
proof (induction fires arbitrary: acc)
  case (Cons f fires)
  have "set (fst acc) \<subseteq> set (fst (tick_one env f acc))" by (auto simp: tick_one_def split: sum.splits)
  also have "\<dots> \<subseteq> set (fst (fold (tick_one env) fires (tick_one env f acc)))" by (rule Cons.IH)
  finally show ?case by simp
qed simp

lemma tick_fold_keeps: "keeps (snd acc) (snd (fold (tick_one env) fires acc))"
proof (induction fires arbitrary: acc)
  case (Cons f fires)
  show ?case using keeps_trans[OF tick_one_keeps[of acc env f] Cons.IH] by simp
qed simp

lemma due_list_cong:
  assumes "bindings s' = bindings s" and "pipelines s' = pipelines s" and "next_id s \<le> next_id s'"
    and "keyed_rows bg_id (next_id s) (bindings s)" and "floor_to_minute t' = floor_to_minute t"
  shows "list_due_schedule_bindings t' s' = list_due_schedule_bindings t s"
proof -
  have "select (bindings s) (next_id s') Q = select (bindings s) (next_id s) Q" for Q
    by (rule select_bound_mono[OF assms(4,3)])
  moreover have "to_trigger_binding s' = to_trigger_binding s"
    using assms(2) by (auto simp: to_trigger_binding_def lookup_pipeline_ref_def)
  ultimately show ?thesis using assms(1,5) by (simp add: list_due_schedule_bindings_def)
qed

lemma tick_one_fires:
  assumes "tickets_ok (snd acc)" and "tb_id (df_binding fire) \<notin> set (fst (tick_one env fire acc))"
  shows "fired env fire (snd (tick_one env fire acc))"
  using assms fire_one_fired[of env fire "snd acc"] by (auto simp: tick_one_def split: sum.splits)

lemma tick_fold_fires:
  assumes "tickets_ok (snd acc)" and "fire \<in> set fires"
    and "tb_id (df_binding fire) \<notin> set (fst (fold (tick_one env) fires acc))"
  shows "fired env fire (snd (fold (tick_one env) fires acc))"
  using assms
proof (induction fires arbitrary: acc)
  case (Cons f fires)
  let ?acc = "tick_one env f acc"
  have ok: "tickets_ok (snd ?acc)" using tick_one_keeps[of acc env f] Cons.prems(1) by (simp add: keeps_def tickets_move_def)
  show ?case
  proof (cases "fire \<in> set fires")
    case True
    then show ?thesis using Cons.IH[OF ok True] Cons.prems(3) by simp
  next
    case False
    then have "fire = f" using Cons.prems(2) by simp
    moreover have "tb_id (df_binding f) \<notin> set (fst ?acc)" using Cons.prems(3) tick_fold_failed[of ?acc env fires] \<open>fire = f\<close> by auto
    ultimately have "fired env fire (snd ?acc)" using tick_one_fires[OF Cons.prems(1)] by simp
    then show ?thesis using keeps_fired[OF tick_fold_keeps ok] by simp
  qed
qed simp

lemma tick_noop:
  assumes "\<And>fire. fire \<in> set fires \<Longrightarrow> fire_one env fire s = Inr s"
  shows "fold (tick_one env) fires ([], s) = ([], s)"
  using assms by (induction fires) (simp_all add: tick_one_def)

text \<open>C39. A schedule slot fires at most once. After a tick, whatever happens to tickets and runs, a second tick
  anywhere in the same minute sees the same due bindings and does nothing for those the first one fired: it
  changes the state only by retrying the firings that had failed, and not at all if none had.\<close>

theorem schedule_slot_fires_once:
  assumes "pipeline_schedule_tick env t s = (failed, s1)" and "tickets_ok s"
    and "keyed_rows bg_id (next_id s) (bindings s)"
    and "tickets_move s1 s2" and "next_id s1 \<le> next_id s2" and "bindings s2 = bindings s1" and "pipelines s2 = pipelines s1"
    and "floor_to_minute t' = floor_to_minute t"
  shows "list_due_schedule_bindings t' s2 = list_due_schedule_bindings t s \<and>
    (\<forall>fire \<in> set (list_due_schedule_bindings t s). tb_id (df_binding fire) \<notin> set failed \<longrightarrow> fire_one env fire s2 = Inr s2) \<and>
    (failed = [] \<longrightarrow> pipeline_schedule_tick env t' s2 = ([], s2))"
proof -
  have k: "keeps s s1" using tick_keeps[of s env t] assms(1) by simp
  have same: "list_due_schedule_bindings t' s2 = list_due_schedule_bindings t s"
    using due_list_cong[of s2 s t' t] assms(3,5-8) k by (simp add: keeps_def)
  have "tickets_ok s1" using k assms(2) by (simp add: keeps_def tickets_move_def)
  moreover have moved: "\<exists>u'. tickets s2 i = Some u' \<and> ticket_moves u u'" if "tickets s1 i = Some u" for i u
    using assms(4) that by (simp add: tickets_move_def)
  ultimately have later: "fired env fire s2" if "fired env fire s1" for fire
    using that assms(5) by (fastforce simp: fired_def ticket_moves_def same_source_def)
  have skip: "fire_one env fire s2 = Inr s2"
    if "fire \<in> set (list_due_schedule_bindings t s)" "tb_id (df_binding fire) \<notin> set failed" for fire
    using tick_fold_fires[of "([], s)" fire "list_due_schedule_bindings t s" env] that assms(1,2)
    by (intro fired_is_skipped later) (simp add: pipeline_schedule_tick_def)
  moreover have "pipeline_schedule_tick env t' s2 = ([], s2)" if "failed = []"
    unfolding pipeline_schedule_tick_def same using skip that by (intro tick_noop) simp
  ultimately show ?thesis using same by simp
qed

section \<open>A schedule that fires\<close>

definition sample_repos_env :: repos_env where
  "sample_repos_env = engine_env.extend sample_env
     \<lparr>intake_points = [(''schedule'', ''schedule''), (''pr'', ''intake'')], vcs_plugin_ids = [''github''],
      is_repo_accessible = (\<lambda>_ _ _. Inr True), glob_compiles = (\<lambda>_. True), conditions_valid = (\<lambda>_. True),
      uuid_hex = (\<lambda>_. ''01936f7a2b3c'')\<rparr>"

definition nightly :: trigger_binding_spec where
  "nightly = \<lparr>bs_intake_point_id = ''schedule'', bs_pipeline_id = 6,
     bs_schedule = Some \<lparr>sc_name = ''nightly'', sc_cron = ''* * * * *'', sc_notify_user_ids = [4], sc_kickoff_input = None\<rparr>\<rparr>"

definition bound_db :: pipelines_db where
  "bound_db = after sample1 (add_binding sample_repos_env 1 ''r'' nightly SystemActor (Some 4) sample1)"

definition ticked_db :: pipelines_db where
  "ticked_db = snd (pipeline_schedule_tick sample_repos_env 90 bound_db)"

lemma nightly_added: "\<exists>i. add_binding sample_repos_env 1 ''r'' nightly SystemActor (Some 4) sample1 = Inr (i, bound_db)"
proof -
  have "\<not> Option.is_none (case add_binding sample_repos_env 1 ''r'' nightly SystemActor (Some 4) sample1 of Inl _ \<Rightarrow> None | Inr p \<Rightarrow> Some ())"
    by code_simp
  then show ?thesis by (auto simp: bound_db_def after_def split: sum.splits)
qed

lemma sample1_created: "\<exists>i. create_pipeline 1 sample_definition SystemActor sample_init = Inr (i, sample1)"
proof -
  have "\<not> Option.is_none (case create_pipeline 1 sample_definition SystemActor sample_init of Inl _ \<Rightarrow> None | Inr p \<Rightarrow> Some ())"
    by code_simp
  then show ?thesis by (auto simp: sample1_def after_def split: sum.splits)
qed

lemma bound_reachable: "repos_reachable sample_repos_env bound_db"
proof -
  obtain i j where "create_pipeline 1 sample_definition SystemActor sample_init = Inr (i, sample1)"
    "add_binding sample_repos_env 1 ''r'' nightly SystemActor (Some 4) sample1 = Inr (j, bound_db)"
    using sample1_created nightly_added by blast
  then have "repos_step sample_repos_env sample_init sample1" "repos_step sample_repos_env sample1 bound_db"
    using rp_create[OF _ sample_definition_ok] rp_add by blast+
  then have "(repos_step sample_repos_env)\<^sup>*\<^sup>* sample_init bound_db" by simp
  moreover have "sys_init sample_init \<and> bindings sample_init = Map.empty" by (simp add: sys_init_def sample_init_def)
  ultimately show ?thesis unfolding repos_reachable_def by blast
qed

lemma bound_row: "\<exists>b. bindings bound_db 8 = Some b \<and> bg_schedule b \<noteq> None \<and> due_at (floor_to_minute 90) b \<and>
    bg_org_id b = 1 \<and> bg_repo_external_id b = ''r''"
proof -
  have "(case bindings bound_db 8 of None \<Rightarrow> False | Some b \<Rightarrow> \<not> Option.is_none (bg_schedule b) \<and> due_at (floor_to_minute 90) b \<and>
      bg_org_id b = 1 \<and> bg_repo_external_id b = ''r'')" by code_simp
  then show ?thesis by (cases "bindings bound_db 8") (auto simp: Option.is_none_def)
qed

lemma bound_tickets: "tickets bound_db = [2 \<mapsto> sample_ticket] \<and> next_id bound_db = 9"
proof -
  have "next_id bound_db = 9" by code_simp
  moreover obtain i where "create_pipeline 1 sample_definition SystemActor sample_init = Inr (i, sample1)"
    using sample1_created by blast
  then have "tickets sample1 = tickets sample_init" 
    by (fastforce simp: create_pipeline_def audit_for_pipeline_def audit_def Let_def res_simps split: if_splits dest: arg_cong[where f = tickets])
  moreover obtain j where "add_binding sample_repos_env 1 ''r'' nightly SystemActor (Some 4) sample1 = Inr (j, bound_db)"
    using nightly_added by blast
  then have "tickets bound_db = tickets sample1"
    
    by (fastforce elim!: add_binding_inserts simp: insert_binding_def fresh_def audit_def dest: arg_cong[where f = tickets])
  ultimately show ?thesis by (simp add: sample_init_def)
qed

lemma bound_tickets_ok: "tickets_ok bound_db"
  using bound_tickets by (simp add: tickets_ok_def sample_ticket_def keyed_rows_def)

theorem trigger_bindings_usable_witness:
  "\<exists>b. bindings bound_db 8 = Some b \<and> get_row (bg_pipeline_id b) (bg_org_id b) bound_db \<noteq> None \<and>
     (\<exists>sc. bg_schedule b = Some sc \<and> sc_notify_user_ids sc \<noteq> [] \<and> (\<exists>c. parse_cron (sc_cron sc) = Inr c))"
  using bound_row trigger_bindings_usable[OF bound_reachable, of 8] by fast

theorem due_binding_fires_witness:
  "\<exists>fire \<in> set (list_due_schedule_bindings 90 bound_db). tb_id (df_binding fire) = 8 \<and>
     (\<exists>s'. fire_one sample_repos_env fire bound_db = Inr s')"
proof -
  obtain b where b: "bindings bound_db 8 = Some b" "due_at (floor_to_minute 90) b" "bg_org_id b = 1" "bg_repo_external_id b = ''r''"
    using bound_row by blast
  have plugin: "resolve_plugin_id sample_repos_env (bg_org_id b) (bg_repo_external_id b) = Inr ''github''"
    by (simp add: resolve_plugin_id_def sample_repos_env_def engine_env.extend_def)
  have fresh: "\<forall>j u. tickets bound_db j = Some u \<longrightarrow>
      tk_idempotency_key u \<noteq> Some (uuid_str sample_repos_env 8 @ '':'' @ isoformat (floor_to_minute 90)) \<and>
      tk_source_external_id u \<noteq> uuid_str sample_repos_env 8 @ '':'' @ isoformat (floor_to_minute 90)"
    using bound_tickets by (auto simp: sample_ticket_def sample_repos_env_def sample_env_def engine_env.extend_def split: if_splits)
  note fires = due_binding_fires[OF bound_reachable bound_tickets_ok b(1), of 90]
  have "\<exists>sc c. bg_schedule b = Some sc \<and> parse_cron (sc_cron sc) = Inr c \<and> matches c (floor_to_minute 90)"
    using b(2) by (auto simp: due_at_def split: option.splits sum.splits)
  then obtain fire where fire: "fire \<in> set (list_due_schedule_bindings 90 bound_db)" "tb_id (df_binding fire) = 8"
    using conjunct1[OF fires] by blast
  from conjunct2[OF fires, THEN spec, THEN spec, THEN mp, OF fire(1), THEN mp, OF fire(2), THEN mp, OF plugin, THEN mp, OF fresh] fire show ?thesis by blast
qed

theorem schedule_slot_fires_once_witness:
  "list_due_schedule_bindings 90 bound_db \<noteq> [] \<and>
   pipeline_schedule_tick sample_repos_env 100 ticked_db = ([], ticked_db)"
proof
  have "length (list_due_schedule_bindings 90 bound_db) = 1" by code_simp
  then show "list_due_schedule_bindings 90 bound_db \<noteq> []" by auto
  have "fst (pipeline_schedule_tick sample_repos_env 90 bound_db) = []" by code_simp
  then have tick: "pipeline_schedule_tick sample_repos_env 90 bound_db = ([], ticked_db)"
    by (simp add: ticked_db_def prod_eq_iff)
  have ok: "tickets_ok ticked_db"
    using tick_keeps[of bound_db sample_repos_env 90] bound_tickets_ok by (simp add: tick keeps_def tickets_move_def)
  have keyed: "keyed_rows bg_id (next_id bound_db) (bindings bound_db)"
    using repos_reachable_ok[OF bound_reachable] by (simp add: bindings_ok_def)
  show "pipeline_schedule_tick sample_repos_env 100 ticked_db = ([], ticked_db)"
    using schedule_slot_fires_once[OF tick bound_tickets_ok keyed, of ticked_db 100] ok
    by (simp add: tickets_move_def floor_to_minute_def)
qed
end
