(* ===== verification/CronProps.thy ===== *)
theory CronProps
  imports Cron
begin

text \<open>
  What the cron parser accepts and what the accepted expressions denote, against an abstract syntax of
  the grammar that \<^verbatim>\<open>core/tasks/cron.py\<close> documents.
\<close>

section \<open>Numbers and separators\<close>

lemma digit_char: "n < 10 \<Longrightarrow> is_digit (''0123456789'' ! n) \<and> digit_value (''0123456789'' ! n) = int n"
  unfolding is_digit_def digit_value_def by (auto simp: less_Suc_eq numeral_eq_Suc)

lemma dec_digits: "list_all is_digit (dec n) \<and> dec n \<noteq> []"
proof (induction n rule: dec.induct)
  case (1 n)
  then show ?case by (subst (1 2) dec.simps) (auto simp: digit_char simp del: nth_Cons_numeral)
qed

lemma int_digits_fold:
  "list_all is_digit xs \<Longrightarrow> xs \<noteq> [] \<Longrightarrow>
     int_digits acc xs = Some (foldl (\<lambda>a c. a * 10 + digit_value c) acc xs)"
proof (induction acc xs rule: int_digits.induct)
  case (2 acc c cs)
  then show ?case by (cases cs) (auto simp: is_digit_def)
qed simp

lemma foldl_dec: "foldl (\<lambda>a c. a * 10 + digit_value c) 0 (dec n) = int n"
proof (induction n rule: dec.induct)
  case (1 n)
  show ?case
  proof (cases "n < 10")
    case True
    then show ?thesis by (subst dec.simps) (simp add: digit_char)
  next
    case False
    have "int (n div 10) * 10 + int (n mod 10) = int n" by presburger
    with False 1 show ?thesis by (subst dec.simps) (simp add: digit_char)
  qed
qed

lemma digit_plain: "is_digit c \<Longrightarrow> \<not> is_space c \<and> c \<notin> set ''*/-,+''"
  by (auto simp: is_digit_def is_space_def)

lemma dropWhile_id: "list_all (\<lambda>c. \<not> P c) xs \<Longrightarrow> dropWhile P xs = xs"
  by (cases xs) auto

lemma strip_id: "list_all (\<lambda>c. \<not> is_space c) xs \<Longrightarrow> strip xs = xs"
  by (simp add: strip_def dropWhile_id)

lemma py_int_dec [simp]: "py_int (dec n) = Inr (int n)"
proof -
  have d: "list_all is_digit (dec n)" "dec n \<noteq> []" using dec_digits by auto
  have "strip (dec n) = dec n" by (rule strip_id) (use d digit_plain in \<open>auto simp: list_all_iff\<close>)
  moreover obtain c cs where c: "dec n = c # cs" using d(2) by (cases "dec n") auto
  moreover have "c \<noteq> CHR ''-''" "c \<noteq> CHR ''+''" using d(1) digit_plain[of c] c by auto
  moreover have "int_digits 0 (dec n) = Some (int n)" using int_digits_fold[OF d] foldl_dec by simp
  ultimately show ?thesis by (simp add: py_int_def)
qed

fun join :: "char \<Rightarrow> string list \<Rightarrow> string" where
  "join sep [] = []"
| "join sep [w] = w"
| "join sep (w # ws) = w @ sep # join sep ws"

lemma split_on_plain: "sep \<notin> set w \<Longrightarrow> split_on sep w = [w]"
  by (induction w) auto

lemma split_on_append: "sep \<notin> set w \<Longrightarrow> split_on sep (w @ sep # r) = w # split_on sep r"
  by (induction w) auto

lemma split_on_join: "ws \<noteq> [] \<Longrightarrow> list_all (\<lambda>w. sep \<notin> set w) ws \<Longrightarrow> split_on sep (join sep ws) = ws"
  by (induction sep ws rule: join.induct) (simp_all add: split_on_plain split_on_append)

definition word :: "string \<Rightarrow> bool" where
  "word w \<longleftrightarrow> w \<noteq> [] \<and> list_all (\<lambda>c. \<not> is_space c) w"

lemma words_append: "word w \<Longrightarrow> words (w @ CHR '' '' # r) = w # words r"
proof -
  assume w: "word w"
  then obtain c cs where c: "w = c # cs" by (cases w) (auto simp: word_def)
  have sp: "is_space (CHR '' '')" by (simp add: is_space_def)
  have "words (CHR '' '' # r) = words r" by (subst (1 2) words.simps) (simp add: sp)
  moreover have "takeWhile (\<lambda>d. \<not> is_space d) (cs @ CHR '' '' # r) = cs"
    "dropWhile (\<lambda>d. \<not> is_space d) (cs @ CHR '' '' # r) = CHR '' '' # r"
    using w c sp by (auto simp: word_def list_all_iff takeWhile_append dropWhile_append)
  ultimately show ?thesis using w c by (subst words.simps) (simp add: word_def)
qed

lemma words_word: "word w \<Longrightarrow> words w = [w]"
proof -
  assume w: "word w"
  then obtain c cs where c: "w = c # cs" by (cases w) (auto simp: word_def)
  have "takeWhile (\<lambda>d. \<not> is_space d) cs = cs" "dropWhile (\<lambda>d. \<not> is_space d) cs = []"
    using w c by (simp_all add: word_def list_all_iff)
  moreover have "words [] = []" by (subst words.simps) simp
  ultimately show ?thesis using w c by (subst words.simps) (simp add: word_def del: dropWhile_eq_Nil_conv)
qed

lemma words_join: "list_all word ws \<Longrightarrow> words (join (CHR '' '') ws) = ws"
proof (induction "CHR '' ''" ws rule: join.induct)
  case 1
  show ?case by (subst words.simps) simp
qed (simp_all add: words_word words_append)

section \<open>The grammar\<close>

datatype cron_base = Every | Value nat | Range nat nat

record cron_part =
  cp_base :: cron_base
  cp_step :: "nat option"

definition render_base :: "cron_base \<Rightarrow> string" where
  "render_base b = (case b of Every \<Rightarrow> ''*'' | Value v \<Rightarrow> dec v | Range a b \<Rightarrow> dec a @ CHR ''-'' # dec b)"

definition render_part :: "cron_part \<Rightarrow> string" where
  "render_part p = render_base (cp_base p) @ (case cp_step p of None \<Rightarrow> [] | Some n \<Rightarrow> CHR ''/'' # dec n)"

definition render_field :: "cron_part list \<Rightarrow> string" where
  "render_field ps = join (CHR '','') (map render_part ps)"

definition render_cron :: "cron_part list list \<Rightarrow> string" where
  "render_cron fs = join (CHR '' '') (map render_field fs)"

definition part_ok :: "int \<Rightarrow> int \<Rightarrow> cron_part \<Rightarrow> bool" where
  "part_ok lo hi p \<longleftrightarrow> cp_step p \<noteq> Some 0 \<and>
     (case cp_base p of Every \<Rightarrow> True | Value v \<Rightarrow> lo \<le> int v \<and> int v \<le> hi
      | Range a b \<Rightarrow> lo \<le> int a \<and> a \<le> b \<and> int b \<le> hi)"

definition step_of :: "cron_part \<Rightarrow> int" where
  "step_of p = (case cp_step p of None \<Rightarrow> 1 | Some n \<Rightarrow> int n)"

text \<open>The values a part permits; the step of a single value is ignored.\<close>

definition permits :: "int \<Rightarrow> int \<Rightarrow> cron_part \<Rightarrow> int \<Rightarrow> bool" where
  "permits lo hi p v \<longleftrightarrow>
     (case cp_base p of
        Every \<Rightarrow> lo \<le> v \<and> v \<le> hi \<and> step_of p dvd (v - lo)
      | Value u \<Rightarrow> v = int u
      | Range a b \<Rightarrow> int a \<le> v \<and> v \<le> int b \<and> step_of p dvd (v - int a))"

section \<open>Parsing the rendering\<close>

definition plain :: "string \<Rightarrow> bool" where
  "plain w \<longleftrightarrow> word w \<and> CHR '','' \<notin> set w"

lemma dec_avoids: "c \<in> set ''*/-,+ '' \<Longrightarrow> c \<notin> set (dec n)"
proof -
  assume "c \<in> set ''*/-,+ ''"
  then have "\<not> is_digit c" by (auto simp: is_digit_def)
  then show ?thesis using dec_digits[of n] by (auto simp only: list_all_iff)
qed

lemma le_div_int: "0 < k \<Longrightarrow> j \<le> m div k \<longleftrightarrow> j * k \<le> (m :: int)"
proof -
  assume k: "0 < k"
  have m: "m = m div k * k + m mod k" "0 \<le> m mod k" "m mod k < k" using k by simp_all
  show ?thesis
  proof
    assume "j \<le> m div k"
    then have "j * k \<le> m div k * k" using k by (simp add: mult_right_mono)
    then show "j * k \<le> m" using m by linarith
  next
    assume "j * k \<le> m"
    then have "j * k < (m div k + 1) * k" using m unfolding distrib_right by linarith
    then show "j \<le> m div k" using k by (simp add: mult_less_cancel_right)
  qed
qed

lemma dec_word: "list_all (\<lambda>c. \<not> is_space c) (dec n)"
  by (rule list.pred_mono_strong[of is_digit]) (use dec_digits digit_plain in blast)+

lemma render_part_plain: "plain (render_part p)"
proof -
  have "\<not> is_space (CHR ''*'')" "\<not> is_space (CHR ''-'')" "\<not> is_space (CHR ''/'')" by (simp_all add: is_space_def)
  then show ?thesis using dec_digits
    by (cases "cp_base p"; cases "cp_step p")
      (simp_all add: plain_def word_def render_part_def render_base_def dec_word dec_avoids)
qed

lemma int_range_set:
  assumes "0 < k"
  shows "set (int_range a (b + 1) k) = {v. a \<le> v \<and> v \<le> b \<and> k dvd (v - a)}"
    (is "?L = ?R")
proof (intro equalityI subsetI)
  fix x assume "x \<in> ?L"
  then obtain j where j: "j < nat ((b - a) div k + 1)" "x = a + int j * k"
    by (auto simp: int_range_def)
  from j(1) have "int j \<le> (b - a) div k" by linarith
  then have "int j * k \<le> b - a" using assms by (simp add: le_div_int)
  moreover have "0 \<le> int j * k" using assms by simp
  ultimately show "x \<in> ?R" using j(2) by simp
next
  fix x assume x: "x \<in> ?R"
  then obtain j where j: "x - a = k * j" by (auto elim: dvdE)
  have "0 \<le> k * j" using x j by simp
  then have "0 \<le> j" using assms by (simp add: zero_le_mult_iff)
  have "j * k \<le> b - a" using x j by (simp add: mult.commute)
  then have "j \<le> (b - a) div k" using assms by (simp add: le_div_int)
  then have "nat j < nat ((b - a) div k + 1)" using \<open>0 \<le> j\<close> by linarith
  moreover have "x = a + int (nat j) * k" using j \<open>0 \<le> j\<close> by (simp add: mult.commute)
  ultimately show "x \<in> ?L" unfolding int_range_def set_map set_upt by (intro image_eqI[of _ _ "nat j"]) auto
qed

lemma split_once_at: "c \<notin> set w \<Longrightarrow> split_once c (w @ c # r) = (w, r)"
  by (induction w) (auto simp: split_once_def)

lemma base_no_slash: "CHR ''/'' \<notin> set (render_base b)"
  by (cases b) (auto simp: render_base_def dec_avoids)

lemma dec_not_star: "dec n \<noteq> ''*''" "dec a @ CHR ''-'' # r \<noteq> ''*''"
  using dec_avoids[of "CHR ''*''" n] by (auto simp: append_eq_Cons_conv)

definition parse_base :: "string \<Rightarrow> int \<Rightarrow> int \<Rightarrow> int \<Rightarrow> int list res" where
  "parse_base base step lo hi =
     (if base = ''*'' \<or> CHR ''-'' \<in> set base
     then ebind (if base = ''*'' then Inr (lo, hi)
                 else ebind (py_int (fst (split_once (CHR ''-'') base))) (\<lambda>start.
                      ebind (py_int (snd (split_once (CHR ''-'') base))) (\<lambda>end'.
                      Inr (start, end')))) (\<lambda>(start, end').
          if start < lo \<or> hi < end' \<or> end' < start
          then Inl (ValueError ''cron range out of bounds or inverted'')
          else Inr (int_range start (end' + 1) step))
     else ebind (py_int base) (\<lambda>v.
          if v < lo \<or> hi < v then Inl (ValueError ''cron value out of range'') else Inr [v]))"

lemma parse_part_render:
  "parse_part (render_part p) lo hi =
     (if cp_step p = Some 0 then Inl (ValueError ''cron step must be positive'')
      else parse_base (render_base (cp_base p)) (step_of p) lo hi)"
  by (cases "cp_step p")
    (auto simp: parse_part_def parse_base_def render_part_def base_no_slash split_once_at step_of_def guard_def)

definition gives :: "'a list res \<Rightarrow> bool \<Rightarrow> 'a set \<Rightarrow> bool" where
  "gives r ok vals \<longleftrightarrow> (case r of Inr vs \<Rightarrow> ok \<and> set vs = vals | Inl e \<Rightarrow> \<not> ok \<and> (\<exists>m. e = ValueError m))"

lemma parse_part_gives:
  assumes "lo \<le> hi"
  shows "gives (parse_part (render_part p) lo hi) (part_ok lo hi p) {v. permits lo hi p v}"
proof (cases "cp_step p = Some 0")
  case True
  then show ?thesis by (simp add: parse_part_render gives_def part_ok_def)
next
  case False
  then have pos: "0 < step_of p" by (auto simp: step_of_def split: option.splits)
  show ?thesis
    using False assms
    by (cases "cp_base p")
      (simp_all add: parse_part_render parse_base_def render_base_def gives_def part_ok_def permits_def
        dec_avoids dec_not_star split_once_at int_range_set[OF pos] not_less)
qed

lemma gives_bind:
  assumes "gives r ok A" and "gives r' ok' B"
  shows "gives (ebind r (\<lambda>vs. ebind r' (\<lambda>ws. Inr (vs @ ws)))) (ok \<and> ok') (A \<union> B)"
  using assms by (auto simp: gives_def split: sum.splits)

lemma parse_parts_gives:
  assumes "lo \<le> hi"
  shows "gives (parse_parts (map render_part ps) lo hi) (list_all (part_ok lo hi) ps) {v. \<exists>p \<in> set ps. permits lo hi p v}"
proof (induction ps)
  case Nil
  show ?case by (simp add: gives_def)
next
  case (Cons p ps)
  have "{v. permits lo hi p v} \<union> {v. \<exists>p \<in> set ps. permits lo hi p v} = {v. \<exists>q \<in> set (p # ps). permits lo hi q v}" by auto
  then show ?case using gives_bind[OF parse_part_gives[OF assms, of p] Cons.IH] by simp
qed

lemma join_eq_Nil: "join sep ws = [] \<longleftrightarrow> ws = [] \<or> ws = [[]]"
  by (induction sep ws rule: join.induct) auto

lemma parse_field_gives:
  assumes "ps \<noteq> []" and "lo \<le> hi"
  shows "gives (parse_field (render_field ps) lo hi) (list_all (part_ok lo hi) ps) {v. \<exists>p \<in> set ps. permits lo hi p v}"
proof -
  have plain: "list_all (\<lambda>w. CHR '','' \<notin> set w) (map render_part ps)" "list_all (\<lambda>w. w \<noteq> []) (map render_part ps)"
    using render_part_plain by (simp_all add: list_all_iff plain_def word_def)
  have "split_on (CHR '','') (render_field ps) = map render_part ps"
    unfolding render_field_def using split_on_join[OF _ plain(1)] assms(1) by simp
  moreover have "render_field ps \<noteq> []"
    using plain(2) assms(1) by (auto simp: render_field_def join_eq_Nil)
  ultimately have "parse_field (render_field ps) lo hi = parse_parts (map render_part ps) lo hi"
    by (simp add: parse_field_def)
  then show ?thesis using parse_parts_gives[OF assms(2), of ps] by simp
qed

section \<open>Whole expressions\<close>

lemma field_word: "word (render_field ps) \<longleftrightarrow> ps \<noteq> []"
proof (cases ps)
  case Nil
  then show ?thesis by (simp add: render_field_def word_def)
next
  case (Cons p qs)
  have "word (join (CHR '','') (map render_part (p # qs)))"
  proof (induction qs arbitrary: p)
    case Nil
    show ?case using render_part_plain[of p] by (simp add: plain_def)
  next
    case (Cons q qs)
    then show ?case using render_part_plain[of p] by (auto simp: plain_def word_def is_space_def)
  qed
  with Cons show ?thesis by (simp add: render_field_def)
qed

definition field_bounds :: "(int \<times> int) list" where
  "field_bounds = [(0, 59), (0, 23), (1, 31), (1, 12), (0, 6)]"

definition instant_fields :: "timestamp \<Rightarrow> int list" where
  "instant_fields t = (let dt = datetime_of t in
     [dt_minute dt, dt_hour dt, dt_day dt, dt_month dt, python_weekday_to_cron_dow (weekday t)])"

definition field_ok :: "(int \<times> int) \<times> cron_part list \<Rightarrow> bool" where
  "field_ok f = list_all (part_ok (fst (fst f)) (snd (fst f))) (snd f)"

definition permitted :: "((int \<times> int) \<times> cron_part list) \<times> int \<Rightarrow> bool" where
  "permitted f \<longleftrightarrow> (\<exists>p \<in> set (snd (fst f)). permits (fst (fst (fst f))) (snd (fst (fst f))) p (snd f))"

lemma parse_field_cases:
  assumes "ps \<noteq> []" and "lo \<le> hi"
  obtains vs where "field_ok ((lo, hi), ps)" "parse_field (render_field ps) lo hi = Inr vs"
      "\<And>v. v \<in> set vs \<longleftrightarrow> permitted (((lo, hi), ps), v)"
    | m where "\<not> field_ok ((lo, hi), ps)" "parse_field (render_field ps) lo hi = Inl (ValueError m)"
  using parse_field_gives[OF assms] that
  by (auto simp: gives_def field_ok_def permitted_def split: sum.splits)

lemma minutes_only:
  fixes t :: int
  shows "t div 86400 = t div 60 div 1440" and "t mod 86400 div 3600 = t div 60 mod 1440 div 60"
    and "t mod 86400 mod 3600 div 60 = t div 60 mod 1440 mod 60"
proof -
  have nums: "(60::int) * 1440 = 86400" "(60::int) * 60 = 3600" by simp_all
  have nest: "s div (60 * k) = s div 60 div k" "s mod (60 * k) div 60 = s div 60 mod k" if "0 < k" for s k :: int
    using that by (simp_all add: zdiv_zmult2_eq zmod_zmult2_eq del: div_mult2_numeral_eq)
  note n = nest[of 1440, unfolded nums, simplified zero_less_numeral] nest[of 60, unfolded nums, simplified zero_less_numeral]
  show "t div 86400 = t div 60 div 1440" using n(1) by blast
  show "t mod 86400 div 3600 = t div 60 mod 1440 div 60" by (simp only: n(2,3))
  show "t mod 86400 mod 3600 div 60 = t div 60 mod 1440 mod 60" by (simp only: n(2,4))
qed

lemma floor_same_fields: "instant_fields (floor_to_minute t) = instant_fields t"
proof -
  have "floor_to_minute t div 60 = t div 60"
    using mult_div_mod_eq[of 60 t] by (simp add: floor_to_minute_def minus_mod_eq_mult_div)
  then show ?thesis
    by (simp add: instant_fields_def datetime_of_def weekday_def minutes_only Let_def split_beta)
qed

text \<open>C40. A cron expression means what its grammar says. Five non-empty comma lists are accepted exactly if
  every part is within its field's bounds with a positive step; the parsed expression then matches exactly
  the instants whose minute, hour, day, month and weekday are each permitted by a part of their field, and
  does not look at the seconds. Any other is refused with a \<^verbatim>\<open>ValueError\<close>.\<close>

theorem cron_expression_exact:
  assumes "length fs = 5" and "[] \<notin> set fs"
  shows "case parse_cron (render_cron fs) of
      Inr c \<Rightarrow> list_all field_ok (zip field_bounds fs) \<and>
        (\<forall>t. (matches c t \<longleftrightarrow> list_all permitted (zip (zip field_bounds fs) (instant_fields t))) \<and>
             matches c (floor_to_minute t) = matches c t)
    | Inl e \<Rightarrow> \<not> list_all field_ok (zip field_bounds fs) \<and> (\<exists>m. e = ValueError m)"
proof -
  obtain a b c d e where fs: "fs = [a, b, c, d, e]"
    using assms(1) by (auto simp: numeral_eq_Suc length_Suc_conv)
  then have ne: "a \<noteq> []" "b \<noteq> []" "c \<noteq> []" "d \<noteq> []" "e \<noteq> []" using assms(2) by auto
  have words: "words (render_cron fs) = map render_field fs"
    unfolding render_cron_def by (rule words_join) (use ne fs field_word in simp)
  note fields = parse_field_cases[OF ne(1), of 0 59] parse_field_cases[OF ne(2), of 0 23]
    parse_field_cases[OF ne(3), of 1 31] parse_field_cases[OF ne(4), of 1 12] parse_field_cases[OF ne(5), of 0 6]
  have parse: "parse_cron (render_cron fs) =
      ebind (parse_field (render_field a) 0 59) (\<lambda>minute. ebind (parse_field (render_field b) 0 23) (\<lambda>hour.
      ebind (parse_field (render_field c) 1 31) (\<lambda>dom. ebind (parse_field (render_field d) 1 12) (\<lambda>month.
      ebind (parse_field (render_field e) 0 6) (\<lambda>dow.
      Inr \<lparr>cx_minute = minute, cx_hour = hour, cx_dom = dom, cx_month = month, cx_dow = dow\<rparr>)))))"
    using words unfolding parse_cron_def fs by simp
  have matching: "matches \<lparr>cx_minute = v1, cx_hour = v2, cx_dom = v3, cx_month = v4, cx_dow = v5\<rparr> t \<longleftrightarrow>
      list_all2 (\<lambda>x vs. x \<in> set vs) (instant_fields t) [v1, v2, v3, v4, v5]" for v1 v2 v3 v4 v5 t
    by (simp add: matches_def instant_fields_def Let_def)
  have floor: "matches x (floor_to_minute t) = matches x t" for x t
    by (cases x) (simp add: matching floor_same_fields)
  have flat: "list_all permitted (zip (zip field_bounds fs) (instant_fields t)) \<longleftrightarrow>
      list_all2 (\<lambda>f v. permitted (f, v)) (zip field_bounds fs) (instant_fields t)" for t
    by (simp add: fs field_bounds_def instant_fields_def Let_def)
  show ?thesis
    apply (rule fields(1), simp)
     apply (rule fields(2), simp)
      apply (rule fields(3), simp)
       apply (rule fields(4), simp)
        apply (rule fields(5), simp)
         apply (simp add: parse[unfolded fs] floor matching flat fs field_bounds_def instant_fields_def Let_def)
        apply (simp_all add: parse[unfolded fs] fs field_bounds_def)
    done
qed

text \<open>Weekdays at nine: \<^verbatim>\<open>0,30 9 * * 1-5\<close>.\<close>

definition sample_cron :: "cron_part list list" where
  "sample_cron =
     [[\<lparr>cp_base = Value 0, cp_step = None\<rparr>, \<lparr>cp_base = Value 30, cp_step = None\<rparr>], [\<lparr>cp_base = Value 9, cp_step = None\<rparr>],
      [\<lparr>cp_base = Every, cp_step = None\<rparr>], [\<lparr>cp_base = Every, cp_step = None\<rparr>], [\<lparr>cp_base = Range 1 5, cp_step = None\<rparr>]]"

theorem cron_expression_exact_witness:
  "\<exists>c. parse_cron (render_cron sample_cron) = Inr c \<and>
     (\<forall>t. matches c t \<longleftrightarrow> list_all permitted (zip (zip field_bounds sample_cron) (instant_fields t)))"
proof -
  have "list_all field_ok (zip field_bounds sample_cron)"
    by (simp add: sample_cron_def field_bounds_def field_ok_def part_ok_def)
  then show ?thesis
    using cron_expression_exact[of sample_cron] by (auto simp: sample_cron_def split: sum.splits)
qed

end
