(* ===== verification/Accounts.thy ===== *)
theory Accounts
  imports Agents Tickets
begin

text \<open>
  Users, their e-mail addresses, second factors and sessions: \<^verbatim>\<open>core/identity\<close> (\<^verbatim>\<open>sessions.py\<close>,
  \<^verbatim>\<open>repository.py\<close>, \<^verbatim>\<open>service.py\<close>, \<^verbatim>\<open>totp.py\<close>, \<^verbatim>\<open>scheduler.py\<close>, \<^verbatim>\<open>user_web.py\<close>) and the login endpoints of
  \<^verbatim>\<open>core/sessions/web.py\<close>. The database also holds the rows of \<^verbatim>\<open>domain/orgs\<close> and \<^verbatim>\<open>core/api_keys\<close>,
  whose operations are in \<open>Orgs\<close>.

  Parameters (\<open>access_env\<close>): Fernet encryption, the TOTP check of \<^verbatim>\<open>pyotp\<close>, the signing of
  \<^verbatim>\<open>itsdangerous\<close>, the SAML assertion verifier and the identity providers.
\<close>

section \<open>State\<close>

record session_row =
  sn_token_hash :: string
  sn_user_id :: "uuid option"
  sn_workspace_id :: "uuid option"
  sn_sso_satisfied_for_org_id :: "uuid option"
  sn_sso_satisfied_at :: "timestamp option"
  sn_ip :: "string option"
  sn_user_agent :: "string option"
  sn_csrf_token :: string
  sn_created_at :: timestamp
  sn_last_seen_at :: timestamp
  sn_expires_at :: timestamp

record user_row =
  us_id :: uuid
  us_display_name :: string
  us_github_username :: "string option"
  us_deactivated_at :: "timestamp option"

record email_row =
  em_id :: uuid
  em_user_id :: uuid
  em_email :: string
  em_is_primary :: bool
  em_verified_at :: "timestamp option"

record totp_row =
  tp_encrypted_secret :: string
  tp_verified_at :: "timestamp option"
  tp_last_used_at :: "timestamp option"
  tp_created_at :: timestamp

record invitation_row =
  in_id :: uuid
  in_org_id :: uuid
  in_email :: string
  in_role :: role
  in_token_hash :: string
  in_expires_at :: timestamp
  in_accepted_at :: "timestamp option"
  in_invited_by_user_id :: "uuid option"

record sso_config_row =
  so_idp_metadata_xml :: string
  so_jit_enabled :: bool
  so_enabled :: bool
  so_email_domains :: "string list"
  so_exempt_owner_user_id :: "uuid option"
  so_sp_private_key_encrypted :: string
  so_sp_certificate :: string
  so_updated_at :: timestamp

record api_key_row =
  ak_encrypted_value :: string
  ak_last_validated_at :: "timestamp option"

record access_db = gateway_db +
  users :: "user_row table"
  user_emails :: "email_row table"
  totp_secrets :: "totp_row table"
  sessions :: "session_row list"
  invitations :: "invitation_row table"
  sso_configs :: "sso_config_row table"
  api_keys :: "uuid \<times> string \<Rightarrow> api_key_row option"

record provider_profile =
  pp_external_subject :: string
  pp_primary_email :: string
  pp_email_verified :: bool
  pp_mfa_satisfied :: bool
  pp_provider_login :: "string option"

text \<open>What \<^verbatim>\<open>URLSafeTimedSerializer.loads\<close> answers: the payload, or that the signature is wrong or too old.\<close>

datatype 'p signed = Signed 'p | SignatureExpired | BadSignature

record access_env = gateway_env +
  encrypt :: "string \<Rightarrow> string"
  decrypt :: "string \<Rightarrow> string option"
  new_seed :: "nat \<Rightarrow> string"
  totp_accepts :: "string \<Rightarrow> string \<Rightarrow> timestamp \<Rightarrow> bool"
  session_lifetime_seconds :: int
  invitation_lifetime_seconds :: int
  sign_invitation :: "uuid \<times> string \<Rightarrow> timestamp \<Rightarrow> string"
  load_invitation :: "string \<Rightarrow> int \<Rightarrow> timestamp \<Rightarrow> (uuid option \<times> string option) signed"
  load_state :: "string \<Rightarrow> int \<Rightarrow> timestamp \<Rightarrow> string option signed"
  load_totp_challenge :: "string \<Rightarrow> int \<Rightarrow> timestamp \<Rightarrow> (uuid option \<times> string option) signed"
  get_provider :: "string \<Rightarrow> (string \<Rightarrow> provider_profile option) option"
  run_assertion_verifier :: "string \<Rightarrow> string \<Rightarrow> string option"
  generate_sp_keypair :: "nat \<Rightarrow> string \<times> string"

section \<open>Sessions\<close>

text \<open>\<^verbatim>\<open>Created\<close>: the cookie value, the CSRF token and the row.\<close>

definition session_by_hash :: "string \<Rightarrow> 'a access_db_scheme \<Rightarrow> session_row option" where
  "session_by_hash h s = find (\<lambda>r. sn_token_hash r = h) (sessions s)"

definition mint_session ::
  "'e access_env_scheme \<Rightarrow> uuid option \<Rightarrow> uuid option \<Rightarrow> string option \<Rightarrow> string option \<Rightarrow> int option \<Rightarrow>
   'a access_db_scheme \<Rightarrow> ((string \<times> string \<times> session_row) \<times> 'a access_db_scheme) res" where
  "mint_session env user_id workspace_id ip user_agent lifetime s =
     (if (user_id = None) = (workspace_id = None)
      then Inl (ValueError ''exactly one of user_id / workspace_id must be set'')
      else case fresh s of (n1, s1) \<Rightarrow>
           case fresh s1 of (n2, s2) \<Rightarrow>
        let raw = token_urlsafe env n1; csrf = token_urlsafe env n2;
            row = \<lparr>sn_token_hash = sha256 env raw, sn_user_id = user_id, sn_workspace_id = workspace_id,
                   sn_sso_satisfied_for_org_id = None, sn_sso_satisfied_at = None, sn_ip = ip,
                   sn_user_agent = user_agent, sn_csrf_token = csrf, sn_created_at = now s,
                   sn_last_seen_at = now s,
                   sn_expires_at = now s + (case lifetime of Some l \<Rightarrow> l | None \<Rightarrow> session_lifetime_seconds env)\<rparr>
        in ebind (guard (case user_id of None \<Rightarrow> True | Some u \<Rightarrow> users s u \<noteq> None) IntegrityError) (\<lambda>_.
           ebind (guard (session_by_hash (sha256 env raw) s = None) IntegrityError) (\<lambda>_.
           Inr ((raw, csrf, row), s2\<lparr>sessions := sessions s2 @ [row]\<rparr>))))"

definition find_session_by_hash :: "string \<Rightarrow> 'a access_db_scheme \<Rightarrow> session_row option" where
  "find_session_by_hash h s =
     (case session_by_hash h s of None \<Rightarrow> None | Some r \<Rightarrow> if sn_expires_at r < now s then None else Some r)"

definition lookup_session :: "'e access_env_scheme \<Rightarrow> string \<Rightarrow> 'a access_db_scheme \<Rightarrow> session_row option" where
  "lookup_session env raw s = find_session_by_hash (sha256 env raw) s"

definition upd_sessions ::
  "(session_row \<Rightarrow> bool) \<Rightarrow> (session_row \<Rightarrow> session_row) \<Rightarrow> 'a access_db_scheme \<Rightarrow> 'a access_db_scheme" where
  "upd_sessions P f s = s\<lparr>sessions := map (\<lambda>r. if P r then f r else r) (sessions s)\<rparr>"

definition delete_sessions :: "(session_row \<Rightarrow> bool) \<Rightarrow> 'a access_db_scheme \<Rightarrow> nat \<times> 'a access_db_scheme" where
  "delete_sessions P s = (length (filter P (sessions s)), s\<lparr>sessions := filter (\<lambda>r. \<not> P r) (sessions s)\<rparr>)"

definition touch_session :: "'e access_env_scheme \<Rightarrow> string \<Rightarrow> 'a access_db_scheme \<Rightarrow> 'a access_db_scheme" where
  "touch_session env raw s =
     upd_sessions (\<lambda>r. sn_token_hash r = sha256 env raw \<and> now s \<le> sn_expires_at r)
       (\<lambda>r. r\<lparr>sn_last_seen_at := now s\<rparr>) s"

definition revoke_session :: "'e access_env_scheme \<Rightarrow> string \<Rightarrow> 'a access_db_scheme \<Rightarrow> 'a access_db_scheme" where
  "revoke_session env raw s = snd (delete_sessions (\<lambda>r. sn_token_hash r = sha256 env raw) s)"

definition revoke_all_sessions_for_user :: "uuid \<Rightarrow> 'a access_db_scheme \<Rightarrow> nat \<times> 'a access_db_scheme" where
  "revoke_all_sessions_for_user user_id = delete_sessions (\<lambda>r. sn_user_id r = Some user_id)"

definition rotate_session ::
  "'e access_env_scheme \<Rightarrow> string \<Rightarrow> string option \<Rightarrow> string option \<Rightarrow> 'a access_db_scheme \<Rightarrow>
   ((string \<times> string \<times> session_row) \<times> 'a access_db_scheme) res" where
  "rotate_session env old_raw ip user_agent s =
     ebind (require (lookup_session env old_raw s) SessionNotFoundError) (\<lambda>old.
     ebind (mint_session env (sn_user_id old) (sn_workspace_id old) ip user_agent None s) (\<lambda>(new, s1).
     Inr (new, revoke_session env old_raw s1)))"

definition mark_sso_satisfied ::
  "'e access_env_scheme \<Rightarrow> string \<Rightarrow> uuid \<Rightarrow> 'a access_db_scheme \<Rightarrow> 'a access_db_scheme res" where
  "mark_sso_satisfied env raw org_id s =
     (let P = (\<lambda>r. sn_token_hash r = sha256 env raw \<and> now s \<le> sn_expires_at r) in
      ebind (guard (list_ex P (sessions s)) SessionNotFoundError) (\<lambda>_.
      Inr (upd_sessions P
             (\<lambda>r. r\<lparr>sn_sso_satisfied_for_org_id := Some org_id, sn_sso_satisfied_at := Some (now s)\<rparr>) s)))"

definition SSO_TTL :: int where "SSO_TTL = 8 * 3600"

definition is_sso_satisfied :: "timestamp \<Rightarrow> session_row \<Rightarrow> uuid \<Rightarrow> bool" where
  "is_sso_satisfied t r org_id \<longleftrightarrow>
     sn_sso_satisfied_for_org_id r = Some org_id \<and>
     (case sn_sso_satisfied_at r of None \<Rightarrow> False | Some at' \<Rightarrow> t \<le> at' + SSO_TTL)"

definition cleanup_expired_sessions :: "'a access_db_scheme \<Rightarrow> nat \<times> 'a access_db_scheme" where
  "cleanup_expired_sessions s = delete_sessions (\<lambda>r. sn_expires_at r < now s) s"

section \<open>Users and e-mail addresses\<close>

definition insert_user :: "string \<Rightarrow> 'a access_db_scheme \<Rightarrow> uuid \<times> 'a access_db_scheme" where
  "insert_user display_name s =
     (case fresh s of (i, s1) \<Rightarrow>
        (i, s1\<lparr>users := (users s1)(i \<mapsto>
               \<lparr>us_id = i, us_display_name = display_name, us_github_username = None, us_deactivated_at = None\<rparr>)\<rparr>))"

definition set_user_display_name :: "uuid \<Rightarrow> string \<Rightarrow> 'a access_db_scheme \<Rightarrow> 'a access_db_scheme" where
  "set_user_display_name i n s = s\<lparr>users := modify i (\<lambda>u. u\<lparr>us_display_name := n\<rparr>) (users s)\<rparr>"

definition set_user_github_username :: "uuid \<Rightarrow> string option \<Rightarrow> 'a access_db_scheme \<Rightarrow> 'a access_db_scheme" where
  "set_user_github_username i n s = s\<lparr>users := modify i (\<lambda>u. u\<lparr>us_github_username := n\<rparr>) (users s)\<rparr>"

text \<open>The partial unique index \<^verbatim>\<open>uq_user_emails_email_active\<close>: one verified row per lower-cased address.\<close>

definition verified_address :: "string \<Rightarrow> email_row \<Rightarrow> bool" where
  "verified_address a e \<longleftrightarrow> lower (em_email e) = lower a \<and> em_verified_at e \<noteq> None"

definition add_email ::
  "uuid \<Rightarrow> string \<Rightarrow> bool \<Rightarrow> bool \<Rightarrow> 'a access_db_scheme \<Rightarrow> (uuid \<times> 'a access_db_scheme) res" where
  "add_email user_id email is_primary verified s =
     (case fresh s of (i, s1) \<Rightarrow>
        ebind (guard (users s user_id \<noteq> None) IntegrityError) (\<lambda>_.
        ebind (guard (verified \<longrightarrow> select (user_emails s) (next_id s) (verified_address email) = []) IntegrityError) (\<lambda>_.
        Inr (i, s1\<lparr>user_emails := (user_emails s1)(i \<mapsto>
               \<lparr>em_id = i, em_user_id = user_id, em_email = email, em_is_primary = is_primary,
                em_verified_at = (if verified then Some (now s) else None)\<rparr>)\<rparr>))))"

definition verified_email_of :: "uuid \<Rightarrow> email_row \<Rightarrow> bool" where
  "verified_email_of user_id e \<longleftrightarrow> em_user_id e = user_id \<and> em_verified_at e \<noteq> None"

definition count_verified_emails :: "uuid \<Rightarrow> 'a access_db_scheme \<Rightarrow> nat" where
  "count_verified_emails user_id s = length (select (user_emails s) (next_id s) (verified_email_of user_id))"

definition delete_email :: "uuid \<Rightarrow> uuid \<Rightarrow> 'a access_db_scheme \<Rightarrow> bool \<times> 'a access_db_scheme" where
  "delete_email user_id email_id s =
     (case user_emails s email_id of
        None \<Rightarrow> (False, s)
      | Some e \<Rightarrow>
          if em_user_id e = user_id then (True, s\<lparr>user_emails := (user_emails s)(email_id := None)\<rparr>)
          else (False, s))"

text \<open>At most one row qualifies: a verified address is unique.\<close>

definition find_user_by_email :: "string \<Rightarrow> 'a access_db_scheme \<Rightarrow> user_row option" where
  "find_user_by_email email s =
     first_row (List.map_filter
       (\<lambda>e. case users s (em_user_id e) of
              None \<Rightarrow> None
            | Some u \<Rightarrow> if us_deactivated_at u = None then Some u else None)
       (select (user_emails s) (next_id s) (verified_address email)))"

definition add_oauth_identity ::
  "uuid \<Rightarrow> string \<Rightarrow> string \<Rightarrow> 'a access_db_scheme \<Rightarrow> 'a access_db_scheme res" where
  "add_oauth_identity user_id provider external_subject s =
     ebind (guard (users s user_id \<noteq> None) IntegrityError) (\<lambda>_.
     ebind (guard (map_of (oauth_identities s) (provider, external_subject) = None) IntegrityError) (\<lambda>_.
     Inr (s\<lparr>oauth_identities := oauth_identities s @ [((provider, external_subject), user_id)]\<rparr>)))"

text \<open>
  Memberships of a user in organisations that exist, with the organisation's id; the other columns
  of \<^verbatim>\<open>MembershipView\<close> are read from the same two rows.
\<close>

definition list_memberships_for_user :: "uuid \<Rightarrow> 'a infra_scheme \<Rightarrow> (membership \<times> org_row) list" where
  "list_memberships_for_user user_id s =
     List.map_filter (\<lambda>m. if mb_user_id m = user_id then map_option (Pair m) (orgs s (mb_org_id m)) else None)
       (memberships s)"

text \<open>One audit row per organisation of the user.\<close>

definition audit_for_user ::
  "uuid \<Rightarrow> string \<Rightarrow> json \<Rightarrow> actor \<Rightarrow> 'a access_db_scheme \<Rightarrow> 'a access_db_scheme" where
  "audit_for_user user_id kind payload act s =
     fold (\<lambda>(m, g). audit ''user'' user_id kind payload act (og_id g)) (list_memberships_for_user user_id s) s"

section \<open>Second factor\<close>

definition upsert_totp_secret :: "uuid \<Rightarrow> string \<Rightarrow> 'a access_db_scheme \<Rightarrow> 'a access_db_scheme res" where
  "upsert_totp_secret user_id ciphertext s =
     (case totp_secrets s user_id of
        Some t \<Rightarrow> Inr (s\<lparr>totp_secrets := (totp_secrets s)(user_id \<mapsto>
            t\<lparr>tp_encrypted_secret := ciphertext, tp_verified_at := None, tp_last_used_at := None\<rparr>)\<rparr>)
      | None \<Rightarrow>
          ebind (guard (users s user_id \<noteq> None) IntegrityError) (\<lambda>_.
          Inr (s\<lparr>totp_secrets := (totp_secrets s)(user_id \<mapsto>
            \<lparr>tp_encrypted_secret = ciphertext, tp_verified_at = None, tp_last_used_at = None,
             tp_created_at = now s\<rparr>)\<rparr>)))"

definition enroll_totp ::
  "'e access_env_scheme \<Rightarrow> uuid \<Rightarrow> 'a access_db_scheme \<Rightarrow> (string \<times> 'a access_db_scheme) res" where
  "enroll_totp env user_id s =
     (case fresh s of (n, s1) \<Rightarrow>
        let seed = new_seed env n in
        ebind (upsert_totp_secret user_id (encrypt env seed) s1) (\<lambda>s2. Inr (seed, s2)))"

definition verify_totp ::
  "'e access_env_scheme \<Rightarrow> uuid \<Rightarrow> string \<Rightarrow> 'a access_db_scheme \<Rightarrow> bool \<times> 'a access_db_scheme" where
  "verify_totp env user_id code s =
     (case totp_secrets s user_id of
        None \<Rightarrow> (False, s)
      | Some t \<Rightarrow>
          (case decrypt env (tp_encrypted_secret t) of
             None \<Rightarrow> (False, s)
           | Some seed \<Rightarrow>
               if \<not> totp_accepts env seed code (now s) then (False, s)
               else (True, s\<lparr>totp_secrets := (totp_secrets s)(user_id \<mapsto>
                 t\<lparr>tp_verified_at := (case tp_verified_at t of None \<Rightarrow> Some (now s) | Some v \<Rightarrow> Some v),
                   tp_last_used_at := Some (now s)\<rparr>)\<rparr>)))"

definition has_verified_totp :: "uuid \<Rightarrow> 'a access_db_scheme \<Rightarrow> bool" where
  "has_verified_totp user_id s \<longleftrightarrow>
     (case totp_secrets s user_id of None \<Rightarrow> False | Some t \<Rightarrow> tp_verified_at t \<noteq> None)"

section \<open>Login\<close>

definition note_github_login :: "string \<Rightarrow> provider_profile \<Rightarrow> uuid \<Rightarrow> 'a access_db_scheme \<Rightarrow> 'a access_db_scheme" where
  "note_github_login provider_id profile user_id s =
     (if provider_id = ''github'' \<and> or_else (pp_provider_login profile) [] \<noteq> []
      then set_user_github_username user_id (pp_provider_login profile) s else s)"

definition login_via_oauth ::
  "string \<Rightarrow> provider_profile \<Rightarrow> 'a access_db_scheme \<Rightarrow> (uuid option \<times> 'a access_db_scheme) res" where
  "login_via_oauth provider_id profile s =
     (case find_oauth_identity provider_id (pp_external_subject profile) s of
        Some user_id \<Rightarrow>
          ebind (guard (users s user_id \<noteq> None) AssertionError) (\<lambda>_.
          Inr (Some user_id, note_github_login provider_id profile user_id s))
      | None \<Rightarrow>
          (case find_user_by_email (pp_primary_email profile) s of
             Some u \<Rightarrow>
               ebind (add_oauth_identity (us_id u) provider_id (pp_external_subject profile) s) (\<lambda>s1.
               Inr (Some (us_id u), note_github_login provider_id profile (us_id u) s1))
           | None \<Rightarrow> Inr (None, s)))"

definition safe_next :: "string option \<Rightarrow> string" where
  "safe_next value =
     (let v = or_else value [] in
      if v = [] \<or> \<not> starts_with ''/'' v \<or> starts_with ''//'' v then ''/'' else v)"

definition get_org_row_by_slug :: "string \<Rightarrow> 'a infra_scheme \<Rightarrow> org_row option" where
  "get_org_row_by_slug slug s =
     first_row (select (orgs s) (next_id s) (\<lambda>g. og_slug g = slug \<and> og_archived_at g = None))"

definition get_membership :: "uuid \<Rightarrow> uuid \<Rightarrow> 'a infra_scheme \<Rightarrow> membership option" where
  "get_membership user_id org_id s =
     find (\<lambda>m. mb_user_id m = user_id \<and> mb_org_id m = org_id) (memberships s)"

record auth_org =
  ao_org_id :: uuid
  ao_slug :: string
  ao_role :: role
  ao_sso_enabled :: bool
  ao_sso_exempt_owner_user_id :: "uuid option"
  ao_session_timeout_override :: "int option"

definition resolve_auth_org :: "uuid \<Rightarrow> string \<Rightarrow> 'a infra_scheme \<Rightarrow> auth_org option" where
  "resolve_auth_org user_id slug s =
     (case get_org_row_by_slug slug s of
        None \<Rightarrow> None
      | Some g \<Rightarrow>
          (case get_membership user_id (og_id g) s of
             None \<Rightarrow> None
           | Some m \<Rightarrow> Some \<lparr>ao_org_id = og_id g, ao_slug = og_slug g, ao_role = mb_role m,
               ao_sso_enabled = og_sso_enabled g, ao_sso_exempt_owner_user_id = og_sso_exempt_owner_user_id g,
               ao_session_timeout_override = og_session_timeout_override g\<rparr>))"

definition safe_next_for_user :: "uuid \<Rightarrow> string option \<Rightarrow> 'a infra_scheme \<Rightarrow> string" where
  "safe_next_for_user user_id value s =
     (let path = safe_next value; slug = takeWhile (\<lambda>c. c \<noteq> CHR ''/'') (drop 5 path) in
      if \<not> starts_with ''/org/'' path \<or> slug = [] then path
      else if slug \<in> set [''undefined'', ''null''] then ''/''
      else if resolve_auth_org user_id slug s = None then ''/'' else path)"

datatype login_reply =
    SignedIn string "string \<times> string \<times> session_row"
  | StepUp uuid string
  | NotProvisioned

definition STATE_MAX_AGE_SECONDS :: int where "STATE_MAX_AGE_SECONDS = 600"
definition TOTP_CHALLENGE_MAX_AGE_SECONDS :: int where "TOTP_CHALLENGE_MAX_AGE_SECONDS = 600"

definition revoke_pre_auth_session ::
  "'e access_env_scheme \<Rightarrow> string option \<Rightarrow> 'a access_db_scheme \<Rightarrow> 'a access_db_scheme" where
  "revoke_pre_auth_session env cookie s =
     (if or_else cookie [] \<noteq> [] then revoke_session env (or_else cookie []) s else s)"

definition emit_login_audit ::
  "uuid \<Rightarrow> string \<Rightarrow> bool \<Rightarrow> 'a access_db_scheme \<Rightarrow> 'a access_db_scheme" where
  "emit_login_audit user_id provider newly_created s =
     audit_for_user user_id ''logged_in'' (JObj [(''provider'', JStr provider), (''newly_created'', JBool newly_created)])
       (UserActor user_id None) s"

definition oauth_callback ::
  "'e access_env_scheme \<Rightarrow> string \<Rightarrow> string \<Rightarrow> string \<Rightarrow> string option \<Rightarrow> string option \<Rightarrow> string option \<Rightarrow>
   'a access_db_scheme \<Rightarrow> (login_reply \<times> 'a access_db_scheme) res" where
  "oauth_callback env provider code state cookie ip user_agent s =
     ebind (require (get_provider env provider) (HTTPException 404 ''unknown_provider'')) (\<lambda>exchange_code.
     case load_state env state STATE_MAX_AGE_SECONDS (now s) of
       SignatureExpired \<Rightarrow> Inl (HTTPException 400 ''state_expired'')
     | BadSignature \<Rightarrow> Inl (HTTPException 400 ''state_invalid'')
     | Signed next' \<Rightarrow>
         ebind (require (exchange_code code) (HTTPException 502 ''provider_error'')) (\<lambda>profile.
         ebind (guard (pp_email_verified profile) (HTTPException 403 ''email_not_verified'')) (\<lambda>_.
         ebind (login_via_oauth provider profile s) (\<lambda>(user, s1).
         case user of
           None \<Rightarrow> Inr (NotProvisioned, s)
         | Some user_id \<Rightarrow>
             if \<not> pp_mfa_satisfied profile \<and> has_verified_totp user_id s1
             then Inr (StepUp user_id (safe_next next'), s1)
             else
               let s2 = revoke_pre_auth_session env cookie s1 in
               ebind (mint_session env (Some user_id) None ip user_agent None s2) (\<lambda>(created, s3).
               let s4 = emit_login_audit user_id provider False s3 in
               Inr (SignedIn (safe_next_for_user user_id (Some (safe_next next')) s4) created, s4))))))"

definition totp_challenge ::
  "'e access_env_scheme \<Rightarrow> string option \<Rightarrow> string \<Rightarrow> string option \<Rightarrow> string option \<Rightarrow> string option \<Rightarrow>
   'a access_db_scheme \<Rightarrow> (login_reply \<times> 'a access_db_scheme) res" where
  "totp_challenge env challenge code cookie ip user_agent s =
     ebind (guard (or_else challenge [] \<noteq> []) (HTTPException 400 ''no_challenge_cookie'')) (\<lambda>_.
     case load_totp_challenge env (or_else challenge []) TOTP_CHALLENGE_MAX_AGE_SECONDS (now s) of
       Signed (Some user_id, next') \<Rightarrow>
         (case verify_totp env user_id code s of (ok, s1) \<Rightarrow>
            ebind (guard ok (HTTPException 400 ''totp_invalid'')) (\<lambda>_.
            let next_path = safe_next_for_user user_id (Some (safe_next next')) s1;
                s2 = revoke_pre_auth_session env cookie s1 in
            ebind (mint_session env (Some user_id) None ip user_agent None s2) (\<lambda>(created, s3).
            Inr (SignedIn next_path created, emit_login_audit user_id ''totp_step_up'' False s3))))
     | _ \<Rightarrow> Inl (HTTPException 400 ''challenge_invalid''))"

definition session_user :: "'e access_env_scheme \<Rightarrow> string option \<Rightarrow> 'a access_db_scheme \<Rightarrow> uuid option" where
  "session_user env cookie s =
     (let c = or_else cookie [] in
      if c = [] then None
      else case lookup_session env c s of None \<Rightarrow> None | Some r \<Rightarrow> sn_user_id r)"

definition logout :: "'e access_env_scheme \<Rightarrow> string option \<Rightarrow> 'a access_db_scheme \<Rightarrow> 'a access_db_scheme" where
  "logout env cookie s =
     (let c = or_else cookie [] in
      if c = [] then s
      else revoke_session env c
        (case session_user env cookie s of
           None \<Rightarrow> s
         | Some u \<Rightarrow> audit_for_user u ''logout'' (JObj [(''kind'', JStr ''logout'')]) (UserActor u None) s))"

definition logout_all :: "'e access_env_scheme \<Rightarrow> string option \<Rightarrow> 'a access_db_scheme \<Rightarrow> 'a access_db_scheme" where
  "logout_all env cookie s =
     (let c = or_else cookie [] in
      if c = [] then s
      else case session_user env cookie s of
             Some u \<Rightarrow> snd (revoke_all_sessions_for_user u s)
           | None \<Rightarrow> revoke_session env c s)"

definition totp_enroll ::
  "'e access_env_scheme \<Rightarrow> string option \<Rightarrow> 'a access_db_scheme \<Rightarrow> (string \<times> 'a access_db_scheme) res" where
  "totp_enroll env cookie s =
     ebind (require (session_user env cookie s) (HTTPException 401 ''unauthenticated'')) (\<lambda>u. enroll_totp env u s)"

definition totp_verify ::
  "'e access_env_scheme \<Rightarrow> string option \<Rightarrow> string \<Rightarrow> 'a access_db_scheme \<Rightarrow> 'a access_db_scheme res" where
  "totp_verify env cookie code s =
     ebind (require (session_user env cookie s) (HTTPException 401 ''unauthenticated'')) (\<lambda>u.
     case verify_totp env u code s of (ok, s1) \<Rightarrow>
       ebind (guard ok (HTTPException 400 ''totp_invalid'')) (\<lambda>_. Inr s1))"

section \<open>The user's own profile\<close>

text \<open>The endpoints of \<^verbatim>\<open>user_web.py\<close>; \<open>user_id\<close> is the user \<open>require_session\<close> resolved.\<close>

definition require_session :: "'e access_env_scheme \<Rightarrow> string option \<Rightarrow> 'a access_db_scheme \<Rightarrow> uuid res" where
  "require_session env cookie s =
     (let c = or_else cookie [] in
      ebind (guard (c \<noteq> []) (HTTPException 401 ''unauthenticated'')) (\<lambda>_.
      case session_by_hash (sha256 env c) s of
        None \<Rightarrow> Inl (HTTPException 401 ''unauthenticated'')
      | Some r \<Rightarrow>
          (case sn_user_id r of
             None \<Rightarrow> Inl (HTTPException 401 ''unauthenticated'')
           | Some u \<Rightarrow> if sn_expires_at r < now s then Inl (HTTPException 401 ''unauthenticated'') else Inr u)))"

definition add_own_email :: "uuid \<Rightarrow> string \<Rightarrow> 'a access_db_scheme \<Rightarrow> (uuid \<times> 'a access_db_scheme) res" where
  "add_own_email user_id email s = add_email user_id (lower email) False False s"

definition remove_own_email :: "uuid \<Rightarrow> uuid \<Rightarrow> 'a access_db_scheme \<Rightarrow> 'a access_db_scheme res" where
  "remove_own_email user_id email_id s =
     (case user_emails s email_id of
        None \<Rightarrow> Inl (HTTPException 404 ''email_not_found'')
      | Some e \<Rightarrow>
          if em_user_id e \<noteq> user_id then Inl (HTTPException 404 ''email_not_found'')
          else if em_verified_at e \<noteq> None \<and> count_verified_emails user_id s \<le> 1
          then Inl (HTTPException 409 ''last_verified_email'')
          else case delete_email user_id email_id s of (deleted, s1) \<Rightarrow>
            ebind (guard deleted (HTTPException 404 ''email_not_found'')) (\<lambda>_. Inr s1))"

definition patch_user_me :: "uuid \<Rightarrow> string option \<Rightarrow> bool \<Rightarrow> 'a access_db_scheme \<Rightarrow> 'a access_db_scheme" where
  "patch_user_me user_id display_name clear_github_username s =
     (let s1 = (case display_name of None \<Rightarrow> s | Some n \<Rightarrow> set_user_display_name user_id n s)
      in if clear_github_username then set_user_github_username user_id None s1 else s1)"

section \<open>Attribution and purging\<close>

definition find_user_ids_by_github_username :: "string \<Rightarrow> 'a access_db_scheme \<Rightarrow> uuid list" where
  "find_user_ids_by_github_username name s =
     map us_id (select (users s) (next_id s)
       (\<lambda>u. map_option lower (us_github_username u) = Some (lower name) \<and> us_deactivated_at u = None))"

definition attribution_of :: "string \<Rightarrow> uuid \<Rightarrow> 'a access_db_scheme \<Rightarrow> string + uuid" where
  "attribution_of name org_id s =
     (if name = [] then Inl ''blank_username''
      else case find_user_ids_by_github_username name s of
             [] \<Rightarrow> Inl ''no_matching_user''
           | [u] \<Rightarrow> if u \<in> set (list_active_member_ids org_id s) then Inr u else Inl ''not_an_active_member''
           | _ \<Rightarrow> Inl ''username_collision'')"

definition resolve_github_attribution ::
  "string \<Rightarrow> uuid \<Rightarrow> uuid \<Rightarrow> 'a access_db_scheme \<Rightarrow> uuid option \<times> 'a access_db_scheme" where
  "resolve_github_attribution name org_id ticket_id s =
     (case attribution_of name org_id s of
        Inr u \<Rightarrow> (Some u, s)
      | Inl reason \<Rightarrow>
          (None, audit_for_ticket ticket_id ''ticket.attribution_failed''
                   (JObj [(''github_username'', JStr name), (''reason'', JStr reason)])
                   (if name = [] then SystemActor else GithubUser name) org_id s))"

definition UNVERIFIED_TOTP_TTL :: int where "UNVERIFIED_TOTP_TTL = 24 * 3600"
definition AUDIT_LOG_RETENTION :: int where "AUDIT_LOG_RETENTION = 15 * 86400"

definition purge_expired_sessions :: "'a access_db_scheme \<Rightarrow> 'a access_db_scheme" where
  "purge_expired_sessions s =
     snd (cleanup_expired_sessions
       (fold (\<lambda>r. case sn_user_id r of None \<Rightarrow> id
                 | Some u \<Rightarrow> audit_for_user u ''logout'' (JObj [(''kind'', JStr ''expiry'')]) SystemActor)
          (filter (\<lambda>r. sn_expires_at r < now s \<and> sn_user_id r \<noteq> None) (sessions s)) s))"

definition purge_stale_unverified_totp_secrets :: "'a access_db_scheme \<Rightarrow> 'a access_db_scheme" where
  "purge_stale_unverified_totp_secrets s =
     s\<lparr>totp_secrets := (\<lambda>u. case totp_secrets s u of
         None \<Rightarrow> None
       | Some t \<Rightarrow> if tp_verified_at t = None \<and> tp_created_at t < now s - UNVERIFIED_TOTP_TTL then None else Some t)\<rparr>"

definition purge_audit_older_than :: "timestamp \<Rightarrow> 'a infra_scheme \<Rightarrow> 'a infra_scheme" where
  "purge_audit_older_than cutoff s = s\<lparr>audits := filter (\<lambda>a. \<not> ae_created_at a < cutoff) (audits s)\<rparr>"

definition run_identity_purge :: "'a access_db_scheme \<Rightarrow> 'a access_db_scheme" where
  "run_identity_purge s =
     purge_audit_older_than (now s - AUDIT_LOG_RETENTION)
       (purge_stale_unverified_totp_secrets (purge_expired_sessions s))"

end
