(* ===== verification/Orgs.thy ===== *)
theory Orgs
  imports Accounts
begin

text \<open>
  Who may do what: the route classification and the default-deny middleware of \<^verbatim>\<open>core/auth\<close>, the
  \<open>require(action)\<close> dependency of \<^verbatim>\<open>core/sessions/dependencies.py\<close>, and the operations that change
  organisations, memberships, invitations, single sign-on and API keys (\<^verbatim>\<open>core/tenancy\<close>, \<^verbatim>\<open>domain/orgs\<close>,
  \<^verbatim>\<open>core/api_keys\<close>).
\<close>

section \<open>Roles and actions\<close>

datatype action =
    IDENTITY_READ_SELF | ORG_READ | MEMBERS_READ | AUDIT_READ
  | USER_UPDATE_SELF | MEMBERS_INVITE | MEMBERS_REMOVE | MEMBERS_CHANGE_ROLE
  | SSO_CONFIGURE | GITHUB_APP_LINK | REVIEW_TRIGGER
  | VCS_READ | VCS_WRITE | CODING_AGENT_READ | CODING_AGENT_WRITE | API_KEY_READ | API_KEY_WRITE
  | ORG_SETTINGS_WRITE | ORG_SETTINGS_READ | INTEGRATIONS_READ | INTEGRATIONS_WRITE
  | TICKETS_READ | LESSONS_READ | LESSONS_WRITE | REVIEWER_READ | REVIEWER_WRITE
  | WORKSPACE_AGENT_SHUTDOWN | PIPELINES_MANAGE | REPOS_MANAGE

definition required_role_for :: "action \<Rightarrow> role" where
  "required_role_for a =
     (if a \<in> set [SSO_CONFIGURE, GITHUB_APP_LINK] then OWNER
      else if a \<in> set [IDENTITY_READ_SELF, ORG_READ, MEMBERS_READ, USER_UPDATE_SELF, REVIEW_TRIGGER, TICKETS_READ,
                       LESSONS_READ, LESSONS_WRITE, REVIEWER_READ, REVIEWER_WRITE] then BUILDER
      else ADMIN)"

section \<open>Routes\<close>

datatype route_security = PUBLIC | USER_SCOPED | ORG_SCOPED

definition PUBLIC_PREFIXES :: "string list" where
  "PUBLIC_PREFIXES = [''/api/sso/'', ''/api/mcp/'', ''/api/v1/'']"

definition PUBLIC_EXACT :: "string list" where
  "PUBLIC_EXACT = [''/api/health'', ''/api/memberships/accept'', ''/api/auth/login'', ''/api/auth/logout'',
     ''/api/auth/logout-all'', ''/api/auth/providers'', ''/api/auth/totp/enroll'', ''/api/auth/totp/challenge'',
     ''/api/auth/totp/verify'']"

definition PUBLIC_PREFIX_VARIABLE :: "string list" where
  "PUBLIC_PREFIX_VARIABLE = [''/api/auth/callback/'']"

definition USER_SCOPED_PREFIXES :: "string list" where
  "USER_SCOPED_PREFIXES = [''/api/user/'', ''/api/notifications'']"

definition USER_SCOPED_EXACT :: "string list" where
  "USER_SCOPED_EXACT = [''/api/auth/me'', ''/api/orgs/mine'']"

definition USER_SCOPED_METHOD_EXACT :: "(string \<times> string) list" where
  "USER_SCOPED_METHOD_EXACT = [(''POST'', ''/api/orgs'')]"

definition ORG_SCOPED_METHOD_EXACT :: "(string \<times> string) list" where
  "ORG_SCOPED_METHOD_EXACT = [(''GET'', ''/api/intake/points'')]"

definition ORG_SCOPED_PREFIXES :: "string list" where
  "ORG_SCOPED_PREFIXES = [''/api/memberships/'', ''/api/audit'', ''/api/plugins/'', ''/api/vcs'',
     ''/api/coding-agents'', ''/api/orgs'', ''/api/api-keys'', ''/api/mcp-proxy'', ''/api/workspaces'',
     ''/api/tickets'', ''/api/lessons'', ''/api/sse'', ''/api/pipelines'', ''/api/actions'', ''/api/repos'',
     ''/api/artifacts'']"

definition ends_with :: "string \<Rightarrow> string \<Rightarrow> bool" where
  "ends_with x s \<longleftrightarrow> starts_with (rev x) (rev s)"

definition rstrip_slash :: "string \<Rightarrow> string" where
  "rstrip_slash p = rev (dropWhile (\<lambda>c. c = CHR ''/'') (rev p))"

definition classify_route :: "string \<Rightarrow> string option \<Rightarrow> route_security option" where
  "classify_route path meth =
     (let with_method = (\<lambda>xs. case meth of None \<Rightarrow> False | Some m \<Rightarrow> (m, path) \<in> set xs);
          with_prefix = (\<lambda>ps. list_ex (\<lambda>p. starts_with p path) ps) in
      if with_method USER_SCOPED_METHOD_EXACT then Some USER_SCOPED
      else if with_method ORG_SCOPED_METHOD_EXACT then Some ORG_SCOPED
      else if path \<in> set PUBLIC_EXACT then Some PUBLIC
      else if path \<in> set USER_SCOPED_EXACT then Some USER_SCOPED
      else if with_prefix PUBLIC_PREFIXES then Some PUBLIC
      else if with_prefix PUBLIC_PREFIX_VARIABLE then Some PUBLIC
      else if starts_with ''/api/mcp-proxy/'' path \<and> ends_with ''/callback'' path then Some PUBLIC
      else if with_prefix USER_SCOPED_PREFIXES then Some USER_SCOPED
      else if list_ex (\<lambda>p. path = rstrip_slash p \<or> starts_with p path) ORG_SCOPED_PREFIXES then Some ORG_SCOPED
      else None)"

definition org_slug_in_query_allowed :: "string \<Rightarrow> bool" where
  "org_slug_in_query_allowed path \<longleftrightarrow> starts_with ''/api/sse/'' path"

section \<open>The middleware\<close>

record http_request =
  rq_method :: string
  rq_path :: string
  rq_org_header :: "string option"
  rq_org_query :: "string option"
  rq_session_cookie :: "string option"
  rq_csrf_cookie :: "string option"
  rq_csrf_header :: "string option"

definition csrf_ok :: "http_request \<Rightarrow> bool" where
  "csrf_ok rq \<longleftrightarrow>
     or_else (rq_session_cookie rq) [] = [] \<or>
     (or_else (rq_csrf_cookie rq) [] \<noteq> [] \<and> or_else (rq_csrf_header rq) [] \<noteq> [] \<and>
      rq_csrf_cookie rq = rq_csrf_header rq)"

definition mutating :: "http_request \<Rightarrow> bool" where
  "mutating rq \<longleftrightarrow> rq_method rq \<in> set [''POST'', ''PUT'', ''PATCH'', ''DELETE'']"

text \<open>
  The application behind the middleware: the status it answers with, the value its dependencies left
  in \<^verbatim>\<open>route_security_resolved\<close> (\<open>None\<close> if they never declared one), and what it did to the database.
  The guard that turns an undeclared success into a 500 cannot undo a commit.
\<close>

type_synonym 's app = "http_request \<Rightarrow> 's \<Rightarrow> nat \<times> route_security option \<times> 's"

definition default_deny :: "nat \<times> route_security option \<times> 's \<Rightarrow> nat \<times> 's" where
  "default_deny r =
     (case r of (status, declared, s') \<Rightarrow>
        (if 200 \<le> status \<and> status < 300 \<and> declared = None then 500 else status, s'))"

definition auth_middleware :: "'s app \<Rightarrow> http_request \<Rightarrow> 's \<Rightarrow> nat \<times> 's" where
  "auth_middleware app rq s =
     (let through = (case app rq s of (status, _, s') \<Rightarrow> (status, s')) in
      if \<not> starts_with ''/api/'' (rq_path rq) then through
      else case classify_route (rq_path rq) (Some (rq_method rq)) of
        Some PUBLIC \<Rightarrow> through
      | Some USER_SCOPED \<Rightarrow> if mutating rq \<and> \<not> csrf_ok rq then (403, s) else through
      | Some ORG_SCOPED \<Rightarrow>
          if or_else (rq_org_header rq) [] = [] \<and>
             \<not> (org_slug_in_query_allowed (rq_path rq) \<and> or_else (rq_org_query rq) [] \<noteq> [])
          then (400, s)
          else if mutating rq \<and> \<not> csrf_ok rq then (403, s)
          else default_deny (app rq s)
      | None \<Rightarrow> default_deny (app rq s))"

section \<open>The \<open>require\<close> dependency\<close>

definition SESSION_IDLE_TIMEOUT :: int where "SESSION_IDLE_TIMEOUT = 12 * 3600"

definition idle_window :: "auth_org \<Rightarrow> int" where
  "idle_window ao =
     (case ao_session_timeout_override ao of
        None \<Rightarrow> SESSION_IDLE_TIMEOUT
      | Some m \<Rightarrow> if m = 0 then SESSION_IDLE_TIMEOUT else m * 60)"

definition request_slug :: "http_request \<Rightarrow> string" where
  "request_slug rq =
     (let h = or_else (rq_org_header rq) [] in
      if h = [] \<and> org_slug_in_query_allowed (rq_path rq) then or_else (rq_org_query rq) [] else h)"

definition idle_expired :: "'e access_env_scheme \<Rightarrow> http_request \<Rightarrow> auth_org \<Rightarrow> 'a access_db_scheme \<Rightarrow> bool" where
  "idle_expired env rq ao s \<longleftrightarrow>
     (case lookup_session env (or_else (rq_session_cookie rq) []) s of
        None \<Rightarrow> False | Some r \<Rightarrow> sn_last_seen_at r + idle_window ao < now s)"

definition sso_ok :: "'e access_env_scheme \<Rightarrow> http_request \<Rightarrow> auth_org \<Rightarrow> 'a access_db_scheme \<Rightarrow> bool" where
  "sso_ok env rq ao s \<longleftrightarrow>
     (case lookup_session env (or_else (rq_session_cookie rq) []) s of
        None \<Rightarrow> False | Some r \<Rightarrow> is_sso_satisfied (now s) r (ao_org_id ao))"

text \<open>
  The result carries the state also when access is refused: the audit row of an idle timeout is
  committed before the refusal.
\<close>

definition require_action ::
  "'e access_env_scheme \<Rightarrow> action \<Rightarrow> http_request \<Rightarrow> 'a access_db_scheme \<Rightarrow> auth_org res \<times> 'a access_db_scheme" where
  "require_action env act rq s =
     (case session_user env (rq_session_cookie rq) s of
        None \<Rightarrow> (Inl (HTTPException 401 ''unauthenticated''), s)
      | Some user_id \<Rightarrow>
          if request_slug rq = [] then (Inl (HTTPException 400 ''missing_org_slug''), s)
          else case resolve_auth_org user_id (request_slug rq) s of
            None \<Rightarrow> (Inl (HTTPException 404 ''org_not_found''), s)
          | Some ao \<Rightarrow>
              if \<not> covers (ao_role ao) (required_role_for act)
              then (Inl (HTTPException 403 ''insufficient_role''), s)
              else if idle_expired env rq ao s
              then (Inl (HTTPException 401 ''session_idle_expired''),
                    audit ''user'' user_id ''logout'' (JObj [(''kind'', JStr ''idle_timeout'')])
                      (UserActor user_id None) (ao_org_id ao) s)
              else
                let allowed = (\<lambda>s'. (Inr ao, touch_session env (or_else (rq_session_cookie rq) []) s')) in
                if \<not> ao_sso_enabled ao \<or> sso_ok env rq ao s then allowed s
                else if ao_sso_exempt_owner_user_id ao = Some user_id \<and> ao_role ao = OWNER \<and> has_verified_totp user_id s
                then allowed (audit ''user'' user_id ''break_glass_exempt_owner''
                       (JObj [(''break_glass'', JBool True), (''path'', JStr (rq_path rq))])
                       (UserActor user_id None) (ao_org_id ao) s)
                else (Inl (HTTPException 403 ''sso_required''), s))"

section \<open>Organisations and memberships\<close>

definition role_str :: "role \<Rightarrow> string" where
  "role_str r = (case r of OWNER \<Rightarrow> ''owner'' | ADMIN \<Rightarrow> ''admin'' | BUILDER \<Rightarrow> ''builder'')"

text \<open>The slug is unique over all organisations, archived ones included.\<close>

definition insert_org :: "string \<Rightarrow> string \<Rightarrow> 'a infra_scheme \<Rightarrow> (uuid \<times> 'a infra_scheme) res" where
  "insert_org slug display_name s =
     (case fresh s of (i, s1) \<Rightarrow>
        ebind (guard (select (orgs s) (next_id s) (\<lambda>g. og_slug g = slug) = []) IntegrityError) (\<lambda>_.
        Inr (i, s1\<lparr>orgs := (orgs s1)(i \<mapsto>
          \<lparr>og_id = i, og_slug = slug, og_display_name = (if display_name = [] then slug else display_name),
           og_archived_at = None, og_session_timeout_override = None, og_vcs_plugin_id = None,
           og_vcs_settings = None, og_registered_iam_arn = None, og_aws_region = None,
           og_workspace_max_count = 4, og_sso_enabled = False, og_sso_exempt_owner_user_id = None\<rparr>)\<rparr>)))"

definition insert_membership ::
  "uuid \<Rightarrow> uuid \<Rightarrow> role \<Rightarrow> string \<Rightarrow> 'a access_db_scheme \<Rightarrow> 'a access_db_scheme res" where
  "insert_membership user_id org_id r handle s =
     ebind (guard (users s user_id \<noteq> None \<and> orgs s org_id \<noteq> None) IntegrityError) (\<lambda>_.
     ebind (guard (get_membership user_id org_id s = None) IntegrityError) (\<lambda>_.
     ebind (guard (\<not> list_ex (\<lambda>m. mb_org_id m = org_id \<and> mb_handle m = handle) (memberships s)) IntegrityError) (\<lambda>_.
     Inr (s\<lparr>memberships := memberships s @
       [\<lparr>mb_user_id = user_id, mb_org_id = org_id, mb_role = r, mb_handle = handle\<rparr>]\<rparr>))))"

definition upd_membership ::
  "uuid \<Rightarrow> uuid \<Rightarrow> (membership \<Rightarrow> membership) \<Rightarrow> 'a infra_scheme \<Rightarrow> 'a infra_scheme" where
  "upd_membership user_id org_id f s =
     s\<lparr>memberships := map (\<lambda>m. if mb_user_id m = user_id \<and> mb_org_id m = org_id then f m else m) (memberships s)\<rparr>"

definition update_role :: "uuid \<Rightarrow> uuid \<Rightarrow> role \<Rightarrow> 'a infra_scheme \<Rightarrow> 'a infra_scheme res" where
  "update_role user_id org_id r s =
     ebind (guard (get_membership user_id org_id s \<noteq> None) (LookupError ''membership not found'')) (\<lambda>_.
     Inr (upd_membership user_id org_id (\<lambda>m. m\<lparr>mb_role := r\<rparr>) s))"

definition delete_membership :: "uuid \<Rightarrow> uuid \<Rightarrow> 'a infra_scheme \<Rightarrow> 'a infra_scheme" where
  "delete_membership user_id org_id s =
     s\<lparr>memberships := filter (\<lambda>m. \<not> (mb_user_id m = user_id \<and> mb_org_id m = org_id)) (memberships s)\<rparr>"

definition slug_valid :: "string \<Rightarrow> bool" where
  "slug_valid slug \<longleftrightarrow>
     slug \<noteq> [] \<and> length slug \<le> 64 \<and>
     list_all (\<lambda>c. c \<in> set ''abcdefghijklmnopqrstuvwxyz0123456789-'') slug \<and>
     hd slug \<noteq> CHR ''-'' \<and> last slug \<noteq> CHR ''-''"

definition create_org_endpoint ::
  "'e access_env_scheme \<Rightarrow> string option \<Rightarrow> string \<Rightarrow> string \<Rightarrow> 'a access_db_scheme \<Rightarrow> (uuid \<times> 'a access_db_scheme) res" where
  "create_org_endpoint env cookie name slug s =
     ebind (guard (name \<noteq> [] \<and> length name \<le> 64 \<and> slug \<noteq> [] \<and> length slug \<le> 64)
              (HTTPException 422 ''validation_error'')) (\<lambda>_.
     ebind (require (session_user env cookie s) (HTTPException 401 ''unauthenticated'')) (\<lambda>user_id.
     let slug' = lower (strip slug); name' = strip name in
     ebind (guard (slug_valid slug') (HTTPException 422 ''invalid_slug'')) (\<lambda>_.
     ebind (guard (get_org_row_by_slug slug' s = None) (HTTPException 409 ''slug_taken'')) (\<lambda>_.
     ebind (insert_org slug' name' s) (\<lambda>(org_id, s1).
     ebind (insert_membership user_id org_id ADMIN (if name' = [] then slug' else name') s1) (\<lambda>s2.
     Inr (org_id, s2)))))))"

definition patch_own_membership_handle ::
  "uuid \<Rightarrow> uuid \<Rightarrow> string \<Rightarrow> 'a infra_scheme \<Rightarrow> 'a infra_scheme res" where
  "patch_own_membership_handle user_id org_id handle s =
     (let h = strip handle in
      ebind (guard (h \<noteq> [] \<and> length h \<le> 64) (HTTPException 422 ''invalid_handle'')) (\<lambda>_.
      ebind (guard (get_membership user_id org_id s \<noteq> None) (HTTPException 404 ''membership_not_found'')) (\<lambda>_.
      ebind (guard (\<not> list_ex (\<lambda>m. mb_org_id m = org_id \<and> mb_user_id m \<noteq> user_id \<and> mb_handle m = h) (memberships s))
               (HTTPException 409 ''handle_taken'')) (\<lambda>_.
      Inr (upd_membership user_id org_id (\<lambda>m. m\<lparr>mb_handle := h\<rparr>) s)))))"

definition membership_change :: "uuid \<Rightarrow> role option \<Rightarrow> role option \<Rightarrow> json" where
  "membership_change user_id from_role to_role =
     JObj [(''user_id'', JId user_id), (''from_role'', jopt (JStr \<circ> role_str) from_role),
           (''to_role'', jopt (JStr \<circ> role_str) to_role)]"

definition remove_member :: "uuid \<Rightarrow> uuid \<Rightarrow> actor \<Rightarrow> 'a access_db_scheme \<Rightarrow> 'a access_db_scheme" where
  "remove_member org_id user_id act s =
     (case get_membership user_id org_id s of
        None \<Rightarrow> s
      | Some m \<Rightarrow>
          audit ''membership'' user_id ''removed'' (membership_change user_id (Some (mb_role m)) None) act org_id
            (snd (revoke_all_sessions_for_user user_id (delete_membership user_id org_id s))))"

definition change_role ::
  "uuid \<Rightarrow> uuid \<Rightarrow> role \<Rightarrow> actor \<Rightarrow> 'a access_db_scheme \<Rightarrow> 'a access_db_scheme res" where
  "change_role org_id user_id new_role act s =
     ebind (require (get_membership user_id org_id s) (LookupError ''membership not found'')) (\<lambda>m.
     ebind (update_role user_id org_id new_role s) (\<lambda>s1.
     Inr (audit ''membership'' user_id ''role_changed''
            (membership_change user_id (Some (mb_role m)) (Some new_role)) act org_id
            (snd (revoke_all_sessions_for_user user_id s1)))))"

section \<open>Invitations\<close>

definition pending_for :: "uuid \<Rightarrow> string \<Rightarrow> invitation_row \<Rightarrow> bool" where
  "pending_for org_id email i \<longleftrightarrow> in_org_id i = org_id \<and> lower (in_email i) = lower email \<and> in_accepted_at i = None"

definition insert_invitation ::
  "uuid \<Rightarrow> string \<Rightarrow> role \<Rightarrow> string \<Rightarrow> timestamp \<Rightarrow> uuid option \<Rightarrow> 'a access_db_scheme \<Rightarrow>
   (uuid \<times> 'a access_db_scheme) res" where
  "insert_invitation org_id email r token_hash expires_at invited_by s =
     (case fresh s of (i, s1) \<Rightarrow>
        ebind (guard (orgs s org_id \<noteq> None) IntegrityError) (\<lambda>_.
        ebind (guard (select (invitations s) (next_id s) (\<lambda>x. in_token_hash x = token_hash) = []) IntegrityError) (\<lambda>_.
        ebind (guard (select (invitations s) (next_id s) (pending_for org_id email) = []) IntegrityError) (\<lambda>_.
        Inr (i, s1\<lparr>invitations := (invitations s1)(i \<mapsto>
          \<lparr>in_id = i, in_org_id = org_id, in_email = email, in_role = r, in_token_hash = token_hash,
           in_expires_at = expires_at, in_accepted_at = None, in_invited_by_user_id = invited_by\<rparr>)\<rparr>)))))"

definition get_invitation_by_token_hash :: "string \<Rightarrow> 'a access_db_scheme \<Rightarrow> invitation_row option" where
  "get_invitation_by_token_hash h s = first_row (select (invitations s) (next_id s) (\<lambda>x. in_token_hash x = h))"

text \<open>The e-mail that carries the raw token leaves the system; the token is returned.\<close>

definition invite ::
  "'e access_env_scheme \<Rightarrow> uuid \<Rightarrow> string \<Rightarrow> role \<Rightarrow> uuid option \<Rightarrow> actor \<Rightarrow> 'a access_db_scheme \<Rightarrow>
   ((uuid \<times> string) \<times> 'a access_db_scheme) res" where
  "invite env org_id email r invited_by act s =
     (let expires_at = now s + invitation_lifetime_seconds env;
          raw_token = sign_invitation env (org_id, lower email) (now s) in
      ebind (insert_invitation org_id (lower email) r (sha256 env raw_token) expires_at invited_by s) (\<lambda>(i, s1).
      Inr ((i, raw_token),
           audit ''invitation'' i ''invited''
             (JObj [(''email'', JStr (lower email)), (''role'', JStr (role_str r)), (''expires_at'', JNum expires_at),
                    (''invited_by_user_id'', jopt JId invited_by)]) act org_id s1)))"

definition stamp_accepted :: "uuid \<Rightarrow> 'a access_db_scheme \<Rightarrow> 'a access_db_scheme" where
  "stamp_accepted i s = s\<lparr>invitations := modify i (\<lambda>x. x\<lparr>in_accepted_at := Some (now s)\<rparr>) (invitations s)\<rparr>"

definition local_part :: "string \<Rightarrow> string" where
  "local_part email = lower (take 64 (takeWhile (\<lambda>c. c \<noteq> CHR ''@'') email))"

definition accept_invitation ::
  "'e access_env_scheme \<Rightarrow> string \<Rightarrow> uuid \<Rightarrow> actor \<Rightarrow> 'a access_db_scheme \<Rightarrow> (membership \<times> 'a access_db_scheme) res" where
  "accept_invitation env raw_token user_id act s =
     (case load_invitation env raw_token (invitation_lifetime_seconds env) (now s) of
        SignatureExpired \<Rightarrow> Inl InvitationExpiredError
      | BadSignature \<Rightarrow> Inl InvitationInvalidError
      | Signed (p_org, p_email) \<Rightarrow>
          (case get_invitation_by_token_hash (sha256 env raw_token) s of
             None \<Rightarrow> Inl InvitationInvalidError
           | Some row \<Rightarrow>
               if in_accepted_at row \<noteq> None then Inl InvitationUsedError
               else if in_expires_at row < now s then Inl InvitationExpiredError
               else if p_org \<noteq> Some (in_org_id row) \<or> lower (in_email row) \<noteq> lower (or_else p_email [])
               then Inl InvitationInvalidError
               else case get_membership user_id (in_org_id row) s of
                 Some m \<Rightarrow> Inr (m, stamp_accepted (in_id row) s)
               | None \<Rightarrow>
                   ebind (insert_membership user_id (in_org_id row) (in_role row) (local_part (in_email row)) s) (\<lambda>s1.
                   Inr (\<lparr>mb_user_id = user_id, mb_org_id = in_org_id row, mb_role = in_role row,
                          mb_handle = local_part (in_email row)\<rparr>,
                        audit ''membership'' user_id ''joined'' (membership_change user_id None (Some (in_role row))) act
                          (in_org_id row) (stamp_accepted (in_id row) s1)))))"

definition accept_endpoint ::
  "'e access_env_scheme \<Rightarrow> string option \<Rightarrow> string \<Rightarrow> 'a access_db_scheme \<Rightarrow> (membership \<times> 'a access_db_scheme) res" where
  "accept_endpoint env cookie token s =
     ebind (require (session_user env cookie s) (HTTPException 401 ''unauthenticated'')) (\<lambda>user_id.
     case accept_invitation env token user_id (UserActor user_id None) s of
       Inl InvitationExpiredError \<Rightarrow> Inl (HTTPException 410 ''invitation_expired'')
     | Inl InvitationUsedError \<Rightarrow> Inl (HTTPException 410 ''invitation_used'')
     | Inl InvitationInvalidError \<Rightarrow> Inl (HTTPException 400 ''invitation_invalid'')
     | r \<Rightarrow> r)"

definition delete_expired_invitations :: "'a access_db_scheme \<Rightarrow> nat \<times> 'a access_db_scheme" where
  "delete_expired_invitations s =
     (let P = (\<lambda>x. in_expires_at x < now s \<and> in_accepted_at x = None) in
      (length (select (invitations s) (next_id s) P),
       s\<lparr>invitations := (\<lambda>i. case invitations s i of None \<Rightarrow> None | Some x \<Rightarrow> if P x then None else Some x)\<rparr>))"

section \<open>Single sign-on\<close>

fun normalize_email_domains :: "string list \<Rightarrow> string list \<Rightarrow> string list res" where
  "normalize_email_domains seen [] = Inr []"
| "normalize_email_domains seen (d # ds) =
     (let cleaned = lower (strip d) in
      if cleaned = [] then normalize_email_domains seen ds
      else if list_ex (\<lambda>c. c \<in> set cleaned) [CHR '' '', CHR 0x09, CHR 0x0A, CHR ''@'', CHR ''*'']
      then Inl (SsoConfigError ''invalid email domain'')
      else if cleaned \<in> set seen then normalize_email_domains seen ds
      else ebind (normalize_email_domains (cleaned # seen) ds) (\<lambda>rest. Inr (cleaned # rest)))"

definition set_sso_authz :: "uuid \<Rightarrow> bool \<Rightarrow> uuid option \<Rightarrow> 'a infra_scheme \<Rightarrow> 'a infra_scheme res" where
  "set_sso_authz org_id enabled exempt_owner s =
     ebind (guard (orgs s org_id \<noteq> None) (LookupError ''org not found'')) (\<lambda>_.
     Inr (s\<lparr>orgs := modify org_id
              (\<lambda>g. g\<lparr>og_sso_enabled := enabled, og_sso_exempt_owner_user_id := exempt_owner\<rparr>) (orgs s)\<rparr>))"

record sso_config_body =
  cb_idp_metadata_xml :: string
  cb_jit_enabled :: bool
  cb_enabled :: bool
  cb_exempt_owner_user_id :: "uuid option"
  cb_email_domains :: "string list"

definition upsert_config ::
  "'e access_env_scheme \<Rightarrow> uuid \<Rightarrow> sso_config_body \<Rightarrow> 'a access_db_scheme \<Rightarrow> 'a access_db_scheme res" where
  "upsert_config env org_id body s =
     ebind (guard (cb_idp_metadata_xml body \<noteq> [] \<and> CHR ''<'' \<in> set (cb_idp_metadata_xml body))
              (SsoConfigError ''idp_metadata_xml must be non-empty XML'')) (\<lambda>_.
     ebind (normalize_email_domains [] (cb_email_domains body)) (\<lambda>domains.
     let s1 =
       (case sso_configs s org_id of
          None \<Rightarrow>
            (case fresh s of (n, s0) \<Rightarrow>
             case generate_sp_keypair env n of (key, cert) \<Rightarrow>
               s0\<lparr>sso_configs := (sso_configs s0)(org_id \<mapsto>
                 \<lparr>so_idp_metadata_xml = cb_idp_metadata_xml body, so_jit_enabled = cb_jit_enabled body,
                  so_enabled = cb_enabled body, so_email_domains = domains,
                  so_exempt_owner_user_id = cb_exempt_owner_user_id body, so_sp_private_key_encrypted = key,
                  so_sp_certificate = cert, so_updated_at = now s\<rparr>)\<rparr>)
        | Some c \<Rightarrow>
            s\<lparr>sso_configs := (sso_configs s)(org_id \<mapsto>
              c\<lparr>so_idp_metadata_xml := cb_idp_metadata_xml body, so_jit_enabled := cb_jit_enabled body,
                so_enabled := cb_enabled body, so_email_domains := domains,
                so_exempt_owner_user_id := cb_exempt_owner_user_id body, so_updated_at := now s\<rparr>)\<rparr>)
     in set_sso_authz org_id (cb_enabled body) (cb_exempt_owner_user_id body) s1))"

definition sso_config_audit ::
  "uuid \<Rightarrow> actor \<Rightarrow> sso_config_row option \<Rightarrow> sso_config_body \<Rightarrow> 'a access_db_scheme \<Rightarrow> 'a access_db_scheme" where
  "sso_config_audit org_id act previous body s =
     (let prev_exempt = (case previous of None \<Rightarrow> None | Some c \<Rightarrow> so_exempt_owner_user_id c);
          prev_enabled = (case previous of None \<Rightarrow> False | Some c \<Rightarrow> so_enabled c);
          prev_jit = (case previous of None \<Rightarrow> False | Some c \<Rightarrow> so_jit_enabled c);
          new_exempt = cb_exempt_owner_user_id body;
          payload = (\<lambda>e j x. JObj [(''enabled'', JBool (cb_enabled body)), (''jit_enabled'', JBool (cb_jit_enabled body)),
             (''exempt_owner_user_id'', jopt JId new_exempt), (''changed_enabled'', JBool e),
             (''changed_jit'', JBool j), (''changed_exempt_owner'', JBool x)]);
          s1 = audit ''sso_config'' org_id ''sso_config_changed''
                 (payload (prev_enabled \<noteq> cb_enabled body) (prev_jit \<noteq> cb_jit_enabled body) (prev_exempt \<noteq> new_exempt))
                 act org_id s
      in if prev_exempt \<noteq> new_exempt \<and> new_exempt \<noteq> None
         then audit ''sso_config'' org_id ''exempt_owner_set'' (payload False False True) act org_id s1
         else s1)"

definition upsert_org_sso_config ::
  "'e access_env_scheme \<Rightarrow> uuid \<Rightarrow> sso_config_body \<Rightarrow> actor \<Rightarrow> 'a access_db_scheme \<Rightarrow> 'a access_db_scheme res" where
  "upsert_org_sso_config env org_id body act s =
     ebind (case cb_exempt_owner_user_id body of
              None \<Rightarrow> Inr ()
            | Some u \<Rightarrow>
                ebind (guard (map_option mb_role (get_membership u org_id s) = Some OWNER)
                         (HTTPException 400 ''exempt_must_be_owner'')) (\<lambda>_.
                guard (has_verified_totp u s) (HTTPException 400 ''exempt_owner_no_totp''))) (\<lambda>_.
     case upsert_config env org_id body s of
       Inl (SsoConfigError m) \<Rightarrow> Inl (HTTPException 400 m)
     | Inl e \<Rightarrow> Inl e
     | Inr s1 \<Rightarrow> Inr (sso_config_audit org_id act (sso_configs s org_id) body s1))"

text \<open>
  The assertion consumer: the asserted user is found or, with just-in-time provisioning, created; the
  session of the cookie is marked, or a new one is minted for the asserted user. The result is the
  minted session, if there is one.
\<close>

definition acs_user ::
  "uuid \<Rightarrow> bool \<Rightarrow> string \<Rightarrow> 'a access_db_scheme \<Rightarrow> ((uuid \<times> bool) \<times> 'a access_db_scheme) res" where
  "acs_user org_id jit_enabled email s =
     (case find_user_by_email email s of
        Some u \<Rightarrow> Inr ((us_id u, False), s)
      | None \<Rightarrow>
          ebind (guard jit_enabled (HTTPException 403 ''user_not_provisioned'')) (\<lambda>_.
          case insert_user (takeWhile (\<lambda>c. c \<noteq> CHR ''@'') email) s of (user_id, s1) \<Rightarrow>
            ebind (add_email user_id email True True s1) (\<lambda>(_, s2).
            ebind (insert_membership user_id org_id BUILDER (local_part email) s2) (\<lambda>s3.
            Inr ((user_id, True), s3)))))"

definition acs_session ::
  "'e access_env_scheme \<Rightarrow> string option \<Rightarrow> uuid \<Rightarrow> uuid \<Rightarrow> 'a access_db_scheme \<Rightarrow>
   ((string \<times> string \<times> session_row) option \<times> 'a access_db_scheme) res" where
  "acs_session env cookie user_id org_id s =
     (let fresh_session = ebind (mint_session env (Some user_id) None None None None s) (\<lambda>(created, s1).
            ebind (mark_sso_satisfied env (fst created) org_id s1) (\<lambda>s2. Inr (Some created, s2)))
      in if or_else cookie [] = [] then fresh_session
         else case mark_sso_satisfied env (or_else cookie []) org_id s of
                Inr s1 \<Rightarrow> Inr (None, s1)
              | Inl _ \<Rightarrow> fresh_session)"

definition sso_acs ::
  "'e access_env_scheme \<Rightarrow> string \<Rightarrow> string \<Rightarrow> string option \<Rightarrow> 'a access_db_scheme \<Rightarrow>
   ((string \<times> string \<times> session_row) option \<times> 'a access_db_scheme) res" where
  "sso_acs env slug saml_response cookie s =
     ebind (require (get_org_row_by_slug slug s) (HTTPException 404 ''org_not_found'')) (\<lambda>org.
     ebind (require (case sso_configs s (og_id org) of None \<Rightarrow> None | Some c \<Rightarrow> if so_enabled c then Some c else None)
              (HTTPException 404 ''sso_not_configured'')) (\<lambda>cfg.
     let email = lower (or_else (run_assertion_verifier env saml_response (so_idp_metadata_xml cfg)) []) in
     ebind (guard (email \<noteq> []) (HTTPException 400 ''assertion_invalid'')) (\<lambda>_.
     ebind (acs_user (og_id org) (so_jit_enabled cfg) email s) (\<lambda>((user_id, jit_created), s1).
     ebind (guard (get_membership user_id (og_id org) s1 \<noteq> None) (HTTPException 403 ''no_membership'')) (\<lambda>_.
     ebind (acs_session env cookie user_id (og_id org) s1) (\<lambda>(created, s2).
     Inr (created, audit ''user'' user_id ''sso_satisfied''
            (JObj [(''email'', JStr email), (''jit_created'', JBool jit_created)]) (SsoActor (Some email))
            (og_id org) s2)))))))"

section \<open>Settings\<close>

definition iam_role_char :: "char \<Rightarrow> bool" where
  "iam_role_char c \<longleftrightarrow> c \<in> set ''abcdefghijklmnopqrstuvwxyzABCDEFGHIJKLMNOPQRSTUVWXYZ0123456789_+=,.@-''"

definition iam_role_arn :: "string \<Rightarrow> bool" where
  "iam_role_arn v \<longleftrightarrow>
     starts_with ''arn:aws:iam::'' v \<and>
     (let account = take 12 (drop 13 v); r = drop 25 v in
      length account = 12 \<and> list_all is_digit account \<and> starts_with '':role/'' r \<and>
      drop 6 r \<noteq> [] \<and> list_all iam_role_char (drop 6 r))"

text \<open>
  Each field of the body is read against the row it may leave alone: absent, null or a value. Python
  counts \<^verbatim>\<open>True\<close> as an integer.
\<close>

definition eff_timeout :: "payload \<Rightarrow> org_row \<Rightarrow> int option res" where
  "eff_timeout body g =
     (case map_of body ''session_timeout_override'' of
        None \<Rightarrow> Inr (og_session_timeout_override g)
      | Some JNull \<Rightarrow> Inr None
      | Some (JNum n) \<Rightarrow>
          if n \<le> 0 then Inl (HTTPException 422 ''invalid_session_timeout_override'') else Inr (Some n)
      | Some (JBool True) \<Rightarrow> Inr (Some 1)
      | Some _ \<Rightarrow> Inl (HTTPException 422 ''invalid_session_timeout_override''))"

definition eff_arn :: "payload \<Rightarrow> org_row \<Rightarrow> string option res" where
  "eff_arn body g =
     (case map_of body ''registered_iam_arn'' of
        None \<Rightarrow> Inr (og_registered_iam_arn g)
      | Some JNull \<Rightarrow> Inr None
      | Some (JStr v) \<Rightarrow>
          if iam_role_arn (lower (strip v)) then Inr (Some (lower (strip v)))
          else Inl (HTTPException 422 ''invalid_registered_iam_arn'')
      | Some _ \<Rightarrow> Inl (HTTPException 422 ''invalid_registered_iam_arn''))"

definition eff_region :: "payload \<Rightarrow> org_row \<Rightarrow> string option res" where
  "eff_region body g =
     (case map_of body ''aws_region'' of
        None \<Rightarrow> Inr (og_aws_region g)
      | Some JNull \<Rightarrow> Inr None
      | Some (JStr v) \<Rightarrow> if strip v = [] then Inl (HTTPException 422 ''invalid_aws_region'') else Inr (Some v)
      | Some _ \<Rightarrow> Inl (HTTPException 422 ''invalid_aws_region''))"

definition new_workspace_max :: "payload \<Rightarrow> int option res" where
  "new_workspace_max body =
     (case map_of body ''workspace_max_count'' of
        None \<Rightarrow> Inr None
      | Some (JNum n) \<Rightarrow>
          if 1 \<le> n \<and> n \<le> 50 then Inr (Some n) else Inl (HTTPException 422 ''invalid_workspace_max_count'')
      | Some _ \<Rightarrow> Inl (HTTPException 422 ''invalid_workspace_max_count''))"

text \<open>The UPDATE is subject to the table's unique index and its two check constraints.\<close>

definition update_org_fields ::
  "uuid \<Rightarrow> int option \<Rightarrow> string option \<Rightarrow> string option \<Rightarrow> int option \<Rightarrow> 'a infra_scheme \<Rightarrow> 'a infra_scheme res" where
  "update_org_fields org_id timeout arn region workspace_max s =
     ebind (require (orgs s org_id) (LookupError ''org not found'')) (\<lambda>g.
     let g' = g\<lparr>og_session_timeout_override := timeout, og_registered_iam_arn := arn, og_aws_region := region,
                og_workspace_max_count := (case workspace_max of None \<Rightarrow> og_workspace_max_count g | Some n \<Rightarrow> n)\<rparr> in
     ebind (guard ((arn = None) = (region = None)) IntegrityError) (\<lambda>_.
     ebind (guard (1 \<le> og_workspace_max_count g' \<and> og_workspace_max_count g' \<le> 50) IntegrityError) (\<lambda>_.
     ebind (guard (arn = None \<or>
              select (orgs s) (next_id s) (\<lambda>h. og_id h \<noteq> org_id \<and> og_registered_iam_arn h = arn) = []) IntegrityError) (\<lambda>_.
     Inr (s\<lparr>orgs := (orgs s)(org_id \<mapsto> g')\<rparr>)))))"

definition get_org_row_by_iam_arn :: "string \<Rightarrow> 'a infra_scheme \<Rightarrow> org_row option" where
  "get_org_row_by_iam_arn arn s =
     first_row (select (orgs s) (next_id s) (\<lambda>g. og_registered_iam_arn g = Some arn \<and> og_archived_at g = None))"

definition patch_org_settings ::
  "'e access_env_scheme \<Rightarrow> gateway_settings \<Rightarrow> uuid \<Rightarrow> payload \<Rightarrow> 'a access_db_scheme \<Rightarrow> 'a access_db_scheme res" where
  "patch_org_settings env cfg org_id body s =
     ebind (require (orgs s org_id) (HTTPException 404 ''org_not_found'')) (\<lambda>g.
     ebind (eff_timeout body g) (\<lambda>timeout.
     ebind (eff_arn body g) (\<lambda>arn.
     ebind (eff_region body g) (\<lambda>region.
     ebind (new_workspace_max body) (\<lambda>workspace_max.
     ebind (guard ((arn = None) = (region = None)) (HTTPException 422 ''arn_and_region_must_be_paired'')) (\<lambda>_.
     ebind (guard (case arn of None \<Rightarrow> True | Some a \<Rightarrow> arn = og_registered_iam_arn g \<or>
              (case get_org_row_by_iam_arn a s of None \<Rightarrow> True | Some h \<Rightarrow> og_id h = org_id))
              (HTTPException 422 ''arn_already_registered'')) (\<lambda>_.
     let s1 = (case og_registered_iam_arn g of
                 None \<Rightarrow> s
               | Some old \<Rightarrow> if Some old = arn then s else snd (revoke_all_for_arn old ''arn_change'' s)) in
     ebind (update_org_fields org_id timeout arn region workspace_max s1) (\<lambda>s2.
     if workspace_max \<noteq> None \<and> workspace_max \<noteq> Some (og_workspace_max_count g)
     then enqueue_config_update_for_all_org_agents env cfg org_id s2 else Inr s2))))))))"

definition valid_agent_ids :: "uuid list \<Rightarrow> bool" where
  "valid_agent_ids ids \<longleftrightarrow> ids \<noteq> [] \<and> length ids \<le> 100 \<and> distinct ids"

definition bulk_shutdown_agents ::
  "'e access_env_scheme \<Rightarrow> uuid \<Rightarrow> uuid list \<Rightarrow> uuid \<Rightarrow> 'a access_db_scheme \<Rightarrow>
   ((uuid \<times> drain_outcome) list \<times> 'a access_db_scheme) res" where
  "bulk_shutdown_agents env org_id ids user_id s =
     ebind (guard (valid_agent_ids ids) (HTTPException 400 ''invalid_payload'')) (\<lambda>_.
     shutdown_agents env org_id ids (UserActor user_id None) s)"

definition bulk_cancel_shutdown_agents ::
  "'e access_env_scheme \<Rightarrow> uuid \<Rightarrow> uuid list \<Rightarrow> uuid \<Rightarrow> 'a access_db_scheme \<Rightarrow>
   ((uuid \<times> drain_outcome) list \<times> 'a access_db_scheme) res" where
  "bulk_cancel_shutdown_agents env org_id ids user_id s =
     ebind (guard (valid_agent_ids ids) (HTTPException 400 ''invalid_payload'')) (\<lambda>_.
     cancel_shutdown_agents env org_id ids (UserActor user_id None) s)"

definition set_vcs :: "uuid \<Rightarrow> string \<Rightarrow> payload \<Rightarrow> actor \<Rightarrow> 'a infra_scheme \<Rightarrow> 'a infra_scheme" where
  "set_vcs org_id plugin_id settings act s =
     audit ''org'' org_id ''vcs.installed'' (JObj [(''plugin_id'', JStr plugin_id)]) act org_id
       (s\<lparr>orgs := modify org_id (\<lambda>g. g\<lparr>og_vcs_plugin_id := Some plugin_id, og_vcs_settings := Some settings\<rparr>) (orgs s)\<rparr>)"

definition clear_vcs ::
  "(uuid \<Rightarrow> string \<Rightarrow> 'a infra_scheme \<Rightarrow> 'a infra_scheme res) list \<Rightarrow> uuid \<Rightarrow> actor \<Rightarrow> 'a infra_scheme \<Rightarrow>
   (bool \<times> 'a infra_scheme) res" where
  "clear_vcs hooks org_id act s =
     ebind (require (orgs s org_id) (LookupError ''org not found'')) (\<lambda>g.
     case og_vcs_plugin_id g of
       None \<Rightarrow> Inr (False, s)
     | Some prior \<Rightarrow>
         ebind (efold (\<lambda>hook. hook org_id prior) hooks
                  (s\<lparr>orgs := modify org_id (\<lambda>g. g\<lparr>og_vcs_plugin_id := None, og_vcs_settings := None\<rparr>) (orgs s)\<rparr>)) (\<lambda>s1.
         Inr (True, audit ''org'' org_id ''vcs.cleared'' (JObj [(''plugin_id'', JStr prior)]) act org_id s1)))"

section \<open>API keys\<close>

text \<open>\<open>on_change\<close> are the callbacks registered for changes of a key.\<close>

definition get_api_key ::
  "'e access_env_scheme \<Rightarrow> uuid \<Rightarrow> string \<Rightarrow> 'a access_db_scheme \<Rightarrow> string option res" where
  "get_api_key env org_id provider s =
     (case api_keys s (org_id, provider) of
        None \<Rightarrow> Inr None
      | Some r \<Rightarrow> map_sum id Some (require (decrypt env (ak_encrypted_value r)) ApiKeyDecryptError))"

definition set_api_key ::
  "'e access_env_scheme \<Rightarrow> (uuid \<Rightarrow> 'a access_db_scheme \<Rightarrow> 'a access_db_scheme res) list \<Rightarrow> uuid \<Rightarrow> string \<Rightarrow> string \<Rightarrow>
   actor \<Rightarrow> 'a access_db_scheme \<Rightarrow> 'a access_db_scheme res" where
  "set_api_key env on_change org_id provider plaintext act s =
     ebind (guard (plaintext \<noteq> []) (ValueError ''plaintext key must be non-empty'')) (\<lambda>_.
     ebind (guard (orgs s org_id \<noteq> None) IntegrityError) (\<lambda>_.
     let row = (case api_keys s (org_id, provider) of
                  None \<Rightarrow> \<lparr>ak_encrypted_value = encrypt env plaintext, ak_last_validated_at = None\<rparr>
                | Some r \<Rightarrow> r\<lparr>ak_encrypted_value := encrypt env plaintext\<rparr>)
     in efold (\<lambda>cb. cb org_id) on_change
          (audit ''org'' org_id ''api_key.set'' (JObj [(''provider'', JStr provider)]) act org_id
             (s\<lparr>api_keys := (api_keys s)((org_id, provider) \<mapsto> row)\<rparr>))))"

definition clear_api_key ::
  "(uuid \<Rightarrow> 'a access_db_scheme \<Rightarrow> 'a access_db_scheme res) list \<Rightarrow> uuid \<Rightarrow> string \<Rightarrow>
   actor \<Rightarrow> 'a access_db_scheme \<Rightarrow> (bool \<times> 'a access_db_scheme) res" where
  "clear_api_key on_change org_id provider act s =
     (if api_keys s (org_id, provider) = None then Inr (False, s)
      else ebind (efold (\<lambda>cb. cb org_id) on_change
             (audit ''org'' org_id ''api_key.cleared'' (JObj [(''provider'', JStr provider)]) act org_id
                (s\<lparr>api_keys := (api_keys s)((org_id, provider) := None)\<rparr>))) (\<lambda>s1. Inr (True, s1)))"

definition validate_api_key ::
  "'e access_env_scheme \<Rightarrow> (string \<Rightarrow> bool) \<Rightarrow> uuid \<Rightarrow> string \<Rightarrow> actor \<Rightarrow> 'a access_db_scheme \<Rightarrow>
   (bool \<times> 'a access_db_scheme) res" where
  "validate_api_key env validator org_id provider act s =
     (case api_keys s (org_id, provider) of
        None \<Rightarrow> Inr (False, s)
      | Some r \<Rightarrow>
          ebind (require (decrypt env (ak_encrypted_value r)) ApiKeyDecryptError) (\<lambda>plaintext.
          let ok = validator plaintext;
              s1 = (if ok then s\<lparr>api_keys := (api_keys s)((org_id, provider) \<mapsto> r\<lparr>ak_last_validated_at := Some (now s)\<rparr>)\<rparr>
                    else s)
          in Inr (ok, audit ''org'' org_id ''api_key.validated''
                        (JObj [(''provider'', JStr provider), (''success'', JBool ok)]) act org_id s1)))"

end
