(* ===== verification/AccessSteps.thy ===== *)
theory AccessSteps
  imports Orgs AgentMoves
begin

text \<open>
  The tables that decide who may do what, the writes that reach them, and their invariant: every operation
  of \<open>Accounts\<close> and \<open>Orgs\<close> is a sequence of these writes.
\<close>

section \<open>The tables\<close>

record access_view =
  v_next :: uuid
  v_users :: "user_row table"
  v_emails :: "email_row table"
  v_sessions :: "session_row list"
  v_members :: "membership list"
  v_orgs :: "org_row table"
  v_sso :: "sso_config_row table"
  v_invites :: "invitation_row table"

definition view :: "'a access_db_scheme \<Rightarrow> access_view" where
  "view s = \<lparr>v_next = next_id s, v_users = users s, v_emails = user_emails s, v_sessions = sessions s,
     v_members = memberships s, v_orgs = orgs s, v_sso = sso_configs s, v_invites = invitations s\<rparr>"

lemma view_simps [simp]:
  "v_next (view s) = next_id s" "v_users (view s) = users s" "v_emails (view s) = user_emails s"
  "v_sessions (view s) = sessions s" "v_members (view s) = memberships s" "v_orgs (view s) = orgs s"
  "v_sso (view s) = sso_configs s" "v_invites (view s) = invitations s"
  by (simp_all add: view_def)

text \<open>One write to one of the tables, under what its constraints and its caller check.\<close>

inductive astep :: "access_view \<Rightarrow> access_view \<Rightarrow> bool" where
  a_next: "v_next v \<le> n \<Longrightarrow> astep v (v\<lparr>v_next := n\<rparr>)"
| a_user: "us_id u = v_next v \<Longrightarrow> astep v (v\<lparr>v_next := Suc (v_next v), v_users := (v_users v)(v_next v \<mapsto> u)\<rparr>)"
| a_user_update: "(\<And>u. us_id (f u) = us_id u) \<Longrightarrow> astep v (v\<lparr>v_users := modify i f (v_users v)\<rparr>)"
| a_email: "em_id e = v_next v \<Longrightarrow>
    (em_verified_at e \<noteq> None \<Longrightarrow> select (v_emails v) (v_next v) (verified_address (em_email e)) = []) \<Longrightarrow>
    astep v (v\<lparr>v_next := Suc (v_next v), v_emails := (v_emails v)(v_next v \<mapsto> e)\<rparr>)"
| a_email_drop: "v_emails v i = Some e \<Longrightarrow>
    (em_verified_at e \<noteq> None \<Longrightarrow> 1 < length (select (v_emails v) (v_next v) (verified_email_of (em_user_id e)))) \<Longrightarrow>
    astep v (v\<lparr>v_emails := (v_emails v)(i := None)\<rparr>)"
| a_session: "sn_token_hash r \<notin> sn_token_hash ` set (v_sessions v) \<Longrightarrow>
    (sn_user_id r = None) \<noteq> (sn_workspace_id r = None) \<Longrightarrow>
    (\<And>u. sn_user_id r = Some u \<Longrightarrow> v_users v u \<noteq> None) \<Longrightarrow>
    astep v (v\<lparr>v_sessions := v_sessions v @ [r]\<rparr>)"
| a_session_update:
    "(\<And>r. sn_token_hash (f r) = sn_token_hash r \<and> sn_user_id (f r) = sn_user_id r \<and> sn_workspace_id (f r) = sn_workspace_id r) \<Longrightarrow>
     astep v (v\<lparr>v_sessions := map f (v_sessions v)\<rparr>)"
| a_session_drop: "astep v (v\<lparr>v_sessions := filter P (v_sessions v)\<rparr>)"
| a_member: "find (\<lambda>x. mb_user_id x = mb_user_id m \<and> mb_org_id x = mb_org_id m) (v_members v) = None \<Longrightarrow>
    \<not> list_ex (\<lambda>x. mb_org_id x = mb_org_id m \<and> mb_handle x = mb_handle m) (v_members v) \<Longrightarrow>
    astep v (v\<lparr>v_members := v_members v @ [m]\<rparr>)"
| a_member_role: "(\<And>m. mb_user_id (f m) = mb_user_id m \<and> mb_org_id (f m) = mb_org_id m \<and> mb_handle (f m) = mb_handle m) \<Longrightarrow>
    astep v (v\<lparr>v_members := map f (v_members v)\<rparr>)"
| a_member_handle: "\<not> list_ex (\<lambda>m. mb_org_id m = org \<and> mb_user_id m \<noteq> u \<and> mb_handle m = h) (v_members v) \<Longrightarrow>
    astep v (v\<lparr>v_members := map (\<lambda>m. if mb_user_id m = u \<and> mb_org_id m = org then m\<lparr>mb_handle := h\<rparr> else m) (v_members v)\<rparr>)"
| a_member_drop: "astep v (v\<lparr>v_members := filter P (v_members v)\<rparr>)"
| a_org: "og_id g = v_next v \<Longrightarrow> select (v_orgs v) (v_next v) (\<lambda>h. og_slug h = og_slug g) = [] \<Longrightarrow>
    og_registered_iam_arn g = None \<Longrightarrow> og_aws_region g = None \<Longrightarrow> og_workspace_max_count g = 4 \<Longrightarrow>
    \<not> og_sso_enabled g \<Longrightarrow> og_sso_exempt_owner_user_id g = None \<Longrightarrow>
    astep v (v\<lparr>v_next := Suc (v_next v), v_orgs := (v_orgs v)(v_next v \<mapsto> g)\<rparr>)"
| a_org_settings: "v_orgs v i = Some g \<Longrightarrow> og_id g' = og_id g \<Longrightarrow> og_slug g' = og_slug g \<Longrightarrow>
    og_sso_enabled g' = og_sso_enabled g \<Longrightarrow> og_sso_exempt_owner_user_id g' = og_sso_exempt_owner_user_id g \<Longrightarrow>
    (og_registered_iam_arn g' = None) = (og_aws_region g' = None) \<Longrightarrow>
    1 \<le> og_workspace_max_count g' \<Longrightarrow> og_workspace_max_count g' \<le> 50 \<Longrightarrow>
    (og_registered_iam_arn g' \<noteq> None \<Longrightarrow>
       select (v_orgs v) (v_next v) (\<lambda>h. og_id h \<noteq> i \<and> og_registered_iam_arn h = og_registered_iam_arn g') = []) \<Longrightarrow>
    astep v (v\<lparr>v_orgs := (v_orgs v)(i \<mapsto> g')\<rparr>)"
| a_org_vcs: "astep v (v\<lparr>v_orgs := modify i (\<lambda>g. g\<lparr>og_vcs_plugin_id := p, og_vcs_settings := x\<rparr>) (v_orgs v)\<rparr>)"
| a_sso: "v_orgs v i \<noteq> None \<Longrightarrow>
    astep v (v\<lparr>v_sso := (v_sso v)(i \<mapsto> c),
               v_orgs := modify i (\<lambda>g. g\<lparr>og_sso_enabled := so_enabled c,
                 og_sso_exempt_owner_user_id := so_exempt_owner_user_id c\<rparr>) (v_orgs v)\<rparr>)"
| a_invite: "in_id x = v_next v \<Longrightarrow> in_accepted_at x = None \<Longrightarrow>
    select (v_invites v) (v_next v) (\<lambda>y. in_token_hash y = in_token_hash x) = [] \<Longrightarrow>
    select (v_invites v) (v_next v) (pending_for (in_org_id x) (in_email x)) = [] \<Longrightarrow>
    astep v (v\<lparr>v_next := Suc (v_next v), v_invites := (v_invites v)(v_next v \<mapsto> x)\<rparr>)"
| a_accept: "astep v (v\<lparr>v_invites := modify i (\<lambda>x. x\<lparr>in_accepted_at := Some t\<rparr>) (v_invites v)\<rparr>)"
| a_invite_drop: "(\<And>x. P x \<Longrightarrow> in_accepted_at x = None) \<Longrightarrow>
    astep v (v\<lparr>v_invites := (\<lambda>i. case v_invites v i of None \<Rightarrow> None | Some x \<Rightarrow> if P x then None else Some x)\<rparr>)"

abbreviation asteps :: "access_view \<Rightarrow> access_view \<Rightarrow> bool" where "asteps \<equiv> astep\<^sup>*\<^sup>*"

section \<open>The invariant\<close>

definition sessions_ok :: "access_view \<Rightarrow> bool" where
  "sessions_ok v \<longleftrightarrow> distinct (map sn_token_hash (v_sessions v)) \<and>
     (\<forall>r \<in> set (v_sessions v). ((sn_user_id r = None) \<noteq> (sn_workspace_id r = None)) \<and>
        (\<forall>u. sn_user_id r = Some u \<longrightarrow> v_users v u \<noteq> None))"

definition emails_ok :: "access_view \<Rightarrow> bool" where
  "emails_ok v \<longleftrightarrow> keyed_rows us_id (v_next v) (v_users v) \<and> keyed_rows em_id (v_next v) (v_emails v) \<and>
     (\<forall>i j e f. v_emails v i = Some e \<longrightarrow> v_emails v j = Some f \<longrightarrow> em_verified_at f \<noteq> None \<longrightarrow>
        verified_address (em_email f) e \<longrightarrow> i = j)"

definition members_ok :: "access_view \<Rightarrow> bool" where
  "members_ok v \<longleftrightarrow> distinct (map (\<lambda>m. (mb_user_id m, mb_org_id m)) (v_members v)) \<and>
     distinct (map (\<lambda>m. (mb_org_id m, mb_handle m)) (v_members v))"

definition org_settings_ok :: "org_row \<Rightarrow> bool" where
  "org_settings_ok g \<longleftrightarrow> (og_registered_iam_arn g = None) = (og_aws_region g = None) \<and>
     1 \<le> og_workspace_max_count g \<and> og_workspace_max_count g \<le> 50"

definition sso_matches :: "sso_config_row option \<Rightarrow> org_row \<Rightarrow> bool" where
  "sso_matches c g \<longleftrightarrow>
     og_sso_enabled g = (case c of None \<Rightarrow> False | Some c \<Rightarrow> so_enabled c) \<and>
     og_sso_exempt_owner_user_id g = (case c of None \<Rightarrow> None | Some c \<Rightarrow> so_exempt_owner_user_id c)"

definition orgs_ok :: "access_view \<Rightarrow> bool" where
  "orgs_ok v \<longleftrightarrow> keyed_rows og_id (v_next v) (v_orgs v) \<and>
     (\<forall>i j g h. v_orgs v i = Some g \<longrightarrow> v_orgs v j = Some h \<longrightarrow>
        og_slug g = og_slug h \<or> (og_registered_iam_arn g \<noteq> None \<and> og_registered_iam_arn g = og_registered_iam_arn h) \<longrightarrow> i = j) \<and>
     (\<forall>i g. v_orgs v i = Some g \<longrightarrow> org_settings_ok g \<and> sso_matches (v_sso v i) g) \<and>
     (\<forall>i. v_sso v i \<noteq> None \<longrightarrow> v_orgs v i \<noteq> None)"

definition invites_ok :: "access_view \<Rightarrow> bool" where
  "invites_ok v \<longleftrightarrow> keyed_rows in_id (v_next v) (v_invites v) \<and>
     (\<forall>i j x y. v_invites v i = Some x \<longrightarrow> v_invites v j = Some y \<longrightarrow>
        in_token_hash x = in_token_hash y \<or>
        (in_accepted_at y = None \<and> pending_for (in_org_id y) (in_email y) x) \<longrightarrow> i = j)"

definition access_ok :: "access_view \<Rightarrow> bool" where
  "access_ok v \<longleftrightarrow> sessions_ok v \<and> emails_ok v \<and> members_ok v \<and> orgs_ok v \<and> invites_ok v"


lemma keyed_rows_fresh: "keyed_rows key n t \<Longrightarrow> t n = None"
  unfolding keyed_rows_def by (meson less_irrefl not_Some_eq)

lemma keyed_rows_append: "keyed_rows key n t \<Longrightarrow> key r = n \<Longrightarrow> keyed_rows key (Suc n) (t(n \<mapsto> r))"
  by (auto simp: keyed_rows_def less_Suc_eq)

lemma keyed_rows_drop: "keyed_rows key n t \<Longrightarrow> t' \<subseteq>\<^sub>m t \<Longrightarrow> keyed_rows key n t'"
  unfolding keyed_rows_def map_le_def by (metis domI)

lemma sessions_ok_step: "astep v w \<Longrightarrow> sessions_ok v \<Longrightarrow> sessions_ok w"
proof (induction rule: astep.induct)
  case (a_session_update f v)
  have "map sn_token_hash (map f (v_sessions v)) = map sn_token_hash (v_sessions v)"
    using a_session_update(1) by simp
  then show ?case using a_session_update unfolding sessions_ok_def by (simp del: map_map)
next
  case (a_session r v)
  then show ?case unfolding sessions_ok_def by auto
next
  case (a_session_drop v P)
  then show ?case unfolding sessions_ok_def by (auto intro: distinct_map_filter)
qed (auto simp: sessions_ok_def)

lemma members_ok_step: "astep v w \<Longrightarrow> members_ok v \<Longrightarrow> members_ok w"
proof (induction rule: astep.induct)
  case (a_member m v)
  then show ?case unfolding members_ok_def by (auto simp: find_None_iff list_ex_iff)
next
  case (a_member_role f v)
  have "map (\<lambda>m. (mb_user_id m, mb_org_id m)) (map f (v_members v)) = map (\<lambda>m. (mb_user_id m, mb_org_id m)) (v_members v)"
    "map (\<lambda>m. (mb_org_id m, mb_handle m)) (map f (v_members v)) = map (\<lambda>m. (mb_org_id m, mb_handle m)) (v_members v)"
    using a_member_role(1) by simp_all
  then show ?case using a_member_role(2) unfolding members_ok_def by (simp del: map_map)
next
  case (a_member_handle org u h v)
  let ?f = "\<lambda>m. if mb_user_id m = u \<and> mb_org_id m = org then m\<lparr>mb_handle := h\<rparr> else m"
  have keys: "map (\<lambda>m. (mb_user_id m, mb_org_id m)) (map ?f (v_members v)) = map (\<lambda>m. (mb_user_id m, mb_org_id m)) (v_members v)"
    by simp
  have d: "distinct (map (\<lambda>m. (mb_user_id m, mb_org_id m)) (v_members v))"
    and e: "distinct (map (\<lambda>m. (mb_org_id m, mb_handle m)) (v_members v))"
    using a_member_handle(2) by (simp_all add: members_ok_def)
  have "inj_on (\<lambda>m. (mb_org_id (?f m), mb_handle (?f m))) (set (v_members v))"
  proof (rule inj_onI)
    fix m n assume m: "m \<in> set (v_members v)" and n: "n \<in> set (v_members v)"
      and same: "(mb_org_id (?f m), mb_handle (?f m)) = (mb_org_id (?f n), mb_handle (?f n))"
    have "mb_org_id m = mb_org_id n \<and> (mb_handle m = mb_handle n \<or> mb_user_id m = mb_user_id n)"
      using same a_member_handle(1) m n by (auto simp: list_ex_iff split: if_splits)
    then show "m = n" using d e m n unfolding distinct_map inj_on_def by (metis (no_types, lifting) prod.inject)
  qed
  moreover have "distinct (v_members v)" using d by (simp add: distinct_map)
  ultimately have "distinct (map (\<lambda>m. (mb_org_id m, mb_handle m)) (map ?f (v_members v)))"
    by (simp add: distinct_map comp_def)
  then show ?case using keys d by (simp add: members_ok_def del: map_map)
next
  case (a_member_drop v P)
  then show ?case unfolding members_ok_def by (auto intro: distinct_map_filter)
qed (auto simp: members_ok_def)

lemma emails_okD:
  assumes "emails_ok v"
  shows "keyed_rows us_id (v_next v) (v_users v)" "keyed_rows em_id (v_next v) (v_emails v)"
    "\<And>i j e f. v_emails v i = Some e \<Longrightarrow> v_emails v j = Some f \<Longrightarrow> em_verified_at f \<noteq> None \<Longrightarrow>
        verified_address (em_email f) e \<Longrightarrow> i = j"
  using assms unfolding emails_ok_def by blast+

lemma emails_ok_step: "astep v w \<Longrightarrow> emails_ok v \<Longrightarrow> emails_ok w"
proof (induction rule: astep.induct)
  case (a_email e v)
  have fresh: "\<not> verified_address (em_email e) f" if "v_emails v j = Some f" "em_verified_at e \<noteq> None" for j f
    using a_email(2) that keyed_rowsD[OF emails_okD(2)[OF a_email(3)] that(1)] by (auto simp: select_eq_Nil)
  show ?case
    unfolding emails_ok_def
  proof (intro conjI allI impI)
    show "keyed_rows us_id (v_next (v\<lparr>v_next := Suc (v_next v), v_emails := (v_emails v)(v_next v \<mapsto> e)\<rparr>))
            (v_users (v\<lparr>v_next := Suc (v_next v), v_emails := (v_emails v)(v_next v \<mapsto> e)\<rparr>))"
      using emails_okD(1)[OF a_email(3)] by (auto intro: keyed_rows_mono)
    show "keyed_rows em_id (v_next (v\<lparr>v_next := Suc (v_next v), v_emails := (v_emails v)(v_next v \<mapsto> e)\<rparr>))
            (v_emails (v\<lparr>v_next := Suc (v_next v), v_emails := (v_emails v)(v_next v \<mapsto> e)\<rparr>))"
      using emails_okD(2)[OF a_email(3)] a_email(1) by (simp add: keyed_rows_append)
  next
    fix i j x f
    assume xs: "v_emails (v\<lparr>v_next := Suc (v_next v), v_emails := (v_emails v)(v_next v \<mapsto> e)\<rparr>) i = Some x"
      "v_emails (v\<lparr>v_next := Suc (v_next v), v_emails := (v_emails v)(v_next v \<mapsto> e)\<rparr>) j = Some f"
      "em_verified_at f \<noteq> None" "verified_address (em_email f) x"
    have "em_verified_at x \<noteq> None \<and> verified_address (em_email x) f" using xs(3,4) by (simp add: verified_address_def)
    then show "i = j" using xs fresh emails_okD(3)[OF a_email(3)] by (auto split: if_splits)
  qed
next
  case (a_email_drop v i e)
  then show ?case unfolding emails_ok_def
    by (auto simp: keyed_rows_def split: if_splits)
next
  case (a_user u v)
  then show ?case unfolding emails_ok_def by (auto intro: keyed_rows_mono simp: keyed_rows_append)
next
  case (a_user_update f v i)
  then show ?case unfolding emails_ok_def by (auto simp: keyed_rows_modify)
qed (auto simp: emails_ok_def intro: keyed_rows_mono)

lemma orgs_okD:
  assumes "orgs_ok v"
  shows "keyed_rows og_id (v_next v) (v_orgs v)"
    "\<And>i j g h. v_orgs v i = Some g \<Longrightarrow> v_orgs v j = Some h \<Longrightarrow> og_slug g = og_slug h \<Longrightarrow> i = j"
    "\<And>i j g h. v_orgs v i = Some g \<Longrightarrow> v_orgs v j = Some h \<Longrightarrow> og_registered_iam_arn g \<noteq> None \<Longrightarrow>
        og_registered_iam_arn g = og_registered_iam_arn h \<Longrightarrow> i = j"
    "\<And>i g. v_orgs v i = Some g \<Longrightarrow> org_settings_ok g"
    "\<And>i g. v_orgs v i = Some g \<Longrightarrow> sso_matches (v_sso v i) g"
    "\<And>i. v_orgs v i = None \<Longrightarrow> v_sso v i = None"
    "\<And>i c. v_sso v i = Some c \<Longrightarrow> \<exists>g. v_orgs v i = Some g"
  using assms unfolding orgs_ok_def by blast+

lemma orgs_okI:
  assumes "keyed_rows og_id (v_next v) (v_orgs v)"
    "\<And>i j g h. v_orgs v i = Some g \<Longrightarrow> v_orgs v j = Some h \<Longrightarrow> og_slug g = og_slug h \<Longrightarrow> i = j"
    "\<And>i j g h. v_orgs v i = Some g \<Longrightarrow> v_orgs v j = Some h \<Longrightarrow> og_registered_iam_arn g \<noteq> None \<Longrightarrow>
        og_registered_iam_arn g = og_registered_iam_arn h \<Longrightarrow> i = j"
    "\<And>i g. v_orgs v i = Some g \<Longrightarrow> org_settings_ok g"
    "\<And>i g. v_orgs v i = Some g \<Longrightarrow> sso_matches (v_sso v i) g"
    "\<And>i. v_sso v i \<noteq> None \<Longrightarrow> v_orgs v i \<noteq> None"
  shows "orgs_ok v"
  using assms unfolding orgs_ok_def by blast

lemma orgs_ok_same:
  assumes ok: "orgs_ok v" and w: "v_next v \<le> v_next w" "v_orgs w = v_orgs v" "v_sso w = v_sso v"
  shows "orgs_ok w"
proof (rule orgs_okI)
  show "keyed_rows og_id (v_next w) (v_orgs w)" using keyed_rows_mono[OF orgs_okD(1)[OF ok] w(1)] w(2) by simp
qed (simp_all add: w orgs_okD(2-5)[OF ok], use orgs_okD(7)[OF ok] in auto)

text \<open>A change that leaves the identity, the slug and the ARN of every organisation alone.\<close>

lemma orgs_ok_modify:
  assumes ok: "orgs_ok v" and w: "v_next w = v_next v" "v_orgs w = modify i f (v_orgs v)"
    and f: "\<And>g. og_id (f g) = og_id g \<and> og_slug (f g) = og_slug g \<and>
      og_registered_iam_arn (f g) = og_registered_iam_arn g \<and> org_settings_ok (f g) = org_settings_ok g"
    and sso: "\<And>j g. v_orgs v j = Some g \<Longrightarrow> sso_matches (v_sso w j) (if j = i then f g else g)"
      "\<And>j. v_sso w j \<noteq> None \<Longrightarrow> v_orgs v j \<noteq> None"
  shows "orgs_ok w"
proof (rule orgs_okI)
  show "keyed_rows og_id (v_next w) (v_orgs w)" using orgs_okD(1)[OF ok] f w by (simp add: keyed_rows_modify)
  fix j k g h
  have old: "\<exists>g0. v_orgs v j = Some g0 \<and> og_slug g = og_slug g0 \<and> og_registered_iam_arn g = og_registered_iam_arn g0 \<and>
      org_settings_ok g = org_settings_ok g0 \<and> g = (if j = i then f g0 else g0)" if "v_orgs w j = Some g" for j g
    using that f w(2) by (auto split: if_splits)
  show "j = k" if "v_orgs w j = Some g" "v_orgs w k = Some h" "og_slug g = og_slug h"
    using old[OF that(1)] old[OF that(2)] that(3) orgs_okD(2)[OF ok] by metis
  show "j = k" if "v_orgs w j = Some g" "v_orgs w k = Some h" "og_registered_iam_arn g \<noteq> None"
      "og_registered_iam_arn g = og_registered_iam_arn h"
    using old[OF that(1)] old[OF that(2)] that(3,4) orgs_okD(3)[OF ok] by metis
  show "org_settings_ok g" if "v_orgs w j = Some g" using old[OF that] orgs_okD(4)[OF ok] by metis
  show "sso_matches (v_sso w j) g" if "v_orgs w j = Some g" using old[OF that] sso(1) by metis
  show "v_orgs w j \<noteq> None" if "v_sso w j \<noteq> None" using sso(2)[OF that] w(2) by (auto split: if_splits)
qed

lemma orgs_ok_org:
  assumes ok: "orgs_ok v" and g: "og_id g = v_next v" "og_registered_iam_arn g = None" "org_settings_ok g"
      "\<not> og_sso_enabled g" "og_sso_exempt_owner_user_id g = None"
    and slug: "select (v_orgs v) (v_next v) (\<lambda>h. og_slug h = og_slug g) = []"
  shows "orgs_ok (v\<lparr>v_next := Suc (v_next v), v_orgs := (v_orgs v)(v_next v \<mapsto> g)\<rparr>)" (is "orgs_ok ?w")
proof (rule orgs_okI)
  have none: "v_orgs v (v_next v) = None" by (rule keyed_rows_fresh[OF orgs_okD(1)[OF ok]])
  have other: "og_slug h \<noteq> og_slug g" if "v_orgs v j = Some h" for j h
    using slug that keyed_rowsD[OF orgs_okD(1)[OF ok] that] by (auto simp: select_eq_Nil)
  show "keyed_rows og_id (v_next ?w) (v_orgs ?w)" using orgs_okD(1)[OF ok] g(1) by (simp add: keyed_rows_append)
  fix j k h h'
  show "j = k" if "v_orgs ?w j = Some h" "v_orgs ?w k = Some h'" "og_slug h = og_slug h'"
    using that other other[OF _] orgs_okD(2)[OF ok] by (auto split: if_splits)
  show "j = k" if "v_orgs ?w j = Some h" "v_orgs ?w k = Some h'" "og_registered_iam_arn h \<noteq> None"
      "og_registered_iam_arn h = og_registered_iam_arn h'"
    using that g(2) orgs_okD(3)[OF ok] by (auto split: if_splits)
  show "org_settings_ok h" if "v_orgs ?w j = Some h" using that g(3) orgs_okD(4)[OF ok] by (auto split: if_splits)
  show "sso_matches (v_sso ?w j) h" if "v_orgs ?w j = Some h"
    using that g(4,5) orgs_okD(5)[OF ok] orgs_okD(6)[OF ok none] by (auto simp: sso_matches_def split: if_splits)
  show "v_orgs ?w j \<noteq> None" if "v_sso ?w j \<noteq> None" using that orgs_okD(7)[OF ok] by (auto split: if_splits)
qed

lemma orgs_ok_settings:
  assumes ok: "orgs_ok v" and old: "v_orgs v i = Some g" and g: "og_id g' = og_id g" "og_slug g' = og_slug g"
      "og_sso_enabled g' = og_sso_enabled g" "og_sso_exempt_owner_user_id g' = og_sso_exempt_owner_user_id g"
      "org_settings_ok g'"
    and arn: "og_registered_iam_arn g' \<noteq> None \<Longrightarrow>
       select (v_orgs v) (v_next v) (\<lambda>h. og_id h \<noteq> i \<and> og_registered_iam_arn h = og_registered_iam_arn g') = []"
  shows "orgs_ok (v\<lparr>v_orgs := (v_orgs v)(i \<mapsto> g')\<rparr>)" (is "orgs_ok ?w")
proof (rule orgs_okI)
  have id: "og_id h = j \<and> j < v_next v" if "v_orgs v j = Some h" for j h
    using keyed_rowsD[OF orgs_okD(1)[OF ok] that] .
  have other: "og_registered_iam_arn h \<noteq> og_registered_iam_arn g'"
    if "v_orgs v j = Some h" "j \<noteq> i" "og_registered_iam_arn g' \<noteq> None" for j h
    using arn that id[OF that(1)] by (auto simp: select_eq_Nil)
  show "keyed_rows og_id (v_next ?w) (v_orgs ?w)"
    using orgs_okD(1)[OF ok] id[OF old] g(1) by (auto simp: keyed_rows_def)
  fix j k h h'
  show "j = k" if "v_orgs ?w j = Some h" "v_orgs ?w k = Some h'" "og_slug h = og_slug h'"
    using that old g(2) orgs_okD(2)[OF ok] by (auto split: if_splits)
  show "j = k" if "v_orgs ?w j = Some h" "v_orgs ?w k = Some h'" "og_registered_iam_arn h \<noteq> None"
      "og_registered_iam_arn h = og_registered_iam_arn h'"
    using that other orgs_okD(3)[OF ok] by (auto split: if_splits)
  show "org_settings_ok h" if "v_orgs ?w j = Some h" using that g(5) orgs_okD(4)[OF ok] by (auto split: if_splits)
  show "sso_matches (v_sso ?w j) h" if "v_orgs ?w j = Some h"
    using that g(3,4) orgs_okD(5)[OF ok] old by (auto simp: sso_matches_def split: if_splits)
  show "v_orgs ?w j \<noteq> None" if "v_sso ?w j \<noteq> None" using that orgs_okD(7)[OF ok] by (auto split: if_splits)
qed

lemma orgs_ok_step: "astep v w \<Longrightarrow> orgs_ok v \<Longrightarrow> orgs_ok w"
proof (induction rule: astep.induct)
  case (a_org g v)
  then show ?case by (intro orgs_ok_org) (auto simp: org_settings_ok_def)
next
  case (a_org_settings v i g g')
  then show ?case by (intro orgs_ok_settings[of v i g g']) (auto simp: org_settings_ok_def)
next
  case (a_org_vcs v i x p)
  show ?case
  proof (rule orgs_ok_modify[OF a_org_vcs, where i = i and f = "\<lambda>g. g\<lparr>og_vcs_plugin_id := p, og_vcs_settings := x\<rparr>"])
    fix j g assume "v_orgs v j = Some g"
    from orgs_okD(5)[OF a_org_vcs this]
    show "sso_matches (v_sso (v\<lparr>v_orgs := modify i (\<lambda>g. g\<lparr>og_vcs_plugin_id := p, og_vcs_settings := x\<rparr>) (v_orgs v)\<rparr>) j)
            (if j = i then g\<lparr>og_vcs_plugin_id := p, og_vcs_settings := x\<rparr> else g)"
      by (simp add: sso_matches_def)
  qed (use orgs_okD(7)[OF a_org_vcs] in \<open>auto simp: org_settings_ok_def\<close>)
next
  case (a_sso v i c)
  let ?f = "\<lambda>g. g\<lparr>og_sso_enabled := so_enabled c, og_sso_exempt_owner_user_id := so_exempt_owner_user_id c\<rparr>"
  show ?case
  proof (rule orgs_ok_modify[OF a_sso(2), where i = i and f = ?f])
    fix j g assume "v_orgs v j = Some g"
    from orgs_okD(5)[OF a_sso(2) this]
    show "sso_matches (v_sso (v\<lparr>v_sso := (v_sso v)(i \<mapsto> c), v_orgs := modify i ?f (v_orgs v)\<rparr>) j)
            (if j = i then ?f g else g)"
      by (simp add: sso_matches_def)
  next
    fix j assume "v_sso (v\<lparr>v_sso := (v_sso v)(i \<mapsto> c), v_orgs := modify i ?f (v_orgs v)\<rparr>) j \<noteq> None"
    then show "v_orgs v j \<noteq> None" using orgs_okD(7)[OF a_sso(2)] a_sso(1) by (auto split: if_splits)
  qed (auto simp: org_settings_ok_def)
qed ((rule orgs_ok_same, assumption, simp, simp, simp)+)

lemma invites_okD:
  assumes "invites_ok v"
  shows "keyed_rows in_id (v_next v) (v_invites v)"
    "\<And>i j x y. v_invites v i = Some x \<Longrightarrow> v_invites v j = Some y \<Longrightarrow> in_token_hash x = in_token_hash y \<Longrightarrow> i = j"
    "\<And>i j x y. v_invites v i = Some x \<Longrightarrow> v_invites v j = Some y \<Longrightarrow> in_accepted_at y = None \<Longrightarrow>
       pending_for (in_org_id y) (in_email y) x \<Longrightarrow> i = j"
  using assms unfolding invites_ok_def by blast+

lemma invites_okI:
  assumes "keyed_rows in_id (v_next v) (v_invites v)"
    "\<And>i j x y. v_invites v i = Some x \<Longrightarrow> v_invites v j = Some y \<Longrightarrow> in_token_hash x = in_token_hash y \<Longrightarrow> i = j"
    "\<And>i j x y. v_invites v i = Some x \<Longrightarrow> v_invites v j = Some y \<Longrightarrow> in_accepted_at y = None \<Longrightarrow>
       pending_for (in_org_id y) (in_email y) x \<Longrightarrow> i = j"
  shows "invites_ok v"
  using assms unfolding invites_ok_def by blast

lemma invites_ok_same: "invites_ok v \<Longrightarrow> v_next v \<le> v_next w \<Longrightarrow> v_invites w = v_invites v \<Longrightarrow> invites_ok w"
  unfolding invites_ok_def by (auto intro: keyed_rows_mono)

lemma invites_ok_invite:
  assumes ok: "invites_ok v" and x: "in_id x = v_next v" "in_accepted_at x = None"
    and unused: "select (v_invites v) (v_next v) (\<lambda>y. in_token_hash y = in_token_hash x) = []"
    and alone: "select (v_invites v) (v_next v) (pending_for (in_org_id x) (in_email x)) = []"
  shows "invites_ok (v\<lparr>v_next := Suc (v_next v), v_invites := (v_invites v)(v_next v \<mapsto> x)\<rparr>)" (is "invites_ok ?w")
proof (rule invites_okI)
  have other: "in_token_hash y \<noteq> in_token_hash x \<and> \<not> pending_for (in_org_id x) (in_email x) y"
    if "v_invites v j = Some y" for j y
    using unused alone that keyed_rowsD[OF invites_okD(1)[OF ok] that] by (auto simp: select_eq_Nil)
  show "keyed_rows in_id (v_next ?w) (v_invites ?w)" using invites_okD(1)[OF ok] x(1) by (simp add: keyed_rows_append)
  fix i j y z
  show "i = j" if "v_invites ?w i = Some y" "v_invites ?w j = Some z" "in_token_hash y = in_token_hash z"
    using that other other[OF _] invites_okD(2)[OF ok] by (auto split: if_splits)
  show "i = j" if "v_invites ?w i = Some y" "v_invites ?w j = Some z" "in_accepted_at z = None"
      "pending_for (in_org_id z) (in_email z) y"
  proof -
    have "pending_for (in_org_id y) (in_email y) z" "in_accepted_at y = None" using that(3,4) by (auto simp: pending_for_def)
    then show ?thesis using that other invites_okD(3)[OF ok] by (auto split: if_splits)
  qed
qed

lemma invites_ok_step: "astep v w \<Longrightarrow> invites_ok v \<Longrightarrow> invites_ok w"
proof (induction rule: astep.induct)
  case (a_invite x v)
  then show ?case by (intro invites_ok_invite) auto
next
  case (a_accept v i t)
  let ?w = "v\<lparr>v_invites := modify i (\<lambda>x. x\<lparr>in_accepted_at := Some t\<rparr>) (v_invites v)\<rparr>"
  have old: "\<exists>x0. v_invites v j = Some x0 \<and> in_token_hash x = in_token_hash x0 \<and> in_org_id x = in_org_id x0 \<and>
      in_email x = in_email x0 \<and> (in_accepted_at x = None \<longrightarrow> in_accepted_at x0 = None)" if "v_invites ?w j = Some x" for j x
    using that by (auto split: if_splits)
  show ?case
  proof (rule invites_okI)
    show "keyed_rows in_id (v_next ?w) (v_invites ?w)"
      using invites_okD(1)[OF a_accept] by (simp add: keyed_rows_modify)
    fix j k x y
    show "j = k" if "v_invites ?w j = Some x" "v_invites ?w k = Some y" "in_token_hash x = in_token_hash y"
      using old[OF that(1)] old[OF that(2)] that(3) invites_okD(2)[OF a_accept] by metis
    show "j = k" if "v_invites ?w j = Some x" "v_invites ?w k = Some y" "in_accepted_at y = None"
        "pending_for (in_org_id y) (in_email y) x"
      using old[OF that(1)] old[OF that(2)] that(3,4) invites_okD(3)[OF a_accept] unfolding pending_for_def by metis
  qed
next
  case (a_invite_drop P v)
  let ?w = "v\<lparr>v_invites := (\<lambda>i. case v_invites v i of None \<Rightarrow> None | Some x \<Rightarrow> if P x then None else Some x)\<rparr>"
  have old: "v_invites v j = Some x" if "v_invites ?w j = Some x" for j x
    using that by (cases "v_invites v j") (auto split: if_splits)
  show ?case
  proof (rule invites_okI)
    show "keyed_rows in_id (v_next ?w) (v_invites ?w)"
      using keyed_rowsD[OF invites_okD(1)[OF a_invite_drop(2)] old] by (simp add: keyed_rows_def)
    fix i j x y
    show "i = j" if "v_invites ?w i = Some x" "v_invites ?w j = Some y" "in_token_hash x = in_token_hash y"
      using invites_okD(2)[OF a_invite_drop(2) old[OF that(1)] old[OF that(2)] that(3)] .
    show "i = j" if "v_invites ?w i = Some x" "v_invites ?w j = Some y" "in_accepted_at y = None"
        "pending_for (in_org_id y) (in_email y) x"
      using invites_okD(3)[OF a_invite_drop(2) old[OF that(1)] old[OF that(2)] that(3,4)] .
  qed
qed ((rule invites_ok_same, assumption, simp, simp)+)

lemma access_ok_step: "astep v w \<Longrightarrow> access_ok v \<Longrightarrow> access_ok w"
  by (simp add: access_ok_def sessions_ok_step emails_ok_step members_ok_step orgs_ok_step invites_ok_step)

lemma access_ok_steps: "asteps v w \<Longrightarrow> access_ok v \<Longrightarrow> access_ok w"
  by (induction rule: rtranclp_induct) (auto intro: access_ok_step)

section \<open>Operations as sequences of writes\<close>

named_theorems view_steps "operations as sequences of writes"

lemma view_eqI:
  "next_id s' = next_id s \<Longrightarrow> users s' = users s \<Longrightarrow> user_emails s' = user_emails s \<Longrightarrow> sessions s' = sessions s \<Longrightarrow>
   memberships s' = memberships s \<Longrightarrow> orgs s' = orgs s \<Longrightarrow> sso_configs s' = sso_configs s \<Longrightarrow>
   invitations s' = invitations s \<Longrightarrow> view s' = view s"
  by (simp add: view_def)

lemma view_audit [simp]: "view (audit k i w p act org s) = view s"
  by (rule view_eqI) (simp_all add: audit_def)

lemma view_unseen [simp]:
  "view (s\<lparr>totp_secrets := t\<rparr>) = view s" "view (s\<lparr>api_keys := k\<rparr>) = view s" "view (s\<lparr>oauth_identities := x\<rparr>) = view s"
  "view (s\<lparr>audits := a\<rparr>) = view s" "view (s\<lparr>bearers := b\<rparr>) = view s" "view (s\<lparr>agents := g\<rparr>) = view s"
  by (simp_all add: view_def)

lemma view_audit_for_user [simp]: "view (audit_for_user u k p act s) = view s"
  unfolding audit_for_user_def by (rule fold_unchanged) (auto split: prod.splits)

lemma astepsI: "astep (view s) w \<Longrightarrow> view s' = w \<Longrightarrow> asteps (view s) (view s')"
  by auto

lemma asteps_same: "view s' = view s \<Longrightarrow> asteps (view s) (view s')"
  by simp

lemma asteps_next: "view s' = (view s)\<lparr>v_next := next_id s'\<rparr> \<Longrightarrow> next_id s \<le> next_id s' \<Longrightarrow> asteps (view s) (view s')"
  using a_next[of "view s" "next_id s'"] by auto

lemma fresh_steps: "asteps (view s) (view (snd (fresh s)))"
  by (rule asteps_next) (auto simp: fresh_def view_def)

subsection \<open>Sessions\<close>

lemma mint_session_steps [view_steps]:
  assumes "mint_session env u w ip ua l s = Inr (c, s')"
  shows "asteps (view s) (view s')"
proof -
  let ?s2 = "s\<lparr>next_id := Suc (Suc (next_id s))\<rparr>"
  have n: "asteps (view s) (view ?s2)" by (rule asteps_next) (auto simp: view_def)
  have "\<exists>r. s' = ?s2\<lparr>sessions := sessions s @ [r]\<rparr> \<and> session_by_hash (sn_token_hash r) s = None \<and>
      (sn_user_id r = None) \<noteq> (sn_workspace_id r = None) \<and> (\<forall>u. sn_user_id r = Some u \<longrightarrow> users s u \<noteq> None)"
    using assms by (auto simp: mint_session_def fresh_def Let_def res_simps split: if_splits option.splits)
  then obtain r where r: "s' = ?s2\<lparr>sessions := sessions s @ [r]\<rparr>" "session_by_hash (sn_token_hash r) s = None"
      "(sn_user_id r = None) \<noteq> (sn_workspace_id r = None)" "\<forall>u. sn_user_id r = Some u \<longrightarrow> users s u \<noteq> None" by blast
  have "sn_token_hash r \<notin> sn_token_hash ` set (sessions s)"
    using r(2) by (auto simp: session_by_hash_def find_None_iff)
  then have "astep (view ?s2) (view s')"
    using a_session[of r "view ?s2"] r(1,3,4) by (simp add: view_def)
  with n show ?thesis by (rule rtranclp.rtrancl_into_rtrancl)
qed

lemma upd_sessions_steps:
  assumes "\<And>r. sn_token_hash (f r) = sn_token_hash r \<and> sn_user_id (f r) = sn_user_id r \<and> sn_workspace_id (f r) = sn_workspace_id r"
  shows "asteps (view s) (view (upd_sessions P f s))"
  by (rule astepsI, rule a_session_update[of "\<lambda>r. if P r then f r else r"])
    (auto simp: assms view_def upd_sessions_def)

lemma delete_sessions_steps: "asteps (view s) (view (snd (delete_sessions P s)))"
  by (rule astepsI, rule a_session_drop[of _ "\<lambda>r. \<not> P r"]) (simp add: view_def delete_sessions_def)

lemma touch_session_steps [view_steps]: "asteps (view s) (view (touch_session env c s))"
  unfolding touch_session_def by (rule upd_sessions_steps) auto

lemma revoke_session_steps [view_steps]: "asteps (view s) (view (revoke_session env c s))"
  unfolding revoke_session_def by (rule delete_sessions_steps)

lemma revoke_all_steps [view_steps]: "asteps (view s) (view (snd (revoke_all_sessions_for_user u s)))"
  unfolding revoke_all_sessions_for_user_def by (rule delete_sessions_steps)

lemma cleanup_sessions_steps [view_steps]: "asteps (view s) (view (snd (cleanup_expired_sessions s)))"
  unfolding cleanup_expired_sessions_def by (rule delete_sessions_steps)

lemma mark_sso_steps [view_steps]: "mark_sso_satisfied env c org s = Inr s' \<Longrightarrow> asteps (view s) (view s')"
  by (auto simp: mark_sso_satisfied_def Let_def res_simps intro: upd_sessions_steps)

lemma rotate_session_steps [view_steps]: "rotate_session env c ip ua s = Inr (x, s') \<Longrightarrow> asteps (view s) (view s')"
  by (auto simp: rotate_session_def res_simps split: prod.splits
      intro: rtranclp_trans[OF mint_session_steps revoke_session_steps])

subsection \<open>Users and logins\<close>

lemma insert_user_steps [view_steps]: "asteps (view s) (view (snd (insert_user n s)))"
  by (rule astepsI, rule a_user[of "\<lparr>us_id = next_id s, us_display_name = n, us_github_username = None, us_deactivated_at = None\<rparr>"])
    (simp_all add: insert_user_def fresh_def view_def)

lemma user_update_steps:
  assumes "\<And>u. us_id (f u) = us_id u"
  shows "asteps (view s) (view (s\<lparr>users := modify i f (users s)\<rparr>))"
  by (rule astepsI, rule a_user_update[of f _ i]) (simp_all add: assms view_def)

lemma set_user_steps [view_steps]:
  "asteps (view s) (view (set_user_display_name i n s))" "asteps (view s) (view (set_user_github_username i m s))"
  by (simp_all add: set_user_display_name_def set_user_github_username_def user_update_steps)

lemma add_email_steps [view_steps]: "add_email u e p verified s = Inr (i, s') \<Longrightarrow> asteps (view s) (view s')"
  by (rule astepsI, rule a_email[of "\<lparr>em_id = next_id s, em_user_id = u, em_email = e, em_is_primary = p,
        em_verified_at = (if verified then Some (now s) else None)\<rparr>"])
    (auto simp: add_email_def fresh_def view_def res_simps split: if_splits)

lemma remove_own_email_steps [view_steps]:
  assumes "remove_own_email u i s = Inr s'" shows "asteps (view s) (view s')"
proof -
  from assms obtain e where e: "user_emails s i = Some e" "em_user_id e = u"
      "\<not> (em_verified_at e \<noteq> None \<and> count_verified_emails u s \<le> 1)" and s': "s' = s\<lparr>user_emails := (user_emails s)(i := None)\<rparr>"
    by (auto simp: remove_own_email_def delete_email_def res_simps split: option.splits if_splits)
  show ?thesis
    by (rule astepsI, rule a_email_drop[of _ i e]) (use e in \<open>auto simp: s' view_def count_verified_emails_def\<close>)
qed

lemma add_oauth_view [simp]: "add_oauth_identity u p x s = Inr s' \<Longrightarrow> view s' = view s"
  by (auto simp: add_oauth_identity_def res_simps)

lemma upsert_totp_view [simp]: "upsert_totp_secret u c s = Inr s' \<Longrightarrow> view s' = view s"
  by (auto simp: upsert_totp_secret_def res_simps split: option.splits)

lemma verify_totp_view [simp]: "view (snd (verify_totp env u c s)) = view s"
  by (auto simp: verify_totp_def split: option.splits)

lemma enroll_totp_steps [view_steps]: "enroll_totp env u s = Inr (x, s') \<Longrightarrow> asteps (view s) (view s')"
  by (rule asteps_next)
    (auto simp: enroll_totp_def fresh_def upsert_totp_secret_def Let_def res_simps view_def split: option.splits)

lemma note_github_steps [view_steps]: "asteps (view s) (view (note_github_login p prof u s))"
  by (auto simp: note_github_login_def intro: view_steps)

lemma login_steps [view_steps]: "login_via_oauth p prof s = Inr (u, s') \<Longrightarrow> asteps (view s) (view s')"
  by (auto simp: login_via_oauth_def res_simps split: option.splits
      intro: note_github_steps rtranclp_trans[OF asteps_same note_github_steps])

lemma pre_auth_steps [view_steps]: "asteps (view s) (view (revoke_pre_auth_session env c s))"
  by (auto simp: revoke_pre_auth_session_def intro: view_steps)

lemma login_audit_view [simp]: "view (emit_login_audit u p b s) = view s"
  by (simp add: emit_login_audit_def)

text \<open>The tail shared by the OAuth callback and the TOTP challenge.\<close>

lemma sign_in_steps:
  assumes "mint_session env u w ip ua l (revoke_pre_auth_session env c s) = Inr (x, s')"
  shows "asteps (view s) (view (emit_login_audit user p b s'))"
  using rtranclp_trans[OF pre_auth_steps mint_session_steps[OF assms]] by simp

lemma oauth_callback_steps [view_steps]:
  assumes "oauth_callback env p code st c ip ua s = Inr (r, s')" shows "asteps (view s) (view s')"
proof -
  obtain n where n: "load_state env st STATE_MAX_AGE_SECONDS (now s) = Signed n"
    by (cases "load_state env st STATE_MAX_AGE_SECONDS (now s)") (use assms in \<open>auto simp: oauth_callback_def res_simps\<close>)
  have "\<exists>prof x. login_via_oauth p prof s = Inr x \<and>
      (\<lambda>(user, s1). case user of None \<Rightarrow> Inr (NotProvisioned, s)
         | Some i \<Rightarrow>
             if \<not> pp_mfa_satisfied prof \<and> has_verified_totp i s1 then Inr (StepUp i (safe_next n), s1)
             else let s2 = revoke_pre_auth_session env c s1 in
               ebind (mint_session env (Some i) None ip ua None s2) (\<lambda>(created, s3).
               let s4 = emit_login_audit i p False s3 in
               Inr (SignedIn (safe_next_for_user i (Some (safe_next n)) s4) created, s4))) x = Inr (r, s')"
    using assms unfolding oauth_callback_def n by (simp only: signed.case ebind_eq_Inr) blast
  then obtain prof u s1 where login: "login_via_oauth p prof s = Inr (u, s1)" and rest:
      "(case u of None \<Rightarrow> Inr (NotProvisioned, s)
         | Some i \<Rightarrow>
             if \<not> pp_mfa_satisfied prof \<and> has_verified_totp i s1 then Inr (StepUp i (safe_next n), s1)
             else let s2 = revoke_pre_auth_session env c s1 in
               ebind (mint_session env (Some i) None ip ua None s2) (\<lambda>(created, s3).
               let s4 = emit_login_audit i p False s3 in
               Inr (SignedIn (safe_next_for_user i (Some (safe_next n)) s4) created, s4))) = Inr (r, s')"
    by (metis (no_types, lifting) case_prod_conv surj_pair)
  show ?thesis
  proof (cases u)
    case None
    then show ?thesis using rest by simp
  next
    case (Some i)
    from rest have "s' = s1 \<or> (\<exists>x s3. mint_session env (Some i) None ip ua None (revoke_pre_auth_session env c s1) = Inr (x, s3) \<and>
        s' = emit_login_audit i p False s3)"
      unfolding Some by (auto simp: res_simps Let_def split: if_splits prod.splits)
    then show ?thesis using login_steps[OF login] sign_in_steps by (metis rtranclp_trans)
  qed
qed

lemma totp_challenge_steps [view_steps]:
  assumes "totp_challenge env ch code c ip ua s = Inr (r, s')" shows "asteps (view s) (view s')"
proof -
  obtain u n where ch: "load_totp_challenge env (or_else ch []) TOTP_CHALLENGE_MAX_AGE_SECONDS (now s) = Signed (Some u, n)"
    using assms by (auto simp: totp_challenge_def res_simps split: signed.splits option.splits prod.splits)
  obtain ok s1 where v: "verify_totp env u code s = (ok, s1)" by fastforce
  have s1: "view s1 = view s" using verify_totp_view[of env u code s] v by simp
  from assms ch v obtain x s3 where "mint_session env (Some u) None ip ua None (revoke_pre_auth_session env c s1) = Inr (x, s3)"
      "s' = emit_login_audit u ''totp_step_up'' False s3"
    by (auto simp: totp_challenge_def res_simps Let_def split: prod.splits)
  then show ?thesis using sign_in_steps s1 by metis
qed

lemma logout_steps [view_steps]: "asteps (view s) (view (logout env c s))"
proof -
  have "asteps (view t) (view (revoke_session env c' t))" for t :: "'a access_db_scheme" and c' by (rule revoke_session_steps)
  then show ?thesis
    by (auto simp: logout_def Let_def split: option.splits) (metis view_audit_for_user)
qed

lemma logout_all_steps [view_steps]: "asteps (view s) (view (logout_all env c s))"
  by (auto simp: logout_all_def Let_def split: option.splits intro: view_steps)

lemma totp_enroll_steps [view_steps]: "totp_enroll env c s = Inr (x, s') \<Longrightarrow> asteps (view s) (view s')"
  by (auto simp: totp_enroll_def res_simps intro: view_steps)

lemma totp_verify_steps [view_steps]:
  assumes "totp_verify env c code s = Inr s'" shows "asteps (view s) (view s')"
proof -
  obtain ok s1 where v: "verify_totp env (the (session_user env c s)) code s = (ok, s1)" by fastforce
  with assms have "s' = s1" by (auto simp: totp_verify_def res_simps)
  then show ?thesis using verify_totp_view[of env "the (session_user env c s)" code s] v by simp
qed

lemma own_profile_steps [view_steps]:
  "add_own_email u e s = Inr (i, s') \<Longrightarrow> asteps (view s) (view s')" "asteps (view s) (view (patch_user_me u n b s))"
proof -
  show "add_own_email u e s = Inr (i, s') \<Longrightarrow> asteps (view s) (view s')"
    by (simp add: add_own_email_def add_email_steps)
  show "asteps (view s) (view (patch_user_me u n b s))"
    by (auto simp: patch_user_me_def Let_def split: option.splits intro: set_user_steps rtranclp_trans[OF set_user_steps(1) set_user_steps(2)])
qed

lemma attribution_view [simp]: "view (snd (resolve_github_attribution n org t s)) = view s"
  by (auto simp: resolve_github_attribution_def audit_for_ticket_def split: sum.splits)

lemma identity_purge_steps [view_steps]: "asteps (view s) (view (run_identity_purge s))"
proof -
  let ?t = "fold (\<lambda>r. case sn_user_id r of None \<Rightarrow> id
      | Some u \<Rightarrow> audit_for_user u ''logout'' (JObj [(''kind'', JStr ''expiry'')]) SystemActor)
      (filter (\<lambda>r. sn_expires_at r < now s \<and> sn_user_id r \<noteq> None) (sessions s)) s"
  have t: "view ?t = view s" by (rule fold_unchanged) (auto split: option.splits)
  have "view (run_identity_purge s) = view (snd (cleanup_expired_sessions ?t))"
    by (simp add: run_identity_purge_def purge_audit_older_than_def purge_stale_unverified_totp_secrets_def
        purge_expired_sessions_def)
  then show ?thesis using cleanup_sessions_steps[of ?t] t by simp
qed

end
