(* ===== verification/AccessMoves.thy ===== *)
theory AccessMoves
  imports AccessSteps
begin

text \<open>
  The operations of \<open>Orgs\<close> as sequences of writes, the relation \<open>access_step\<close> of everything that may happen to
  the access tables, and its invariant.
\<close>

section \<open>Authorisation, organisations, memberships\<close>

lemma require_action_steps [view_steps]: "asteps (view s) (view (snd (require_action env act rq s)))"
proof -
  have touch: "asteps (view s) (view (touch_session env c (audit k i w p ac g s)))" for c k i w p ac g
    using touch_session_steps[of "audit k i w p ac g s" env c] by simp
  show ?thesis
    by (auto simp: require_action_def Let_def touch split: option.splits intro: touch_session_steps)
qed

lemma insert_org_steps [view_steps]:
  fixes s :: "'a access_db_scheme"
  assumes "insert_org slug n s = Inr (i, s')" shows "asteps (view s) (view s')"
proof -
  let ?g = "\<lparr>og_id = next_id s, og_slug = slug, og_display_name = (if n = [] then slug else n),
           og_archived_at = None, og_session_timeout_override = None, og_vcs_plugin_id = None,
           og_vcs_settings = None, og_registered_iam_arn = None, og_aws_region = None,
           og_workspace_max_count = 4, og_sso_enabled = False, og_sso_exempt_owner_user_id = None\<rparr>"
  show ?thesis
    by (rule astepsI, rule a_org[of ?g])
      (use assms in \<open>auto simp: insert_org_def fresh_def view_def res_simps\<close>)
qed

lemma insert_membership_steps [view_steps]:
  assumes "insert_membership u org r h s = Inr s'" shows "asteps (view s) (view s')"
  by (rule astepsI, rule a_member[of "\<lparr>mb_user_id = u, mb_org_id = org, mb_role = r, mb_handle = h\<rparr>"])
    (use assms in \<open>auto simp: insert_membership_def get_membership_def view_def res_simps\<close>)

lemma insert_membership_state: "insert_membership u org r h s = Inr s' \<Longrightarrow>
    s' = s\<lparr>memberships := memberships s @ [\<lparr>mb_user_id = u, mb_org_id = org, mb_role = r, mb_handle = h\<rparr>]\<rparr>"
  by (auto simp: insert_membership_def res_simps)

lemma upd_membership_steps:
  fixes s :: "'a access_db_scheme"
  assumes "\<And>m. mb_user_id (f m) = mb_user_id m \<and> mb_org_id (f m) = mb_org_id m \<and> mb_handle (f m) = mb_handle m"
  shows "asteps (view s) (view (upd_membership u org f s))"
  by (rule astepsI, rule a_member_role[of "\<lambda>m. if mb_user_id m = u \<and> mb_org_id m = org then f m else m"])
    (auto simp: assms view_def upd_membership_def)

lemma update_role_steps [view_steps]:
  fixes s :: "'a access_db_scheme"
  shows "update_role u org r s = Inr s' \<Longrightarrow> asteps (view s) (view s')"
  by (auto simp: update_role_def res_simps intro: upd_membership_steps)

lemma delete_membership_steps [view_steps]:
  fixes s :: "'a access_db_scheme"
  shows "asteps (view s) (view (delete_membership u org s))"
  by (rule astepsI, rule a_member_drop[of _ "\<lambda>m. \<not> (mb_user_id m = u \<and> mb_org_id m = org)"])
    (simp add: view_def delete_membership_def)

lemma own_handle_steps [view_steps]:
  fixes s :: "'a access_db_scheme"
  assumes "patch_own_membership_handle u org h s = Inr s'" shows "asteps (view s) (view s')"
  by (rule astepsI, rule a_member_handle[of org u "strip h"])
    (use assms in \<open>auto simp: patch_own_membership_handle_def upd_membership_def view_def res_simps Let_def\<close>)

lemma create_org_steps [view_steps]:
  assumes "create_org_endpoint env c n slug s = Inr (i, s')" shows "asteps (view s) (view s')"
proof -
  from assms obtain g u h s1 where "insert_org g (strip n) s = Inr (i, s1)" "insert_membership u i ADMIN h s1 = Inr s'"
    by (auto simp: create_org_endpoint_def Let_def res_simps)
  then show ?thesis using insert_org_steps insert_membership_steps by (metis rtranclp_trans)
qed

lemma remove_member_steps [view_steps]: "asteps (view s) (view (remove_member org u act s))"
  by (auto simp: remove_member_def split: option.splits
      intro: rtranclp_trans[OF delete_membership_steps revoke_all_steps])

lemma change_role_steps [view_steps]: "change_role org u r act s = Inr s' \<Longrightarrow> asteps (view s) (view s')"
  by (auto simp: change_role_def res_simps intro: rtranclp_trans[OF update_role_steps revoke_all_steps])

section \<open>Invitations\<close>

lemma insert_invitation_steps [view_steps]:
  assumes "insert_invitation org e r h t by' s = Inr (i, s')" shows "asteps (view s) (view s')"
  by (rule astepsI, rule a_invite[of "\<lparr>in_id = next_id s, in_org_id = org, in_email = e, in_role = r, in_token_hash = h,
        in_expires_at = t, in_accepted_at = None, in_invited_by_user_id = by'\<rparr>"])
    (use assms in \<open>auto simp: insert_invitation_def fresh_def view_def res_simps\<close>)

lemma invite_steps [view_steps]: "invite env org e r by' act s = Inr (x, s') \<Longrightarrow> asteps (view s) (view s')"
  by (auto simp: invite_def Let_def res_simps split: prod.splits intro: insert_invitation_steps)

lemma stamp_accepted_steps [view_steps]: "asteps (view s) (view (stamp_accepted i s))"
  by (rule astepsI, rule a_accept[of _ i "now s"]) (simp add: view_def stamp_accepted_def)

text \<open>An invitation that was accepted: the row was pending and is now stamped, and the member is there.\<close>

lemma accept_invitation_cases:
  assumes "accept_invitation env tok u act s = Inr (m, s')"
  obtains row where "get_invitation_by_token_hash (sha256 env tok) s = Some row" "in_accepted_at row = None"
    "now s \<le> in_expires_at row" "get_membership u (in_org_id row) s = Some m" "s' = stamp_accepted (in_id row) s"
  | row s1 where "get_invitation_by_token_hash (sha256 env tok) s = Some row" "in_accepted_at row = None"
    "now s \<le> in_expires_at row"
    "insert_membership u (in_org_id row) (in_role row) (local_part (in_email row)) s = Inr s1"
    "m = \<lparr>mb_user_id = u, mb_org_id = in_org_id row, mb_role = in_role row, mb_handle = local_part (in_email row)\<rparr>"
    "s' = audit ''membership'' u ''joined'' (membership_change u None (Some (in_role row))) act (in_org_id row)
       (stamp_accepted (in_id row) s1)"
  using assms
  by (auto simp: accept_invitation_def res_simps not_less split: signed.splits prod.splits option.splits if_splits)

lemma accept_invitation_steps [view_steps]:
  assumes "accept_invitation env tok u act s = Inr (m, s')" shows "asteps (view s) (view s')"
  using assms
proof (cases rule: accept_invitation_cases)
  case (1 row)
  then show ?thesis by (simp add: stamp_accepted_steps)
next
  case (2 row s1)
  then show ?thesis using rtranclp_trans[OF insert_membership_steps stamp_accepted_steps] by simp
qed

lemma accept_endpoint_accepts:
  assumes "accept_endpoint env c tok s = Inr (m, s')"
  obtains u where "session_user env c s = Some u" "accept_invitation env tok u (UserActor u None) s = Inr (m, s')"
proof -
  from assms obtain u where u: "session_user env c s = Some u" and r:
      "(case accept_invitation env tok u (UserActor u None) s of
         Inl InvitationExpiredError \<Rightarrow> Inl (HTTPException 410 ''invitation_expired'')
       | Inl InvitationUsedError \<Rightarrow> Inl (HTTPException 410 ''invitation_used'')
       | Inl InvitationInvalidError \<Rightarrow> Inl (HTTPException 400 ''invitation_invalid'')
       | r \<Rightarrow> r) = Inr (m, s')"
    unfolding accept_endpoint_def ebind_eq_Inr require_eq by blast
  have "accept_invitation env tok u (UserActor u None) s = Inr (m, s')"
  proof (cases "accept_invitation env tok u (UserActor u None) s")
    case (Inl e)
    then show ?thesis using r by (cases e) simp_all
  next
    case (Inr x)
    then show ?thesis using r by simp
  qed
  with u show thesis by (rule that)
qed

lemma accept_endpoint_steps [view_steps]:
  "accept_endpoint env c tok s = Inr (m, s') \<Longrightarrow> asteps (view s) (view s')"
  by (elim accept_endpoint_accepts) (rule accept_invitation_steps)

lemma delete_expired_invitations_steps [view_steps]: "asteps (view s) (view (snd (delete_expired_invitations s)))"
  by (rule astepsI, rule a_invite_drop[of "\<lambda>x. in_expires_at x < now s \<and> in_accepted_at x = None"])
    (simp_all add: view_def delete_expired_invitations_def Let_def)

section \<open>Single sign-on, settings, API keys\<close>

lemma upsert_config_steps [view_steps]:
  assumes "upsert_config env org body s = Inr s'" shows "asteps (view s) (view s')"
proof -
  have "\<exists>n c. next_id s \<le> n \<and> orgs s org \<noteq> None \<and> so_enabled c = cb_enabled body \<and>
      so_exempt_owner_user_id c = cb_exempt_owner_user_id body \<and>
      view s' = (view s)\<lparr>v_next := n, v_sso := (sso_configs s)(org \<mapsto> c),
        v_orgs := modify org (\<lambda>g. g\<lparr>og_sso_enabled := cb_enabled body,
                 og_sso_exempt_owner_user_id := cb_exempt_owner_user_id body\<rparr>) (orgs s)\<rparr>"
  proof (cases "sso_configs s org")
    case None
    obtain key cert where "generate_sp_keypair env (next_id s) = (key, cert)" by fastforce
    moreover obtain d where "normalize_email_domains [] (cb_email_domains body) = Inr d"
      using assms by (auto simp: upsert_config_def res_simps)
    ultimately show ?thesis using assms None
      by (intro exI[where x = "Suc (next_id s)"]
          exI[where x = "\<lparr>so_idp_metadata_xml = cb_idp_metadata_xml body, so_jit_enabled = cb_jit_enabled body,
                  so_enabled = cb_enabled body, so_email_domains = d,
                  so_exempt_owner_user_id = cb_exempt_owner_user_id body, so_sp_private_key_encrypted = key,
                  so_sp_certificate = cert, so_updated_at = now s\<rparr>"])
        (auto simp: upsert_config_def set_sso_authz_def fresh_def view_def res_simps Let_def)
  next
    case (Some c)
    obtain d where "normalize_email_domains [] (cb_email_domains body) = Inr d"
      using assms by (auto simp: upsert_config_def res_simps)
    then show ?thesis using assms Some
      by (intro exI[where x = "next_id s"]
          exI[where x = "c\<lparr>so_idp_metadata_xml := cb_idp_metadata_xml body, so_jit_enabled := cb_jit_enabled body,
                so_enabled := cb_enabled body, so_email_domains := d,
                so_exempt_owner_user_id := cb_exempt_owner_user_id body, so_updated_at := now s\<rparr>"])
        (auto simp: upsert_config_def set_sso_authz_def view_def res_simps Let_def)
  qed
  then obtain n c where nc: "next_id s \<le> n" "orgs s org \<noteq> None" "so_enabled c = cb_enabled body"
      "so_exempt_owner_user_id c = cb_exempt_owner_user_id body"
      "view s' = (view s)\<lparr>v_next := n, v_sso := (sso_configs s)(org \<mapsto> c),
        v_orgs := modify org (\<lambda>g. g\<lparr>og_sso_enabled := cb_enabled body,
                 og_sso_exempt_owner_user_id := cb_exempt_owner_user_id body\<rparr>) (orgs s)\<rparr>" by blast
  have "astep (view s) ((view s)\<lparr>v_next := n\<rparr>)" by (rule a_next) (simp add: nc(1))
  moreover have "astep ((view s)\<lparr>v_next := n\<rparr>) (view s')"
    using a_sso[of "(view s)\<lparr>v_next := n\<rparr>" org c] nc(2-5) by simp
  ultimately show ?thesis by (meson rtranclp.rtrancl_into_rtrancl r_into_rtranclp)
qed

lemma sso_config_audit_view [simp]: "view (sso_config_audit org act p body s) = view s"
  by (simp add: sso_config_audit_def Let_def)

lemma upsert_org_sso_config_upserts:
  assumes "upsert_org_sso_config env org body act s = Inr s'"
  obtains s1 where "upsert_config env org body s = Inr s1" "s' = sso_config_audit org act (sso_configs s org) body s1"
    "\<And>u. cb_exempt_owner_user_id body = Some u \<Longrightarrow>
       map_option mb_role (get_membership u org s) = Some OWNER \<and> has_verified_totp u s"
proof (cases "upsert_config env org body s")
  case (Inl e)
  then show thesis using assms
    by (cases e) (auto simp: upsert_org_sso_config_def res_simps)
next
  case (Inr s1)
  then show thesis using assms that
    by (auto simp: upsert_org_sso_config_def res_simps split: option.splits)
qed

lemma upsert_org_sso_config_steps [view_steps]:
  "upsert_org_sso_config env org body act s = Inr s' \<Longrightarrow> asteps (view s) (view s')"
  by (elim upsert_org_sso_config_upserts) (simp add: upsert_config_steps)

lemma acs_user_steps [view_steps]:
  assumes "acs_user org jit e s = Inr (x, s')" shows "asteps (view s) (view s')"
proof (cases "find_user_by_email e s")
  case None
  obtain u s1 where u: "insert_user (takeWhile (\<lambda>c. c \<noteq> CHR ''@'') e) s = (u, s1)" by fastforce
  with assms None obtain i s2 where s2: "add_email u e True True s1 = Inr (i, s2)"
      "insert_membership u org BUILDER (local_part e) s2 = Inr s'"
    by (auto simp: acs_user_def res_simps)
  have "asteps (view s) (view s1)" using insert_user_steps[of s "takeWhile (\<lambda>c. c \<noteq> CHR ''@'') e"] u by simp
  then show ?thesis using add_email_steps[OF s2(1)] insert_membership_steps[OF s2(2)] by (metis rtranclp_trans)
qed (use assms in \<open>simp add: acs_user_def\<close>)

lemma fresh_session_steps:
  assumes "ebind (mint_session env u None None None None s) (\<lambda>(created, s1).
            ebind (mark_sso_satisfied env (fst created) org s1) (\<lambda>s2. Inr (Some created, s2))) = Inr (x, s')"
  shows "asteps (view s) (view s')"
proof -
  from assms obtain c s1 where "mint_session env u None None None None s = Inr (c, s1)"
      "mark_sso_satisfied env (fst c) org s1 = Inr s'"
    by (auto simp: res_simps)
  then show ?thesis using mint_session_steps mark_sso_steps by (metis rtranclp_trans)
qed

lemma acs_session_steps [view_steps]:
  assumes "acs_session env c u org s = Inr (x, s')" shows "asteps (view s) (view s')"
  using assms unfolding acs_session_def Let_def
  by (auto split: if_splits sum.splits intro: fresh_session_steps mark_sso_steps)

lemma sso_acs_steps [view_steps]:
  assumes "sso_acs env slug r c s = Inr (x, s')" shows "asteps (view s) (view s')"
proof -
  from assms obtain org jit e u j s1 s2 k p act where s1: "acs_user org jit e s = Inr ((u, j), s1)"
      and s2: "acs_session env c u org s1 = Inr (x, s2)" and s': "s' = audit ''user'' u k p act org s2"
    by (auto simp: sso_acs_def Let_def res_simps)
  show ?thesis using rtranclp_trans[OF acs_user_steps[OF s1] acs_session_steps[OF s2]] s' by simp
qed

lemma revoke_where_view [simp]: "view (snd (revoke_where P reason s)) = view s"
  by (simp add: revoke_where_def Let_def)

text \<open>Commands for agents draw ids and leave the tables alone.\<close>

definition drew :: "'a access_db_scheme \<Rightarrow> 'a access_db_scheme \<Rightarrow> bool" where
  "drew s s' \<longleftrightarrow> next_id s \<le> next_id s' \<and> view s' = (view s)\<lparr>v_next := next_id s'\<rparr>"

lemma drew_steps: "drew s s' \<Longrightarrow> asteps (view s) (view s')"
  unfolding drew_def using asteps_next by blast

lemma drew_refl [simp]: "drew s s"
  by (simp add: drew_def view_def)

lemma drew_trans: "drew s t \<Longrightarrow> drew t u \<Longrightarrow> drew s u"
  by (auto simp: drew_def view_def)

lemma drew_after: "view t = view s \<Longrightarrow> next_id t = next_id s \<Longrightarrow> drew t u \<Longrightarrow> drew s u"
  by (simp add: drew_def)

lemma drew_before: "drew s t \<Longrightarrow> view u = view t \<Longrightarrow> next_id u = next_id t \<Longrightarrow> drew s u"
  by (simp add: drew_def)

lemma enqueue_for_agent_drew: "enqueue_for_agent env k fs org a s = Inr s' \<Longrightarrow> drew s s'"
  by (auto simp: enqueue_for_agent_def enqueue_command_def enqueue_command_payload_def fresh_def upd_command_def
      drew_def view_def res_simps Let_def split: if_splits)

lemma efold_drew:
  assumes "efold f xs s = Inr s'" and "\<And>x t t'. f x t = Inr t' \<Longrightarrow> drew t t'" shows "drew s s'"
proof -
  have "drew s s \<Longrightarrow> drew s s'"
    using assms(1) by (rule efold_invariant[where I = "drew s"]) (auto dest: assms(2) intro: drew_trans)
  then show ?thesis by simp
qed

lemma config_fanout_drew: "enqueue_config_update_for_all_org_agents env cfg org s = Inr s' \<Longrightarrow> drew s s'"
  by (auto simp: enqueue_config_update_for_all_org_agents_def enqueue_config_update_with_config_def res_simps
      split: list.splits elim!: efold_drew intro: drew_trans enqueue_for_agent_drew)

lemma view_upd_agent [simp]: "view (upd_agent i f s) = view s" "next_id (upd_agent i f s) = next_id s"
  by (simp_all add: upd_agent_def)

lemma view_publish [simp]:
  "view (publish_general_after_commit org k p s) = view s" "next_id (publish_general_after_commit org k p s) = next_id s"
  "next_id (audit k' i w q act g s) = next_id s"
  by (simp_all add: publish_general_after_commit_def view_def audit_def)

lemma drain_one_drew:
  "shutdown_one env org act a (rs, s) = Inr (rs', s') \<Longrightarrow> drew s s'"
  "cancel_shutdown_one env org act a (rs, s) = Inr (rs', s') \<Longrightarrow> drew s s'"
  by (auto simp: shutdown_one_def cancel_shutdown_one_def Let_def res_simps drew_def
      dest!: enqueue_for_agent_drew split: option.splits if_splits)

lemma drain_requests_drew:
  assumes "shutdown_agents env org ids act s = Inr (rs, s') \<or> cancel_shutdown_agents env org ids act s = Inr (rs, s')"
  shows "drew s s'"
proof -
  have "drew s (snd ([], s)) \<Longrightarrow> drew s (snd (rs, s'))"
    using assms unfolding shutdown_agents_def cancel_shutdown_agents_def
    by (elim disjE; intro efold_invariant[where I = "\<lambda>p. drew s (snd p)" and s' = "(rs, s')"])
      (auto dest!: drain_one_drew intro: drew_trans)
  then show ?thesis by simp
qed

lemma bulk_drain_steps [view_steps]:
  "bulk_shutdown_agents env org ids u s = Inr (rs, s') \<Longrightarrow> asteps (view s) (view s')"
  "bulk_cancel_shutdown_agents env org ids u s = Inr (rs, s') \<Longrightarrow> asteps (view s) (view s')"
  by (auto simp: bulk_shutdown_agents_def bulk_cancel_shutdown_agents_def res_simps intro: drew_steps drain_requests_drew)

lemma update_org_fields_steps:
  fixes s :: "'a access_db_scheme"
  assumes "update_org_fields org timeout arn region m s = Inr s'" shows "asteps (view s) (view s')"
proof -
  from assms obtain g where g: "orgs s org = Some g" by (auto simp: update_org_fields_def res_simps)
  let ?g = "g\<lparr>og_session_timeout_override := timeout, og_registered_iam_arn := arn, og_aws_region := region,
                og_workspace_max_count := (case m of None \<Rightarrow> og_workspace_max_count g | Some n \<Rightarrow> n)\<rparr>"
  show ?thesis
    by (rule astepsI, rule a_org_settings[of _ org g ?g])
      (use assms g in \<open>auto simp: update_org_fields_def Let_def res_simps view_def split: option.splits\<close>)
qed

text \<open>A successful change of the settings: the bearers of a replaced ARN are revoked, then the row is written.\<close>

lemma patch_org_settings_stages:
  assumes "patch_org_settings env cfg org body s = Inr s'"
  obtains g timeout arn region m s1 s2 where "orgs s org = Some g" "eff_arn body g = Inr arn"
    "s1 = (case og_registered_iam_arn g of None \<Rightarrow> s
           | Some old \<Rightarrow> if Some old = arn then s else snd (revoke_all_for_arn old ''arn_change'' s))"
    "update_org_fields org timeout arn region m s1 = Inr s2"
    "s' = s2 \<or> enqueue_config_update_for_all_org_agents env cfg org s2 = Inr s'"
proof -
  from assms obtain g timeout arn region m s2 where g: "orgs s org = Some g" "eff_arn body g = Inr arn"
    and w: "update_org_fields org timeout arn region m
       (case og_registered_iam_arn g of None \<Rightarrow> s
        | Some old \<Rightarrow> if Some old = arn then s else snd (revoke_all_for_arn old ''arn_change'' s)) = Inr s2"
    and f: "(if m \<noteq> None \<and> m \<noteq> Some (og_workspace_max_count g)
       then enqueue_config_update_for_all_org_agents env cfg org s2 else Inr s2) = Inr s'"
    unfolding patch_org_settings_def Let_def ebind_eq_Inr require_eq guard_eq by blast
  from f have "s' = s2 \<or> enqueue_config_update_for_all_org_agents env cfg org s2 = Inr s'" by (auto split: if_splits)
  with that[OF g refl w] show thesis by blast
qed

lemma patch_org_settings_steps [view_steps]:
  assumes "patch_org_settings env cfg org body s = Inr s'" shows "asteps (view s) (view s')"
  using assms
proof (cases rule: patch_org_settings_stages)
  case (1 g timeout arn region m s1 s2)
  have "view s1 = view s" by (simp add: 1(3) revoke_all_for_arn_def split: option.split)
  then have "asteps (view s) (view s2)" using update_org_fields_steps[OF 1(4)] by simp
  moreover have "asteps (view s2) (view s')" using 1(5) by (auto intro: drew_steps config_fanout_drew)
  ultimately show ?thesis by (rule rtranclp_trans)
qed

lemma org_vcs_steps:
  fixes s :: "'a access_db_scheme"
  shows "asteps (view s) (view (s\<lparr>orgs := modify org (\<lambda>g. g\<lparr>og_vcs_plugin_id := p, og_vcs_settings := x\<rparr>) (orgs s)\<rparr>))"
  by (rule astepsI, rule a_org_vcs[of _ org x p]) (simp add: view_def)

lemma set_vcs_steps [view_steps]:
  fixes s :: "'a access_db_scheme"
  shows "asteps (view s) (view (set_vcs org p x act s))"
  by (simp add: set_vcs_def org_vcs_steps)

lemma clear_vcs_steps [view_steps]:
  fixes s :: "'a access_db_scheme"
  assumes "clear_vcs [] org act s = Inr (b, s')" shows "asteps (view s) (view s')"
  using org_vcs_steps[of s org None None] assms by (auto simp: clear_vcs_def res_simps split: option.splits)

lemma api_key_steps [view_steps]:
  fixes s :: "'a access_db_scheme"
  assumes cb: "\<And>g t t'. cb g t = Inr t' \<Longrightarrow> drew t t'"
  shows "set_api_key env [cb] org p k act s = Inr s' \<Longrightarrow> asteps (view s) (view s')"
    "clear_api_key [cb] org p act s = Inr (b, s') \<Longrightarrow> asteps (view s) (view s')"
    "validate_api_key env v org p act s = Inr (b, s') \<Longrightarrow> asteps (view s) (view s')"
proof -
  show "set_api_key env [cb] org p k act s = Inr s' \<Longrightarrow> asteps (view s) (view s')"
    by (auto simp: set_api_key_def Let_def res_simps dest!: cb drew_steps)
  show "clear_api_key [cb] org p act s = Inr (b, s') \<Longrightarrow> asteps (view s) (view s')"
    by (auto simp: clear_api_key_def Let_def res_simps dest!: cb drew_steps split: if_splits)
  show "validate_api_key env v org p act s = Inr (b, s') \<Longrightarrow> asteps (view s) (view s')"
    by (auto simp: validate_api_key_def Let_def res_simps split: option.splits)
qed

section \<open>Everything that may happen\<close>

text \<open>
  One transaction of any operation on these tables, or (\<open>elsewhere\<close>) of the rest of the system, which draws ids
  and lets time pass but writes none of them. Changed API keys are fanned out to the agents; no hook is
  registered for the removal of a version-control connection.
\<close>

inductive access_step ::
  "'e access_env_scheme \<Rightarrow> gateway_settings \<Rightarrow> 'a access_db_scheme \<Rightarrow> 'a access_db_scheme \<Rightarrow> bool"
  for env cfg where
  elsewhere: "drew s s' \<Longrightarrow> access_step env cfg s s'"
| s_callback: "oauth_callback env p code st c ip ua s = Inr (r, s') \<Longrightarrow> access_step env cfg s s'"
| s_challenge: "totp_challenge env ch code c ip ua s = Inr (r, s') \<Longrightarrow> access_step env cfg s s'"
| s_logout: "access_step env cfg s (logout env c s)"
| s_logout_all: "access_step env cfg s (logout_all env c s)"
| s_enroll: "totp_enroll env c s = Inr (x, s') \<Longrightarrow> access_step env cfg s s'"
| s_verify: "totp_verify env c code s = Inr s' \<Longrightarrow> access_step env cfg s s'"
| s_rotate: "rotate_session env c ip ua s = Inr (new, s') \<Longrightarrow> access_step env cfg s s'"
| s_add_email: "require_session env c s = Inr u \<Longrightarrow> add_own_email u e s = Inr (i, s') \<Longrightarrow> access_step env cfg s s'"
| s_remove_email: "require_session env c s = Inr u \<Longrightarrow> remove_own_email u i s = Inr s' \<Longrightarrow> access_step env cfg s s'"
| s_patch_user: "require_session env c s = Inr u \<Longrightarrow> access_step env cfg s (patch_user_me u n b s)"
| s_attribution: "resolve_github_attribution n org t s = (r, s') \<Longrightarrow> access_step env cfg s s'"
| s_purge: "access_step env cfg s (run_identity_purge s)"
| s_require: "require_action env act rq s = (r, s') \<Longrightarrow> access_step env cfg s s'"
| s_create_org: "create_org_endpoint env c n slug s = Inr (i, s') \<Longrightarrow> access_step env cfg s s'"
| s_handle: "patch_own_membership_handle u org h s = Inr s' \<Longrightarrow> access_step env cfg s s'"
| s_remove_member: "access_step env cfg s (remove_member org u who s)"
| s_change_role: "change_role org u ro who s = Inr s' \<Longrightarrow> access_step env cfg s s'"
| s_invite: "invite env org e ro inviter who s = Inr (x, s') \<Longrightarrow> access_step env cfg s s'"
| s_accept: "accept_endpoint env c tok s = Inr (m, s') \<Longrightarrow> access_step env cfg s s'"
| s_sweep_invites: "access_step env cfg s (snd (delete_expired_invitations s))"
| s_sso_config: "upsert_org_sso_config env org body who s = Inr s' \<Longrightarrow> access_step env cfg s s'"
| s_acs: "sso_acs env slug saml c s = Inr (x, s') \<Longrightarrow> access_step env cfg s s'"
| s_settings: "patch_org_settings env cfg org pl s = Inr s' \<Longrightarrow> access_step env cfg s s'"
| s_drain: "bulk_shutdown_agents env org ids u s = Inr (rs, s') \<Longrightarrow> access_step env cfg s s'"
| s_undrain: "bulk_cancel_shutdown_agents env org ids u s = Inr (rs, s') \<Longrightarrow> access_step env cfg s s'"
| s_set_vcs: "access_step env cfg s (set_vcs org p pl who s)"
| s_clear_vcs: "clear_vcs [] org who s = Inr (b, s') \<Longrightarrow> access_step env cfg s s'"
| s_set_key: "set_api_key env [enqueue_config_update_for_all_org_agents env cfg] org p k who s = Inr s' \<Longrightarrow>
    access_step env cfg s s'"
| s_clear_key: "clear_api_key [enqueue_config_update_for_all_org_agents env cfg] org p who s = Inr (b, s') \<Longrightarrow>
    access_step env cfg s s'"
| s_validate_key: "validate_api_key env v org p who s = Inr (b, s') \<Longrightarrow> access_step env cfg s s'"

lemma attribution_steps: "resolve_github_attribution n org t s = (r, s') \<Longrightarrow> asteps (view s) (view s')"
  using attribution_view[of n org t s] by simp

lemma require_steps: "require_action env act rq s = (r, s') \<Longrightarrow> asteps (view s) (view s')"
  using require_action_steps[of s env act rq] by simp

lemma validate_steps: "validate_api_key env v org p act s = Inr (b, s') \<Longrightarrow> asteps (view s) (view s')"
  by (rule api_key_steps(3)[where cb = "\<lambda>_. Inr"]) auto

lemma access_step_writes: "access_step env cfg s s' \<Longrightarrow> asteps (view s) (view s')"
proof (induction rule: access_step.induct)
  case (s_set_key org p k who s s')
  show ?case by (rule api_key_steps(1)[OF config_fanout_drew s_set_key])
next
  case (s_clear_key org p who s b s')
  show ?case by (rule api_key_steps(2)[OF config_fanout_drew s_clear_key])
qed (fact drew_steps attribution_steps require_steps validate_steps
    | (rule view_steps drew_steps attribution_steps require_steps validate_steps; assumption))+

text \<open>Hence a property of the tables that every write preserves is preserved along every execution.\<close>

lemma access_step_preserves:
  assumes "(access_step env cfg)\<^sup>*\<^sup>* s s'" and "I (view s)" and "\<And>v w. astep v w \<Longrightarrow> I v \<Longrightarrow> I w"
  shows "I (view s')"
proof -
  have along: "asteps v w \<Longrightarrow> I v \<Longrightarrow> I w" for v w
    by (induction rule: rtranclp_induct) (auto intro: assms(3))
  from assms(1) show ?thesis
    by (induction rule: rtranclp_induct) (auto intro: along access_step_writes assms(2))
qed

end
