(* ===== verification/AccessProps.thy ===== *)
theory AccessProps
  imports AccessMoves
begin

text \<open>
  What the access tables guarantee: they stay consistent, a request is let through exactly when its session
  entitles it, and sign-in, invitations, removals and changes of the cloud role have their promised effect.
\<close>

section \<open>The tables stay consistent\<close>

text \<open>C29. Consistency of the access tables is preserved by every execution of logins, profile changes, membership
  changes, invitations, SSO, settings and API keys: session hashes are unique and name an existing user or a
  workspace, not both; a verified address belongs to one user; a user has at most one membership of an
  organisation and a handle is used once; slugs and cloud roles are unique, role and region are paired, the
  workspace limit lies between 1 and 50, and the authorisation columns of an organisation agree with its SSO
  configuration; no two invitations share a token, and there is one pending invitation per address.\<close>

theorem access_invariant:
  assumes "(access_step env cfg)\<^sup>*\<^sup>* s s'" and "access_ok (view s)"
  shows "access_ok (view s')"
  using assms by (rule access_step_preserves) (rule access_ok_step)

text \<open>C34. Nobody loses their last verified e-mail address: once a user has a verified address, every later state
  of every execution has one, whatever addresses are added or removed.\<close>

theorem verified_email_kept:
  assumes "(access_step env cfg)\<^sup>*\<^sup>* s s'" and "access_ok (view s)" and "user_emails s i = Some e" and "verified_email_of u e"
  shows "\<exists>j f. user_emails s' j = Some f \<and> verified_email_of u f"
proof -
  let ?I = "\<lambda>v. access_ok v \<and> (\<exists>j f. v_emails v j = Some f \<and> verified_email_of u f)"
  have step: "?I w" if "astep v w" "?I v" for v w
  proof -
    have ok: "access_ok w" using access_ok_step that by blast
    from that have "\<exists>j f. v_emails w j = Some f \<and> verified_email_of u f"
    proof (cases rule: astep.cases)
      case (a_email_drop i e)
      show ?thesis
      proof (cases "verified_email_of u e")
        case False
        with a_email_drop that(2) show ?thesis by auto (metis option.inject)
      next
        case True
        let ?mine = "select (v_emails v) (v_next v) (verified_email_of u)"
        have keyed: "keyed_rows em_id (v_next v) (v_emails v)" using that(2) by (simp add: access_ok_def emails_okD)
        have "1 < length ?mine" using a_email_drop(2,3) True by (auto simp: verified_email_of_def)
        moreover have "distinct ?mine" using distinct_select[OF keyed] by (simp add: distinct_map)
        ultimately have "\<not> set ?mine \<subseteq> {e}"
          using card_mono[of "{e}" "set ?mine"] by (auto simp: distinct_card)
        then obtain f where "f \<in> set ?mine" "f \<noteq> e" by blast
        then have f: "v_emails v (em_id f) = Some f" "verified_email_of u f" "f \<noteq> e"
          using keyed_select_mem[OF keyed] by blast+
        then have "em_id f \<noteq> i" using a_email_drop(2) by auto
        with f a_email_drop(1) show ?thesis by auto
      qed
    next
      case (a_email e)
      have "v_emails v (v_next v) = None" using that(2) by (auto simp: access_ok_def dest: emails_okD(2) keyed_rows_fresh)
      with that(2) a_email(1) show ?thesis by auto (metis option.distinct(1))
    qed (use that(2) in auto)
    with ok show ?thesis by blast
  qed
  from access_step_preserves[OF assms(1), of ?I] step assms(2-4) show ?thesis by auto
qed

section \<open>Who may act\<close>

text \<open>In consistent tables the lookups answer exactly the row described.\<close>

lemma session_by_hash_iff:
  assumes "access_ok (view s)"
  shows "session_by_hash h s = Some r \<longleftrightarrow> r \<in> set (sessions s) \<and> sn_token_hash r = h"
proof
  assume "r \<in> set (sessions s) \<and> sn_token_hash r = h"
  moreover have "distinct (map sn_token_hash (sessions s))" using assms by (simp add: access_ok_def sessions_ok_def)
  ultimately show "session_by_hash h s = Some r"
    unfolding session_by_hash_def
  proof (induction "sessions s" rule: rev_induct)
    case (snoc x xs)
    show ?case
    proof (cases "find (\<lambda>r. sn_token_hash r = h) (sessions s)")
      case None
      then show ?thesis using snoc.prems(1) by (auto simp: find_None_iff)
    next
      case (Some r')
      then have "r' \<in> set (sessions s)" "sn_token_hash r' = h" by (auto simp: find_Some_iff)
      then show ?thesis using Some snoc.prems by (auto simp: distinct_map dest: inj_onD)
    qed
  qed simp
qed (auto simp: session_by_hash_def find_Some_iff)

lemma get_membership_iff:
  assumes "access_ok (view s)"
  shows "get_membership u org s = Some m \<longleftrightarrow> m \<in> set (memberships s) \<and> mb_user_id m = u \<and> mb_org_id m = org"
proof
  assume m: "m \<in> set (memberships s) \<and> mb_user_id m = u \<and> mb_org_id m = org"
  then obtain m' where m': "get_membership u org s = Some m'"
    by (cases "get_membership u org s") (auto simp: get_membership_def find_None_iff)
  then have "m' \<in> set (memberships s)" "mb_user_id m' = u" "mb_org_id m' = org"
    by (auto simp: get_membership_def find_Some_iff)
  with m assms have "m' = m" by (auto simp: access_ok_def members_ok_def distinct_map dest: inj_onD)
  with m' show "get_membership u org s = Some m" by simp
qed (auto simp: get_membership_def find_Some_iff)

lemma org_by_slug_iff:
  assumes "access_ok (view s)"
  shows "get_org_row_by_slug slug s = Some g \<longleftrightarrow> orgs s (og_id g) = Some g \<and> og_slug g = slug \<and> og_archived_at g = None"
proof -
  have ok: "orgs_ok (view s)" using assms by (simp add: access_ok_def)
  have keyed: "keyed_rows og_id (next_id s) (orgs s)" using orgs_okD(1)[OF ok] by simp
  have found: "orgs s (og_id h) = Some h \<and> og_slug h = slug \<and> og_archived_at h = None"
    if "get_org_row_by_slug slug s = Some h" for h
    using keyed_first_row(1,2)[OF keyed that[unfolded get_org_row_by_slug_def]] by auto
  moreover have "get_org_row_by_slug slug s = Some g"
    if g: "orgs s (og_id g) = Some g \<and> og_slug g = slug \<and> og_archived_at g = None"
  proof (cases "get_org_row_by_slug slug s")
    case None
    from keyed_first_row_None[OF keyed None[unfolded get_org_row_by_slug_def], of g] g show ?thesis by simp
  next
    case (Some h)
    have "og_id h = og_id g"
      by (rule orgs_okD(2)[OF ok, of _ h _ g]) (use found[OF Some] g in simp_all)
    then have "h = g" using found[OF Some] g by (metis option.inject)
    then show ?thesis using Some by simp
  qed
  ultimately show ?thesis by blast
qed

text \<open>
  The entitlement the code enforces, stated over the tables: a live session of a user, sent in the cookie; a
  membership with a sufficient role in the live organisation the request names; activity within the idle window
  of that organisation; and, where single sign-on is enabled, a fresh assertion or the exempt owner's second factor.
\<close>

definition idle_limit :: "org_row \<Rightarrow> int" where
  "idle_limit g = (case og_session_timeout_override g of
     None \<Rightarrow> SESSION_IDLE_TIMEOUT | Some m \<Rightarrow> if m = 0 then SESSION_IDLE_TIMEOUT else m * 60)"

definition entitled ::
  "'e access_env_scheme \<Rightarrow> action \<Rightarrow> http_request \<Rightarrow> 'a access_db_scheme \<Rightarrow> org_row \<Rightarrow> membership \<Rightarrow> bool" where
  "entitled env act rq s g m \<longleftrightarrow>
     (\<exists>c r. rq_session_cookie rq = Some c \<and> c \<noteq> [] \<and> r \<in> set (sessions s) \<and> sn_token_hash r = sha256 env c \<and>
        now s \<le> sn_expires_at r \<and> sn_user_id r = Some (mb_user_id m) \<and>
        now s \<le> sn_last_seen_at r + idle_limit g \<and>
        (og_sso_enabled g \<longrightarrow>
           (sn_sso_satisfied_for_org_id r = Some (og_id g) \<and> (\<exists>t. sn_sso_satisfied_at r = Some t \<and> now s \<le> t + SSO_TTL)) \<or>
           (og_sso_exempt_owner_user_id g = Some (mb_user_id m) \<and> mb_role m = OWNER \<and>
            has_verified_totp (mb_user_id m) s))) \<and>
     request_slug rq \<noteq> [] \<and> orgs s (og_id g) = Some g \<and> og_slug g = request_slug rq \<and> og_archived_at g = None \<and>
     m \<in> set (memberships s) \<and> mb_org_id m = og_id g \<and> covers (mb_role m) (required_role_for act)"

lemma or_else_nonempty: "or_else x [] \<noteq> [] \<longleftrightarrow> (\<exists>c. x = Some c \<and> c \<noteq> [])"
  by (cases x) (auto simp: or_else_def)

lemma require_action_code:
  "fst (require_action env act rq s) = Inr ao \<longleftrightarrow>
    (\<exists>r u. or_else (rq_session_cookie rq) [] \<noteq> [] \<and> lookup_session env (or_else (rq_session_cookie rq) []) s = Some r \<and>
       sn_user_id r = Some u \<and> request_slug rq \<noteq> [] \<and>
       resolve_auth_org u (request_slug rq) s = Some ao \<and> covers (ao_role ao) (required_role_for act) \<and>
       now s \<le> sn_last_seen_at r + idle_window ao \<and>
       (ao_sso_enabled ao \<longrightarrow> is_sso_satisfied (now s) r (ao_org_id ao) \<or>
          (ao_sso_exempt_owner_user_id ao = Some u \<and> ao_role ao = OWNER \<and> has_verified_totp u s)))"
proof (cases "session_user env (rq_session_cookie rq) s")
  case None
  then have "or_else (rq_session_cookie rq) [] = [] \<or> lookup_session env (or_else (rq_session_cookie rq) []) s = None \<or>
      (\<exists>r. lookup_session env (or_else (rq_session_cookie rq) []) s = Some r \<and> sn_user_id r = None)"
    by (auto simp: session_user_def Let_def split: if_splits option.splits)
  then show ?thesis using None by (auto simp: require_action_def)
next
  case (Some u)
  then obtain r where r: "or_else (rq_session_cookie rq) [] \<noteq> []" "sn_user_id r = Some u"
      "lookup_session env (or_else (rq_session_cookie rq) []) s = Some r"
    by (auto simp: session_user_def Let_def split: if_splits option.splits)
  show ?thesis
  proof (cases "resolve_auth_org u (request_slug rq) s")
    case None
    then show ?thesis using Some r by (simp add: require_action_def)
  next
    case (Some x)
    show ?thesis
      using \<open>session_user env (rq_session_cookie rq) s = Some u\<close> Some r
      by (auto simp: require_action_def idle_expired_def sso_ok_def Let_def)
  qed
qed

text \<open>C27. A request is let through exactly when it is entitled: the dependency grants an action, and answers the
  organisation and the caller's role in it, if and only if the cookie carries a live session of a member of the
  live organisation the request names, whose role covers the action's minimum, that was active within the
  organisation's idle window, and that satisfies single sign-on where the organisation demands it (or is the exempt
  owner with a verified second factor). There is at most one such organisation and membership.\<close>

theorem require_action_exact:
  assumes "access_ok (view s)"
  shows "fst (require_action env act rq s) = Inr ao \<longleftrightarrow>
    (\<exists>g m. entitled env act rq s g m \<and>
       ao = \<lparr>ao_org_id = og_id g, ao_slug = og_slug g, ao_role = mb_role m, ao_sso_enabled = og_sso_enabled g,
             ao_sso_exempt_owner_user_id = og_sso_exempt_owner_user_id g,
             ao_session_timeout_override = og_session_timeout_override g\<rparr>)"
proof -
  let ?c = "or_else (rq_session_cookie rq) []"
  let ?ao = "\<lambda>g m. \<lparr>ao_org_id = og_id g, ao_slug = og_slug g, ao_role = mb_role m, ao_sso_enabled = og_sso_enabled g,
             ao_sso_exempt_owner_user_id = og_sso_exempt_owner_user_id g,
             ao_session_timeout_override = og_session_timeout_override g\<rparr>"
  have live: "lookup_session env ?c s = Some r \<longleftrightarrow>
      r \<in> set (sessions s) \<and> sn_token_hash r = sha256 env ?c \<and> now s \<le> sn_expires_at r" for r
  proof -
    have "lookup_session env ?c s = Some r \<longleftrightarrow> session_by_hash (sha256 env ?c) s = Some r \<and> now s \<le> sn_expires_at r"
      by (auto simp: lookup_session_def find_session_by_hash_def split: option.splits)
    then show ?thesis by (simp add: session_by_hash_iff[OF assms])
  qed
  have org: "resolve_auth_org u slug s = Some x \<longleftrightarrow> (\<exists>g m. orgs s (og_id g) = Some g \<and> og_slug g = slug \<and>
      og_archived_at g = None \<and> m \<in> set (memberships s) \<and> mb_user_id m = u \<and> mb_org_id m = og_id g \<and> x = ?ao g m)" for u slug x
  proof -
    have "resolve_auth_org u slug s = Some x \<longleftrightarrow> (\<exists>g m. get_org_row_by_slug slug s = Some g \<and>
        get_membership u (og_id g) s = Some m \<and> x = ?ao g m)"
      by (auto simp: resolve_auth_org_def split: option.splits)
    then show ?thesis by (simp add: org_by_slug_iff[OF assms] get_membership_iff[OF assms])
  qed
  have code: "fst (require_action env act rq s) = Inr ao \<longleftrightarrow>
    (\<exists>r u. ?c \<noteq> [] \<and> lookup_session env ?c s = Some r \<and> sn_user_id r = Some u \<and> request_slug rq \<noteq> [] \<and>
       resolve_auth_org u (request_slug rq) s = Some ao \<and> covers (ao_role ao) (required_role_for act) \<and>
       now s \<le> sn_last_seen_at r + idle_window ao \<and>
       (ao_sso_enabled ao \<longrightarrow> is_sso_satisfied (now s) r (ao_org_id ao) \<or>
          (ao_sso_exempt_owner_user_id ao = Some u \<and> ao_role ao = OWNER \<and> has_verified_totp u s)))"
    by (rule require_action_code)
  show ?thesis
  proof (cases "rq_session_cookie rq")
    case None
    then show ?thesis unfolding code entitled_def by simp
  next
    case (Some c)
    show ?thesis
    proof (cases "c = []")
      case True
      then show ?thesis unfolding code entitled_def Some by simp
    next
      case False
      have c: "or_else (Some c) [] = c" using False by simp
      have sso: "is_sso_satisfied t r i \<longleftrightarrow> sn_sso_satisfied_for_org_id r = Some i \<and>
          (\<exists>at'. sn_sso_satisfied_at r = Some at' \<and> t \<le> at' + SSO_TTL)" for t r i
        by (auto simp: is_sso_satisfied_def split: option.splits)
      show ?thesis (is "_ \<longleftrightarrow> ?granted")
      proof
        assume "fst (require_action env act rq s) = Inr ao"
        then obtain r u where r: "r \<in> set (sessions s)" "sn_token_hash r = sha256 env c" "now s \<le> sn_expires_at r"
            "sn_user_id r = Some u" "request_slug rq \<noteq> []" "resolve_auth_org u (request_slug rq) s = Some ao"
            "covers (ao_role ao) (required_role_for act)" "now s \<le> sn_last_seen_at r + idle_window ao"
            "ao_sso_enabled ao \<longrightarrow> is_sso_satisfied (now s) r (ao_org_id ao) \<or>
               (ao_sso_exempt_owner_user_id ao = Some u \<and> ao_role ao = OWNER \<and> has_verified_totp u s)"
          unfolding code live unfolding Some c by blast
        from r(6) obtain g m where gm: "orgs s (og_id g) = Some g" "og_slug g = request_slug rq" "og_archived_at g = None"
            "m \<in> set (memberships s)" "mb_user_id m = u" "mb_org_id m = og_id g" "ao = ?ao g m"
          unfolding org by blast
        have "entitled env act rq s g m"
          unfolding entitled_def using r(1-5,7-9) gm Some False by (auto simp: idle_window_def idle_limit_def sso)
        with gm(7) show ?granted by blast
      next
        assume ?granted
        then obtain g m where e: "entitled env act rq s g m" and ao: "ao = ?ao g m" by blast
        from e Some obtain r where r: "r \<in> set (sessions s)" "sn_token_hash r = sha256 env c" "now s \<le> sn_expires_at r"
            "sn_user_id r = Some (mb_user_id m)" "now s \<le> sn_last_seen_at r + idle_limit g"
            "og_sso_enabled g \<longrightarrow> is_sso_satisfied (now s) r (og_id g) \<or>
               (og_sso_exempt_owner_user_id g = Some (mb_user_id m) \<and> mb_role m = OWNER \<and> has_verified_totp (mb_user_id m) s)"
          unfolding entitled_def sso by auto
        from e have "resolve_auth_org (mb_user_id m) (request_slug rq) s = Some ao"
          unfolding org entitled_def ao by blast
        with e r show "fst (require_action env act rq s) = Inr ao"
          unfolding code live unfolding Some c
          by (intro exI[where x = r] exI[where x = "mb_user_id m"]) (simp add: False ao idle_window_def idle_limit_def entitled_def)
      qed
    qed
  qed
qed






section \<open>Signing in\<close>





lemma now_audit_for_user [simp]: "now (audit_for_user u k p act s) = now s"
  unfolding audit_for_user_def by (rule fold_unchanged) (auto simp: audit_def split: prod.splits)



section \<open>Invitations and membership\<close>

lemma invitation_by_hash_iff:
  assumes "access_ok (view s)"
  shows "get_invitation_by_token_hash h s = Some x \<longleftrightarrow> invitations s (in_id x) = Some x \<and> in_token_hash x = h"
proof -
  have ok: "invites_ok (view s)" using assms by (simp add: access_ok_def)
  have keyed: "keyed_rows in_id (next_id s) (invitations s)" using invites_okD(1)[OF ok] by simp
  have found: "invitations s (in_id y) = Some y \<and> in_token_hash y = h"
    if "get_invitation_by_token_hash h s = Some y" for y
    using keyed_first_row(1,2)[OF keyed that[unfolded get_invitation_by_token_hash_def]] by simp
  moreover have "get_invitation_by_token_hash h s = Some x"
    if x: "invitations s (in_id x) = Some x \<and> in_token_hash x = h"
  proof (cases "get_invitation_by_token_hash h s")
    case None
    from keyed_first_row_None[OF keyed None[unfolded get_invitation_by_token_hash_def], of x] x show ?thesis by simp
  next
    case (Some y)
    have "in_id y = in_id x"
      by (rule invites_okD(2)[OF ok, of _ y _ x]) (use found[OF Some] x in simp_all)
    then have "y = x" using found[OF Some] x by (metis option.inject)
    then show ?thesis using Some by simp
  qed
  ultimately show ?thesis by blast
qed

lemma spent_kept:
  assumes "astep v w" and "invites_ok v" and "v_invites v i = Some x" and "in_token_hash x = h" and "in_accepted_at x \<noteq> None"
  shows "\<exists>x. v_invites w i = Some x \<and> in_token_hash x = h \<and> in_accepted_at x \<noteq> None"
  using assms(1)
proof (cases rule: astep.cases)
  case (a_invite_drop P)
  then show ?thesis using assms(3-5) by auto
next
  case (a_invite y)
  have "i \<noteq> v_next v" using keyed_rowsD[OF invites_okD(1)[OF assms(2)] assms(3)] by simp
  then show ?thesis using a_invite(1) assms(3-5) by simp
qed (use assms(3-5) in auto)

text \<open>C32. An invitation is accepted at most once: the token that made somebody a member is refused from then on, to
  that user and to anybody else, in every later state; and the acceptance did give the membership it answered.\<close>

theorem invitation_single_use:
  assumes ok: "access_ok (view s)" and acc: "accept_endpoint env c tok s = Inr (m, s1)"
    and later: "(access_step env cfg)\<^sup>*\<^sup>* s1 s2"
  shows "m \<in> set (memberships s1) \<and> session_user env c s = Some (mb_user_id m) \<and>
    (\<forall>c'. \<exists>e. accept_endpoint env c' tok s2 = Inl e)"
proof -
  from acc obtain u where u: "session_user env c s = Some u" "accept_invitation env tok u (UserActor u None) s = Inr (m, s1)"
    by (rule accept_endpoint_accepts)
  have ok1: "access_ok (view s1)" using access_ok_steps[OF accept_endpoint_steps[OF acc] ok] .
  have ok2: "access_ok (view s2)" using access_invariant[OF later ok1] .
  from u(2) have acc1: "m \<in> set (memberships s1) \<and> mb_user_id m = u \<and>
      (\<exists>i x. invitations s1 i = Some x \<and> in_token_hash x = sha256 env tok \<and> in_accepted_at x \<noteq> None)"
  proof (cases rule: accept_invitation_cases)
    case (1 row)
    then show ?thesis using invitation_by_hash_iff[OF ok, of "sha256 env tok" row] get_membership_iff[OF ok, of u "in_org_id row" m]
      by (auto simp: stamp_accepted_def intro!: exI[where x = "in_id row"])
  next
    case (2 row t)
    then show ?thesis using invitation_by_hash_iff[OF ok, of "sha256 env tok" row] insert_membership_state[OF 2(4)]
      by (auto simp: stamp_accepted_def audit_def intro!: exI[where x = "in_id row"])
  qed
  then obtain i x where ix: "invitations s1 i = Some x" "in_token_hash x = sha256 env tok" "in_accepted_at x \<noteq> None" by blast
  let ?I = "\<lambda>v. invites_ok v \<and> (\<exists>x. v_invites v i = Some x \<and> in_token_hash x = sha256 env tok \<and> in_accepted_at x \<noteq> None)"
  have "?I w" if "astep v w" "?I v" for v w using that invites_ok_step spent_kept by blast
  moreover have "?I (view s1)" using ok1 ix by (auto simp: access_ok_def)
  ultimately have "?I (view s2)" using access_step_preserves[OF later, of ?I] by blast
  then obtain y where y: "invitations s2 i = Some y" "in_token_hash y = sha256 env tok" "in_accepted_at y \<noteq> None" by auto
  have "invites_ok (view s2)" using ok2 by (simp add: access_ok_def)
  from keyed_rowsD[OF invites_okD(1)[OF this]] y(1) have "in_id y = i" by simp
  then have row: "get_invitation_by_token_hash (sha256 env tok) s2 = Some y"
    using invitation_by_hash_iff[OF ok2] y by simp
  have "\<exists>e. accept_endpoint env c' tok s2 = Inl e" for c'
  proof (cases "accept_endpoint env c' tok s2")
    case (Inr r)
    obtain m' s3 where "accept_endpoint env c' tok s2 = Inr (m', s3)" using Inr by (cases r) simp
    then obtain w where "accept_invitation env tok w (UserActor w None) s2 = Inr (m', s3)" by (rule accept_endpoint_accepts)
    then show ?thesis by (cases rule: accept_invitation_cases) (use row y(3) in auto)
  qed simp
  with acc1 u(1) show ?thesis by auto
qed



section \<open>Changing the cloud role\<close>

lemma config_fanout_bearers:
  assumes "enqueue_config_update_for_all_org_agents env cfg org s = Inr s'"
  shows "bearers s' = bearers s \<and> orgs s' = orgs s"
proof -
  have one: "bearers t' = bearers t \<and> orgs t' = orgs t" if "enqueue_for_agent env k fs o' a t = Inr t'" for k fs o' a t t'
    using that by (auto simp: enqueue_for_agent_def enqueue_command_def enqueue_command_payload_def fresh_def upd_command_def
      res_simps Let_def split: if_splits)
  have all: "bearers t' = bearers t \<and> orgs t' = orgs t"
    if "efold (\<lambda>a. enqueue_for_agent env k fs o' a) xs t = Inr t'" for k fs o' xs t t'
    using that by (rule efold_invariant[where I = "\<lambda>x. bearers x = bearers t \<and> orgs x = orgs t"]) (auto dest: one)
  show ?thesis using assms
    by (auto simp: enqueue_config_update_for_all_org_agents_def enqueue_config_update_with_config_def res_simps
        split: list.splits dest: one dest!: all)
qed

text \<open>C33. Replacing or clearing the registered cloud role cuts off the agents that came in under it: once the settings are
  saved with another role, no bearer issued under the old one is accepted, whatever token is presented, while every
  bearer issued under any other role is untouched; and agents of the old role resolve to this organisation no more.\<close>

theorem arn_change_cuts_off:
  assumes ok: "access_ok (view s)" and patch: "patch_org_settings env cfg org body s = Inr s'"
    and old: "orgs s org = Some g" "og_registered_iam_arn g = Some arn"
    and new: "orgs s' org = Some g'" "og_registered_iam_arn g' \<noteq> Some arn"
  shows "(\<forall>tok ctx t b. verify env tok s' = (Some ctx, t) \<longrightarrow> bearer_by_hash (sha256 env tok) s' = Some b \<longrightarrow>
      bt_issued_iam_arn b \<noteq> Some arn) \<and>
    (\<forall>i b. bearers s i = Some b \<longrightarrow> bt_issued_iam_arn b \<noteq> Some arn \<longrightarrow> bearers s' i = Some b) \<and>
    get_org_row_by_iam_arn arn s' = None"
proof -
  from patch obtain h arn' m timeout region s1 s2 where h: "orgs s org = Some h"
    and s1: "s1 = (case og_registered_iam_arn h of None \<Rightarrow> s
           | Some old \<Rightarrow> if Some old = arn' then s else snd (revoke_all_for_arn old ''arn_change'' s))"
    and s2: "update_org_fields org timeout arn' region m s1 = Inr s2"
    and s': "s' = s2 \<or> enqueue_config_update_for_all_org_agents env cfg org s2 = Inr s'"
    by (cases rule: patch_org_settings_stages) blast
  have fan: "bearers s' = bearers s2 \<and> orgs s' = orgs s2" using s' config_fanout_bearers by metis
  have row: "og_registered_iam_arn g' = arn' \<and> bearers s2 = bearers s1"
    using s2 new(1) fan by (auto simp: update_org_fields_def Let_def res_simps)
  then have rev: "s1 = snd (revoke_all_for_arn arn ''arn_change'' s)" using s1 h old new(2) by auto
  have b: "bearers s' = update_where (\<lambda>b. bt_issued_iam_arn b = Some arn \<and> bt_revoked_at b = None)
      (\<lambda>b. b\<lparr>bt_revoked_at := Some (now s), bt_revoked_reason := Some ''arn_change''\<rparr>) (bearers s)"
    using fan row rev by (simp add: revoke_all_for_arn_def revoke_where_def Let_def)
  have "bt_issued_iam_arn b \<noteq> Some arn"
    if v: "verify env tok s' = (Some ctx, t)" "bearer_by_hash (sha256 env tok) s' = Some b" for tok ctx t b
  proof -
    have "bt_revoked_at b = None" using v by (auto simp: verify_def split: if_splits)
    moreover obtain i where "bearers s' i = Some b"
      using first_row_mem[OF v(2)[unfolded bearer_by_hash_def]] by (auto dest!: in_selectD)
    ultimately show ?thesis using b by (auto split: if_splits dest: arg_cong[where f = bt_revoked_at])
  qed
  moreover have "bearers s' i = Some b" if "bearers s i = Some b" "bt_issued_iam_arn b \<noteq> Some arn" for i b
    using that b by simp
  moreover have "get_org_row_by_iam_arn arn s' = None"
  proof -
    have ok': "orgs_ok (view s')" using access_ok_steps[OF patch_org_settings_steps[OF patch] ok] by (simp add: access_ok_def)
    have other: "og_registered_iam_arn k \<noteq> Some arn" if "orgs s' i = Some k" for i k
    proof (cases "i = org")
      case False
      have "orgs s' i = orgs s i"
        using s2 False fan rev by (auto simp: update_org_fields_def revoke_all_for_arn_def revoke_where_def Let_def res_simps)
      moreover have "orgs_ok (view s)" using ok by (simp add: access_ok_def)
      ultimately show ?thesis using orgs_okD(3)[of "view s" org g i k] old that False by auto
    qed (use that new in auto)
    show ?thesis using other by (auto simp: get_org_row_by_iam_arn_def select_eq_Nil)
  qed
  ultimately show ?thesis by blast
qed

section \<open>Witnesses\<close>

definition access_settings :: gateway_settings where
  "access_settings = \<lparr>gs_dash0_endpoint = None, gs_dash0_token = None, gs_dash0_dataset = None, gs_environment = ''dev'',
     gs_public_hostname = ''h'', gs_sts_host_override = None\<rparr>"

definition octocat :: provider_profile where
  "octocat = \<lparr>pp_external_subject = ''7'', pp_primary_email = ''BO@x'', pp_email_verified = True, pp_mfa_satisfied = False,
     pp_provider_login = Some ''bo''\<rparr>"

definition sample_access_env :: access_env where
  "sample_access_env =
     \<lparr>sha256 = rev, token_urlsafe = (\<lambda>n. replicate n (CHR ''t'')), hydrator = (\<lambda>_. None), encrypt = (\<lambda>x. x),
      decrypt = Some, new_seed = (\<lambda>n. replicate n (CHR ''s'')), totp_accepts = (\<lambda>_ c _. c = ''123456''),
      session_lifetime_seconds = 3600, invitation_lifetime_seconds = 600,
      sign_invitation = (\<lambda>(_, e) _. CHR ''i'' # e),
      load_invitation = (\<lambda>tok _ _. if tok = [] then BadSignature else Signed (Some 5, Some (tl tok))),
      load_state = (\<lambda>st _ _. if st = ''st'' then Signed None else BadSignature),
      load_totp_challenge = (\<lambda>_ _ _. BadSignature),
      get_provider = (\<lambda>p. if p = ''github'' then Some (\<lambda>c. if c = ''ok'' then Some octocat else None) else None),
      run_assertion_verifier = (\<lambda>r _. Some r), generate_sp_keypair = (\<lambda>_. (''k'', ''c''))\<rparr>"

definition sample_session :: "string \<Rightarrow> uuid \<Rightarrow> session_row" where
  "sample_session h u = \<lparr>sn_token_hash = h, sn_user_id = Some u, sn_workspace_id = None, sn_sso_satisfied_for_org_id = None,
     sn_sso_satisfied_at = None, sn_ip = None, sn_user_agent = None, sn_csrf_token = ''x'', sn_created_at = 900,
     sn_last_seen_at = 990, sn_expires_at = 2000\<rparr>"

definition sample_email :: "uuid \<Rightarrow> uuid \<Rightarrow> string \<Rightarrow> email_row" where
  "sample_email i u a = \<lparr>em_id = i, em_user_id = u, em_email = a, em_is_primary = True, em_verified_at = Some 1\<rparr>"

definition acme_row :: org_row where
  "acme_row = \<lparr>og_id = 5, og_slug = ''acme'', og_display_name = ''Acme'', og_archived_at = None,
     og_session_timeout_override = Some 30, og_vcs_plugin_id = None, og_vcs_settings = None,
     og_registered_iam_arn = Some ''arn'', og_aws_region = Some ''eu'', og_workspace_max_count = 4,
     og_sso_enabled = False, og_sso_exempt_owner_user_id = None\<rparr>"

definition sample_bearer :: bearer_row where
  "sample_bearer = \<lparr>bt_id = 6, bt_org_id = 5, bt_agent_id = 8, bt_token_hash = ''kot'', bt_issued_at = 900,
     bt_expires_at = 5000, bt_revoked_at = None, bt_revoked_reason = None, bt_last_seen_at = None,
     bt_source_ip = None, bt_issued_iam_arn = Some ''arn''\<rparr>"

text \<open>Ada (1) owns \<open>acme\<close> and has two verified addresses; Bo (2) has one and no organisation yet.\<close>

definition sample_access :: access_db where
  "sample_access =
     \<lparr>now = 1000, next_id = 10, outbox = [], audits = [], sse_pending = [], notifications = [],
      memberships = [\<lparr>mb_user_id = 1, mb_org_id = 5, mb_role = OWNER, mb_handle = ''ada''\<rparr>], oauth_identities = [],
      orgs = [5 \<mapsto> acme_row], current_traceparent = None, commands = Map.empty, agents = Map.empty,
      bearers = [6 \<mapsto> sample_bearer],
      users = [1 \<mapsto> \<lparr>us_id = 1, us_display_name = ''Ada'', us_github_username = None, us_deactivated_at = None\<rparr>,
               2 \<mapsto> \<lparr>us_id = 2, us_display_name = ''Bo'', us_github_username = None, us_deactivated_at = None\<rparr>],
      user_emails = [3 \<mapsto> sample_email 3 1 ''ada@x'', 4 \<mapsto> sample_email 4 2 ''bo@x'', 7 \<mapsto> sample_email 7 1 ''a@y''],
      totp_secrets = Map.empty, sessions = [sample_session ''a'' 1, sample_session ''b'' 2],
      invitations = Map.empty, sso_configs = Map.empty, api_keys = Map.empty\<rparr>"

lemma sample_access_ok: "access_ok (view sample_access)"
  unfolding access_ok_def
proof (intro conjI)
  show "sessions_ok (view sample_access)"
    by (simp add: sessions_ok_def sample_access_def sample_session_def)
  show "emails_ok (view sample_access)"
    by (auto simp: emails_ok_def keyed_rows_def sample_access_def sample_email_def verified_address_def lower_def
        lower_char_def split: if_splits)
  show "members_ok (view sample_access)" by (simp add: members_ok_def sample_access_def)
  show "orgs_ok (view sample_access)"
    by (auto simp: orgs_ok_def keyed_rows_def org_settings_ok_def sso_matches_def sample_access_def acme_row_def
        split: if_splits)
  show "invites_ok (view sample_access)" by (simp add: invites_ok_def keyed_rows_def sample_access_def)
qed

definition state_of :: "('x \<times> 's) res \<Rightarrow> 's \<Rightarrow> 's" where
  "state_of r s = (case r of Inr (_, s') \<Rightarrow> s' | Inl _ \<Rightarrow> s)"

definition invited :: access_db where
  "invited = state_of (invite sample_access_env 5 ''Bo@x'' ADMIN (Some 1) (UserActor 1 None) sample_access) sample_access"

lemma invited_step: "(access_step sample_access_env access_settings)\<^sup>*\<^sup>* sample_access invited"
proof -
  have "(case invite sample_access_env 5 ''Bo@x'' ADMIN (Some 1) (UserActor 1 None) sample_access of Inr _ \<Rightarrow> True | Inl _ \<Rightarrow> False)"
    by code_simp
  then obtain x s' where r: "invite sample_access_env 5 ''Bo@x'' ADMIN (Some 1) (UserActor 1 None) sample_access = Inr (x, s')"
    by (auto split: sum.splits)
  then have "s' = invited" by (simp add: invited_def state_of_def)
  then show ?thesis using s_invite[OF r, of access_settings] by auto
qed

theorem access_invariant_witness:
  "access_ok (view invited) \<and> map_option in_email (invitations invited 10) = Some ''bo@x''"
proof
  show "access_ok (view invited)"
    using access_invariant[OF invited_step sample_access_ok] .
  show "map_option in_email (invitations invited 10) = Some ''bo@x''" by code_simp
qed

definition shortened :: access_db where
  "shortened = (case remove_own_email 1 7 sample_access of Inr s \<Rightarrow> s | Inl _ \<Rightarrow> sample_access)"

lemma shortened_steps: "(access_step sample_access_env access_settings)\<^sup>*\<^sup>* sample_access shortened"
proof -
  have c: "require_session sample_access_env (Some ''a'') sample_access = Inr 1" by code_simp
  have "(case remove_own_email 1 7 sample_access of Inr _ \<Rightarrow> True | Inl _ \<Rightarrow> False)" by code_simp
  then obtain s' where r: "remove_own_email 1 7 sample_access = Inr s'" by (auto split: sum.splits)
  then have "s' = shortened" by (simp add: shortened_def)
  then show ?thesis using s_remove_email[OF c r, of access_settings] by auto
qed

theorem verified_email_kept_witness:
  "(\<exists>j f. user_emails shortened j = Some f \<and> verified_email_of 1 f) \<and> user_emails shortened 7 = None \<and>
   (case remove_own_email 1 3 shortened of Inl e \<Rightarrow> e = HTTPException 409 ''last_verified_email'' | Inr _ \<Rightarrow> False)"
proof (intro conjI)
  show "\<exists>j f. user_emails shortened j = Some f \<and> verified_email_of 1 f"
    by (rule verified_email_kept[OF shortened_steps sample_access_ok, of 7 "sample_email 7 1 ''a@y''"])
      (simp_all add: sample_access_def sample_email_def verified_email_of_def)
  show "user_emails shortened 7 = None" by code_simp
  show "(case remove_own_email 1 3 shortened of Inl e \<Rightarrow> e = HTTPException 409 ''last_verified_email'' | Inr _ \<Rightarrow> False)"
    by code_simp
qed

definition tickets_request :: "string option \<Rightarrow> http_request" where
  "tickets_request cookie = \<lparr>rq_method = ''GET'', rq_path = ''/api/tickets'', rq_org_header = Some ''acme'',
     rq_org_query = None, rq_session_cookie = cookie, rq_csrf_cookie = None, rq_csrf_header = None\<rparr>"

definition ada_in_acme :: auth_org where
  "ada_in_acme = \<lparr>ao_org_id = 5, ao_slug = ''acme'', ao_role = OWNER, ao_sso_enabled = False,
     ao_sso_exempt_owner_user_id = None, ao_session_timeout_override = Some 30\<rparr>"

theorem require_action_exact_witness:
  "(\<exists>g m. entitled sample_access_env SSO_CONFIGURE (tickets_request (Some ''a'')) sample_access g m \<and>
      og_slug g = ''acme'' \<and> mb_handle m = ''ada'') \<and>
   \<not> (\<exists>g m. entitled sample_access_env SSO_CONFIGURE (tickets_request (Some ''b'')) sample_access g m)"
proof
  have "fst (require_action sample_access_env SSO_CONFIGURE (tickets_request (Some ''a'')) sample_access) = Inr ada_in_acme"
    by code_simp
  with require_action_exact[OF sample_access_ok] obtain g m where
    e: "entitled sample_access_env SSO_CONFIGURE (tickets_request (Some ''a'')) sample_access g m" by blast
  then have "m \<in> set (memberships sample_access)" "orgs sample_access (og_id g) = Some g" by (simp_all add: entitled_def)
  then have "mb_handle m = ''ada''" "og_slug g = ''acme''"
    by (auto simp: sample_access_def acme_row_def split: if_splits dest: arg_cong[where f = og_slug])
  with e show "\<exists>g m. entitled sample_access_env SSO_CONFIGURE (tickets_request (Some ''a'')) sample_access g m \<and>
      og_slug g = ''acme'' \<and> mb_handle m = ''ada''" by blast
  have "fst (require_action sample_access_env SSO_CONFIGURE (tickets_request (Some ''b'')) sample_access) =
      Inl (HTTPException 404 ''org_not_found'')"
    by code_simp
  with require_action_exact[OF sample_access_ok, of sample_access_env SSO_CONFIGURE "tickets_request (Some ''b'')"]
  show "\<not> (\<exists>g m. entitled sample_access_env SSO_CONFIGURE (tickets_request (Some ''b'')) sample_access g m)" by auto
qed



theorem invitation_single_use_witness:
  "\<exists>m s. accept_endpoint sample_access_env (Some ''b'') ''ibo@x'' invited = Inr (m, s) \<and> mb_role m = ADMIN \<and>
     m \<in> set (memberships s) \<and> accept_endpoint sample_access_env (Some ''a'') ''ibo@x'' s = Inl (HTTPException 410 ''invitation_used'')"
proof -
  let ?r = "accept_endpoint sample_access_env (Some ''b'') ''ibo@x'' invited"
  have c: "(case ?r of Inr (m, s) \<Rightarrow> mb_role m = ADMIN \<and>
      (case accept_endpoint sample_access_env (Some ''a'') ''ibo@x'' s of Inl e \<Rightarrow> e = HTTPException 410 ''invitation_used'' | Inr _ \<Rightarrow> False)
      | Inl _ \<Rightarrow> False)"
    by code_simp
  then obtain m s where r: "?r = Inr (m, s)" by (auto split: sum.splits)
  have ok: "access_ok (view invited)" using invited_step sample_access_ok access_step_preserves access_ok_step by metis
  from invitation_single_use[OF ok r, of access_settings s] c r show ?thesis by (auto split: sum.splits)
qed


theorem arn_change_cuts_off_witness:
  "\<exists>s'. patch_org_settings sample_access_env access_settings 5 [(''registered_iam_arn'', JNull), (''aws_region'', JNull)] sample_access
       = Inr s' \<and> get_org_row_by_iam_arn ''arn'' s' = None \<and>
     fst (verify sample_access_env ''tok'' sample_access) \<noteq> None \<and> fst (verify sample_access_env ''tok'' s') = None"
proof -
  let ?r = "patch_org_settings sample_access_env access_settings 5 [(''registered_iam_arn'', JNull), (''aws_region'', JNull)] sample_access"
  have c: "(case ?r of Inr s' \<Rightarrow> map_option og_registered_iam_arn (orgs s' 5) = Some None \<and>
      map_option bt_issued_iam_arn (bearer_by_hash (sha256 sample_access_env ''tok'') s') = Some (Some ''arn'') | Inl _ \<Rightarrow> False)"
    by code_simp
  then obtain s' g' b where r: "?r = Inr s'" "orgs s' 5 = Some g'" "og_registered_iam_arn g' \<noteq> Some ''arn''"
      "bearer_by_hash (sha256 sample_access_env ''tok'') s' = Some b" "bt_issued_iam_arn b = Some ''arn''"
    by (auto split: sum.splits)
  have old: "orgs sample_access 5 = Some acme_row" "og_registered_iam_arn acme_row = Some ''arn''"
    by (simp_all add: sample_access_def acme_row_def)
  note cut = arn_change_cuts_off[OF sample_access_ok r(1) old r(2,3)]
  have "fst (verify sample_access_env ''tok'' s') = None"
  proof (cases "verify sample_access_env ''tok'' s'")
    case (Pair v t)
    then show ?thesis using cut r(4,5) by (cases v) auto
  qed
  moreover have "fst (verify sample_access_env ''tok'' sample_access) \<noteq> None" by code_simp
  ultimately show ?thesis using cut r(1) by blast
qed

end
