(* ===== verification/Spec2Isabelle.thy ===== *)
theory Spec2Isabelle
  imports Samples AgentRegistry ReaperProps ReposProps CronProps AccessProps
begin

text \<open>
  A model of the control plane of yaaos: the service that runs agent pipelines on the tickets of an
  organisation (\<^verbatim>\<open>src/apps/backend/app\<close>). Every theory translates one part of that code; this one imports
  them all, states the properties of the whole system and documents the development.

  \<^bold>\<open>The program.\<close> A ticket is worked on by a \<^emph>\<open>run\<close> of a pipeline: a frozen list of stages that the engine
  drives one task at a time (route, start a stage, handle an agent event). A skill stage sends a command to a
  coding agent in a workspace and waits for its terminal event; between stages the boundary decides whether a
  person must look, in which case the run pauses until somebody approves, instructs, sends back or kills it.
  Commands wait in a queue that the agents of the organisation claim from; agents obtain a bearer by proving an
  AWS identity, and a reaper returns the workspaces of agents that disappear. Runs are started by people, by
  webhooks, or by the minute tick from scheduled trigger bindings.

  \<^bold>\<open>Conventions.\<close> One record per database: each theory extends the record of the one below it, so an operation
  of a lower component applies to every larger state. A table is a map from ids to rows; an id is drawn from the
  counter \<open>next_id\<close>, which stands for the time-ordered uuid7 (ordering by id is ordering by creation). An
  exception is a constructor of \<open>exn\<close>, and a function that may raise returns \<open>'a res\<close>; an \<open>Inl\<close> result carries no
  state, as the transaction it raised out of is rolled back. A task body or endpoint is one transaction, hence
  one step. Instants are seconds. Code outside the repository or not modelled is a field of an environment
  record: plug-ins, registered actions, SHA-256, token generation, the gitignore matcher, AWS and the JSON
  schemas, Fernet, TOTP codes, signed tokens, identity providers. Python integers are unbounded, so no machine words occur.

  \<^bold>\<open>Theories, and the code they translate.\<close>
  \<^item> \<open>Prelude\<close>: errors, tables, SQL-like selections, Python string methods; the locale of row stores.
  \<^item> \<open>Infra\<close>: audit log, outbox, notifications, memberships and roles (\<^verbatim>\<open>core/audit_log\<close>, \<^verbatim>\<open>core/tasks\<close>,
    \<^verbatim>\<open>core/notifications\<close>, \<^verbatim>\<open>core/tenancy\<close>).
  \<^item> \<open>Gateway\<close>: the command queue (\<^verbatim>\<open>core/agent_gateway/service.py\<close>: enqueue, claim, acknowledge, lease sweep).
  \<^item> \<open>Workspace\<close>, \<open>CodingAgent\<close>: single-flight dispatch, agent reports, coding-agent runs and terminal events
    (\<^verbatim>\<open>core/workspace\<close>, \<^verbatim>\<open>core/coding_agent\<close>, \<open>record_agent_event\<close>).
  \<^item> \<open>Tickets\<close>, \<open>Artifacts\<close>, \<open>Findings\<close>: the three services of the same names under \<^verbatim>\<open>domain/\<close>.
  \<^item> \<open>Definition\<close>, \<open>Contracts\<close>: pipeline definitions and their flattening; skill returns, boundary evaluation,
    escalation (\<^verbatim>\<open>domain/pipelines/{definition,types,contracts,boundary,escalation}.py\<close>).
  \<^item> \<open>Engine\<close>, \<open>PipelineService\<close>: \<^verbatim>\<open>domain/pipelines/engine.py\<close>, \<^verbatim>\<open>service.py\<close> and the reconciliations of
    \<^verbatim>\<open>scheduler_jobs.py\<close>.
  \<^item> \<open>EngineSteps\<close>, \<open>EngineFrame\<close>, \<open>EngineRefine\<close>, \<open>System\<close>, \<open>EngineRelation\<close>: the abstract step relation \<open>estep\<close>
    of the run machine, the proof that every engine operation is a sequence of such steps, the invariant of
    reachable databases, and relational facts about whole histories.
  \<^item> \<open>Agents\<close>, \<open>Identity\<close>, \<open>Reaper\<close>: bearers, configuration, drain and liveness; the identity exchange and the
    agent endpoints; the workspace reaper. \<open>AgentMoves\<close>, \<open>AgentSteps\<close>, \<open>AgentRegistry\<close>, \<open>ReaperProps\<close> hold their lemmas
    and properties.
  \<^item> \<open>Cron\<close>, \<open>Repos\<close>: cron expressions, repository settings, trigger bindings and the minute tick, with
    \<open>CronProps\<close> and \<open>ReposProps\<close>.
  \<^item> \<open>Accounts\<close>, \<open>Orgs\<close>: users, addresses, second factors, sessions and login (\<^verbatim>\<open>core/identity\<close>, \<^verbatim>\<open>core/sessions\<close>); route
    classification, the middleware and \<open>require(action)\<close> (\<^verbatim>\<open>core/auth\<close>), organisations, memberships, invitations,
    single sign-on and API keys (\<^verbatim>\<open>core/tenancy\<close>, \<^verbatim>\<open>domain/orgs\<close>, \<^verbatim>\<open>core/api_keys\<close>). \<open>AccessSteps\<close> names the writes that
    reach these tables and their invariant, \<open>AccessMoves\<close> shows every operation to be a sequence of such writes,
    and \<open>AccessProps\<close> holds the properties.
  \<^item> \<open>Samples\<close>: the concrete instance on which properties with hypotheses are shown to apply.

  \<^bold>\<open>What is proved.\<close> For the run machine: at most one run of a ticket is in flight, a run is paused exactly while
  it has an open pause, its state follows the documented machine, its tasks refine the step relation, an agent
  event is handled at most once, review loops and send-backs are bounded, and a queued run is served when the
  slot frees. For the queue: claims are exclusive, ordered and terminate. For agents: the lifecycle machine,
  bearers that are accepted exactly while live, single use of signed requests, the rate limit, refusal of reports
  about other agents' workspaces, the liveness sweep. For the reaper: which workspaces a sweep expires, and that
  repeated sweeps settle every expired workspace. For schedules: bindings stay usable, a due one fires, and a
  slot fires once; cron expressions denote what their grammar says. For access: the tables stay consistent, a
  request reaches a handler exactly when its session, role, idle time and single sign-on entitle it, a sign-in is
  vouched for and stepped up, removal and change of rank sign the user out, an invitation is used once, nobody
  loses their last verified address, and a replaced cloud role cuts off its agents. Definitions, findings,
  tickets and artifacts have their own invariants.

  \<^bold>\<open>Bounds and fuel.\<close> The claim loop retires at most \<open>HYDRATION_RETIRE_CAP\<close> commands and is a terminating
  function; flattening recurses with the chain of callers as its measure; no function uses fuel.

  \<^bold>\<open>Not modelled.\<close> The HTTP routers (apart from the guards in front of them and the endpoints named above), the
  GitHub, Claude Code and Codex plug-ins, the exchange with OAuth and SAML providers, the MCP proxy,
  integrations, lessons, server-sent events and WebSockets, the task broker, logging and tracing, and the web
  front end: they are input/output around the modelled services or calls to third-party systems. Concurrency
  within a transaction (row locks, the partial unique index) is represented by its effect: transactions are
  atomic, and a statement the index refuses is a refused step.
\<close>

section \<open>The run machine\<close>

text \<open>C1. In every reachable database a ticket has at most one run that is running or paused,
  whatever tasks, service calls and sweeps were interleaved: the slot that the partial unique index
  guards is never held twice.\<close>

theorem one_run_in_flight:
  assumes "reachable env s" and "actions_frame env"
    and "runs s i = Some r" and "in_flight r" and "runs s j = Some q" and "in_flight q"
    and "r_ticket_id r = r_ticket_id q"
  shows "i = j"
  using reachable_ok[OF assms(1,2)] assms(3-) unfolding sys_ok_def engine_ok_def slot_ok_def by blast

theorem one_run_in_flight_witness:
  "\<exists>r q. runs sample3 8 = Some r \<and> in_flight r \<and> runs sample3 9 = Some q \<and> r_ticket_id q = r_ticket_id r \<and>
     \<not> in_flight q"
proof -
  obtain r where r: "runs sample3 8 = Some r" "r_state r = Running" "r_ticket_id r = 2"
    using sample3_states(1,3) by (cases "runs sample3 8") auto
  obtain q where q: "runs sample3 9 = Some q" "r_ticket_id q = 2"
    using sample3_queued by (cases "runs sample3 9") auto
  have "in_flight r" using r by (simp add: in_flight_def)
  moreover have "\<not> in_flight q"
    using one_run_in_flight[of sample_env sample3 8 r 9 q] r q \<open>in_flight r\<close> by auto
  ultimately show ?thesis using r q by auto
qed

text \<open>C2. A run is paused exactly when it has one open pause row; so the page that looks a
  pause up for a run never finds two, and no pause is left behind when a run moves on.\<close>

theorem paused_iff_open_pause:
  assumes "reachable env s" and "actions_frame env" and "runs s i = Some r"
  shows "r_state r = Paused \<longleftrightarrow> (\<exists>!j. \<exists>p. pauses s j = Some p \<and> open_pause p \<and> p_run_id p = i)"
proof -
  have ok: "pauses_ok s" using reachable_ok[OF assms(1,2)] by (simp add: sys_ok_def engine_ok_def)
  show ?thesis
  proof
    assume "r_state r = Paused"
    with ok assms(3) obtain j p where "pauses s j = Some p" "open_pause p" "p_run_id p = i"
      unfolding pauses_ok_def by blast
    moreover have "j' = j" if "pauses s j' = Some p'" "open_pause p'" "p_run_id p' = i" for j' p'
      using ok that \<open>pauses s j = Some p\<close> \<open>open_pause p\<close> \<open>p_run_id p = i\<close> unfolding pauses_ok_def by metis
    ultimately show "\<exists>!j. \<exists>p. pauses s j = Some p \<and> open_pause p \<and> p_run_id p = i" by blast
  next
    assume "\<exists>!j. \<exists>p. pauses s j = Some p \<and> open_pause p \<and> p_run_id p = i"
    then obtain j p where "pauses s j = Some p" "open_pause p" "p_run_id p = i" by blast
    with ok assms(3) show "r_state r = Paused" unfolding pauses_ok_def by fastforce
  qed
qed

theorem paused_iff_open_pause_witness:
  "\<exists>r. runs sample3 8 = Some r \<and> r_state r = Running \<and>
     \<not> (\<exists>!j. \<exists>p. pauses sample3 j = Some p \<and> open_pause p \<and> p_run_id p = 8)"
proof -
  obtain r where r: "runs sample3 8 = Some r" "r_state r = Running"
    using sample3_states(1) by (cases "runs sample3 8") auto
  then show ?thesis using paused_iff_open_pause[of sample_env sample3 8 r] by simp
qed

text \<open>C7. The review loop of a skill stage is bounded: in every reachable database the
  iteration counter of a skill stage execution is at most the maximum configured in the pinned
  definition of its run, which is at most 3, and a stage waiting for a fix pass is still below it.\<close>

theorem review_loop_bounded:
  assumes "reachable env s" and "actions_frame env"
    and "stage_execs s i = Some e" and "se_kind e = KSkill"
  shows "\<exists>r sk. runs s (se_run_id e) = Some r \<and> skill_at r e sk \<and>
           se_iteration e \<le> iteration_cap sk \<and> iteration_cap sk \<le> 3 \<and>
           (se_status e = SRunning \<longrightarrow> se_phase e = Some PFix \<longrightarrow> se_iteration e < iteration_cap sk)"
proof -
  have ok: "loops_ok s" "snapshots_ok s"
    using reachable_ok[OF assms(1,2)] by (simp_all add: sys_ok_def engine_ok_def)
  obtain r where r: "runs s (se_run_id e) = Some r" "loop_ok r e"
    using ok(1) assms(3) unfolding loops_ok_def by blast
  then obtain sk where sk: "skill_at r e sk" "se_iteration e \<le> iteration_cap sk"
      "se_status e = SRunning \<longrightarrow> phase_ok sk e"
    using assms(4) by (auto simp: loop_ok_def)
  have "iteration_cap sk \<le> 3"
  proof (cases "sk_review sk")
    case None
    then show ?thesis by (simp add: iteration_cap_def)
  next
    case (Some rc)
    obtain j where "j < length (r_definition_snapshot r)" "r_definition_snapshot r ! j = SkillStage sk"
      using sk(1) by (auto simp: skill_at_def)
    moreover have "snapshot_ok (r_definition_snapshot r)" using ok(2) r(1) by (simp add: snapshots_ok_def)
    ultimately have "stage_ok (Exec (SkillStage sk))" by (metis list_all_length snapshot_ok_def)
    with Some show ?thesis by (simp add: iteration_cap_def review_config_ok_def)
  qed
  with r(1) sk show ?thesis by (auto simp: phase_ok_def)
qed

theorem review_loop_bounded_witness:
  "\<exists>e r sk. stage_execs sample6 12 = Some e \<and> runs sample6 8 = Some r \<and> skill_at r e sk \<and>
     se_iteration e \<le> iteration_cap sk \<and> iteration_cap sk \<le> 3"
proof -
  obtain e where "stage_execs sample6 12 = Some e" "se_kind e = KSkill" "se_run_id e = 8"
    using sample6_stage by (cases "stage_execs sample6 12") auto
  then show ?thesis using review_loop_bounded[of sample_env sample6 12 e] by auto
qed

text \<open>C9. Within a run no stage is sent back to twice and no expired credential is retried twice. Along every history the
  counters of a run are at most one, and one that is set stays set. Whenever the engine is asked to send a running
  run back to a stage, in any well-formed state of a transaction: if the counter of the stage is not set, it is
  set afterwards; if it is set, the run is paused for a person instead, its counters and its current stage stay as they
  were, no stage execution is added, and the new pause names the stage as a send-back loop. Whenever the main
  skill of a stage fails for an expired credential: if the retry of the stage has been used, the stage fails; otherwise
  the retry counts as used from then on.\<close>

theorem send_back_at_most_once:
  assumes "reachable env s" and "actions_frame env" and "runs s i = Some r" and "(sys_step env)\<^sup>*\<^sup>* s s'"
  shows "(\<exists>r'. runs s' i = Some r' \<and> (\<forall>k. count_of (r_sendback_counts r') k \<le> 1 \<and>
       (count_of (r_sendback_counts r) k = 1 \<longrightarrow> count_of (r_sendback_counts r') k = 1))) \<and>
    (\<forall>t q eid ti st gap ko t'. engine_ok t \<and> runs t i = Some q \<and> r_state q = Running \<and>
         send_back_to_stage env i eid ti st gap ko t = Inr t' \<longrightarrow>
       (\<exists>q'. runs t' i = Some q' \<and>
         (if count_of (r_sendback_counts q) (sk_name st) = 0 then count_of (r_sendback_counts q') (sk_name st) = 1
          else r_state q' = Paused \<and> r_sendback_counts q' = r_sendback_counts q \<and>
               r_current_stage_index q' = r_current_stage_index q \<and> dom (stage_execs t') = dom (stage_execs t) \<and>
               (\<exists>j p. pauses t j = None \<and> pauses t' j = Some p \<and> p_run_id p = i \<and> p_stage_execution_id p = eid \<and>
                  open_pause p \<and> p_tripped p = [(''sendback_loop'', TrippedStage (sk_name st))])))) \<and>
    (\<forall>t q eid e label outs t'. engine_ok t \<and> runs t i = Some q \<and> stage_execs t eid = Some e \<and> se_phase e = Some PMain \<and>
         label \<noteq> ''success'' \<and> is_auth_expired (or_else (get_str outs ''error_message'') label) \<and>
         handle_skill_stage_event env i eid label outs t = Inr t' \<longrightarrow>
       (if count_of (r_sendback_counts q) (auth_retry_key (se_stage_name e)) = 0
        then \<exists>q'. runs t' i = Some q' \<and> count_of (r_sendback_counts q') (auth_retry_key (se_stage_name e)) = 1
        else t' = fail_stage i eid (se_stage_index e) (or_else (get_str outs ''error_message'') label) t))"
proof (intro conjI allI impI, goal_cases)
  case 1
  have ok: "sys_ok s" by (rule reachable_ok[OF assms(1,2)])
  obtain r' where r': "runs s' i = Some r'" "counts_kept r r'" and ok': "sys_ok s'"
    using sys_steps_run_moves[OF assms(4) ok assms(2)] assms(3) unfolding run_moves_def by blast
  have "count_of (r_sendback_counts r') k \<le> 1" for k
    using ok' r'(1) unfolding sys_ok_def engine_ok_def counts_ok_def by blast
  then show ?case using r' by (auto simp: counts_kept_def le_antisym)
next
  case (2 t q eid ti st gap ko t')
  then show ?case using send_back_outcome[of t i q env eid ti st gap ko t'] assms(2) by blast
next
  case (3 t q eid e label outs t')
  then show ?case using auth_retry_outcome[of t i q eid e label outs env t'] assms(2) by blast
qed

theorem send_back_at_most_once_witness:
  "\<exists>r'. runs sample3 8 = Some r' \<and> count_of (r_sendback_counts r') ''plan'' \<le> 1"
proof -
  obtain r where r: "runs sample2 8 = Some r" using sample2_run by (cases "runs sample2 8") auto
  have "(sys_step sample_env)\<^sup>*\<^sup>* sample2 sample3"
    unfolding sample3_def after_def by (auto split: sum.split intro: s_start_run)
  from conjunct1[OF send_back_at_most_once[OF _ sample_actions r this]] sample_reachable show ?thesis by blast
qed

text \<open>C4. Along every history a run keeps its id, ticket, organisation and pinned definition, and
  its state only moves along queued to running, running to paused and back, and queued or running to
  a terminal state; a terminal state is never left.\<close>

theorem run_state_machine:
  assumes "reachable env s" and "actions_frame env" and "(sys_step env)\<^sup>*\<^sup>* s s'" and "runs s i = Some r"
  shows "\<exists>r'. runs s' i = Some r' \<and> same_run r r' \<and> run_edge\<^sup>*\<^sup>* (r_state r) (r_state r') \<and>
           (run_terminal (r_state r) \<longrightarrow> r_state r' = r_state r)"
  using sys_steps_run_moves[OF assms(3) reachable_ok[OF assms(1,2)] assms(2)] assms(4) run_edge_terminal
  unfolding run_moves_def by metis

theorem run_state_machine_witness:
  "\<exists>r r'. runs sample2 8 = Some r \<and> runs sample3 8 = Some r' \<and> same_run r r' \<and>
     run_edge\<^sup>*\<^sup>* (r_state r) (r_state r')"
proof -
  obtain r where r: "runs sample2 8 = Some r" using sample2_run by (cases "runs sample2 8") auto
  have "(sys_step sample_env)\<^sup>*\<^sup>* sample2 sample3"
    unfolding sample3_def after_def by (auto split: sum.split intro: s_start_run)
  then show ?thesis using run_state_machine[of sample_env sample2 sample3 8 r] r by auto
qed

text \<open>C3. Refinement: whatever the agent-event task of the engine does in one transaction (review
  loop, send-back, pause, credential recovery, cleanup, promotion of the next run), on a well-formed
  database it is a sequence of steps of the abstract run machine.\<close>

theorem engine_task_refines:
  assumes "handle_agent_event env run_id c label outs s = Inr s'" and "actions_frame env" and "engine_ok s"
  shows "esteps s s'"
  using handle_agent_event_evolves[OF assms(1,2)] assms(3) by (simp add: evolves_def)

theorem engine_task_refines_witness:
  "\<exists>s'. handle_agent_event sample_env (Some 8) 13 ''failure'' [] waiting_db = Inr s' \<and>
     outbox s' \<noteq> outbox waiting_db \<and> esteps waiting_db s'"
proof -
  let ?s' = "after_res waiting_db (handle_agent_event sample_env (Some 8) 13 ''failure'' [] waiting_db)"
  have h: "handle_agent_event sample_env (Some 8) 13 ''failure'' [] waiting_db = Inr ?s'"
    by (rule returns_after_res[OF failure_returns])
  have "engine_ok waiting_db" using waiting_ok by (simp add: sys_ok_def)
  from engine_task_refines[OF h sample_actions this] h failure_effect show ?thesis by blast
qed

section \<open>Definitions and runs\<close>



section \<open>Agent events and the queue\<close>

text \<open>C5. Handling is at most once: after an agent event was handled, the same command's events are
  ignored for good, whatever they carry and whatever happened in between. Command ids are drawn from a
  counter and a run is only ever parked on an id drawn in the same transaction, so a redelivered or
  contradicting report cannot advance a run twice.\<close>

theorem agent_event_at_most_once:
  assumes "handle_agent_event env run_id c label outs s = Inr s'" and "s' \<noteq> s" and "actions_frame env"
    and "c < next_id s" and "(sys_step env)\<^sup>*\<^sup>* s' s''"
  shows "handle_agent_event env run_id c label' outs' s'' = Inr s''"
proof (cases run_id)
  case None
  then show ?thesis by (simp add: handle_agent_event_def)
next
  case (Some rid)
  note h = assms(1)[unfolded Some]
  have "c < next_id s'"
    using parks.handle_agent_event_rel[OF h assms(3)] assms(4) by (simp add: parks_afresh_def)
  then have "r_pending_agent_command_id q \<noteq> Some c" if "runs s'' rid = Some q" for q
    using steps_never_park_again[OF assms(5,3) _ handle_agent_event_moves_on[OF h assms(3,4,2)] that] by blast
  then show ?thesis by (auto simp: Some handle_agent_event_def split: option.splits)
qed

theorem agent_event_at_most_once_witness:
  "\<exists>s'. handle_agent_event sample_env (Some 8) 13 ''failure'' [] waiting_db = Inr s' \<and>
     handle_agent_event sample_env (Some 8) 13 ''success'' [] s' = Inr s'"
proof -
  let ?s' = "after_res waiting_db (handle_agent_event sample_env (Some 8) 13 ''failure'' [] waiting_db)"
  have h: "handle_agent_event sample_env (Some 8) 13 ''failure'' [] waiting_db = Inr ?s'"
    by (rule returns_after_res[OF failure_returns])
  have "outbox ?s' \<noteq> outbox waiting_db" by (rule failure_effect)
  then have "?s' \<noteq> waiting_db" by metis
  from agent_event_at_most_once[OF h this sample_actions _ rtranclp.rtrancl_refl, of "''success''" "[]"] h
  show ?thesis by (auto simp: waiting_db_def)
qed

text \<open>C6. No run starves: in every reachable database a run waits in the queue only while another run of
  the same ticket is running or paused, so every operation that frees the slot has promoted the next
  run in the same transaction.\<close>

theorem queued_runs_served:
  assumes "reachable env s" and "actions_frame env" and "runs s i = Some r" and "r_state r = Queued"
  shows "\<exists>j q. runs s j = Some q \<and> in_flight q \<and> r_ticket_id q = r_ticket_id r"
proof -
  obtain s0 where s0: "sys_init s0" "(sys_step env)\<^sup>*\<^sup>* s0 s" using assms(1) by (auto simp: reachable_def)
  then have "served s" using assms(2)
    by (intro steps_serve[of env s0 s]) (auto simp: sys_init_def runs_keyed_def keyed_rows_def served_def)
  with assms(3,4) show ?thesis unfolding served_def by blast
qed

theorem queued_runs_served_witness:
  "\<exists>r j q. runs sample3 9 = Some r \<and> r_state r = Queued \<and> runs sample3 j = Some q \<and> in_flight q \<and>
     r_ticket_id q = r_ticket_id r"
proof -
  obtain r where "runs sample3 9 = Some r" "r_state r = Queued"
    using sample3_states(2) by (cases "runs sample3 9") auto
  then show ?thesis using queued_runs_served[of sample_env sample3 9 r] by auto
qed

section \<open>Pauses\<close>

text \<open>C8. A pause is answered once: after a resolution succeeded, the pause row keeps the recorded answer
  and its author through every later history, and every further attempt to resolve it is refused.\<close>

theorem pause_resolved_once:
  assumes "sys_ok s" and "actions_frame env" and "resolve_pause env org pid body act s = Inr s1"
    and "(sys_step env)\<^sup>*\<^sup>* s1 s2"
  shows "(\<exists>p. pauses s2 pid = Some p \<and> p_resolution p = Some (pb_action body) \<and>
            p_resolved_by p = actor_user_id act) \<and>
         (\<exists>e. resolve_pause env' org' pid body' act' s2 = Inl e)"
proof -
  obtain p where p: "pauses s1 pid = Some p" "p_resolution p = Some (pb_action body)"
      "p_resolved_by p = actor_user_id act" "\<not> open_pause p"
    using resolve_pause_resolved[OF assms(3,2)] assms(1) by (auto simp: sys_ok_def)
  have "sys_ok s1" by (rule sys_step_ok[OF s_resolve[OF assms(3)] assms(1,2)])
  then have "pauses s2 pid = Some p" using sys_steps_resolved_pause[OF assms(4) _ assms(2) p(1,4)] by blast
  with p resolve_pause_refused[OF this p(4)] show ?thesis by blast
qed

theorem pause_resolved_once_witness:
  "\<exists>s1 e. resolve_pause sample_env 1 14 approval (UserActor 4 None) paused_db = Inr s1 \<and>
     resolve_pause sample_env 1 14 approval (UserActor 4 None) s1 = Inl e"
proof -
  let ?s1 = "after_res paused_db (resolve_pause sample_env 1 14 approval (UserActor 4 None) paused_db)"
  have r: "resolve_pause sample_env 1 14 approval (UserActor 4 None) paused_db = Inr ?s1"
    by (rule returns_after_res[OF approval_returns])
  from pause_resolved_once[OF paused_ok sample_actions r rtranclp.rtrancl_refl,
      of sample_env 1 approval "UserActor 4 None"] r show ?thesis by blast
qed

text \<open>Only the people a pause was escalated to, and the organisation's owners and admins, can answer
  it, and only from within its organisation: any other call is an error, so the database is untouched.\<close>

theorem pause_authorization:
  assumes "resolve_pause env org pid body act s = Inr s'"
  shows "\<exists>pause u. pauses s pid = Some pause \<and> p_org_id pause = org \<and> actor_user_id act = Some u \<and>
    (u \<in> set (p_escalation_user_ids pause) \<or> (\<exists>r. get_member_role u org s = Some r \<and> covers r ADMIN))"
  using assms
  by (auto simp: resolve_pause_def is_pause_responder_def res_simps split: option.splits if_splits)

theorem pause_authorization_witness:
  "\<exists>pause u. pauses paused_db 14 = Some pause \<and> actor_user_id (UserActor 4 None) = Some u \<and>
    (u \<in> set (p_escalation_user_ids pause) \<or> (\<exists>r. get_member_role u 1 paused_db = Some r \<and> covers r ADMIN))"
  using pause_authorization[OF returns_after_res[OF approval_returns]] by blast

section \<open>Send-backs and re-runs\<close>

lemma find_skill_stage_ge: "find_skill_stage t k xs = Some (i, st) \<Longrightarrow> k \<le> i"
  by (induction t k xs rule: find_skill_stage.induct) (auto split: if_splits)

lemma find_skill_stage_iff:
  "find_skill_stage t k xs = Some (k + i, st) \<longleftrightarrow>
     i < length xs \<and> xs ! i = SkillStage st \<and> sk_name st = t \<and>
     (\<forall>j < i. \<forall>st'. xs ! j = SkillStage st' \<longrightarrow> sk_name st' \<noteq> t)"
proof (induction xs arbitrary: k i)
  case (Cons x xs)
  note IH = Cons.IH[of "Suc k"]
  show ?case
  proof (cases i)
    case 0
    have "find_skill_stage t (Suc k) xs \<noteq> Some (k, st)" using find_skill_stage_ge[of t "Suc k" xs k st] by auto
    with 0 show ?thesis by (cases x) auto
  next
    case (Suc n)
    with IH[of n] show ?thesis by (cases x) (auto simp: All_less_Suc2)
  qed
qed simp

text \<open>A send-back goes upstream: the target is the first skill stage of that name strictly before the
  stage that sends back, and one the sending stage was allowed to see; nothing is found exactly when
  there is none.\<close>

theorem send_back_target_exact:
  "resolve_send_back_target xs context_stages n t = Some (i, st) \<longleftrightarrow>
     i < n \<and> i < length xs \<and> xs ! i = SkillStage st \<and> sk_name st = t \<and>
     (\<forall>j < i. \<forall>st'. xs ! j = SkillStage st' \<longrightarrow> sk_name st' \<noteq> t) \<and>
     (\<forall>cs. context_stages = Some cs \<longrightarrow> t \<in> set cs)"
proof -
  have "find_skill_stage t 0 (take n xs) = Some (i, st) \<longleftrightarrow>
     i < n \<and> i < length xs \<and> xs ! i = SkillStage st \<and> sk_name st = t \<and>
     (\<forall>j < i. \<forall>st'. xs ! j = SkillStage st' \<longrightarrow> sk_name st' \<noteq> t)"
    using find_skill_stage_iff[of t 0 "take n xs" i st] by auto
  then show ?thesis
    unfolding resolve_send_back_target_def by (auto split: option.splits if_splits)
qed

theorem send_back_target_exact_witness:
  "resolve_send_back_target [SkillStage (sample_stage ''a'' None AlwaysHitl), SkillStage (sample_stage ''b'' None AlwaysHitl)]
     None 1 ''a'' = Some (0, sample_stage ''a'' None AlwaysHitl)"
  unfolding send_back_target_exact by (simp add: sample_stage_def)

lemma insert_and_promote_rows:
  assumes "insert_run org tk p n sn i ko usr s = Inr (rid, s1)"
  shows "rid = next_id s"
    "\<exists>r. runs (snd (attempt_promotion rid s1)) rid = Some r \<and> r_org_id r = org \<and> r_ticket_id r = tk \<and>
       r_definition_snapshot r = sn \<and> r_current_stage_index r = i \<and> r_kickoff r = ko"
    "j \<noteq> rid \<Longrightarrow> runs (snd (attempt_promotion rid s1)) j = runs s j"
proof -
  let ?r = "new_run (next_id s) org tk p n sn i ko usr (now s)" and ?f = "\<lambda>r::run_row. r\<lparr>r_state := Running\<rparr>"
  show rid: "rid = next_id s" using assms by (simp add: insert_run_def fresh_def split: if_splits)
  have s1: "runs s1 = (runs s)(rid \<mapsto> ?r)" using assms by (auto simp: insert_run_def fresh_def split: if_splits)
  from attempt_promotion_shape[of rid s1]
  have p: "runs (snd (attempt_promotion rid s1)) = runs s1 \<or>
      runs (snd (attempt_promotion rid s1)) = runs (upd_run rid ?f s1)"
    using belowD(1) by metis
  then show "\<exists>r. runs (snd (attempt_promotion rid s1)) rid = Some r \<and> r_org_id r = org \<and> r_ticket_id r = tk \<and>
       r_definition_snapshot r = sn \<and> r_current_stage_index r = i \<and> r_kickoff r = ko"
    by (elim disjE) (simp_all add: s1 new_run_def)
  assume "j \<noteq> rid"
  with p s1 show "runs (snd (attempt_promotion rid s1)) j = runs s j" by auto
qed

text \<open>A re-run is only granted to the current run of its ticket, after it failed or was cancelled or
  killed. It is a fresh run of the definition as it is stored now, with the old kickoff minus its
  revision, and the old run's row is untouched.\<close>

theorem rerun_granted:
  assumes "start_rerun org run_id act user s = Inr (rid, s')" and "engine_ok s"
  shows "\<exists>run tk pid d. runs s run_id = Some run \<and> r_org_id run = org \<and> get_ticket (r_ticket_id run) org s = Inr tk \<and>
    tk_current_run_id tk = Some run_id \<and> r_state run \<in> {RFailed, RCancelled, RKilled} \<and>
    r_pipeline_id run = Some pid \<and> map_of (load_org_definitions org s) pid = Some d \<and>
    (\<exists>r. runs s rid = None \<and> runs s' rid = Some r \<and> r_ticket_id r = r_ticket_id run \<and>
       flatten d (load_org_definitions org s) = Inr (r_definition_snapshot r)) \<and> runs s' run_id = Some run"
proof -
  from assms(1) obtain run tk pid where run: "run_in_org run_id org s = Some run"
    "get_ticket (r_ticket_id run) org s = Inr tk" "tk_current_run_id tk = Some run_id"
    "r_state run \<in> set RERUNNABLE_RUN_STATES" "r_pipeline_id run = Some pid"
    and start: "start_run org (r_ticket_id run) pid
       ((r_kickoff run)\<lparr>ko_actor := act, ko_intake_point_id := ''rerun'', ko_revision := None\<rparr>) user s = Inr (rid, s')"
    by (auto simp: start_rerun_def res_simps)
  from start obtain d xs s1 where d: "map_of (load_org_definitions org s) pid = Some d"
    "flatten d (load_org_definitions org s) = Inr xs"
    and ins: "insert_run org (r_ticket_id run) (Some pid) (pd_name d) xs None
       ((r_kickoff run)\<lparr>ko_actor := act, ko_intake_point_id := ''rerun'', ko_revision := None\<rparr>) user s = Inr (rid, s1)"
    and s': "s' = snd (attempt_promotion rid s1)"
    unfolding start_run_def Let_def by (auto simp: res_simps)
  have r0: "runs s run_id = Some run" "r_org_id run = org"
    using run(1) by (auto simp: run_in_org_def split: option.splits if_splits)
  note rows = insert_and_promote_rows[OF ins, folded s']
  have new: "runs s rid = None" "run_id \<noteq> rid"
    using assms(2) rows(1) r0(1) by (cases "runs s rid"; auto simp: engine_ok_def keys_ok_def keyed_rows_def)+
  have "\<exists>r. runs s' rid = Some r \<and> r_ticket_id r = r_ticket_id run \<and> r_definition_snapshot r = xs"
    using rows(2) by blast
  moreover have "runs s' run_id = Some run" using rows(3)[OF new(2)] r0(1) by simp
  ultimately show ?thesis using run(2-5) r0 d new(1) unfolding RERUNNABLE_RUN_STATES_def by auto
qed

lemma upstream_resolvable_Inr:
  "upstream_resolvable org tk s nearest ps = Inr () \<Longrightarrow>
     nearest = None \<and> (\<forall>st. SkillStage st \<notin> set ps) \<or>
     (\<exists>st. SkillStage st \<in> set ps \<and> latest_final org tk (sk_name st) s \<noteq> None)"
  by (induction org tk s nearest ps rule: upstream_resolvable.induct)
    (auto simp: Let_def split: option.splits if_splits)

lemma index_of_stage_Some:
  "index_of_stage n xs = Some i \<Longrightarrow> i < length xs \<and> stage_name_of (xs ! i) = Some n"
  by (auto simp: index_of_stage_def find_Some_iff)

text \<open>A ticket whose only run failed, and the pipeline it ran.\<close>

definition failed_db :: pipelines_db where
  "failed_db = waiting_db\<lparr>runs := [8 \<mapsto> waiting_run\<lparr>r_state := RFailed, r_pipeline_id := Some 6\<rparr>],
     stage_execs := Map.empty, tickets := [2 \<mapsto> sample_ticket\<lparr>tk_current_run_id := Some 8\<rparr>],
     pipelines := [(6, \<lparr>pi_org_id = 1, pi_definition = sample_definition, pi_updated_by = None\<rparr>)]\<rparr>"

lemma failed_ok: "engine_ok failed_db"
proof -
  let ?r = "waiting_run\<lparr>r_state := RFailed, r_pipeline_id := Some 6\<rparr>"
  have "r_id ?r = 8" "r_state ?r = RFailed" "r_sendback_counts ?r = []"
    by (simp_all add: waiting_run_def new_run_def)
  moreover have "snapshot_ok (r_definition_snapshot ?r)" using waiting_rows_ok by simp
  ultimately show ?thesis
    unfolding engine_ok_def engine_ok_defs failed_db_def waiting_db_def
    by (auto simp: sample_init_def keyed_rows_def count_of_def in_flight_def split: if_splits)
qed

lemma failed_returns: "returns (start_rerun 1 8 (UserActor 4 None) (Some 4) failed_db)"
  "returns (start_rerun_from_stage 1 2 ''plan'' ''i'' (UserActor 4 None) (Some 4) failed_db)"
  by code_simp+

lemma returns_Inr: "returns m \<Longrightarrow> \<exists>x. m = Inr x"
  by (auto simp: returns_def split: sum.splits)

theorem rerun_granted_witness:
  "\<exists>rid s' r. start_rerun 1 8 (UserActor 4 None) (Some 4) failed_db = Inr (rid, s') \<and> runs s' rid = Some r \<and>
     r_ticket_id r = 2"
proof -
  obtain rid s' where h: "start_rerun 1 8 (UserActor 4 None) (Some 4) failed_db = Inr (rid, s')"
    using returns_Inr[OF failed_returns(1)] by auto
  from rerun_granted[OF h failed_ok] h show ?thesis
    by (auto simp: failed_db_def waiting_db_def waiting_run_def new_run_def)
qed

text \<open>A re-run from a stage starts only where its inputs exist: either no skill stage precedes the
  chosen stage, or one that does has a final artifact on the ticket to inherit. The new run is pinned
  to start at the chosen stage and carries the instruction as its revision.\<close>

theorem rerun_from_stage_inherits:
  assumes "start_rerun_from_stage org tk from_stage ins act user s = Inr (rid, s')"
  shows "\<exists>r i. runs s' rid = Some r \<and> r_current_stage_index r = Some i \<and> i < length (r_definition_snapshot r) \<and>
    stage_name_of (r_definition_snapshot r ! i) = Some from_stage \<and>
    (\<exists>rv. ko_revision (r_kickoff r) = Some rv \<and> rx_text rv = ins) \<and>
    ((\<forall>j < i. \<forall>st. r_definition_snapshot r ! j \<noteq> SkillStage st) \<or>
     (\<exists>j < i. \<exists>st. r_definition_snapshot r ! j = SkillStage st \<and> latest_final org tk (sk_name st) s \<noteq> None))"
proof -
  let ?ko = "\<lparr>ko_intake_point_id = ''rerun'', ko_actor = act, ko_input_text = None,
      ko_pr_base_sha = None, ko_pr_head_sha = None, ko_notify_user_ids = [],
      ko_revision = Some \<lparr>rx_source = SrcInstruction, rx_text = ins,
        rx_prior_artifact = (case latest_final org tk from_stage s of Some a \<Rightarrow> ar_body a | None \<Rightarrow> [])\<rparr>\<rparr>"
  from assms obtain d :: pipeline_definition and xs i and prior :: run_row and w where i: "index_of_stage from_stage xs = Some i"
    and up: "nearest_upstream_skill_stage_resolvable xs org tk i s = Inr w"
    and h: "\<exists>x. insert_run org tk (r_pipeline_id prior) (pd_name d) xs (Some i) ?ko user s = Inr x \<and>
       (case x of (rid, s1) \<Rightarrow> (Inr (rid, snd (attempt_promotion rid s1)) :: (uuid \<times> pipelines_db) res)) = Inr (rid, s')"
    unfolding start_rerun_from_stage_def Let_def ebind_eq_Inr require_eq by blast
  then obtain s1 where ins: "insert_run org tk (r_pipeline_id prior) (pd_name d) xs (Some i) ?ko user s = Inr (rid, s1)"
    and s': "s' = snd (attempt_promotion rid s1)"
    by (auto split: prod.splits)
  obtain r where r: "runs s' rid = Some r" "r_definition_snapshot r = xs"
      "r_current_stage_index r = Some i" "r_kickoff r = ?ko"
    using insert_and_promote_rows(2)[OF ins] s' by blast
  have "(\<forall>st. SkillStage st \<notin> set (take i xs)) \<or>
     (\<exists>st. SkillStage st \<in> set (take i xs) \<and> latest_final org tk (sk_name st) s \<noteq> None)"
    using upstream_resolvable_Inr[of org tk s None "rev (take i xs)"] up
    by (simp add: nearest_upstream_skill_stage_resolvable_def)
  then have "(\<forall>j < i. \<forall>st. xs ! j \<noteq> SkillStage st) \<or>
     (\<exists>j < i. \<exists>st. xs ! j = SkillStage st \<and> latest_final org tk (sk_name st) s \<noteq> None)"
    using index_of_stage_Some[OF i] unfolding in_set_conv_nth by (auto 0 3)
  with r index_of_stage_Some[OF i] show ?thesis by auto
qed

theorem rerun_from_stage_inherits_witness:
  "\<exists>rid s' r. start_rerun_from_stage 1 2 ''plan'' ''i'' (UserActor 4 None) (Some 4) failed_db = Inr (rid, s') \<and>
     runs s' rid = Some r \<and> (\<exists>i. r_current_stage_index r = Some i \<and>
     stage_name_of (r_definition_snapshot r ! i) = Some ''plan'')"
proof -
  obtain rid s' where h: "start_rerun_from_stage 1 2 ''plan'' ''i'' (UserActor 4 None) (Some 4) failed_db = Inr (rid, s')"
    using returns_Inr[OF failed_returns(2)] by auto
  from rerun_from_stage_inherits[OF h] h show ?thesis by blast
qed

section \<open>Deviations\<close>

text \<open>A run whose stages are all completed and whose workspace is being cleaned up.\<close>

definition cleaning_db :: pipelines_db where
  "cleaning_db = waiting_db\<lparr>runs := [8 \<mapsto> waiting_run\<lparr>r_phase := PhCleanup\<rparr>],
     stage_execs := [12 \<mapsto> waiting_stage\<lparr>se_status := SCompleted\<rparr>,
       13 \<mapsto> new_stage 13 1 8 None KSystem SYSTEM_STAGE_CLEANUP None None None 0 0]\<rparr>"

text \<open>The cleanup report completes the run; after a cancellation request that arrived during the cleanup
  the same report files the completed run as cancelled.\<close>

lemma cancel_during_cleanup_relabels:
  "map_option r_state (runs (after_res cleaning_db
     (handle_agent_event sample_env (Some 8) 13 ''success'' [] cleaning_db)) 8) = Some RCompleted"
  "map_option r_state (runs (after_res cleaning_db
     (ebind (request_cancel sample_env 1 8 (UserActor 4 None) cleaning_db)
        (handle_agent_event sample_env (Some 8) 13 ''success'' []))) 8) = Some RCancelled"
  by code_simp+

text \<open>A provisioning failure raises: the run already names its workspace, whose row only a successful
  report creates, so the cleanup cannot be dispatched and the task's transaction is rolled back.\<close>

lemma provision_failure_raises:
  "(case handle_agent_event sample_env (Some 8) 11 ''failure'' [] sample4 of Inl e \<Rightarrow> Some e | Inr _ \<Rightarrow> None) =
     Some (WorkspaceNotFoundError 10)"
  by code_simp

end
